(* ===== verification/Nester_Prelude.thy ===== *)
theory Nester_Prelude
  imports Main "HOL-Library.Word"
begin

text \<open>
  The shared ground of the development: Go's machine integers, instants and durations, the
  row operations the embedded SQL statements use, the outcomes of a database transaction,
  and reachability in a transition system. The component theories import this one and
  keep their proofs short by the rewrite rules collected here.
\<close>

named_theorems wrap_simps \<open>rules that remove a 64-bit wrap from an in-range value\<close>
named_theorems sql_simps \<open>rules about tables under UPDATE, DELETE, SELECT and LIMIT\<close>

section \<open>Machine integers\<close>

text \<open>
  Go's \<open>int64\<close> (and \<open>int\<close> on the 64-bit targets the service is built for) is a value of
  type \<^typ>\<open>int\<close> inside the two's-complement range; an arithmetic result outside it wraps.
\<close>

definition min64 :: int where "min64 = - (2 ^ 63)"
definition max64 :: int where "max64 = 2 ^ 63 - 1"

definition in64 :: "int \<Rightarrow> bool" where
  "in64 x \<longleftrightarrow> min64 \<le> x \<and> x \<le> max64"

definition wrap64 :: "int \<Rightarrow> int" where
  "wrap64 x = (x + 2 ^ 63) mod 2 ^ 64 - 2 ^ 63"

lemmas int64_defs = min64_def max64_def in64_def wrap64_def

lemma wrap64_id [wrap_simps]: "in64 x \<Longrightarrow> wrap64 x = x"
  by (simp add: int64_defs)

lemma in64_wrap64 [simp]: "in64 (wrap64 x)"
proof -
  have "0 \<le> (x + 2 ^ 63) mod 2 ^ 64" "(x + 2 ^ 63) mod 2 ^ 64 < 2 ^ 64" by simp_all
  then show ?thesis by (simp add: int64_defs)
qed

lemma wrap64_mod: "wrap64 x mod 2 ^ 64 = x mod 2 ^ 64"
  by (simp add: wrap64_def mod_diff_left_eq)

lemma wrap64_eq_iff: "wrap64 x = wrap64 y \<longleftrightarrow> x mod 2 ^ 64 = y mod 2 ^ 64"
proof
  assume "wrap64 x = wrap64 y"
  then show "x mod 2 ^ 64 = y mod 2 ^ 64" by (metis wrap64_mod)
next
  assume "x mod 2 ^ 64 = y mod 2 ^ 64"
  then have "(x + 2 ^ 63) mod 2 ^ 64 = (y + 2 ^ 63) mod 2 ^ 64" by (metis mod_add_left_eq)
  then show "wrap64 x = wrap64 y" by (simp add: wrap64_def)
qed

lemma wrap64_eq_0_iff: "wrap64 x = 0 \<longleftrightarrow> x mod 2 ^ 64 = 0"
  using wrap64_eq_iff [of x 0] by (simp add: wrap64_def)

lemma wrap64_wrap64_add [simp]: "wrap64 (wrap64 x + y) = wrap64 (x + y)"
  unfolding wrap64_eq_iff by (metis mod_add_left_eq wrap64_mod)

lemma wrap64_add_wrap64 [simp]: "wrap64 (x + wrap64 y) = wrap64 (x + y)"
  unfolding wrap64_eq_iff by (metis mod_add_right_eq wrap64_mod)

lemma in64_0 [simp]: "in64 0"
  by (simp add: int64_defs)

text \<open>\<open>int(x)\<close> of a truncating quotient: Go's \<open>/\<close> on non-negative operands is \<open>div\<close>.\<close>

definition go_div :: "int \<Rightarrow> int \<Rightarrow> int" where
  "go_div a b = sgn a * sgn b * (\<bar>a\<bar> div \<bar>b\<bar>)"

lemma go_div_nonneg: "0 \<le> a \<Longrightarrow> 0 \<le> b \<Longrightarrow> go_div a b = a div b"
  by (cases "a = 0"; cases "b = 0") (auto simp: go_div_def)

section \<open>Instants and durations\<close>

text \<open>
  A \<open>time.Time\<close> is the number of nanoseconds since Go's zero time (1 January of year 1), so
  that \<open>IsZero\<close> is equality with 0; a \<open>time.Duration\<close> is an \<open>int64\<close> number of nanoseconds.
  \<open>Sub\<close> saturates at the ends of the duration range, as documented; \<open>Add\<close> does not wrap
  for any instant the program handles.
\<close>

type_synonym time = int
type_synonym duration = int

definition time_sub :: "time \<Rightarrow> time \<Rightarrow> duration" where
  "time_sub t u = max min64 (min max64 (t - u))"

definition time_is_zero :: "time \<Rightarrow> bool" where
  "time_is_zero t \<longleftrightarrow> t = 0"

lemma in64_time_sub [simp]: "in64 (time_sub t u)"
  by (simp add: time_sub_def int64_defs)

lemma time_sub_exact: "in64 (t - u) \<Longrightarrow> time_sub t u = t - u"
  by (simp add: time_sub_def in64_def)

lemma time_sub_le_iff: "d < max64 \<Longrightarrow> min64 \<le> d \<Longrightarrow> time_sub t u \<le> d \<longleftrightarrow> t - u \<le> d"
  by (auto simp: time_sub_def int64_defs)

lemma time_sub_less_iff: "d \<le> max64 \<Longrightarrow> min64 < d \<Longrightarrow> time_sub t u < d \<longleftrightarrow> t - u < d"
  by (auto simp: time_sub_def int64_defs)

definition nanosecond :: duration where "nanosecond = 1"
definition millisecond :: duration where "millisecond = 1000000"
definition second :: duration where "second = 1000000000"
definition minute :: duration where "minute = 60 * second"
definition hour :: duration where "hour = 60 * minute"

lemmas duration_defs = nanosecond_def millisecond_def second_def minute_def hour_def

section \<open>Identifiers\<close>

text \<open>A \<open>uuid.UUID\<close> is sixteen bytes; \<open>uuid.Nil\<close> is the all-zero value.\<close>

type_synonym uuid = "128 word"

definition uuid_Nil :: uuid where "uuid_Nil = 0"

section \<open>Tables\<close>

text \<open>
  A database table is the list of its rows in scan order. An \<open>UPDATE ... WHERE\<close> rewrites the
  rows that satisfy the condition and leaves the others where they are; \<open>RowsAffected\<close>
  counts them. \<open>LIMIT n\<close> is \<^const>\<open>take\<close>.
\<close>

definition update_where :: "('r \<Rightarrow> bool) \<Rightarrow> ('r \<Rightarrow> 'r) \<Rightarrow> 'r list \<Rightarrow> 'r list" where
  "update_where P f t = map (\<lambda>r. if P r then f r else r) t"

definition rows_affected :: "('r \<Rightarrow> bool) \<Rightarrow> 'r list \<Rightarrow> nat" where
  "rows_affected P t = length (filter P t)"

lemma update_where_Nil [simp, sql_simps]: "update_where P f [] = []"
  by (simp add: update_where_def)

lemma update_where_Cons [sql_simps]:
  "update_where P f (r # t) = (if P r then f r else r) # update_where P f t"
  by (simp add: update_where_def)

lemma length_update_where [simp]: "length (update_where P f t) = length t"
  by (simp add: update_where_def)

lemma set_update_where: "set (update_where P f t) = (\<lambda>r. if P r then f r else r) ` set t"
  by (simp add: update_where_def)

lemma update_where_none: "(\<And>r. r \<in> set t \<Longrightarrow> \<not> P r) \<Longrightarrow> update_where P f t = t"
  by (simp add: update_where_def map_idI)

lemma map_update_where:
  "(\<And>r. P r \<Longrightarrow> k (f r) = k r) \<Longrightarrow> map k (update_where P f t) = map k t"
  by (simp add: update_where_def)

lemma rows_affected_0_iff: "rows_affected P t = 0 \<longleftrightarrow> (\<forall>r \<in> set t. \<not> P r)"
  by (simp add: rows_affected_def filter_empty_conv)

lemma in_update_whereE:
  assumes "x \<in> set (update_where P f t)"
  obtains r where "r \<in> set t" "\<not> P r" "x = r" | r where "r \<in> set t" "P r" "x = f r"
  using assms by (auto simp: set_update_where split: if_splits)

lemma ball_update_where:
  "(\<forall>x \<in> set (update_where P f t). Q x) \<longleftrightarrow> (\<forall>r \<in> set t. if P r then Q (f r) else Q r)"
  by (auto simp: set_update_where)

text \<open>At most one row carries a key that is distinct over the table.\<close>

lemma distinct_map_unique:
  "distinct (map k t) \<Longrightarrow> r \<in> set t \<Longrightarrow> s \<in> set t \<Longrightarrow> k r = k s \<Longrightarrow> r = s"
  by (auto simp: distinct_map dest: inj_onD)

lemma find_key:
  assumes "distinct (map k t)" and "r \<in> set t"
  shows "find (\<lambda>s. k s = k r) t = Some r"
proof -
  have "\<exists>s. find (\<lambda>s. k s = k r) t = Some s"
    using assms(2) by (auto simp: find_None_iff not_None_eq [symmetric] simp del: not_None_eq)
  then obtain s where s: "find (\<lambda>s. k s = k r) t = Some s" ..
  then have "s \<in> set t" "k s = k r" by (auto simp: find_Some_iff)
  with assms have "s = r" by (blast intro: distinct_map_unique)
  with s show ?thesis by simp
qed

lemma find_append_row:
  "find P (t @ u) = (case find P t of None \<Rightarrow> find P u | Some r \<Rightarrow> Some r)"
  by (induction t) auto

lemma find_SomeD: "find P t = Some r \<Longrightarrow> r \<in> set t \<and> P r"
  by (auto simp: find_Some_iff)

lemma list_all2_rightE:
  assumes "list_all2 P xs ys" and "y \<in> set ys"
  obtains x where "x \<in> set xs" "P x y"
  using assms by (induction rule: list_all2_induct) auto

text \<open>
  \<open>ORDER BY f, g\<close> is a stable sort by \<open>g\<close> and then by \<open>f\<close>: the result is ordered
  lexicographically.
\<close>

lemma sorted_lex_of_filters:
  assumes "sorted_wrt (\<lambda>x y. (f x :: 'c::linorder) \<le> f y) ys"
    and "\<And>k. sorted_wrt (\<lambda>x y. g x \<le> (g y :: 'b::linorder)) (filter (\<lambda>x. f x = k) ys)"
  shows "sorted_wrt (\<lambda>x y. f x < f y \<or> f x = f y \<and> g x \<le> g y) ys"
  using assms
proof (induction ys)
  case (Cons y ys)
  have "f y < f x \<or> f y = f x \<and> g y \<le> g x" if "x \<in> set ys" for x
  proof (cases "f y = f x")
    case True
    then show ?thesis using Cons.prems(2) [of "f y"] that by auto
  next
    case False
    then show ?thesis using Cons.prems(1) that by (auto simp: order_less_le)
  qed
  moreover have "sorted_wrt (\<lambda>x y. g x \<le> g y) (filter (\<lambda>x. f x = k) ys)" for k
    using Cons.prems(2) [of k] by (auto split: if_splits)
  ultimately show ?case using Cons by auto
qed simp

lemma sort_key_lex:
  assumes "sorted_wrt (\<lambda>x y. g x \<le> (g y :: 'b::linorder)) xs"
  shows "sorted_wrt (\<lambda>x y. (f x :: 'c::linorder) < f y \<or> f x = f y \<and> g x \<le> g y) (sort_key f xs)"
proof (rule sorted_lex_of_filters)
  show "sorted_wrt (\<lambda>x y. f x \<le> f y) (sort_key f xs)" by (metis sorted_map sorted_sort_key)
  fix k show "sorted_wrt (\<lambda>x y. g x \<le> g y) (filter (\<lambda>x. f x = k) (sort_key f xs))"
    using assms by (simp add: sort_key_stable sorted_wrt_filter)
qed

lemma sorted_wrt_take_drop: "sorted_wrt R xs \<Longrightarrow> x \<in> set (take n xs) \<Longrightarrow> y \<in> set (drop n xs) \<Longrightarrow> R x y"
  by (metis append_take_drop_id sorted_wrt_append)

section \<open>Strings\<close>

text \<open>A Go string is its bytes. \<open>strings.Contains\<close> looks for a contiguous occurrence.\<close>

definition str_has_prefix :: "string \<Rightarrow> string \<Rightarrow> bool" where
  "str_has_prefix s p \<longleftrightarrow> take (length p) s = p"

definition str_contains :: "string \<Rightarrow> string \<Rightarrow> bool" where
  "str_contains s p \<longleftrightarrow> list_ex (\<lambda>i. str_has_prefix (drop i s) p) [0..<Suc (length s)]"

text \<open>
  \<open>strings.TrimSpace\<close> on ASCII text (the Unicode spaces beyond ASCII, which it also trims, are not
  modelled), and \<open>strconv.ParseInt(s, 10, 64)\<close>: an optional sign, at
  least one decimal digit and nothing else, in the range of \<open>int64\<close>.
\<close>

definition is_space :: "char \<Rightarrow> bool" where
  "is_space c \<longleftrightarrow> c = CHR 0x20 \<or> 9 \<le> (of_char c :: nat) \<and> (of_char c :: nat) \<le> 13"

definition trim_space :: "string \<Rightarrow> string" where
  "trim_space s = rev (dropWhile is_space (rev (dropWhile is_space s)))"

definition is_digit :: "char \<Rightarrow> bool" where
  "is_digit c \<longleftrightarrow> 48 \<le> (of_char c :: nat) \<and> (of_char c :: nat) \<le> 57"

definition digits_value :: "string \<Rightarrow> int" where
  "digits_value s = foldl (\<lambda>n c. 10 * n + (of_char c - 48)) 0 s"

definition parse_int64 :: "string \<Rightarrow> int option" where
  "parse_int64 s =
     (let (neg, ds) = (case s of CHR ''-'' # t \<Rightarrow> (True, t) | CHR ''+'' # t \<Rightarrow> (False, t) | _ \<Rightarrow> (False, s));
          v = (if neg then - digits_value ds else digits_value ds)
      in if ds \<noteq> [] \<and> list_all is_digit ds \<and> in64 v then Some v else None)"

text \<open>SQL equality of nullable columns: a comparison with NULL does not hold.\<close>

definition sql_eq :: "'a option \<Rightarrow> 'a option \<Rightarrow> bool" where
  "sql_eq x y \<longleftrightarrow> (case (x, y) of (Some a, Some b) \<Rightarrow> a = b | _ \<Rightarrow> False)"

lemma sql_eq_Some [simp]: "sql_eq (Some a) (Some b) \<longleftrightarrow> a = b"
  by (simp add: sql_eq_def)

lemma sql_eq_None [simp]: "\<not> sql_eq None y" "\<not> sql_eq x None"
  by (simp_all add: sql_eq_def split: option.splits)

lemma sql_eq_sym: "sql_eq x y \<longleftrightarrow> sql_eq y x"
  by (auto simp: sql_eq_def split: option.splits)

lemma sql_eq_iff: "sql_eq x y \<longleftrightarrow> x = y \<and> x \<noteq> None"
  by (cases x; cases y) auto

section \<open>Transactions\<close>

text \<open>
  What \<open>tx.Commit()\<close> can report: the commit is durable; it failed and nothing is durable; or
  it is durable but the acknowledgement was lost, so that the caller sees an error.
\<close>

datatype commit_outcome = Committed | NotCommitted | CommitUnacked

text \<open>
  A statement can fail for a reason outside the program (a lost connection, a cancelled
  context). Which statements do is a parameter, indexed by the statement's position in
  the operation.
\<close>

type_synonym sql_fault = "nat \<Rightarrow> bool"

definition no_fault :: sql_fault where "no_fault n \<longleftrightarrow> False"

lemma no_fault_False [simp]: "\<not> no_fault n"
  by (simp add: no_fault_def)

text \<open>
  A constraint violation the server reports, by SQLSTATE and constraint name (the
  \<open>Code\<close> and \<open>ConstraintName\<close> of \<open>pgconn.PgError\<close>).
\<close>

datatype pg_error = PgError (pg_code: string) (pg_constraint: string)

section \<open>Reachability\<close>

text \<open>
  The states a transition system reaches from its initial states, and the interface every
  invariant proof of the development goes through.
\<close>

inductive reach :: "('s \<Rightarrow> bool) \<Rightarrow> ('s \<Rightarrow> 's \<Rightarrow> bool) \<Rightarrow> 's \<Rightarrow> bool" for init step where
  reach_init: "init s \<Longrightarrow> reach init step s"
| reach_step: "reach init step s \<Longrightarrow> step s t \<Longrightarrow> reach init step t"

locale invariant_system =
  fixes init :: "'s \<Rightarrow> bool" and step :: "'s \<Rightarrow> 's \<Rightarrow> bool" and inv :: "'s \<Rightarrow> bool"
  assumes inv_init: "init s \<Longrightarrow> inv s"
    and inv_step: "inv s \<Longrightarrow> step s t \<Longrightarrow> inv t"
begin

lemma reachable_inv: "reach init step s \<Longrightarrow> inv s"
proof (induction rule: reach.induct)
  case (reach_init s)
  then show ?case by (rule inv_init)
next
  case (reach_step s t)
  from reach_step.IH reach_step.hyps(2) show ?case by (rule inv_step)
qed

end

lemma digits_value_snoc: "digits_value (s @ [c]) = 10 * digits_value s + (of_char c - 48)"
  by (simp add: digits_value_def)

end
