(* ===== verification/Ledger.thy ===== *)
theory Ledger
  imports Nester_Prelude
begin

text \<open>
  The double-entry ledger's domain model (\<open>internal/domain/ledger/model.go\<close>): account
  types, accounts, entries, balances, and the validation every posting passes before it
  reaches the database. Amounts are \<open>int64\<close> stroops, and the running sum of
  \<open>ValidateBalanced\<close> wraps as Go's does.
\<close>

section \<open>Account types and errors\<close>

definition AccountTypeUserVaultPosition :: string where
  "AccountTypeUserVaultPosition = ''user_vault_position''"
definition AccountTypeVaultAssetPool :: string where
  "AccountTypeVaultAssetPool = ''vault_asset_pool''"
definition AccountTypeFee :: string where
  "AccountTypeFee = ''fee_account''"
definition AccountTypePenaltyEscrow :: string where
  "AccountTypePenaltyEscrow = ''penalty_escrow''"
definition AccountTypeTreasury :: string where
  "AccountTypeTreasury = ''treasury''"
definition AccountTypeYieldSource :: string where
  "AccountTypeYieldSource = ''yield_source''"
definition AccountTypeSystemSuspense :: string where
  "AccountTypeSystemSuspense = ''system_suspense''"
definition AccountTypeExternal :: string where
  "AccountTypeExternal = ''external''"

lemmas account_type_defs =
  AccountTypeUserVaultPosition_def AccountTypeVaultAssetPool_def AccountTypeFee_def
  AccountTypePenaltyEscrow_def AccountTypeTreasury_def AccountTypeYieldSource_def
  AccountTypeSystemSuspense_def AccountTypeExternal_def

definition ValidAccountTypes :: "string list" where
  "ValidAccountTypes =
     [AccountTypeUserVaultPosition, AccountTypeVaultAssetPool, AccountTypeFee,
      AccountTypePenaltyEscrow, AccountTypeTreasury, AccountTypeYieldSource,
      AccountTypeSystemSuspense, AccountTypeExternal]"

text \<open>
  The package's sentinel errors, the two unnamed ones of \<open>ValidateBalanced\<close>, and what the
  repository adds: a missing key column, a missing transaction handle, a value the driver
  cannot scan, a server-side constraint violation and a fault outside the program.
\<close>

datatype ledger_error =
    ErrInvalidAccountType
  | ErrUnbalanced
  | ErrTooFewEntries
  | ErrEmptyTransactionID
  | ErrZeroAmount
  | ErrAlreadyPosted
  | ErrMixedTransactionID
  | ErrAccountIDRequired
  | ErrKeyRequired string
  | ErrTxRequired
  | ErrNotPositive string
  | ErrSameAdapter
  | ErrBooksUnbalanced int
  | SqlNoRows
  | SqlScan
  | SqlServer pg_error
  | SqlFault

section \<open>Records\<close>

record Account =
  acc_ID :: uuid
  acc_AccountType :: string
  acc_VaultID :: "uuid option"
  acc_UserID :: "uuid option"
  acc_AdapterName :: "string option"
  acc_AssetCode :: string
  acc_AssetUnit :: string
  acc_Description :: string
  acc_CreatedAt :: time
  acc_UpdatedAt :: time

record Entry =
  e_ID :: uuid
  e_TransactionID :: uuid
  e_AccountID :: uuid
  e_Amount :: int
  e_Direction :: string
  e_CreatedAt :: time
  e_DomainEventType :: string
  e_DomainEventID :: string
  e_AssetCode :: string
  e_AssetUnit :: string

record Balance =
  b_AccountID :: uuid
  b_Balance :: int
  b_AssetCode :: string
  b_AssetUnit :: string
  b_UpdatedAt :: time
  b_Version :: int

record ReconciliationRecord =
  rr_ID :: uuid
  rr_VaultID :: uuid
  rr_LedgerVaultPoolBalance :: int
  rr_OnChainBalance :: int
  rr_Difference :: int
  rr_Tolerance :: int
  rr_Status :: string
  rr_Details :: string
  rr_CreatedAt :: time

record BalanceMismatch =
  bm_AccountID :: uuid
  bm_Cached :: int
  bm_Computed :: int
  bm_Difference :: int

section \<open>Validation\<close>

definition ValidateAccountType :: "string \<Rightarrow> ledger_error option" where
  "ValidateAccountType t =
     (if t \<notin> set ValidAccountTypes then Some ErrInvalidAccountType else None)"

fun validate_entries :: "uuid \<Rightarrow> int \<Rightarrow> Entry list \<Rightarrow> ledger_error + int" where
  "validate_entries txID acc [] = Inr acc"
| "validate_entries txID acc (e # es) =
     (if e_TransactionID e \<noteq> txID then Inl ErrMixedTransactionID
      else if e_Amount e = 0 then Inl ErrZeroAmount
      else if e_AccountID e = uuid_Nil then Inl ErrAccountIDRequired
      else validate_entries txID (wrap64 (acc + e_Amount e)) es)"

definition ValidateBalanced :: "Entry list \<Rightarrow> ledger_error option" where
  "ValidateBalanced entries =
     (if length entries < 2 then Some ErrTooFewEntries
      else let txID = e_TransactionID (hd entries) in
        if txID = uuid_Nil then Some ErrEmptyTransactionID
        else (case validate_entries txID 0 entries of
            Inl err \<Rightarrow> Some err
          | Inr acc \<Rightarrow> if acc \<noteq> 0 then Some ErrUnbalanced else None))"

definition DirectionFromAmount :: "int \<Rightarrow> string" where
  "DirectionFromAmount amount = (if 0 \<le> amount then ''debit'' else ''credit'')"

definition StroopsPerUSDC :: int where
  "StroopsPerUSDC = 10000000"

section \<open>What validation guarantees\<close>

text \<open>The well-formedness of a posting, apart from the sum: what the loop checks entry by entry.\<close>

definition posting_shape :: "uuid \<Rightarrow> Entry list \<Rightarrow> bool" where
  "posting_shape txID es \<longleftrightarrow>
     (\<forall>e \<in> set es. e_TransactionID e = txID \<and> e_Amount e \<noteq> 0 \<and> e_AccountID e \<noteq> uuid_Nil)"

definition entries_total :: "Entry list \<Rightarrow> int" where
  "entries_total es = sum_list (map e_Amount es)"

lemma entries_total_simps [simp]:
  "entries_total [] = 0"
  "entries_total (e # es) = e_Amount e + entries_total es"
  "entries_total (es @ fs) = entries_total es + entries_total fs"
  by (simp_all add: entries_total_def)

lemma validate_entries_Inr:
  "validate_entries txID acc es = Inr s \<longleftrightarrow>
     posting_shape txID es \<and> s = (if es = [] then acc else wrap64 (acc + entries_total es))"
  by (induction es arbitrary: acc)
     (auto simp: posting_shape_def add.assoc)

lemma ValidateBalanced_None:
  "ValidateBalanced es = None \<longleftrightarrow>
     2 \<le> length es \<and> e_TransactionID (hd es) \<noteq> uuid_Nil \<and>
     posting_shape (e_TransactionID (hd es)) es \<and> entries_total es mod 2 ^ 64 = 0"
proof -
  let ?tx = "e_TransactionID (hd es)"
  have "(case validate_entries ?tx 0 es of Inl err \<Rightarrow> Some err
           | Inr acc \<Rightarrow> if acc \<noteq> 0 then Some ErrUnbalanced else None) = None
        \<longleftrightarrow> validate_entries ?tx 0 es = Inr 0"
    by (auto split: sum.splits if_splits)
  then show ?thesis
    by (auto simp: ValidateBalanced_def Let_def validate_entries_Inr wrap64_eq_0_iff eq_commute [of 0])
qed

lemma ValidateBalanced_exact:
  assumes "ValidateBalanced es = None" and "\<bar>entries_total es\<bar> < 2 ^ 64"
  shows "entries_total es = 0"
proof -
  have "entries_total es mod 2 ^ 64 = 0"
    using assms(1) by (simp add: ValidateBalanced_None)
  then have "2 ^ 64 dvd entries_total es" by (simp add: dvd_eq_mod_eq_0)
  with assms(2) show ?thesis using zdvd_not_zless [of "\<bar>entries_total es\<bar>" "2 ^ 64"] by auto
qed

end
