(* ===== verification/Ledger_Repository.thy ===== *)
theory Ledger_Repository
  imports Ledger
begin

text \<open>
  The Postgres ledger repository (\<open>internal/repository/postgres/ledger_repository.go\<close>) over
  the tables of migrations 113 to 116 and 122. A table is the list of its rows; the
  constraints the migrations declare (primary keys, the partial unique indexes, the
  foreign keys, the checks, the range of BIGINT) decide what each statement does. An
  operation that runs in its own transaction returns the database it leaves behind; one
  that runs in the caller's transaction returns the caller's new snapshot or an error.
\<close>

named_theorems ledger_simps \<open>rules about the ledger tables\<close>

section \<open>Tables\<close>

record LedgerDB =
  db_vaults :: "uuid list"
  db_users :: "uuid list"
  db_accounts :: "Account list"
  db_entries :: "Entry list"
  db_balances :: "Balance list"
  db_recon :: "ReconciliationRecord list"

text \<open>
  The type-specific key of an account: the columns the partial unique index of its type
  covers, which are also the columns the SELECT of \<open>getOrCreateAccountTx\<close> compares.
\<close>

definition account_match ::
  "string \<Rightarrow> uuid option \<Rightarrow> uuid option \<Rightarrow> string option \<Rightarrow> string \<Rightarrow> Account \<Rightarrow> bool" where
  "account_match typ vaultID userID adapterName assetCode a \<longleftrightarrow>
     acc_AccountType a = typ \<and> acc_AssetCode a = assetCode \<and>
     (if typ = AccountTypeUserVaultPosition
        then sql_eq (acc_VaultID a) vaultID \<and> sql_eq (acc_UserID a) userID
      else if typ = AccountTypeVaultAssetPool \<or> typ = AccountTypePenaltyEscrow
        then sql_eq (acc_VaultID a) vaultID
      else if typ = AccountTypeYieldSource
        then sql_eq (acc_AdapterName a) adapterName
      else True)"

definition account_conflict :: "Account \<Rightarrow> Account \<Rightarrow> bool" where
  "account_conflict new a \<longleftrightarrow> acc_ID new = acc_ID a \<or>
     account_match (acc_AccountType new) (acc_VaultID new) (acc_UserID new)
       (acc_AdapterName new) (acc_AssetCode new) a"

definition fk_ok :: "uuid list \<Rightarrow> uuid option \<Rightarrow> bool" where
  "fk_ok ids x \<longleftrightarrow> (case x of None \<Rightarrow> True | Some i \<Rightarrow> i \<in> set ids)"

text \<open>\<open>INSERT INTO ledger_accounts ... ON CONFLICT DO NOTHING\<close>: the flag tells whether a row was written.\<close>

definition insert_account :: "LedgerDB \<Rightarrow> Account \<Rightarrow> ledger_error + (bool \<times> LedgerDB)" where
  "insert_account db a =
     (if list_ex (account_conflict a) (db_accounts db) then Inr (False, db)
      else if \<not> fk_ok (db_vaults db) (acc_VaultID a) then
        Inl (SqlServer (PgError ''23503'' ''ledger_accounts_vault_id_fkey''))
      else if \<not> fk_ok (db_users db) (acc_UserID a) then
        Inl (SqlServer (PgError ''23503'' ''ledger_accounts_user_id_fkey''))
      else Inr (True, db\<lparr>db_accounts := db_accounts db @ [a]\<rparr>))"

section \<open>Accounts\<close>

text \<open>
  The guards of the switch over the account type: the key columns a type needs. The
  default branch of the switch is unreachable after the validation, and returns the same error.
\<close>

definition account_key_missing ::
  "string \<Rightarrow> uuid option \<Rightarrow> uuid option \<Rightarrow> string option \<Rightarrow> ledger_error option" where
  "account_key_missing typ vaultID userID adapterName =
     (if typ = AccountTypeUserVaultPosition then
        (if vaultID = None \<or> userID = None
         then Some (ErrKeyRequired ''vault_id and user_id required for user_vault_position'') else None)
      else if typ = AccountTypeVaultAssetPool then
        (if vaultID = None then Some (ErrKeyRequired ''vault_id required for vault_asset_pool'') else None)
      else if typ = AccountTypeYieldSource then
        (if adapterName = None \<or> adapterName = Some []
         then Some (ErrKeyRequired ''adapter_name required for yield_source'') else None)
      else if typ = AccountTypeFee \<or> typ = AccountTypeTreasury \<or>
              typ = AccountTypeSystemSuspense \<or> typ = AccountTypeExternal then None
      else if typ = AccountTypePenaltyEscrow then
        (if vaultID = None then Some (ErrKeyRequired ''vault_id required for penalty_escrow'') else None)
      else Some ErrInvalidAccountType)"

definition select_account ::
  "LedgerDB \<Rightarrow> string \<Rightarrow> uuid option \<Rightarrow> uuid option \<Rightarrow> string option \<Rightarrow> string \<Rightarrow> ledger_error + Account" where
  "select_account db typ vaultID userID adapterName assetCode =
     (case find (account_match typ vaultID userID adapterName assetCode) (db_accounts db) of
        None \<Rightarrow> Inl SqlNoRows
      | Some a \<Rightarrow> Inr a)"

definition new_account ::
  "uuid \<Rightarrow> time \<Rightarrow> string \<Rightarrow> uuid option \<Rightarrow> uuid option \<Rightarrow> string option \<Rightarrow> string \<Rightarrow> Account" where
  "new_account newID now typ vaultID userID adapterName assetCode =
     \<lparr>acc_ID = newID, acc_AccountType = typ, acc_VaultID = vaultID, acc_UserID = userID,
      acc_AdapterName = adapterName, acc_AssetCode = assetCode, acc_AssetUnit = ''stroops'',
      acc_Description = [], acc_CreatedAt = now, acc_UpdatedAt = now\<rparr>"

definition getOrCreateAccountTx ::
  "sql_fault \<Rightarrow> nat \<Rightarrow> uuid \<Rightarrow> time \<Rightarrow> LedgerDB \<Rightarrow> string \<Rightarrow> uuid option \<Rightarrow> uuid option \<Rightarrow> string option \<Rightarrow> string
   \<Rightarrow> ledger_error + (Account \<times> LedgerDB)" where
  "getOrCreateAccountTx flt n newID now db typ vaultID userID adapterName assetCode =
     (case ValidateAccountType typ of Some err \<Rightarrow> Inl err | None \<Rightarrow>
      (case account_key_missing typ vaultID userID adapterName of Some err \<Rightarrow> Inl err | None \<Rightarrow>
       if flt n then Inl SqlFault
       else (case select_account db typ vaultID userID adapterName assetCode of
          Inr acc \<Rightarrow> Inr (acc, db)
        | Inl _ \<Rightarrow>
          if flt (n + 1) then Inl SqlFault
          else (case insert_account db (new_account newID now typ vaultID userID adapterName assetCode) of
              Inl err \<Rightarrow> Inl err
            | Inr (_, db') \<Rightarrow>
              if flt (n + 2) then Inl SqlFault
              else (case select_account db' typ vaultID userID adapterName assetCode of
                  Inl err \<Rightarrow> Inl err
                | Inr acc \<Rightarrow> Inr (acc, db'))))))"

definition default_asset :: "string \<Rightarrow> string" where
  "default_asset assetCode = (if assetCode = [] then ''USDC'' else assetCode)"

definition LedgerRepository_GetOrCreateAccountTx ::
  "sql_fault \<Rightarrow> nat \<Rightarrow> uuid \<Rightarrow> time \<Rightarrow> LedgerDB \<Rightarrow> string \<Rightarrow> uuid option \<Rightarrow> uuid option \<Rightarrow> string option \<Rightarrow> string
   \<Rightarrow> ledger_error + (Account \<times> LedgerDB)" where
  "LedgerRepository_GetOrCreateAccountTx flt n newID now db typ vaultID userID adapterName assetCode =
     getOrCreateAccountTx flt n newID now db typ vaultID userID adapterName (default_asset assetCode)"

text \<open>
  A transaction of the repository's own: begin, run the body on the snapshot, commit. Every
  early return rolls back, so only a durable commit replaces the database.
\<close>

definition run_tx ::
  "sql_fault \<Rightarrow> nat \<Rightarrow> commit_outcome \<Rightarrow> LedgerDB \<Rightarrow> (LedgerDB \<Rightarrow> ledger_error + ('a \<times> LedgerDB))
   \<Rightarrow> (ledger_error + 'a) \<times> LedgerDB" where
  "run_tx flt n commit db body =
     (if flt n then (Inl SqlFault, db)
      else (case body db of
          Inl err \<Rightarrow> (Inl err, db)
        | Inr (x, db') \<Rightarrow>
          (case commit of
             Committed \<Rightarrow> (Inr x, db')
           | NotCommitted \<Rightarrow> (Inl SqlFault, db)
           | CommitUnacked \<Rightarrow> (Inl SqlFault, db'))))"

definition LedgerRepository_GetOrCreateAccount ::
  "sql_fault \<Rightarrow> nat \<Rightarrow> commit_outcome \<Rightarrow> uuid \<Rightarrow> time \<Rightarrow> LedgerDB \<Rightarrow> string \<Rightarrow> uuid option \<Rightarrow> uuid option
   \<Rightarrow> string option \<Rightarrow> string \<Rightarrow> (ledger_error + Account) \<times> LedgerDB" where
  "LedgerRepository_GetOrCreateAccount flt n commit newID now db typ vaultID userID adapterName assetCode =
     run_tx flt n commit db (\<lambda>tx.
       getOrCreateAccountTx flt (n + 1) newID now tx typ vaultID userID adapterName (default_asset assetCode))"

definition LedgerRepository_CreateAccount ::
  "sql_fault \<Rightarrow> nat \<Rightarrow> commit_outcome \<Rightarrow> uuid \<Rightarrow> uuid \<Rightarrow> time \<Rightarrow> LedgerDB \<Rightarrow> Account
   \<Rightarrow> (ledger_error + Account) \<times> LedgerDB" where
  "LedgerRepository_CreateAccount flt n commit newID newID2 now db acc =
     (case ValidateAccountType (acc_AccountType acc) of Some err \<Rightarrow> (Inl err, db) | None \<Rightarrow>
      (let acc = acc\<lparr>acc_ID := if acc_ID acc = uuid_Nil then newID else acc_ID acc,
                     acc_AssetCode := default_asset (acc_AssetCode acc),
                     acc_AssetUnit := if acc_AssetUnit acc = [] then ''stroops'' else acc_AssetUnit acc,
                     acc_CreatedAt := now, acc_UpdatedAt := now\<rparr>
       in if flt n then (Inl SqlFault, db)
          else (case insert_account db acc of
              Inl err \<Rightarrow> (Inl err, db)
            | Inr (True, db') \<Rightarrow> (Inr acc, db')
            | Inr (False, _) \<Rightarrow>
                LedgerRepository_GetOrCreateAccount flt (n + 1) commit newID2 now db (acc_AccountType acc)
                  (acc_VaultID acc) (acc_UserID acc) (acc_AdapterName acc) (acc_AssetCode acc))))"

definition LedgerRepository_GetAccount :: "sql_fault \<Rightarrow> LedgerDB \<Rightarrow> uuid \<Rightarrow> ledger_error + Account" where
  "LedgerRepository_GetAccount flt db i =
     (if flt 0 then Inl SqlFault
      else (case find (\<lambda>a. acc_ID a = i) (db_accounts db) of None \<Rightarrow> Inl SqlNoRows | Some a \<Rightarrow> Inr a))"

section \<open>Posting\<close>

text \<open>The key of the idempotency index of migration 122, and the rows it constrains.\<close>

definition event_key :: "Entry \<Rightarrow> string \<times> string \<times> uuid" where
  "event_key e = (e_DomainEventType e, e_DomainEventID e, e_AccountID e)"

text \<open>
  \<open>INSERT INTO ledger_entries\<close>: the check constraints, then the primary key and the partial
  unique index, then the foreign key.
\<close>

definition insert_entry :: "LedgerDB \<Rightarrow> Entry \<Rightarrow> ledger_error + LedgerDB" where
  "insert_entry db e =
     (if e_Amount e = 0 then Inl (SqlServer (PgError ''23514'' ''ledger_entries_amount_check''))
      else if e_Direction e \<noteq> ''debit'' \<and> e_Direction e \<noteq> ''credit'' then
        Inl (SqlServer (PgError ''23514'' ''ledger_entries_direction_check''))
      else if e_ID e \<in> e_ID ` set (db_entries db) then
        Inl (SqlServer (PgError ''23505'' ''ledger_entries_pkey''))
      else if e_DomainEventID e \<noteq> [] \<and> event_key e \<in> event_key ` set (db_entries db) then
        Inl (SqlServer (PgError ''23505'' ''uq_ledger_entries_domain_event_account''))
      else if e_AccountID e \<notin> acc_ID ` set (db_accounts db) then
        Inl (SqlServer (PgError ''23503'' ''ledger_entries_account_id_fkey''))
      else Inr (db\<lparr>db_entries := db_entries db @ [e]\<rparr>))"

text \<open>
  \<open>INSERT INTO ledger_balances ... ON CONFLICT (account_id) DO UPDATE\<close>: a sum outside BIGINT
  is an error of the server, never a wrapped value.
\<close>

definition upsert_balance :: "time \<Rightarrow> LedgerDB \<Rightarrow> uuid \<Rightarrow> int \<Rightarrow> string \<Rightarrow> string \<Rightarrow> ledger_error + LedgerDB" where
  "upsert_balance now db acct amount code unit =
     (case find (\<lambda>b. b_AccountID b = acct) (db_balances db) of
        None \<Rightarrow> Inr (db\<lparr>db_balances := db_balances db @
          [\<lparr>b_AccountID = acct, b_Balance = amount, b_AssetCode = code, b_AssetUnit = unit,
            b_UpdatedAt = now, b_Version = 1\<rparr>]\<rparr>)
      | Some b \<Rightarrow>
          if \<not> in64 (b_Balance b + amount) \<or> \<not> in64 (b_Version b + 1)
          then Inl (SqlServer (PgError ''22003'' []))
          else Inr (db\<lparr>db_balances := update_where (\<lambda>b. b_AccountID b = acct)
            (\<lambda>b. b\<lparr>b_Balance := b_Balance b + amount, b_UpdatedAt := now, b_Version := b_Version b + 1\<rparr>)
            (db_balances db)\<rparr>))"

text \<open>The defaults \<open>postEntriesTx\<close> fills in before it writes an entry.\<close>

definition complete_entry :: "uuid \<Rightarrow> time \<Rightarrow> Entry \<Rightarrow> Entry" where
  "complete_entry newID now e =
     e\<lparr>e_ID := if e_ID e = uuid_Nil then newID else e_ID e,
       e_Direction := if e_Direction e = [] then DirectionFromAmount (e_Amount e) else e_Direction e,
       e_AssetCode := if e_AssetCode e = [] then ''USDC'' else e_AssetCode e,
       e_AssetUnit := if e_AssetUnit e = [] then ''stroops'' else e_AssetUnit e,
       e_CreatedAt := now\<rparr>"

fun postEntriesTx ::
  "sql_fault \<Rightarrow> nat \<Rightarrow> (nat \<Rightarrow> uuid) \<Rightarrow> time \<Rightarrow> LedgerDB \<Rightarrow> Entry list \<Rightarrow> ledger_error + LedgerDB" where
  "postEntriesTx flt n newID now db [] = Inr db"
| "postEntriesTx flt n newID now db (e # es) =
     (let e = complete_entry (newID n) now e in
      if flt n then Inl SqlFault
      else (case insert_entry db e of
          Inl err \<Rightarrow> Inl err
        | Inr db1 \<Rightarrow>
          if flt (n + 1) then Inl SqlFault
          else (case upsert_balance now db1 (e_AccountID e) (e_Amount e) (e_AssetCode e) (e_AssetUnit e) of
              Inl err \<Rightarrow> Inl err
            | Inr db2 \<Rightarrow> postEntriesTx flt (n + 2) newID now db2 es)))"

definition mapLedgerError :: "ledger_error \<Rightarrow> ledger_error" where
  "mapLedgerError err =
     (case err of
        SqlServer pg \<Rightarrow>
          if pg_code pg = ''23505'' \<and> str_contains (pg_constraint pg) ''ledger_entries_domain_event_account''
          then ErrAlreadyPosted else err
      | _ \<Rightarrow> err)"

definition LedgerRepository_PostEntries ::
  "sql_fault \<Rightarrow> nat \<Rightarrow> commit_outcome \<Rightarrow> (nat \<Rightarrow> uuid) \<Rightarrow> time \<Rightarrow> LedgerDB \<Rightarrow> Entry list
   \<Rightarrow> ledger_error option \<times> LedgerDB" where
  "LedgerRepository_PostEntries flt n commit newID now db entries =
     (case ValidateBalanced entries of Some err \<Rightarrow> (Some err, db) | None \<Rightarrow>
      (case run_tx flt n commit db (\<lambda>tx.
               case postEntriesTx flt (n + 1) newID now tx entries of
                 Inl err \<Rightarrow> Inl (mapLedgerError err)
               | Inr tx' \<Rightarrow> Inr ((), tx')) of
         (Inl err, db') \<Rightarrow> (Some err, db')
       | (Inr _, db') \<Rightarrow> (None, db')))"

text \<open>The caller's transaction handle is an \<open>option\<close>: \<open>None\<close> is Go's \<open>nil\<close>.\<close>

definition LedgerRepository_PostEntriesTx ::
  "sql_fault \<Rightarrow> nat \<Rightarrow> (nat \<Rightarrow> uuid) \<Rightarrow> time \<Rightarrow> LedgerDB option \<Rightarrow> Entry list \<Rightarrow> ledger_error + LedgerDB" where
  "LedgerRepository_PostEntriesTx flt n newID now tx entries =
     (case ValidateBalanced entries of Some err \<Rightarrow> Inl err | None \<Rightarrow>
      (case tx of None \<Rightarrow> Inl ErrTxRequired | Some db \<Rightarrow>
       (case postEntriesTx flt n newID now db entries of
          Inl err \<Rightarrow> Inl (mapLedgerError err)
        | Inr db' \<Rightarrow> Inr db')))"

section \<open>Reads\<close>

definition LedgerRepository_GetBalance :: "sql_fault \<Rightarrow> LedgerDB \<Rightarrow> uuid \<Rightarrow> ledger_error + Balance" where
  "LedgerRepository_GetBalance flt db acct =
     (if flt 0 then Inl SqlFault
      else (case find (\<lambda>b. b_AccountID b = acct) (db_balances db) of
        None \<Rightarrow> Inl SqlNoRows | Some b \<Rightarrow> Inr b))"

text \<open>The inner join of an account with its balance row.\<close>

definition balance_row :: "LedgerDB \<Rightarrow> Account \<Rightarrow> Balance option" where
  "balance_row db a = find (\<lambda>b. b_AccountID b = acc_ID a) (db_balances db)"

definition joined_balances :: "LedgerDB \<Rightarrow> (Account \<Rightarrow> bool) \<Rightarrow> (uuid \<times> int) list" where
  "joined_balances db P =
     List.map_filter (\<lambda>a. if P a then map_option (\<lambda>b. (acc_ID a, b_Balance b)) (balance_row db a) else None)
       (db_accounts db)"

definition LedgerRepository_GetBalancesByVault :: "sql_fault \<Rightarrow> LedgerDB \<Rightarrow> uuid \<Rightarrow> ledger_error + (uuid \<rightharpoonup> int)" where
  "LedgerRepository_GetBalancesByVault flt db vaultID =
     (if flt 0 then Inl SqlFault
      else Inr (foldl (\<lambda>m (i, bal). m(i \<mapsto> bal)) Map.empty
        (joined_balances db (\<lambda>a. sql_eq (acc_VaultID a) (Some vaultID)))))"

definition first_balance :: "(uuid \<times> int) list \<Rightarrow> int" where
  "first_balance rows = (case rows of [] \<Rightarrow> 0 | (_, bal) # _ \<Rightarrow> bal)"

definition LedgerRepository_GetUserVaultBalance :: "sql_fault \<Rightarrow> LedgerDB \<Rightarrow> uuid \<Rightarrow> uuid \<Rightarrow> ledger_error + int" where
  "LedgerRepository_GetUserVaultBalance flt db userID vaultID =
     (if flt 0 then Inl SqlFault
      else Inr (first_balance (joined_balances db
        (account_match AccountTypeUserVaultPosition (Some vaultID) (Some userID) None ''USDC''))))"

definition LedgerRepository_GetVaultPoolBalance :: "sql_fault \<Rightarrow> LedgerDB \<Rightarrow> uuid \<Rightarrow> ledger_error + int" where
  "LedgerRepository_GetVaultPoolBalance flt db vaultID =
     (if flt 0 then Inl SqlFault
      else Inr (first_balance (joined_balances db
        (account_match AccountTypeVaultAssetPool (Some vaultID) None None ''USDC''))))"

text \<open>A SUM is a NUMERIC: scanning one outside the \<open>int64\<close> range fails.\<close>

definition scan_int64 :: "int \<Rightarrow> ledger_error + int" where
  "scan_int64 x = (if in64 x then Inr x else Inl SqlScan)"

definition LedgerRepository_SumUserPositionBalances :: "sql_fault \<Rightarrow> LedgerDB \<Rightarrow> uuid \<Rightarrow> ledger_error + int" where
  "LedgerRepository_SumUserPositionBalances flt db vaultID =
     (if flt 0 then Inl SqlFault
      else scan_int64 (sum_list (map snd (joined_balances db
        (\<lambda>a. acc_AccountType a = AccountTypeUserVaultPosition \<and> sql_eq (acc_VaultID a) (Some vaultID))))))"

definition LedgerRepository_SumAllEntries :: "sql_fault \<Rightarrow> LedgerDB \<Rightarrow> ledger_error + int" where
  "LedgerRepository_SumAllEntries flt db =
     (if flt 0 then Inl SqlFault else scan_int64 (entries_total (db_entries db)))"

definition account_entries :: "LedgerDB \<Rightarrow> uuid \<Rightarrow> Entry list" where
  "account_entries db i = filter (\<lambda>e. e_AccountID e = i) (db_entries db)"

definition cached_balance :: "LedgerDB \<Rightarrow> uuid \<Rightarrow> int" where
  "cached_balance db i =
     (case find (\<lambda>b. b_AccountID b = i) (db_balances db) of None \<Rightarrow> 0 | Some b \<Rightarrow> b_Balance b)"

text \<open>One row of the recompute query after another; a computed sum that does not scan stops the loop.\<close>

fun recompute_rows :: "LedgerDB \<Rightarrow> Account list \<Rightarrow> ledger_error + BalanceMismatch list" where
  "recompute_rows db [] = Inr []"
| "recompute_rows db (a # as) =
     (let cached = cached_balance db (acc_ID a) in
      case scan_int64 (entries_total (account_entries db (acc_ID a))) of
        Inl err \<Rightarrow> Inl err
      | Inr computed \<Rightarrow>
          (case recompute_rows db as of
             Inl err \<Rightarrow> Inl err
           | Inr ms \<Rightarrow>
               Inr (if cached \<noteq> computed
                    then \<lparr>bm_AccountID = acc_ID a, bm_Cached = cached, bm_Computed = computed,
                          bm_Difference = wrap64 (computed - cached)\<rparr> # ms
                    else ms)))"

definition LedgerRepository_RecomputeBalances :: "sql_fault \<Rightarrow> LedgerDB \<Rightarrow> ledger_error + BalanceMismatch list" where
  "LedgerRepository_RecomputeBalances flt db =
     (if flt 0 then Inl SqlFault else recompute_rows db (db_accounts db))"

definition LedgerRepository_ListAllBalances :: "sql_fault \<Rightarrow> LedgerDB \<Rightarrow> ledger_error + Balance list" where
  "LedgerRepository_ListAllBalances flt db = (if flt 0 then Inl SqlFault else Inr (db_balances db))"

section \<open>Reconciliation records\<close>

text \<open>
  The \<open>details\<close> column is JSONB: the server refuses a text its JSON parser rejects. That
  parser is the server's, so it is a parameter. The status is constrained to three values,
  and the vault must exist.
\<close>

definition LedgerRepository_CreateReconciliationRecord ::
  "(string \<Rightarrow> bool) \<Rightarrow> sql_fault \<Rightarrow> uuid \<Rightarrow> time \<Rightarrow> LedgerDB \<Rightarrow> ReconciliationRecord \<Rightarrow> ledger_error option \<times> LedgerDB" where
  "LedgerRepository_CreateReconciliationRecord json_ok flt newID now db r =
     (let r = r\<lparr>rr_ID := if rr_ID r = uuid_Nil then newID else rr_ID r, rr_CreatedAt := now\<rparr> in
      if flt 0 then (Some SqlFault, db)
      else if \<not> json_ok (rr_Details r) then (Some (SqlServer (PgError ''22P02'' [])), db)
      else if rr_Status r \<notin> {''ok'', ''drift'', ''error''} then
        (Some (SqlServer (PgError ''23514'' ''ledger_reconciliation_records_status_check'')), db)
      else if rr_ID r \<in> rr_ID ` set (db_recon db) then
        (Some (SqlServer (PgError ''23505'' ''ledger_reconciliation_records_pkey'')), db)
      else if rr_VaultID r \<notin> set (db_vaults db) then
        (Some (SqlServer (PgError ''23503'' ''ledger_reconciliation_records_vault_id_fkey'')), db)
      else (None, db\<lparr>db_recon := db_recon db @ [r]\<rparr>))"

definition LedgerRepository_ListReconciliationRecords ::
  "sql_fault \<Rightarrow> LedgerDB \<Rightarrow> uuid \<Rightarrow> int \<Rightarrow> ledger_error + ReconciliationRecord list" where
  "LedgerRepository_ListReconciliationRecords flt db vaultID limit =
     (let limit = (if limit \<le> 0 then 20 else limit) in
      if flt 0 then Inl SqlFault
      else Inr (take (nat limit)
        (sort_key (\<lambda>r. - rr_CreatedAt r) (filter (\<lambda>r. rr_VaultID r = vaultID) (db_recon db)))))"

end
