(* ===== verification/Ledger_Correct.thy ===== *)
theory Ledger_Correct
  imports Ledger_Repository
begin

text \<open>
  The invariant of the ledger tables and what the repository's write path keeps of it:
  cached balances equal the sums of the entries, the unique indexes hold, and a posting
  is all or nothing.
\<close>

section \<open>The invariant\<close>

definition legs_on :: "uuid \<Rightarrow> Entry list \<Rightarrow> int" where
  "legs_on i es = entries_total (filter (\<lambda>e. e_AccountID e = i) es)"

definition keyed_entries :: "LedgerDB \<Rightarrow> Entry list" where
  "keyed_entries db = filter (\<lambda>e. e_DomainEventID e \<noteq> []) (db_entries db)"

definition accounts_ok :: "Account list \<Rightarrow> bool" where
  "accounts_ok as \<longleftrightarrow> distinct (map acc_ID as) \<and>
     (\<forall>a \<in> set as. \<forall>b \<in> set as. account_conflict a b \<longrightarrow> a = b)"

definition ledger_inv :: "LedgerDB \<Rightarrow> bool" where
  "ledger_inv db \<longleftrightarrow>
     accounts_ok (db_accounts db) \<and>
     distinct (map e_ID (db_entries db)) \<and>
     (\<forall>e \<in> set (db_entries db). e_AccountID e \<in> acc_ID ` set (db_accounts db) \<and> e_Amount e \<noteq> 0) \<and>
     distinct (map event_key (keyed_entries db)) \<and>
     distinct (map b_AccountID (db_balances db)) \<and>
     (\<forall>b \<in> set (db_balances db). in64 (b_Balance b)) \<and>
     (\<forall>i. cached_balance db i = legs_on i (db_entries db))"

text \<open>Every amount of a posting is an \<open>int64\<close>, as its Go type says.\<close>

definition int64_entries :: "Entry list \<Rightarrow> bool" where
  "int64_entries es \<longleftrightarrow> (\<forall>e \<in> set es. in64 (e_Amount e))"

lemma legs_on_simps [simp]:
  "legs_on i [] = 0"
  "legs_on i (e # es) = (if e_AccountID e = i then e_Amount e else 0) + legs_on i es"
  "legs_on i (es @ fs) = legs_on i es + legs_on i fs"
  by (simp_all add: legs_on_def)

lemma complete_entry_keeps [simp]:
  "e_AccountID (complete_entry n t e) = e_AccountID e"
  "e_Amount (complete_entry n t e) = e_Amount e"
  "e_DomainEventType (complete_entry n t e) = e_DomainEventType e"
  "e_DomainEventID (complete_entry n t e) = e_DomainEventID e"
  "event_key (complete_entry n t e) = event_key e"
  by (simp_all add: complete_entry_def event_key_def)

lemma account_entries_legs: "entries_total (account_entries db i) = legs_on i (db_entries db)"
  by (simp add: account_entries_def legs_on_def)

section \<open>One leg\<close>

lemma insert_entry_InrD:
  assumes "insert_entry db e = Inr db1"
  shows "db1 = db\<lparr>db_entries := db_entries db @ [e]\<rparr>" "e_Amount e \<noteq> 0"
    "e_ID e \<notin> e_ID ` set (db_entries db)"
    "e_DomainEventID e = [] \<or> event_key e \<notin> event_key ` set (db_entries db)"
    "e_AccountID e \<in> acc_ID ` set (db_accounts db)"
  using assms by (auto simp: insert_entry_def split: if_splits)

lemma find_update_where_key:
  assumes "\<And>r. k (f r) = k r"
  shows "find (\<lambda>r. k r = i) (update_where (\<lambda>r. k r = j) f t) =
    map_option (\<lambda>r. if i = j then f r else r) (find (\<lambda>r. k r = i) t)"
  by (induction t) (auto simp: sql_simps assms)

lemma upsert_balance_InrD:
  assumes "upsert_balance now db acct amount code unit = Inr db2"
  shows "db_accounts db2 = db_accounts db" "db_entries db2 = db_entries db"
    "db_vaults db2 = db_vaults db" "db_users db2 = db_users db" "db_recon db2 = db_recon db"
    "cached_balance db2 i = cached_balance db i + (if i = acct then amount else 0)"
  using assms
  by (auto simp: upsert_balance_def cached_balance_def find_update_where_key find_append_row
      split: option.splits if_splits)

lemma upsert_balance_distinct:
  assumes "upsert_balance now db acct amount code unit = Inr db2"
    and "distinct (map b_AccountID (db_balances db))"
  shows "distinct (map b_AccountID (db_balances db2))"
  using assms
  by (auto simp: upsert_balance_def map_update_where find_None_iff split: option.splits if_splits)

lemma upsert_balance_in64:
  assumes "upsert_balance now db acct amount code unit = Inr db2"
    and "distinct (map b_AccountID (db_balances db))"
    and "\<forall>b \<in> set (db_balances db). in64 (b_Balance b)" and "in64 amount"
  shows "\<forall>b \<in> set (db_balances db2). in64 (b_Balance b)"
proof (cases "find (\<lambda>b. b_AccountID b = acct) (db_balances db)")
  case None
  with assms show ?thesis by (auto simp: upsert_balance_def)
next
  case (Some b)
  have "\<And>c. c \<in> set (db_balances db) \<Longrightarrow> b_AccountID c = acct \<Longrightarrow> c = b"
    using Some assms(2) by (metis (mono_tags, lifting) distinct_map_unique find_SomeD)
  with Some assms show ?thesis
    by (auto simp: upsert_balance_def elim!: in_update_whereE split: if_splits)
qed

lemma post_leg_inv:
  assumes inv: "ledger_inv db" and ins: "insert_entry db e = Inr db1"
    and ups: "upsert_balance now db1 (e_AccountID e) (e_Amount e) code unit = Inr db2"
    and typed: "in64 (e_Amount e)"
  shows "ledger_inv db2"
proof -
  note I = insert_entry_InrD [OF ins] and U = upsert_balance_InrD [OF ups]
  have bal: "db_balances db1 = db_balances db" using I(1) by simp
  have "distinct (map b_AccountID (db_balances db2))"
    using upsert_balance_distinct [OF ups] inv bal by (simp add: ledger_inv_def)
  moreover have "\<forall>b \<in> set (db_balances db2). in64 (b_Balance b)"
    using upsert_balance_in64 [OF ups] inv bal typed by (simp add: ledger_inv_def)
  moreover have "cached_balance db2 i = legs_on i (db_entries db2)" for i
    using U(2,6) I(1) inv by (simp add: ledger_inv_def cached_balance_def)
  moreover have "distinct (map event_key (keyed_entries db2))"
    using U(2) I(1,4) inv by (auto simp: ledger_inv_def keyed_entries_def)
  ultimately show ?thesis
    using inv I U(1,2) by (auto simp: ledger_inv_def)
qed

section \<open>A whole posting\<close>

text \<open>The frame of a posting: the tables it does not write, and the effect on every balance.\<close>

definition posted :: "LedgerDB \<Rightarrow> Entry list \<Rightarrow> LedgerDB \<Rightarrow> bool" where
  "posted db es db' \<longleftrightarrow>
     db_accounts db' = db_accounts db \<and> db_vaults db' = db_vaults db \<and>
     db_users db' = db_users db \<and> db_recon db' = db_recon db \<and>
     (\<forall>i. cached_balance db' i = cached_balance db i + legs_on i es) \<and>
     (\<exists>rows. db_entries db' = db_entries db @ rows \<and> map e_Amount rows = map e_Amount es \<and>
        map event_key rows = map event_key es)"

lemma posted_total: "posted db es db' \<Longrightarrow> entries_total (db_entries db') = entries_total (db_entries db) + entries_total es"
  by (auto simp: posted_def entries_total_def)

lemma postEntriesTx_posted:
  assumes "postEntriesTx flt n newID now db es = Inr db'" and "ledger_inv db" and "int64_entries es"
  shows "ledger_inv db' \<and> posted db es db'"
  using assms
proof (induction es arbitrary: n db)
  case Nil
  then show ?case by (simp add: posted_def)
next
  case (Cons e es)
  let ?e = "complete_entry (newID n) now e"
  from Cons.prems(1) obtain db1 db2 where
      ins: "insert_entry db ?e = Inr db1"
    and ups: "upsert_balance now db1 (e_AccountID ?e) (e_Amount ?e) (e_AssetCode ?e) (e_AssetUnit ?e) = Inr db2"
    and rec: "postEntriesTx flt (n + 2) newID now db2 es = Inr db'"
    by (auto simp: Let_def split: if_splits sum.splits)
  have typed: "in64 (e_Amount ?e)" "int64_entries es"
    using Cons.prems(3) by (simp_all add: int64_entries_def)
  note I = insert_entry_InrD [OF ins] and U = upsert_balance_InrD [OF ups]
  have "ledger_inv db2" using post_leg_inv [OF Cons.prems(2) ins ups typed(1)] .
  then have IH: "ledger_inv db'" "posted db2 es db'"
    using Cons.IH [OF rec] typed(2) by blast+
  have "cached_balance db1 i = cached_balance db i" for i
    using I(1) by (simp add: cached_balance_def)
  moreover obtain rows where "db_entries db' = db_entries db2 @ rows"
      "map e_Amount rows = map e_Amount es" "map event_key rows = map event_key es"
    using IH(2) by (auto simp: posted_def)
  ultimately have "posted db (e # es) db'"
    using IH(2) U I(1) unfolding posted_def
    by (auto intro!: exI [of _ "?e # rows"])
  with IH(1) show ?case by blast
qed

text \<open>The converse: a posting over known accounts, with fresh ids and keys and balances in range, succeeds.\<close>

lemma insert_entry_succeeds:
  assumes "e_Amount e \<noteq> 0" and "e_Direction e = ''debit'' \<or> e_Direction e = ''credit''"
    and "e_ID e \<notin> e_ID ` set (db_entries db)"
    and "e_DomainEventID e = [] \<or> event_key e \<notin> event_key ` set (db_entries db)"
    and "e_AccountID e \<in> acc_ID ` set (db_accounts db)"
  shows "insert_entry db e = Inr (db\<lparr>db_entries := db_entries db @ [e]\<rparr>)"
  using assms by (auto simp: insert_entry_def)

lemma duplicate_event_refused:
  assumes "event_key e \<in> event_key ` set (db_entries db)" and "e_DomainEventID e \<noteq> []"
    and "e_Amount e \<noteq> 0" and "e_Direction e = ''debit'' \<or> e_Direction e = ''credit''"
    and "e_ID e \<notin> e_ID ` set (db_entries db)"
  shows "insert_entry db e = Inl (SqlServer (PgError ''23505'' ''uq_ledger_entries_domain_event_account''))"
  using assms by (auto simp: insert_entry_def)

lemma mapLedgerError_idempotency:
  "mapLedgerError (SqlServer (PgError ''23505'' ''uq_ledger_entries_domain_event_account'')) = ErrAlreadyPosted"
  by (simp add: mapLedgerError_def str_contains_def str_has_prefix_def)

section \<open>Transactions\<close>

lemma run_tx_cases:
  "run_tx flt n commit db body = (r, db') \<Longrightarrow>
     db' = db \<and> (\<exists>err. r = Inl err) \<or>
     (\<exists>x. body db = Inr (x, db') \<and> (r = Inr x \<and> commit = Committed \<or> r = Inl SqlFault \<and> commit = CommitUnacked))"
  by (auto simp: run_tx_def split: if_splits sum.splits prod.splits commit_outcome.splits)

lemma PostEntries_cases:
  assumes "LedgerRepository_PostEntries flt n commit newID now db es = (r, db')"
  shows "db' = db \<and> r \<noteq> None \<or>
     ValidateBalanced es = None \<and> postEntriesTx flt (n + 1) newID now db es = Inr db' \<and>
     (r = None \<and> commit = Committed \<or> r = Some SqlFault \<and> commit = CommitUnacked)"
  using assms
  by (auto simp: LedgerRepository_PostEntries_def run_tx_def
      split: option.splits sum.splits prod.splits if_splits commit_outcome.splits)

lemma PostEntries_inv:
  assumes "LedgerRepository_PostEntries flt n commit newID now db es = (r, db')"
    and "ledger_inv db" and "int64_entries es"
  shows "ledger_inv db'"
  using PostEntries_cases [OF assms(1)] postEntriesTx_posted assms(2,3) by blast

end
