(* ===== verification/Ledger_Service.thy ===== *)
theory Ledger_Service
  imports Ledger_Correct
begin

text \<open>
  The posting service (\<open>internal/service/ledger_service.go\<close>): deposits, withdrawals,
  harvests and rebalances as balanced postings, in the caller's transaction, in a
  transaction of its own, or directly over the repository. The decimal library is a
  parameter: a record of the five operations the service calls.
\<close>

section \<open>Decimals and the environment of a call\<close>

record 'd decimal_ops =
  d_Mul :: "'d \<Rightarrow> 'd \<Rightarrow> 'd"
  d_Div :: "'d \<Rightarrow> 'd \<Rightarrow> 'd"
  d_Round :: "'d \<Rightarrow> int \<Rightarrow> 'd"
  d_IntPart :: "'d \<Rightarrow> int"
  d_NewFromInt :: "int \<Rightarrow> 'd"

definition decimalToStroops :: "'d decimal_ops \<Rightarrow> 'd \<Rightarrow> int" where
  "decimalToStroops ops d = d_IntPart ops (d_Round ops (d_Mul ops d (d_NewFromInt ops 10000000)) 0)"

definition stroopsToDecimal :: "'d decimal_ops \<Rightarrow> int \<Rightarrow> 'd" where
  "stroopsToDecimal ops s = d_Div ops (d_NewFromInt ops s) (d_NewFromInt ops 10000000)"

text \<open>
  What a call draws from outside: statement faults, commit outcomes, fresh identifiers
  (\<open>uuid.New\<close>, one per statement position), the transaction identifier and the server's clock.
\<close>

record ledger_env =
  env_flt :: sql_fault
  env_commit :: "nat \<Rightarrow> commit_outcome"
  env_newID :: "nat \<Rightarrow> uuid"
  env_txID :: uuid
  env_now :: time

text \<open>
  How a call runs: on the caller's handle (\<open>tx != nil\<close>), in a transaction of the service's
  own (\<open>tx == nil, s.db != nil\<close>), or with each repository call in its own transaction
  (\<open>tx == nil, s.db == nil\<close>).
\<close>

datatype tx_mode = CallerTx | OwnTx | Direct

section \<open>Accounts and entries of a posting\<close>

type_synonym account_key = "string \<times> uuid option \<times> uuid option \<times> string option"

text \<open>The sequence of \<open>GetOrCreateAccountTx\<close> calls that opens every \<open>post...WithTx\<close>, each with its early return.\<close>

fun accounts_tx :: "ledger_env \<Rightarrow> nat \<Rightarrow> LedgerDB \<Rightarrow> account_key list \<Rightarrow> ledger_error + (Account list \<times> LedgerDB)" where
  "accounts_tx env n db [] = Inr ([], db)"
| "accounts_tx env n db ((typ, vaultID, userID, adapter) # ks) =
     (case LedgerRepository_GetOrCreateAccountTx (env_flt env) n (env_newID env n) (env_now env) db
             typ vaultID userID adapter ''USDC'' of
        Inl err \<Rightarrow> Inl err
      | Inr (acc, db') \<Rightarrow>
          (case accounts_tx env (n + 3) db' ks of
             Inl err \<Rightarrow> Inl err
           | Inr (accs, db'') \<Rightarrow> Inr (acc # accs, db'')))"

text \<open>The same sequence of \<open>GetOrCreateAccount\<close> calls in every \<open>post...Direct\<close>: each commits on its own.\<close>

fun accounts_direct :: "ledger_env \<Rightarrow> nat \<Rightarrow> LedgerDB \<Rightarrow> account_key list \<Rightarrow> (ledger_error + Account list) \<times> LedgerDB" where
  "accounts_direct env n db [] = (Inr [], db)"
| "accounts_direct env n db ((typ, vaultID, userID, adapter) # ks) =
     (case LedgerRepository_GetOrCreateAccount (env_flt env) n (env_commit env n) (env_newID env n) (env_now env) db
             typ vaultID userID adapter ''USDC'' of
        (Inl err, db') \<Rightarrow> (Inl err, db')
      | (Inr acc, db') \<Rightarrow>
          (case accounts_direct env (n + 4) db' ks of
             (Inl err, db'') \<Rightarrow> (Inl err, db'')
           | (Inr accs, db'') \<Rightarrow> (Inr (acc # accs), db'')))"

definition posting_entry :: "uuid \<Rightarrow> string \<Rightarrow> string \<Rightarrow> Account \<Rightarrow> int \<Rightarrow> Entry" where
  "posting_entry txID eventType eventID acc amount =
     \<lparr>e_ID = uuid_Nil, e_TransactionID = txID, e_AccountID = acc_ID acc, e_Amount = amount,
      e_Direction = DirectionFromAmount amount, e_CreatedAt = 0,
      e_DomainEventType = eventType, e_DomainEventID = eventID,
      e_AssetCode = ''USDC'', e_AssetUnit = ''stroops''\<rparr>"

definition posting_entries :: "uuid \<Rightarrow> string \<Rightarrow> string \<Rightarrow> Account list \<Rightarrow> int list \<Rightarrow> Entry list" where
  "posting_entries txID eventType eventID accs amounts =
     map2 (posting_entry txID eventType eventID) accs amounts"

text \<open>The common shape of the \<open>WithTx\<close> and \<open>Direct\<close> bodies.\<close>

definition post_tx :: "ledger_env \<Rightarrow> string \<Rightarrow> string \<Rightarrow> account_key list \<Rightarrow> int list \<Rightarrow> LedgerDB \<Rightarrow> ledger_error + LedgerDB" where
  "post_tx env eventType eventID keys amounts tx =
     (case accounts_tx env 0 tx keys of
        Inl err \<Rightarrow> Inl err
      | Inr (accs, tx') \<Rightarrow>
          LedgerRepository_PostEntriesTx (env_flt env) 100 (env_newID env) (env_now env) (Some tx')
            (posting_entries (env_txID env) eventType eventID accs amounts))"

definition post_direct :: "ledger_env \<Rightarrow> string \<Rightarrow> string \<Rightarrow> account_key list \<Rightarrow> int list \<Rightarrow> LedgerDB \<Rightarrow> ledger_error option \<times> LedgerDB" where
  "post_direct env eventType eventID keys amounts db =
     (case accounts_direct env 0 db keys of
        (Inl err, db') \<Rightarrow> (Some err, db')
      | (Inr accs, db') \<Rightarrow>
          LedgerRepository_PostEntries (env_flt env) 100 (env_commit env 100) (env_newID env) (env_now env) db'
            (posting_entries (env_txID env) eventType eventID accs amounts))"

text \<open>
  The dispatch on \<open>tx\<close> and \<open>s.db\<close> that every public method repeats. On the caller's handle an
  error leaves the snapshot for the caller to roll back.
\<close>

definition dispatch_tx ::
  "ledger_env \<Rightarrow> tx_mode \<Rightarrow> LedgerDB \<Rightarrow> (LedgerDB \<Rightarrow> ledger_error + LedgerDB)
   \<Rightarrow> (LedgerDB \<Rightarrow> ledger_error option \<times> LedgerDB) \<Rightarrow> ledger_error option \<times> LedgerDB" where
  "dispatch_tx env mode db with_tx direct =
     (case mode of
        CallerTx \<Rightarrow> (case with_tx db of Inl err \<Rightarrow> (Some err, db) | Inr tx' \<Rightarrow> (None, tx'))
      | OwnTx \<Rightarrow>
          (case run_tx (env_flt env) 200 (env_commit env 200) db
                  (\<lambda>tx. case with_tx tx of Inl err \<Rightarrow> Inl err | Inr tx' \<Rightarrow> Inr ((), tx')) of
             (Inl err, db') \<Rightarrow> (Some err, db')
           | (Inr _, db') \<Rightarrow> (None, db'))
      | Direct \<Rightarrow> direct db)"

section \<open>Deposits and withdrawals\<close>

definition position_keys :: "uuid \<Rightarrow> uuid \<Rightarrow> account_key list" where
  "position_keys vaultID userID =
     [(AccountTypeUserVaultPosition, Some vaultID, Some userID, None),
      (AccountTypeVaultAssetPool, Some vaultID, None, None),
      (AccountTypeSystemSuspense, None, None, None)]"

definition postDepositWithTx :: "ledger_env \<Rightarrow> uuid \<Rightarrow> uuid \<Rightarrow> int \<Rightarrow> string \<Rightarrow> LedgerDB \<Rightarrow> ledger_error + LedgerDB" where
  "postDepositWithTx env vaultID userID stroops eventID tx =
     post_tx env ''deposit'' eventID (position_keys vaultID userID)
       [stroops, stroops, wrap64 (- 2 * stroops)] tx"

definition postDepositDirect :: "ledger_env \<Rightarrow> uuid \<Rightarrow> uuid \<Rightarrow> int \<Rightarrow> string \<Rightarrow> LedgerDB \<Rightarrow> ledger_error option \<times> LedgerDB" where
  "postDepositDirect env vaultID userID stroops eventID db =
     post_direct env ''deposit'' eventID (position_keys vaultID userID)
       [stroops, stroops, wrap64 (- 2 * stroops)] db"

definition LedgerService_PostDeposit ::
  "'d decimal_ops \<Rightarrow> ledger_env \<Rightarrow> tx_mode \<Rightarrow> LedgerDB \<Rightarrow> uuid \<Rightarrow> uuid \<Rightarrow> 'd \<Rightarrow> string \<Rightarrow> ledger_error option \<times> LedgerDB" where
  "LedgerService_PostDeposit ops env mode db vaultID userID amount eventID =
     (let stroops = decimalToStroops ops amount in
      if stroops \<le> 0 then (Some (ErrNotPositive ''deposit amount must be positive''), db)
      else dispatch_tx env mode db
        (postDepositWithTx env vaultID userID stroops eventID)
        (postDepositDirect env vaultID userID stroops eventID))"

definition postWithdrawalWithTx :: "ledger_env \<Rightarrow> uuid \<Rightarrow> uuid \<Rightarrow> int \<Rightarrow> string \<Rightarrow> LedgerDB \<Rightarrow> ledger_error + LedgerDB" where
  "postWithdrawalWithTx env vaultID userID stroops eventID tx =
     post_tx env ''withdraw'' eventID (position_keys vaultID userID)
       [wrap64 (- stroops), wrap64 (- stroops), wrap64 (2 * stroops)] tx"

definition postWithdrawalDirect :: "ledger_env \<Rightarrow> uuid \<Rightarrow> uuid \<Rightarrow> int \<Rightarrow> string \<Rightarrow> LedgerDB \<Rightarrow> ledger_error option \<times> LedgerDB" where
  "postWithdrawalDirect env vaultID userID stroops eventID db =
     post_direct env ''withdraw'' eventID (position_keys vaultID userID)
       [wrap64 (- stroops), wrap64 (- stroops), wrap64 (2 * stroops)] db"

definition LedgerService_PostWithdrawal ::
  "'d decimal_ops \<Rightarrow> ledger_env \<Rightarrow> tx_mode \<Rightarrow> LedgerDB \<Rightarrow> uuid \<Rightarrow> uuid \<Rightarrow> 'd \<Rightarrow> string \<Rightarrow> ledger_error option \<times> LedgerDB" where
  "LedgerService_PostWithdrawal ops env mode db vaultID userID amount eventID =
     (let stroops = decimalToStroops ops amount in
      if stroops \<le> 0 then (Some (ErrNotPositive ''withdrawal amount must be positive''), db)
      else dispatch_tx env mode db
        (postWithdrawalWithTx env vaultID userID stroops eventID)
        (postWithdrawalDirect env vaultID userID stroops eventID))"

section \<open>Harvests\<close>

definition harvest_keys :: "uuid \<Rightarrow> uuid \<Rightarrow> string \<Rightarrow> account_key list" where
  "harvest_keys vaultID userID adapter =
     [(AccountTypeVaultAssetPool, Some vaultID, None, None),
      (AccountTypeUserVaultPosition, Some vaultID, Some userID, None),
      (AccountTypeFee, None, None, None),
      (AccountTypeYieldSource, None, None, Some adapter),
      (AccountTypeSystemSuspense, None, None, None)]"

definition harvest_amounts :: "int \<Rightarrow> int \<Rightarrow> int \<Rightarrow> int list" where
  "harvest_amounts net fee gross = [net, net, fee, wrap64 (- gross), wrap64 (- net)]"

definition postHarvestWithTx ::
  "ledger_env \<Rightarrow> uuid \<Rightarrow> uuid \<Rightarrow> int \<Rightarrow> int \<Rightarrow> int \<Rightarrow> string \<Rightarrow> string \<Rightarrow> LedgerDB \<Rightarrow> ledger_error + LedgerDB" where
  "postHarvestWithTx env vaultID userID net fee gross adapter eventID tx =
     (case accounts_tx env 0 tx (harvest_keys vaultID userID adapter) of
        Inl err \<Rightarrow> Inl err
      | Inr (accs, tx') \<Rightarrow>
          (let entries = posting_entries (env_txID env) ''harvest'' eventID accs (harvest_amounts net fee gross);
               filtered = filter (\<lambda>e. e_Amount e \<noteq> 0) entries
           in if length filtered < 2 then Inr tx'
              else LedgerRepository_PostEntriesTx (env_flt env) 100 (env_newID env) (env_now env) (Some tx') filtered))"

definition postHarvestDirect ::
  "ledger_env \<Rightarrow> uuid \<Rightarrow> uuid \<Rightarrow> int \<Rightarrow> int \<Rightarrow> int \<Rightarrow> string \<Rightarrow> string \<Rightarrow> LedgerDB \<Rightarrow> ledger_error option \<times> LedgerDB" where
  "postHarvestDirect env vaultID userID net fee gross adapter eventID db =
     (case accounts_direct env 0 db (harvest_keys vaultID userID adapter) of
        (Inl err, db') \<Rightarrow> (Some err, db')
      | (Inr accs, db') \<Rightarrow>
          (let entries = posting_entries (env_txID env) ''harvest'' eventID accs (harvest_amounts net fee gross);
               filtered = filter (\<lambda>e. e_Amount e \<noteq> 0) entries
           in if length filtered < 2 then (None, db')
              else LedgerRepository_PostEntries (env_flt env) 100 (env_commit env 100) (env_newID env) (env_now env) db' filtered))"

text \<open>The guard on \<open>gross = net + fee\<close> has an empty body in the source, so nothing depends on it here.\<close>

definition LedgerService_PostHarvest ::
  "'d decimal_ops \<Rightarrow> ledger_env \<Rightarrow> tx_mode \<Rightarrow> LedgerDB \<Rightarrow> uuid \<Rightarrow> uuid \<Rightarrow> 'd \<Rightarrow> 'd \<Rightarrow> 'd \<Rightarrow> string \<Rightarrow> string
   \<Rightarrow> ledger_error option \<times> LedgerDB" where
  "LedgerService_PostHarvest ops env mode db vaultID userID netYield fee grossYield adapter eventID =
     (let net = decimalToStroops ops netYield; fee = decimalToStroops ops fee;
          gross = decimalToStroops ops grossYield
      in dispatch_tx env mode db
        (postHarvestWithTx env vaultID userID net fee gross adapter eventID)
        (postHarvestDirect env vaultID userID net fee gross adapter eventID))"

section \<open>Rebalances\<close>

definition rebalance_keys :: "string \<Rightarrow> string \<Rightarrow> account_key list" where
  "rebalance_keys fromAdapter toAdapter =
     [(AccountTypeYieldSource, None, None, Some fromAdapter),
      (AccountTypeYieldSource, None, None, Some toAdapter)]"

definition postRebalanceWithTx :: "ledger_env \<Rightarrow> string \<Rightarrow> string \<Rightarrow> int \<Rightarrow> string \<Rightarrow> LedgerDB \<Rightarrow> ledger_error + LedgerDB" where
  "postRebalanceWithTx env fromAdapter toAdapter stroops eventID tx =
     post_tx env ''rebalance'' eventID (rebalance_keys fromAdapter toAdapter) [wrap64 (- stroops), stroops] tx"

definition postRebalanceDirect :: "ledger_env \<Rightarrow> string \<Rightarrow> string \<Rightarrow> int \<Rightarrow> string \<Rightarrow> LedgerDB \<Rightarrow> ledger_error option \<times> LedgerDB" where
  "postRebalanceDirect env fromAdapter toAdapter stroops eventID db =
     post_direct env ''rebalance'' eventID (rebalance_keys fromAdapter toAdapter) [wrap64 (- stroops), stroops] db"

definition LedgerService_PostRebalance ::
  "'d decimal_ops \<Rightarrow> ledger_env \<Rightarrow> tx_mode \<Rightarrow> LedgerDB \<Rightarrow> string \<Rightarrow> string \<Rightarrow> 'd \<Rightarrow> string \<Rightarrow> ledger_error option \<times> LedgerDB" where
  "LedgerService_PostRebalance ops env mode db fromAdapter toAdapter amount eventID =
     (let stroops = decimalToStroops ops amount in
      if stroops \<le> 0 then (Some (ErrNotPositive ''rebalance amount must be positive''), db)
      else if fromAdapter = toAdapter then (Some ErrSameAdapter, db)
      else dispatch_tx env mode db
        (postRebalanceWithTx env fromAdapter toAdapter stroops eventID)
        (postRebalanceDirect env fromAdapter toAdapter stroops eventID))"

section \<open>Reads and checks\<close>

definition LedgerService_GetUserVaultBalance ::
  "'d decimal_ops \<Rightarrow> sql_fault \<Rightarrow> LedgerDB \<Rightarrow> uuid \<Rightarrow> uuid \<Rightarrow> ledger_error + 'd" where
  "LedgerService_GetUserVaultBalance ops flt db userID vaultID =
     map_sum id (stroopsToDecimal ops) (LedgerRepository_GetUserVaultBalance flt db userID vaultID)"

definition LedgerService_GetVaultPoolBalance ::
  "'d decimal_ops \<Rightarrow> sql_fault \<Rightarrow> LedgerDB \<Rightarrow> uuid \<Rightarrow> ledger_error + 'd" where
  "LedgerService_GetVaultPoolBalance ops flt db vaultID =
     map_sum id (stroopsToDecimal ops) (LedgerRepository_GetVaultPoolBalance flt db vaultID)"

definition LedgerService_GetUserPortfolioTotal ::
  "'d decimal_ops \<Rightarrow> sql_fault \<Rightarrow> LedgerDB \<Rightarrow> uuid \<Rightarrow> ledger_error + 'd" where
  "LedgerService_GetUserPortfolioTotal ops flt db userID =
     (case LedgerRepository_ListAllBalances flt db of
        Inl err \<Rightarrow> Inl err
      | Inr balances \<Rightarrow> Inr (d_NewFromInt ops 0))"

definition LedgerService_ValidateBooks :: "sql_fault \<Rightarrow> LedgerDB \<Rightarrow> ledger_error option" where
  "LedgerService_ValidateBooks flt db =
     (case LedgerRepository_SumAllEntries flt db of
        Inl err \<Rightarrow> Some err
      | Inr s \<Rightarrow> if s \<noteq> 0 then Some (ErrBooksUnbalanced s) else None)"

definition LedgerService_VerifyBalances :: "sql_fault \<Rightarrow> LedgerDB \<Rightarrow> ledger_error + BalanceMismatch list" where
  "LedgerService_VerifyBalances flt db = LedgerRepository_RecomputeBalances flt db"

end
