(* ===== verification/Ledger_Service_Correct.thy ===== *)
theory Ledger_Service_Correct
  imports Ledger_Service
begin

text \<open>
  What a posting of the service does to the ledger: which balances move and by how much,
  that nothing else does, and that a posting is all or nothing and happens at most once
  per domain event.
\<close>

section \<open>Acquiring accounts\<close>

fun key_match :: "account_key \<Rightarrow> Account \<Rightarrow> bool" where
  "key_match (typ, v, u, ad) a = account_match typ v u ad ''USDC'' a"

definition holds :: "LedgerDB \<Rightarrow> account_key \<Rightarrow> Account \<Rightarrow> bool" where
  "holds db k a \<longleftrightarrow> a \<in> set (db_accounts db) \<and> key_match k a"

text \<open>\<open>db'\<close> has the rows of \<open>db\<close> and perhaps more accounts.\<close>

definition acct_ext :: "LedgerDB \<Rightarrow> LedgerDB \<Rightarrow> bool" where
  "acct_ext db db' \<longleftrightarrow> set (db_accounts db) \<subseteq> set (db_accounts db') \<and>
     db_entries db' = db_entries db \<and> db_balances db' = db_balances db \<and>
     db_vaults db' = db_vaults db \<and> db_users db' = db_users db \<and> db_recon db' = db_recon db"

lemma acct_ext_refl [simp]: "acct_ext db db"
  by (simp add: acct_ext_def)

lemma acct_ext_trans: "acct_ext a b \<Longrightarrow> acct_ext b c \<Longrightarrow> acct_ext a c"
  by (auto simp: acct_ext_def)

lemma acct_ext_cached: "acct_ext db db' \<Longrightarrow> cached_balance db' i = cached_balance db i"
  by (simp add: acct_ext_def cached_balance_def)

text \<open>
  The interface the posting code relies on: a provider of accounts keeps the ledger's
  invariant and its rows, and answers a key with an account of that key. The two ways the
  service asks for accounts, inside a transaction and directly, are both providers.
\<close>

inductive acquires ::
  "(LedgerDB \<Rightarrow> account_key \<Rightarrow> Account \<Rightarrow> LedgerDB \<Rightarrow> bool) \<Rightarrow> LedgerDB \<Rightarrow> account_key list \<Rightarrow> Account list \<Rightarrow> LedgerDB \<Rightarrow> bool"
  for acq where
  acquires_Nil: "acquires acq db [] [] db"
| acquires_Cons: "acq db k a db1 \<Longrightarrow> acquires acq db1 ks accs db2 \<Longrightarrow> acquires acq db (k # ks) (a # accs) db2"

locale account_provider =
  fixes acq :: "LedgerDB \<Rightarrow> account_key \<Rightarrow> Account \<Rightarrow> LedgerDB \<Rightarrow> bool"
  assumes acq_inv: "ledger_inv db \<Longrightarrow> acq db k a db' \<Longrightarrow> ledger_inv db'"
    and acq_holds: "acq db k a db' \<Longrightarrow> holds db' k a"
    and acq_ext: "acq db k a db' \<Longrightarrow> acct_ext db db'"
begin

lemma acquires_ok:
  "acquires acq db ks accs db' \<Longrightarrow> ledger_inv db \<Longrightarrow>
     ledger_inv db' \<and> acct_ext db db' \<and> list_all2 (holds db') ks accs"
proof (induction rule: acquires.induct)
  case (acquires_Nil db)
  then show ?case by simp
next
  case (acquires_Cons db k a db1 ks accs db2)
  then have inv1: "ledger_inv db1" using acq_inv by blast
  with acquires_Cons have "ledger_inv db2" "acct_ext db1 db2" "list_all2 (holds db2) ks accs" by auto
  moreover have "holds db2 k a"
    using acq_holds [OF acquires_Cons.hyps(1)] \<open>acct_ext db1 db2\<close> by (auto simp: holds_def acct_ext_def)
  ultimately show ?case using acct_ext_trans acq_ext [OF acquires_Cons.hyps(1)] by auto
qed

end

lemma account_match_sym:
  "account_match (acc_AccountType a) (acc_VaultID a) (acc_UserID a) (acc_AdapterName a) (acc_AssetCode a) b \<longleftrightarrow>
   account_match (acc_AccountType b) (acc_VaultID b) (acc_UserID b) (acc_AdapterName b) (acc_AssetCode b) a"
proof (cases "acc_AccountType b = acc_AccountType a \<and> acc_AssetCode b = acc_AssetCode a")
  case True
  then show ?thesis
    by (simp add: account_match_def sql_eq_sym [of "acc_VaultID b"] sql_eq_sym [of "acc_UserID b"]
        sql_eq_sym [of "acc_AdapterName b"])
next
  case False
  then show ?thesis by (auto simp: account_match_def)
qed

lemma account_conflict_sym: "account_conflict a b \<longleftrightarrow> account_conflict b a"
  using account_match_sym by (auto simp: account_conflict_def)

lemma accounts_ok_snoc:
  assumes ok: "accounts_ok accs" and new: "\<not> list_ex (account_conflict a) accs"
  shows "accounts_ok (accs @ [a])"
proof -
  have new': "\<not> account_conflict a b" "\<not> account_conflict b a" if "b \<in> set accs" for b
    using new that account_conflict_sym [of a b] by (auto simp: list_ex_iff)
  then have "acc_ID a \<notin> acc_ID ` set accs" by (auto simp: account_conflict_def)
  with ok new' show ?thesis by (auto simp: accounts_ok_def)
qed

lemma insert_account_ok:
  assumes "insert_account db a = Inr (w, db')"
  shows "acct_ext db db'" "ledger_inv db \<Longrightarrow> ledger_inv db'"
  using assms
  by (auto simp: insert_account_def acct_ext_def ledger_inv_def keyed_entries_def cached_balance_def
      accounts_ok_snoc split: if_splits)

lemma select_account_Inr:
  "select_account db typ v u ad ac = Inr a \<Longrightarrow> a \<in> set (db_accounts db) \<and> account_match typ v u ad ac a"
  by (auto simp: select_account_def dest: find_SomeD split: option.splits)

lemma getOrCreateAccountTx_ok:
  assumes "getOrCreateAccountTx flt n newID now db typ v u ad ac = Inr (a, db')"
  shows "acct_ext db db' \<and> (ledger_inv db \<longrightarrow> ledger_inv db') \<and>
    a \<in> set (db_accounts db') \<and> account_match typ v u ad ac a"
  using assms unfolding getOrCreateAccountTx_def
  by (auto split: option.splits if_splits sum.splits
      dest!: select_account_Inr dest: insert_account_ok)

definition acq_tx :: "LedgerDB \<Rightarrow> account_key \<Rightarrow> Account \<Rightarrow> LedgerDB \<Rightarrow> bool" where
  "acq_tx db k a db' \<longleftrightarrow> (\<exists>flt n newID now. case k of (typ, v, u, ad) \<Rightarrow>
     LedgerRepository_GetOrCreateAccountTx flt n newID now db typ v u ad ''USDC'' = Inr (a, db'))"

definition acq_direct :: "LedgerDB \<Rightarrow> account_key \<Rightarrow> Account \<Rightarrow> LedgerDB \<Rightarrow> bool" where
  "acq_direct db k a db' \<longleftrightarrow> (\<exists>flt n commit newID now. case k of (typ, v, u, ad) \<Rightarrow>
     LedgerRepository_GetOrCreateAccount flt n commit newID now db typ v u ad ''USDC'' = (Inr a, db'))"

lemma acq_tx_ok:
  assumes "acq_tx db k a db'"
  shows "acct_ext db db' \<and> (ledger_inv db \<longrightarrow> ledger_inv db') \<and> holds db' k a"
  using assms getOrCreateAccountTx_ok
  by (cases k) (fastforce simp: acq_tx_def LedgerRepository_GetOrCreateAccountTx_def default_asset_def holds_def)

lemma acq_direct_tx: "acq_direct db k a db' \<Longrightarrow> acq_tx db k a db'"
  by (cases k) (auto simp: acq_direct_def acq_tx_def LedgerRepository_GetOrCreateAccount_def
      LedgerRepository_GetOrCreateAccountTx_def dest!: run_tx_cases)

interpretation in_tx: account_provider acq_tx
  using acq_tx_ok by unfold_locales blast+

interpretation direct: account_provider acq_direct
  using acq_tx_ok acq_direct_tx by unfold_locales blast+

lemma accounts_tx_acquires:
  "accounts_tx env n db ks = Inr (accs, db') \<Longrightarrow> acquires acq_tx db ks accs db'"
proof (induction env n db ks arbitrary: accs db' rule: accounts_tx.induct)
  case (1 env n db)
  then show ?case by (simp add: acquires_Nil)
next
  case (2 env n db ty v u ad ks)
  from "2.prems" obtain acc db1 rest where
      get: "LedgerRepository_GetOrCreateAccountTx (env_flt env) n (env_newID env n) (env_now env) db ty v u ad ''USDC'' = Inr (acc, db1)"
    and rest: "accounts_tx env (n + 3) db1 ks = Inr (rest, db')" and accs: "accs = acc # rest"
    by (auto split: sum.splits)
  have "acq_tx db (ty, v, u, ad) acc db1" using get unfolding acq_tx_def prod.case by blast
  moreover have "acquires acq_tx db1 ks rest db'" using "2.IH" get rest by simp
  ultimately show ?case unfolding accs by (rule acquires_Cons)
qed

lemma accounts_direct_acquires:
  "accounts_direct env n db ks = (Inr accs, db') \<Longrightarrow> acquires acq_direct db ks accs db'"
proof (induction env n db ks arbitrary: accs db' rule: accounts_direct.induct)
  case (1 env n db)
  then show ?case by (simp add: acquires_Nil)
next
  case (2 env n db ty v u ad ks)
  from "2.prems" obtain acc db1 rest where
      get: "LedgerRepository_GetOrCreateAccount (env_flt env) n (env_commit env n) (env_newID env n) (env_now env) db ty v u ad ''USDC'' = (Inr acc, db1)"
    and rest: "accounts_direct env (n + 4) db1 ks = (Inr rest, db')" and accs: "accs = acc # rest"
    by (auto split: sum.splits prod.splits)
  have "acq_direct db (ty, v, u, ad) acc db1" using get unfolding acq_direct_def prod.case by blast
  moreover have "acquires acq_direct db1 ks rest db'" using "2.IH" get rest by simp
  ultimately show ?case unfolding accs by (rule acquires_Cons)
qed

section \<open>Reading a balance by key\<close>

definition key_balance :: "LedgerDB \<Rightarrow> account_key \<Rightarrow> int" where
  "key_balance db k = first_balance (joined_balances db (key_match k))"

lemma key_match_unique:
  assumes "accounts_ok accs" "a \<in> set accs" "b \<in> set accs" "key_match k a" "key_match k b"
  shows "a = b"
proof -
  obtain ty v u ad where k: "k = (ty, v, u, ad)" by (cases k)
  with assms(4,5) have "account_conflict a b"
    by (auto simp: account_conflict_def account_match_def sql_eq_iff split: if_splits)
  with assms(1-3) show ?thesis by (auto simp: accounts_ok_def)
qed

lemma joined_balances_Nil:
  "(\<And>a. a \<in> set (db_accounts db) \<Longrightarrow> \<not> P a) \<Longrightarrow> joined_balances db P = []"
  by (auto simp: joined_balances_def map_filter_def filter_empty_conv)

lemma first_balance_unique:
  assumes only: "\<And>b. b \<in> set accs \<Longrightarrow> P b \<longleftrightarrow> b = a" and mem: "a \<in> set accs"
  shows "first_balance (List.map_filter (\<lambda>b. if P b then map_option (\<lambda>r. (acc_ID b, b_Balance r)) (g b) else None) accs) =
    (case g a of None \<Rightarrow> 0 | Some r \<Rightarrow> b_Balance r)"
proof -
  let ?f = "\<lambda>b. if P b then map_option (\<lambda>r. (acc_ID b, b_Balance r)) (g b) else None"
  show ?thesis
  proof (cases "g a")
    case None
    then have "List.map_filter ?f accs = []"
      using only by (auto simp: map_filter_def filter_empty_conv)
    with None show ?thesis by (simp add: first_balance_def)
  next
    case (Some r)
    then have "filter (\<lambda>b. ?f b \<noteq> None) accs \<noteq> []"
      using only mem by (auto simp: filter_empty_conv)
    then obtain c cs where cs: "filter (\<lambda>b. ?f b \<noteq> None) accs = c # cs" by (meson neq_Nil_conv)
    then have "c \<in> set (filter (\<lambda>b. ?f b \<noteq> None) accs)" by simp
    then have "c = a" using only by (auto split: if_splits)
    with cs Some only mem show ?thesis by (simp add: map_filter_def first_balance_def)
  qed
qed

lemma key_balance_cached:
  assumes "accounts_ok (db_accounts db)" and "holds db k a"
  shows "key_balance db k = cached_balance db (acc_ID a)"
proof -
  have "\<And>b. b \<in> set (db_accounts db) \<Longrightarrow> key_match k b \<longleftrightarrow> b = a"
    using assms key_match_unique [of "db_accounts db"] by (metis holds_def)
  then show ?thesis
    using first_balance_unique [of "db_accounts db" "key_match k" a "balance_row db"] assms(2)
    by (simp add: key_balance_def joined_balances_def balance_row_def cached_balance_def holds_def)
qed

text \<open>A key's balance is the cached balance of the account the service acquires for it, created or not.\<close>

lemma key_balance_ext:
  assumes inv: "ledger_inv db" "ledger_inv db1" and ext: "acct_ext db db1" and h: "holds db1 k a"
  shows "key_balance db k = cached_balance db1 (acc_ID a)"
proof (cases "a \<in> set (db_accounts db)")
  case True
  then show ?thesis
    using key_balance_cached [of db k a] inv h acct_ext_cached [OF ext] by (simp add: holds_def ledger_inv_def)
next
  case False
  have ok1: "accounts_ok (db_accounts db1)" using inv by (simp add: ledger_inv_def)
  have fresh: "acc_ID a \<notin> acc_ID ` set (db_accounts db)"
  proof
    assume "acc_ID a \<in> acc_ID ` set (db_accounts db)"
    then obtain b where "b \<in> set (db_accounts db)" "acc_ID b = acc_ID a" by auto
    then have "b = a" using ok1 ext h distinct_map_unique [of acc_ID "db_accounts db1" b a]
      by (auto simp: accounts_ok_def acct_ext_def holds_def)
    with \<open>b \<in> set (db_accounts db)\<close> False show False by simp
  qed
  have "filter (\<lambda>e. e_AccountID e = acc_ID a) (db_entries db) = []"
  proof -
    have "\<forall>e \<in> set (db_entries db). e_AccountID e \<in> acc_ID ` set (db_accounts db)"
      using inv(1) by (simp add: ledger_inv_def)
    with fresh show ?thesis by (metis (mono_tags, lifting) filter_False)
  qed
  then have "cached_balance db (acc_ID a) = 0" using inv(1) by (simp add: ledger_inv_def legs_on_def)
  moreover have "joined_balances db (key_match k) = []"
    using False key_match_unique [OF ok1, of _ a k] ext h by (intro joined_balances_Nil) (auto simp: acct_ext_def holds_def)
  ultimately show ?thesis using acct_ext_cached [OF ext] by (simp add: key_balance_def first_balance_def)
qed

section \<open>The effect of a posting\<close>

text \<open>
  What a completed posting of the service is: accounts for the keys, one entry per account
  with a nonzero amount, balanced, and the resulting database. A harvest of nothing posts
  no entry at all.
\<close>

definition nonzero :: "Entry list \<Rightarrow> Entry list" where
  "nonzero es = filter (\<lambda>e. e_Amount e \<noteq> 0) es"

definition service_posted ::
  "LedgerDB \<Rightarrow> string \<Rightarrow> string \<Rightarrow> account_key list \<Rightarrow> int list \<Rightarrow> LedgerDB \<Rightarrow> bool" where
  "service_posted db eventType eventID keys amounts db' \<longleftrightarrow>
     (\<exists>db1 accs txID. ledger_inv db1 \<and> acct_ext db db1 \<and> list_all2 (holds db1) keys accs \<and>
        (nonzero (posting_entries txID eventType eventID accs amounts) = [] \<or>
         ValidateBalanced (nonzero (posting_entries txID eventType eventID accs amounts)) = None) \<and>
        ledger_inv db' \<and> posted db1 (nonzero (posting_entries txID eventType eventID accs amounts)) db')"

text \<open>A call that posted nothing may still have created accounts.\<close>

definition unposted :: "LedgerDB \<Rightarrow> LedgerDB \<Rightarrow> bool" where
  "unposted db db' \<longleftrightarrow> acct_ext db db' \<and> ledger_inv db'"

lemma unposted_refl: "ledger_inv db \<Longrightarrow> unposted db db"
  by (simp add: unposted_def)

lemma legs_on_nonzero [simp]: "legs_on i (nonzero es) = legs_on i es"
  by (induction es) (auto simp: nonzero_def)

lemma entries_total_nonzero [simp]: "entries_total (nonzero es) = entries_total es"
  by (induction es) (auto simp: nonzero_def)

lemma nonzero_valid: "ValidateBalanced es = None \<Longrightarrow> nonzero es = es"
  by (auto simp: nonzero_def ValidateBalanced_None posting_shape_def intro: filter_True)

lemma int64_nonzero: "int64_entries es \<Longrightarrow> int64_entries (nonzero es)"
  by (auto simp: int64_entries_def nonzero_def)

definition keys_disjoint :: "account_key list \<Rightarrow> bool" where
  "keys_disjoint keys \<longleftrightarrow> sorted_wrt (\<lambda>k k'. \<forall>a. \<not> (key_match k a \<and> key_match k' a)) keys"

lemma posting_entry_simps [simp]:
  "e_AccountID (posting_entry tx et ev a x) = acc_ID a"
  "e_Amount (posting_entry tx et ev a x) = x"
  "e_TransactionID (posting_entry tx et ev a x) = tx"
  "e_DomainEventType (posting_entry tx et ev a x) = et"
  "e_DomainEventID (posting_entry tx et ev a x) = ev"
  "event_key (posting_entry tx et ev a x) = (et, ev, acc_ID a)"
  by (simp_all add: posting_entry_def event_key_def)

lemma posting_entries_simps [simp]:
  "posting_entries tx et ev [] xs = []"
  "posting_entries tx et ev accs [] = []"
  "posting_entries tx et ev (a # accs) (x # xs) = posting_entry tx et ev a x # posting_entries tx et ev accs xs"
  by (simp_all add: posting_entries_def)

lemma posting_entries_total:
  "length accs = length xs \<Longrightarrow> entries_total (posting_entries tx et ev accs xs) = sum_list xs"
  by (induction accs xs rule: list_induct2) simp_all

lemma posting_entries_int64: "(\<And>x. x \<in> set xs \<Longrightarrow> in64 x) \<Longrightarrow> int64_entries (posting_entries tx et ev accs xs)"
  by (auto simp: int64_entries_def posting_entries_def dest!: set_zip_rightD)

lemma legs_on_absent: "i \<notin> acc_ID ` set accs \<Longrightarrow> legs_on i (posting_entries tx et ev accs xs) = 0"
proof (induction accs arbitrary: xs)
  case (Cons a accs)
  then show ?case by (cases xs) auto
qed simp

lemma legs_on_nth:
  "length accs = length xs \<Longrightarrow> distinct (map acc_ID accs) \<Longrightarrow> j < length xs \<Longrightarrow>
     legs_on (acc_ID (accs ! j)) (posting_entries tx et ev accs xs) = xs ! j"
proof (induction accs xs arbitrary: j rule: list_induct2)
  case (Cons a accs x xs)
  then show ?case by (cases j) (auto simp: legs_on_absent)
qed simp

lemma holders_distinct:
  assumes "keys_disjoint keys" and "list_all2 (holds db) keys accs" and "ledger_inv db"
  shows "distinct (map acc_ID accs)"
  using assms(2,1)
proof (induction rule: list_all2_induct)
  case (Cons k keys a accs)
  have "acc_ID a \<noteq> acc_ID b" if b: "b \<in> set accs" for b
  proof
    assume eq: "acc_ID a = acc_ID b"
    obtain k' where k': "k' \<in> set keys" "holds db k' b"
      using Cons.hyps(2) b by (rule list_all2_rightE)
    have "a = b"
      using eq k' Cons.hyps(1) assms(3) distinct_map_unique [of acc_ID "db_accounts db" a b]
      by (auto simp: holds_def ledger_inv_def accounts_ok_def)
    with k' Cons.hyps(1) Cons.prems show False by (auto simp: keys_disjoint_def holds_def)
  qed
  with Cons show ?case by (auto simp: keys_disjoint_def)
qed simp

lemma service_posted_key:
  assumes "service_posted db et ev keys amounts db'" and "ledger_inv db" and "keys_disjoint keys"
    and "length amounts = length keys" and "j < length keys"
  shows "key_balance db' (keys ! j) = key_balance db (keys ! j) + amounts ! j"
proof -
  obtain db1 accs tx where inv1: "ledger_inv db1" and ext: "acct_ext db db1"
    and hold: "list_all2 (holds db1) keys accs" and inv': "ledger_inv db'"
    and post: "posted db1 (nonzero (posting_entries tx et ev accs amounts)) db'"
    using assms(1) by (auto simp: service_posted_def)
  let ?a = "accs ! j"
  have len: "length accs = length amounts" using hold assms(4) by (simp add: list_all2_lengthD)
  have h1: "holds db1 (keys ! j) ?a" using hold assms(5) by (simp add: list_all2_nthD)
  have h': "holds db' (keys ! j) ?a" using h1 post by (simp add: holds_def posted_def)
  have "key_balance db' (keys ! j) = cached_balance db' (acc_ID ?a)"
    using key_balance_cached [OF _ h'] inv' by (simp add: ledger_inv_def)
  also have "\<dots> = cached_balance db1 (acc_ID ?a) + amounts ! j"
    using post legs_on_nth [OF len holders_distinct [OF assms(3) hold inv1], of j] assms(4,5)
    by (simp add: posted_def)
  also have "cached_balance db1 (acc_ID ?a) = key_balance db (keys ! j)"
    using key_balance_ext [OF assms(2) inv1 ext h1] by simp
  finally show ?thesis .
qed

lemma service_posted_frame:
  assumes "service_posted db et ev keys amounts db'" and "ledger_inv db"
    and "a \<in> set (db_accounts db)" and "\<And>k. k \<in> set keys \<Longrightarrow> \<not> key_match k a"
  shows "cached_balance db' (acc_ID a) = cached_balance db (acc_ID a)"
proof -
  obtain db1 accs tx where inv1: "ledger_inv db1" and ext: "acct_ext db db1"
    and hold: "list_all2 (holds db1) keys accs"
    and post: "posted db1 (nonzero (posting_entries tx et ev accs amounts)) db'"
    using assms(1) by (auto simp: service_posted_def)
  have "acc_ID a \<notin> acc_ID ` set accs"
  proof
    assume "acc_ID a \<in> acc_ID ` set accs"
    then obtain b where b: "b \<in> set accs" "acc_ID b = acc_ID a" by auto
    obtain k where k: "k \<in> set keys" "holds db1 k b" using hold b(1) by (rule list_all2_rightE)
    with b have "b = a"
      using assms(3) ext inv1 distinct_map_unique [of acc_ID "db_accounts db1" b a]
      by (auto simp: holds_def ledger_inv_def accounts_ok_def acct_ext_def)
    with k show False using assms(4) by (auto simp: holds_def)
  qed
  then show ?thesis using post acct_ext_cached [OF ext] by (simp add: posted_def legs_on_absent)
qed

lemma service_posted_total:
  assumes "service_posted db et ev keys amounts db'" and "length amounts = length keys"
  shows "entries_total (db_entries db') = entries_total (db_entries db) + sum_list amounts"
proof -
  obtain db1 accs tx where ext: "acct_ext db db1" and hold: "list_all2 (holds db1) keys accs"
    and post: "posted db1 (nonzero (posting_entries tx et ev accs amounts)) db'"
    using assms(1) by (auto simp: service_posted_def)
  have "length accs = length amounts" using hold assms(2) by (simp add: list_all2_lengthD)
  then show ?thesis using posted_total [OF post] ext by (simp add: posting_entries_total acct_ext_def)
qed

lemma service_posted_balanced:
  assumes "service_posted db et ev keys amounts db'" and "length amounts = length keys"
    and "\<bar>sum_list amounts\<bar> < 2 ^ 64"
  shows "sum_list amounts = 0"
proof -
  obtain db1 accs tx where hold: "list_all2 (holds db1) keys accs"
    and val: "nonzero (posting_entries tx et ev accs amounts) = [] \<or>
      ValidateBalanced (nonzero (posting_entries tx et ev accs amounts)) = None"
    using assms(1) by (auto simp: service_posted_def)
  let ?es = "posting_entries tx et ev accs amounts"
  have "length accs = length amounts" using hold assms(2) by (simp add: list_all2_lengthD)
  then have sum: "entries_total (nonzero ?es) = sum_list amounts" by (simp add: posting_entries_total)
  from val show ?thesis
  proof
    assume "nonzero ?es = []"
    then show ?thesis using sum by simp
  next
    assume "ValidateBalanced (nonzero ?es) = None"
    then show ?thesis using ValidateBalanced_exact [of "nonzero ?es"] assms(3) unfolding sum by simp
  qed
qed

lemma service_posted_inv: "service_posted db et ev keys amounts db' \<Longrightarrow> ledger_inv db'"
  by (auto simp: service_posted_def)

section \<open>The three ways a posting runs\<close>

lemma PostEntriesTx_Inr:
  "LedgerRepository_PostEntriesTx flt n newID now (Some db) es = Inr db' \<Longrightarrow>
     ValidateBalanced es = None \<and> postEntriesTx flt n newID now db es = Inr db'"
  by (auto simp: LedgerRepository_PostEntriesTx_def split: option.splits sum.splits)

lemma service_postedI:
  assumes "ledger_inv db1 \<and> acct_ext db db1 \<and> list_all2 (holds db1) keys accs"
    and "ValidateBalanced (nonzero (posting_entries tx et ev accs amounts)) = None"
    and "postEntriesTx flt n newID now db1 (nonzero (posting_entries tx et ev accs amounts)) = Inr db'"
    and "list_all in64 amounts"
  shows "service_posted db et ev keys amounts db'"
proof -
  have "int64_entries (nonzero (posting_entries tx et ev accs amounts))"
    using assms(4) by (intro int64_nonzero posting_entries_int64) (simp add: list_all_iff)
  then have "ledger_inv db' \<and> posted db1 (nonzero (posting_entries tx et ev accs amounts)) db'"
    using postEntriesTx_posted [OF assms(3)] assms(1) by blast
  with assms(1,2) show ?thesis unfolding service_posted_def by blast
qed

lemma post_tx_posted:
  assumes "post_tx env et ev keys amounts db = Inr db'" and "ledger_inv db" and "list_all in64 amounts"
  shows "service_posted db et ev keys amounts db'"
proof -
  obtain accs db1 where get: "accounts_tx env 0 db keys = Inr (accs, db1)"
    and post: "LedgerRepository_PostEntriesTx (env_flt env) 100 (env_newID env) (env_now env) (Some db1)
       (posting_entries (env_txID env) et ev accs amounts) = Inr db'"
    using assms(1) by (auto simp: post_tx_def split: sum.splits)
  note ok = in_tx.acquires_ok [OF accounts_tx_acquires [OF get] assms(2)]
  show ?thesis
    using service_postedI [OF ok _ _ assms(3)] PostEntriesTx_Inr [OF post] nonzero_valid by metis
qed

text \<open>The direct calls commit each account on its own, so an error can leave accounts behind, and nothing else.\<close>

lemma accounts_direct_unposted:
  "accounts_direct env n db ks = (r, db') \<Longrightarrow> ledger_inv db \<Longrightarrow> unposted db db'"
proof (induction env n db ks arbitrary: r db' rule: accounts_direct.induct)
  case (1 env n db)
  then show ?case by (simp add: unposted_def)
next
  case (2 env n db ty v u ad ks)
  obtain q db1 where get: "LedgerRepository_GetOrCreateAccount (env_flt env) n (env_commit env n) (env_newID env n)
      (env_now env) db ty v u ad ''USDC'' = (q, db1)" by fastforce
  have one: "unposted db db1"
    using run_tx_cases [OF get [unfolded LedgerRepository_GetOrCreateAccount_def]] "2.prems"(2)
      getOrCreateAccountTx_ok by (fastforce simp: unposted_def)
  show ?case
  proof (cases q)
    case (Inl err)
    then show ?thesis using one get "2.prems"(1) by simp
  next
    case (Inr acc)
    obtain r2 where "accounts_direct env (n + 4) db1 ks = (r2, db')"
      using "2.prems"(1) get Inr by (auto split: prod.splits sum.splits)
    then have "unposted db1 db'"
      using "2.IH" [OF get [symmetric]] Inr one by (auto simp: unposted_def)
    with one show ?thesis by (auto simp: unposted_def intro: acct_ext_trans)
  qed
qed

lemma post_filtered_direct:
  assumes get: "accounts_direct env 0 db keys = (Inr accs, db1)" and inv: "ledger_inv db"
    and post: "LedgerRepository_PostEntries flt n commit newID now db1
       (nonzero (posting_entries tx et ev accs amounts)) = (r, db')"
    and amounts: "list_all in64 amounts"
  shows "r \<noteq> None \<and> unposted db db' \<or> service_posted db et ev keys amounts db'"
proof -
  note ok = direct.acquires_ok [OF accounts_direct_acquires [OF get] inv]
  show ?thesis
    using PostEntries_cases [OF post] service_postedI [OF ok _ _ amounts] ok
    by (auto simp: unposted_def)
qed

lemma post_direct_cases:
  assumes "post_direct env et ev keys amounts db = (r, db')" and "ledger_inv db" and "list_all in64 amounts"
  shows "r \<noteq> None \<and> unposted db db' \<or> service_posted db et ev keys amounts db'"
proof (cases "accounts_direct env 0 db keys")
  case (Pair q db1)
  show ?thesis
  proof (cases q)
    case (Inl err)
    then show ?thesis using assms Pair accounts_direct_unposted [OF Pair] by (auto simp: post_direct_def)
  next
    case (Inr accs)
    let ?es = "posting_entries (env_txID env) et ev accs amounts"
    have get: "accounts_direct env 0 db keys = (Inr accs, db1)" using Pair Inr by simp
    have post: "LedgerRepository_PostEntries (env_flt env) 100 (env_commit env 100) (env_newID env) (env_now env) db1 ?es = (r, db')"
      using assms(1) get by (simp add: post_direct_def)
    show ?thesis
    proof (cases "ValidateBalanced ?es")
      case None
      then show ?thesis using post_filtered_direct [OF get assms(2) _ assms(3)] post nonzero_valid by metis
    next
      case (Some err)
      then have "r = Some err \<and> db' = db1" using post by (simp add: LedgerRepository_PostEntries_def)
      then show ?thesis using accounts_direct_unposted [OF get assms(2)] by simp
    qed
  qed
qed

lemma dispatch_tx_cases:
  assumes "dispatch_tx env mode db w d = (r, db')"
  shows "r \<noteq> None \<and> db' = db \<or> w db = Inr db' \<and> (r = None \<or> mode = OwnTx \<and> env_commit env 200 = CommitUnacked)
    \<or> mode = Direct \<and> d db = (r, db')"
  using assms
  by (auto simp: dispatch_tx_def run_tx_def
      split: tx_mode.splits sum.splits prod.splits if_splits commit_outcome.splits)

text \<open>
  The outcome of a dispatched posting, in every mode: it is fully there, or the entries and
  balances are as before, and success is never reported for the latter.
\<close>

lemma dispatch_cases:
  assumes "dispatch_tx env mode db (post_tx env et ev keys amounts) (post_direct env et ev keys amounts) = (r, db')"
    and "ledger_inv db" and "list_all in64 amounts"
  shows "r \<noteq> None \<and> unposted db db' \<or> service_posted db et ev keys amounts db'"
  using dispatch_tx_cases [OF assms(1)] post_tx_posted post_direct_cases unposted_refl assms(2,3)
  by metis

end
