(* ===== verification/Ledger_Postings.thy ===== *)
theory Ledger_Postings
  imports Ledger_Service_Correct
begin

text \<open>
  The contract the four postings of the service share, stated once as a locale, its
  interpretations on \<open>PostDeposit\<close>, \<open>PostWithdrawal\<close>, \<open>PostRebalance\<close> and \<open>PostHarvest\<close>, and
  the properties of the ledger that follow: what moves, what does not, all or nothing, at
  most once per event, and books that balance in every state the service reaches.
\<close>

section \<open>The contract of a posting operation\<close>

text \<open>
  \<open>op x db\<close> is a call with arguments \<open>x\<close>; \<open>keys x\<close> and \<open>amounts x\<close> are the accounts and the
  legs it is meant to post, and \<open>ok x\<close> the arguments for which no leg leaves \<open>int64\<close>.
\<close>

locale posting_operation =
  fixes op :: "'a \<Rightarrow> LedgerDB \<Rightarrow> ledger_error option \<times> LedgerDB"
    and event_type :: string
    and event_id :: "'a \<Rightarrow> string"
    and keys :: "'a \<Rightarrow> account_key list"
    and amounts :: "'a \<Rightarrow> int list"
    and ok :: "'a \<Rightarrow> bool"
  assumes op_cases: "ok x \<Longrightarrow> ledger_inv db \<Longrightarrow> op x db = (r, db') \<Longrightarrow>
      r \<noteq> None \<and> unposted db db' \<or>
      keys_disjoint (keys x) \<and> service_posted db event_type (event_id x) (keys x) (amounts x) db'"
    and same_length: "length (amounts x) = length (keys x)"
    and small: "ok x \<Longrightarrow> \<bar>sum_list (amounts x)\<bar> < 2 ^ 64"
begin

lemma keeps_inv: "ok x \<Longrightarrow> ledger_inv db \<Longrightarrow> op x db = (r, db') \<Longrightarrow> ledger_inv db'"
  using op_cases service_posted_inv unfolding unposted_def by blast

lemma books:
  assumes "ok x" "ledger_inv db" "op x db = (r, db')"
  shows "entries_total (db_entries db') = entries_total (db_entries db)"
  using op_cases [OF assms] service_posted_total [OF _ same_length]
    service_posted_balanced [OF _ same_length small [OF assms(1)]]
  by (auto simp: unposted_def acct_ext_def)

lemma success:
  assumes "ok x" "ledger_inv db" "op x db = (None, db')"
  shows "keys_disjoint (keys x)" "service_posted db event_type (event_id x) (keys x) (amounts x) db'"
  using op_cases [OF assms] by auto

lemma effect:
  assumes "ok x" "ledger_inv db" "op x db = (None, db')" "j < length (keys x)"
  shows "key_balance db' (keys x ! j) = key_balance db (keys x ! j) + amounts x ! j"
  using service_posted_key [OF success(2) [OF assms(1-3)] assms(2) success(1) [OF assms(1-3)] same_length assms(4)] .

lemma frame:
  assumes "ok x" "ledger_inv db" "op x db = (None, db')"
    and "a \<in> set (db_accounts db)" "\<And>k. k \<in> set (keys x) \<Longrightarrow> \<not> key_match k a"
  shows "cached_balance db' (acc_ID a) = cached_balance db (acc_ID a)"
  using service_posted_frame [OF success(2) [OF assms(1-3)] assms(2,4)] assms(5) by blast

end

section \<open>At most once per event\<close>

text \<open>The entries of an event on the account of a key.\<close>

definition event_recorded :: "LedgerDB \<Rightarrow> string \<Rightarrow> string \<Rightarrow> account_key \<Rightarrow> bool" where
  "event_recorded db et ev k \<longleftrightarrow>
     (\<exists>a e. holds db k a \<and> e \<in> set (db_entries db) \<and> event_key e = (et, ev, acc_ID a))"

text \<open>\<open>db'\<close> is a later state: no account and no entry of \<open>db\<close> is gone.\<close>

definition later :: "LedgerDB \<Rightarrow> LedgerDB \<Rightarrow> bool" where
  "later db db' \<longleftrightarrow> set (db_accounts db) \<subseteq> set (db_accounts db') \<and> set (db_entries db) \<subseteq> set (db_entries db')"

lemma event_recorded_later: "event_recorded db et ev k \<Longrightarrow> later db db' \<Longrightarrow> event_recorded db' et ev k"
  by (auto simp: event_recorded_def later_def holds_def)

lemma nonzero_event_keys:
  assumes "i < length accs" "length amounts = length accs" "amounts ! i \<noteq> 0"
  shows "(et, ev, acc_ID (accs ! i)) \<in> set (map event_key (nonzero (posting_entries tx et ev accs amounts)))"
proof -
  have "posting_entry tx et ev (accs ! i) (amounts ! i) \<in> set (posting_entries tx et ev accs amounts)"
    unfolding posting_entries_def using assms(1,2)
    by (metis (no_types, lifting) length_map length_zip min.idem nth_map nth_mem nth_zip prod.case)
  then have "posting_entry tx et ev (accs ! i) (amounts ! i) \<in> set (nonzero (posting_entries tx et ev accs amounts))"
    using assms(3) by (simp add: nonzero_def)
  then show ?thesis by (force simp: image_iff)
qed

lemma service_posted_row:
  assumes "service_posted db et ev keys amounts db'" and "length amounts = length keys"
    and "i < length keys" and "amounts ! i \<noteq> 0"
  obtains a e rows where "holds db' (keys ! i) a" "db_entries db' = db_entries db @ rows" "e \<in> set rows"
    "event_key e = (et, ev, acc_ID a)" "set (db_accounts db) \<subseteq> set (db_accounts db')"
proof -
  obtain db1 accs tx where ext: "acct_ext db db1" and hold: "list_all2 (holds db1) keys accs"
    and post: "posted db1 (nonzero (posting_entries tx et ev accs amounts)) db'"
    using assms(1) by (auto simp: service_posted_def)
  have len: "length accs = length keys" using hold by (simp add: list_all2_lengthD)
  obtain rows where rows: "db_entries db' = db_entries db @ rows"
      "map event_key rows = map event_key (nonzero (posting_entries tx et ev accs amounts))"
    using post ext by (auto simp: posted_def acct_ext_def)
  have "(et, ev, acc_ID (accs ! i)) \<in> set (map event_key rows)"
    unfolding rows(2) using assms len by (intro nonzero_event_keys) simp_all
  then obtain e where e: "e \<in> set rows" "event_key e = (et, ev, acc_ID (accs ! i))" by force
  have "holds db' (keys ! i) (accs ! i)"
    using list_all2_nthD [OF hold assms(3)] post by (simp add: holds_def posted_def)
  moreover have "set (db_accounts db) \<subseteq> set (db_accounts db')"
    using ext post by (simp add: acct_ext_def posted_def)
  ultimately show ?thesis using rows(1) e that by blast
qed

lemma event_recorded_posted:
  assumes "service_posted db et ev keys amounts db'" and "length amounts = length keys"
    and "i < length keys" and "amounts ! i \<noteq> 0"
  shows "event_recorded db' et ev (keys ! i)"
proof -
  obtain a e rows where "holds db' (keys ! i) a" "db_entries db' = db_entries db @ rows" "e \<in> set rows"
    "event_key e = (et, ev, acc_ID a)" "set (db_accounts db) \<subseteq> set (db_accounts db')"
    by (rule service_posted_row [OF assms])
  then show ?thesis unfolding event_recorded_def by (intro exI [of _ a] exI [of _ e]) simp
qed

lemma recorded_not_posted:
  assumes rec: "event_recorded db et ev (keys ! i)" and ev: "ev \<noteq> []" and len: "length amounts = length keys"
    and i: "i < length keys" and nz: "amounts ! i \<noteq> 0" and post: "service_posted db et ev keys amounts db'"
  shows False
proof -
  obtain a e rows where new: "holds db' (keys ! i) a" "db_entries db' = db_entries db @ rows" "e \<in> set rows"
    "event_key e = (et, ev, acc_ID a)" "set (db_accounts db) \<subseteq> set (db_accounts db')"
    by (rule service_posted_row [OF post len i nz])
  have inv: "ledger_inv db'" using post by (rule service_posted_inv)
  obtain b f where old: "holds db (keys ! i) b" "f \<in> set (db_entries db)" "event_key f = (et, ev, acc_ID b)"
    using rec by (auto simp: event_recorded_def)
  have "b = a"
    using key_match_unique [of "db_accounts db'" b a "keys ! i"] inv old(1) new(1,5)
    by (auto simp: holds_def ledger_inv_def)
  then have "event_key f = event_key e" using old(3) new(4) by simp
  moreover have "e_DomainEventID e \<noteq> []" "e_DomainEventID f \<noteq> []"
    using ev new(4) old(3) by (auto simp: event_key_def)
  ultimately have "\<not> distinct (map event_key (keyed_entries db'))"
    using new(2,3) old(2) by (auto simp: keyed_entries_def)
  with inv show False by (simp add: ledger_inv_def)
qed

context posting_operation
begin

lemma at_most_once:
  assumes first: "ok x" "ledger_inv db" "op x db = (None, db1)" and ev: "event_id x \<noteq> []"
    and later: "later db1 db2" "ledger_inv db2"
    and second: "ok y" "op y db2 = (r, db3)" "event_id y = event_id x"
    and shared: "i < length (keys x)" "j < length (keys y)" "keys y ! j = keys x ! i"
    and nz: "amounts x ! i \<noteq> 0" "amounts y ! j \<noteq> 0"
  shows "r \<noteq> None \<and> unposted db2 db3"
proof -
  have "event_recorded db1 event_type (event_id x) (keys x ! i)"
    using event_recorded_posted [OF success(2) [OF first] same_length shared(1) nz(1)] .
  then have "event_recorded db2 event_type (event_id y) (keys y ! j)"
    using event_recorded_later [OF _ later(1)] second(3) shared(3) by metis
  then show ?thesis
    using op_cases [OF second(1) later(2) second(2)] recorded_not_posted [OF _ _ same_length shared(2) nz(2)]
      ev second(3) by metis
qed

end

section \<open>The four operations meet the contract\<close>

lemma key_match_type: "key_match k a \<Longrightarrow> acc_AccountType a = fst k"
  by (cases k) (simp add: account_match_def)

lemma key_match_adapter: "key_match (AccountTypeYieldSource, v, u, Some ad) a \<Longrightarrow> acc_AdapterName a = Some ad"
  by (simp add: account_match_def sql_eq_iff account_type_defs)

lemma position_keys_disjoint: "keys_disjoint (position_keys v u)"
  by (auto simp: keys_disjoint_def position_keys_def account_type_defs dest!: key_match_type simp del: key_match.simps)

lemma harvest_keys_disjoint: "keys_disjoint (harvest_keys v u ad)"
  by (auto simp: keys_disjoint_def harvest_keys_def account_type_defs dest!: key_match_type simp del: key_match.simps)

lemma rebalance_keys_disjoint: "f \<noteq> t \<Longrightarrow> keys_disjoint (rebalance_keys f t)"
  by (auto simp: keys_disjoint_def rebalance_keys_def dest!: key_match_adapter simp del: key_match.simps)

lemma wrap64_double: "0 < s \<Longrightarrow> s \<le> 2 ^ 62 \<Longrightarrow> wrap64 (- (2 * s)) = - (2 * s) \<and> in64 s \<and> in64 (- (2 * s))"
  using wrap64_id [of "- (2 * s)"] by (auto simp: min64_def max64_def in64_def)

lemma PostDeposit_cases:
  assumes "LedgerService_PostDeposit ops env mode db v u amount ev = (r, db')" and "ledger_inv db"
    and "decimalToStroops ops amount \<le> 2 ^ 62"
  shows "r \<noteq> None \<and> unposted db db' \<or> service_posted db ''deposit'' ev (position_keys v u)
    [decimalToStroops ops amount, decimalToStroops ops amount, - 2 * decimalToStroops ops amount] db'"
proof (cases "decimalToStroops ops amount \<le> 0")
  case True
  then show ?thesis using assms(1,2) by (auto simp: LedgerService_PostDeposit_def intro: unposted_refl)
next
  case False
  then show ?thesis
    using assms wrap64_double [of "decimalToStroops ops amount"]
    by (auto simp: LedgerService_PostDeposit_def postDepositWithTx_def [abs_def] postDepositDirect_def [abs_def] Let_def
        dest!: dispatch_cases)
qed

lemma wrap64_double_pos: "0 < s \<Longrightarrow> s < 2 ^ 62 \<Longrightarrow>
    wrap64 (2 * s) = 2 * s \<and> wrap64 (- s) = - s \<and> in64 s \<and> in64 (- s) \<and> in64 (2 * s)"
  using wrap64_id [of "2 * s"] wrap64_id [of "- s"] by (auto simp: min64_def max64_def in64_def)

lemma PostWithdrawal_cases:
  assumes "LedgerService_PostWithdrawal ops env mode db v u amount ev = (r, db')" and "ledger_inv db"
    and "decimalToStroops ops amount < 2 ^ 62"
  shows "r \<noteq> None \<and> unposted db db' \<or> service_posted db ''withdraw'' ev (position_keys v u)
    [- decimalToStroops ops amount, - decimalToStroops ops amount, 2 * decimalToStroops ops amount] db'"
proof (cases "decimalToStroops ops amount \<le> 0")
  case True
  then show ?thesis using assms(1,2) by (auto simp: LedgerService_PostWithdrawal_def intro: unposted_refl)
next
  case False
  then show ?thesis
    using assms wrap64_double_pos [of "decimalToStroops ops amount"]
    by (auto simp: LedgerService_PostWithdrawal_def postWithdrawalWithTx_def [abs_def]
        postWithdrawalDirect_def [abs_def] Let_def dest!: dispatch_cases)
qed

lemma PostRebalance_cases:
  assumes "LedgerService_PostRebalance ops env mode db f t amount ev = (r, db')" and "ledger_inv db"
    and "decimalToStroops ops amount < 2 ^ 62"
  shows "r \<noteq> None \<and> unposted db db' \<or> keys_disjoint (rebalance_keys f t) \<and>
    service_posted db ''rebalance'' ev (rebalance_keys f t)
      [- decimalToStroops ops amount, decimalToStroops ops amount] db'"
proof (cases "decimalToStroops ops amount \<le> 0 \<or> f = t")
  case True
  then show ?thesis
    using assms(1,2) by (auto simp: LedgerService_PostRebalance_def Let_def intro: unposted_refl split: if_splits)
next
  case False
  then have "wrap64 (- decimalToStroops ops amount) = - decimalToStroops ops amount"
      "in64 (decimalToStroops ops amount)" "in64 (- decimalToStroops ops amount)" "keys_disjoint (rebalance_keys f t)"
    using wrap64_double_pos [of "decimalToStroops ops amount"] assms(3) by (auto intro: rebalance_keys_disjoint)
  then show ?thesis
    using False assms
    by (auto simp: LedgerService_PostRebalance_def postRebalanceWithTx_def [abs_def]
        postRebalanceDirect_def [abs_def] Let_def dest!: dispatch_cases)
qed

subsection \<open>Harvests drop their zero legs\<close>

definition harvest_range :: "int \<Rightarrow> int \<Rightarrow> int \<Rightarrow> bool" where
  "harvest_range net fee gross \<longleftrightarrow> \<bar>net\<bar> < 2 ^ 61 \<and> \<bar>fee\<bar> < 2 ^ 61 \<and> \<bar>gross\<bar> < 2 ^ 61"

definition harvest_legs :: "int \<Rightarrow> int \<Rightarrow> int \<Rightarrow> int list" where
  "harvest_legs net fee gross = [net, net, fee, - gross, - net]"

lemma in64_small: "\<bar>x\<bar> < 2 ^ 61 \<Longrightarrow> in64 x \<and> in64 (- x)"
  by (auto simp: min64_def max64_def in64_def)

lemma harvest_amounts_exact:
  "harvest_range net fee gross \<Longrightarrow>
     harvest_amounts net fee gross = harvest_legs net fee gross \<and> list_all in64 (harvest_legs net fee gross)"
  using in64_small [of net] in64_small [of fee] in64_small [of gross]
  by (simp add: harvest_range_def harvest_amounts_def harvest_legs_def wrap_simps)

lemma nonzero_length:
  "list_all2 P keys accs \<Longrightarrow> length keys = length xs \<Longrightarrow>
     length (nonzero (posting_entries tx et ev accs xs)) = length (filter (\<lambda>x. x \<noteq> 0) xs)"
proof (induction arbitrary: xs rule: list_all2_induct)
  case (Cons k keys a accs)
  then show ?case by (cases xs) (auto simp: nonzero_def)
qed (simp add: nonzero_def)

lemma harvest_lengths: "length (harvest_keys v u ad) = length (harvest_legs net fee gross)"
  by (simp add: harvest_keys_def harvest_legs_def)

lemma posted_Nil [simp]: "posted db [] db"
  by (simp add: posted_def)

lemma service_posted_none:
  assumes "ledger_inv db1 \<and> acct_ext db db1 \<and> list_all2 (holds db1) keys accs"
    and "nonzero (posting_entries tx et ev accs amounts) = []"
  shows "service_posted db et ev keys amounts db1"
  unfolding service_posted_def
  using assms by (intro exI [of _ db1] exI [of _ accs] exI [of _ tx]) simp

lemma under_two: "length es < 2 \<Longrightarrow> es = [] \<or> length es = 1"
  by (cases es) auto

text \<open>A harvest posts its legs, or fails, or has exactly one leg to post and then posts none.\<close>

lemma harvest_tx_cases:
  assumes "postHarvestWithTx env v u net fee gross ad ev db = Inr db'" and "ledger_inv db"
    and "harvest_range net fee gross"
  shows "length (filter (\<lambda>x. x \<noteq> 0) (harvest_legs net fee gross)) = 1 \<and> unposted db db' \<or>
    service_posted db ''harvest'' ev (harvest_keys v u ad) (harvest_legs net fee gross) db'"
proof -
  note amounts = harvest_amounts_exact [OF assms(3)]
  obtain accs db1 where get: "accounts_tx env 0 db (harvest_keys v u ad) = Inr (accs, db1)"
    using assms(1) by (auto simp: postHarvestWithTx_def split: sum.splits)
  let ?es = "nonzero (posting_entries (env_txID env) ''harvest'' ev accs (harvest_legs net fee gross))"
  note ok = in_tx.acquires_ok [OF accounts_tx_acquires [OF get] assms(2)]
  have len: "length ?es = length (filter (\<lambda>x. x \<noteq> 0) (harvest_legs net fee gross))"
    using nonzero_length [OF ok [THEN conjunct2, THEN conjunct2] harvest_lengths] .
  show ?thesis
  proof (cases "length ?es < 2")
    case True
    then have "db1 = db'" using assms(1) get amounts by (simp add: postHarvestWithTx_def nonzero_def [symmetric])
    then show ?thesis using under_two [OF True] service_posted_none [OF ok] ok len by (auto simp: unposted_def)
  next
    case False
    then have post: "LedgerRepository_PostEntriesTx (env_flt env) 100 (env_newID env) (env_now env) (Some db1) ?es = Inr db'"
      using assms(1) get amounts by (simp add: postHarvestWithTx_def nonzero_def [symmetric])
    show ?thesis
      using service_postedI [OF ok _ _ amounts [THEN conjunct2]] PostEntriesTx_Inr [OF post] by metis
  qed
qed

lemma harvest_direct_cases:
  assumes "postHarvestDirect env v u net fee gross ad ev db = (r, db')" and "ledger_inv db"
    and "harvest_range net fee gross"
  shows "r \<noteq> None \<and> unposted db db' \<or>
    length (filter (\<lambda>x. x \<noteq> 0) (harvest_legs net fee gross)) = 1 \<and> unposted db db' \<or>
    service_posted db ''harvest'' ev (harvest_keys v u ad) (harvest_legs net fee gross) db'"
proof (cases "accounts_direct env 0 db (harvest_keys v u ad)")
  case (Pair q db1)
  note amounts = harvest_amounts_exact [OF assms(3)]
  show ?thesis
  proof (cases q)
    case (Inl err)
    then show ?thesis using assms Pair accounts_direct_unposted [OF Pair] by (auto simp: postHarvestDirect_def)
  next
    case (Inr accs)
    let ?es = "nonzero (posting_entries (env_txID env) ''harvest'' ev accs (harvest_legs net fee gross))"
    have get: "accounts_direct env 0 db (harvest_keys v u ad) = (Inr accs, db1)" using Pair Inr by simp
    note ok = direct.acquires_ok [OF accounts_direct_acquires [OF get] assms(2)]
    note len = nonzero_length [OF ok [THEN conjunct2, THEN conjunct2] harvest_lengths]
    have step: "(if length ?es < 2 then (None, db1) else
       LedgerRepository_PostEntries (env_flt env) 100 (env_commit env 100) (env_newID env) (env_now env) db1 ?es) = (r, db')"
      using assms(1) get amounts by (simp add: postHarvestDirect_def nonzero_def [symmetric] Let_def)
    show ?thesis
    proof (cases "length ?es < 2")
      case True
      then have "db1 = db'" using step by simp
      then show ?thesis using under_two [OF True] service_posted_none [OF ok] ok len by (auto simp: unposted_def)
    next
      case False
      then have post: "LedgerRepository_PostEntries (env_flt env) 100 (env_commit env 100) (env_newID env) (env_now env) db1 ?es = (r, db')"
        using step by simp
      show ?thesis using post_filtered_direct [OF get assms(2) post amounts [THEN conjunct2]] by blast
    qed
  qed
qed

lemma PostHarvest_cases:
  assumes "LedgerService_PostHarvest ops env mode db v u netYield feeYield grossYield ad ev = (r, db')"
    and "ledger_inv db" and "net = decimalToStroops ops netYield" and "fee = decimalToStroops ops feeYield"
    and "gross = decimalToStroops ops grossYield" and "harvest_range net fee gross"
  shows "r \<noteq> None \<and> unposted db db' \<or>
    length (filter (\<lambda>x. x \<noteq> 0) (harvest_legs net fee gross)) = 1 \<and> unposted db db' \<or>
    service_posted db ''harvest'' ev (harvest_keys v u ad) (harvest_legs net fee gross) db'"
proof -
  have "dispatch_tx env mode db (postHarvestWithTx env v u net fee gross ad ev)
      (postHarvestDirect env v u net fee gross ad ev) = (r, db')"
    using assms(1,3-5) by (simp add: LedgerService_PostHarvest_def Let_def)
  from dispatch_tx_cases [OF this] show ?thesis
    using harvest_tx_cases harvest_direct_cases unposted_refl assms(2,6) by metis
qed

text \<open>With \<open>gross = net + fee\<close> there is never exactly one leg.\<close>

lemma harvest_not_one_leg:
  "gross = net + fee \<Longrightarrow> length (filter (\<lambda>x. x \<noteq> 0) (harvest_legs net fee gross)) \<noteq> 1"
  by (auto simp: harvest_legs_def)

lemma key_lengths [simp]:
  "length (position_keys v u) = 3" "length (harvest_keys v u ad) = 5" "length (rebalance_keys f t) = 2"
  by (simp_all add: position_keys_def harvest_keys_def rebalance_keys_def)

section \<open>Interpretations\<close>

interpretation deposit: posting_operation
  "\<lambda>(ops, env, mode, v, u, amount, ev) db. LedgerService_PostDeposit ops env mode db v u amount ev"
  "''deposit''" "\<lambda>(ops, env, mode, v, u, amount, ev). ev"
  "\<lambda>(ops, env, mode, v, u, amount, ev). position_keys v u"
  "\<lambda>(ops, env, mode, v, u, amount, ev).
     [decimalToStroops ops amount, decimalToStroops ops amount, - 2 * decimalToStroops ops amount]"
  "\<lambda>(ops, env, mode, v, u, amount, ev). decimalToStroops ops amount \<le> 2 ^ 62"
  by unfold_locales (auto simp: position_keys_disjoint dest!: PostDeposit_cases)

interpretation withdrawal: posting_operation
  "\<lambda>(ops, env, mode, v, u, amount, ev) db. LedgerService_PostWithdrawal ops env mode db v u amount ev"
  "''withdraw''" "\<lambda>(ops, env, mode, v, u, amount, ev). ev"
  "\<lambda>(ops, env, mode, v, u, amount, ev). position_keys v u"
  "\<lambda>(ops, env, mode, v, u, amount, ev).
     [- decimalToStroops ops amount, - decimalToStroops ops amount, 2 * decimalToStroops ops amount]"
  "\<lambda>(ops, env, mode, v, u, amount, ev). decimalToStroops ops amount < 2 ^ 62"
  by unfold_locales (auto simp: position_keys_disjoint dest!: PostWithdrawal_cases)

interpretation rebalance: posting_operation
  "\<lambda>(ops, env, mode, f, t, amount, ev) db. LedgerService_PostRebalance ops env mode db f t amount ev"
  "''rebalance''" "\<lambda>(ops, env, mode, f, t, amount, ev). ev"
  "\<lambda>(ops, env, mode, f, t, amount, ev). rebalance_keys f t"
  "\<lambda>(ops, env, mode, f, t, amount, ev). [- decimalToStroops ops amount, decimalToStroops ops amount]"
  "\<lambda>(ops, env, mode, f, t, amount, ev). decimalToStroops ops amount < 2 ^ 62"
  by unfold_locales (auto dest!: PostRebalance_cases)

interpretation harvest: posting_operation
  "\<lambda>(ops, env, mode, v, u, net, fee, gross, ad, ev) db.
     LedgerService_PostHarvest ops env mode db v u net fee gross ad ev"
  "''harvest''" "\<lambda>(ops, env, mode, v, u, net, fee, gross, ad, ev). ev"
  "\<lambda>(ops, env, mode, v, u, net, fee, gross, ad, ev). harvest_keys v u ad"
  "\<lambda>(ops, env, mode, v, u, net, fee, gross, ad, ev).
     harvest_legs (decimalToStroops ops net) (decimalToStroops ops fee) (decimalToStroops ops gross)"
  "\<lambda>(ops, env, mode, v, u, net, fee, gross, ad, ev).
     harvest_range (decimalToStroops ops net) (decimalToStroops ops fee) (decimalToStroops ops gross) \<and>
     decimalToStroops ops gross = decimalToStroops ops net + decimalToStroops ops fee"
proof (unfold_locales, goal_cases)
  case (1 x db r db')
  then show ?case
    using harvest_not_one_leg harvest_keys_disjoint by (fastforce dest: PostHarvest_cases split: prod.splits)
qed (auto simp: harvest_legs_def)

end
