(* ===== verification/Ledger_Properties.thy ===== *)
theory Ledger_Properties
  imports Complex_Main Ledger_Postings
begin

text \<open>
  The properties of the ledger: the effect of each posting on the balances its readers see,
  atomicity, idempotency per domain event, and books that balance in every reachable
  state, with the concrete runs that witness them.
\<close>

section \<open>Concrete inputs\<close>

text \<open>
  Exact rationals as decimals. \<open>shopspring/decimal\<close> rounds half away from zero and
  \<open>IntPart\<close> truncates.
\<close>

definition rat_round :: "rat \<Rightarrow> int \<Rightarrow> rat" where
  "rat_round d places =
     (let p = 10 ^ nat places; q = of_int \<lfloor>\<bar>d\<bar> * p + 1 / 2\<rfloor> / p in if d < 0 then - q else q)"

definition rat_ops :: "rat decimal_ops" where
  "rat_ops = \<lparr>d_Mul = (*), d_Div = (/), d_Round = rat_round,
     d_IntPart = (\<lambda>d. if d < 0 then - \<lfloor>- d\<rfloor> else \<lfloor>d\<rfloor>), d_NewFromInt = of_int\<rparr>"

definition empty_ledger :: LedgerDB where
  "empty_ledger = \<lparr>db_vaults = [7], db_users = [8], db_accounts = [], db_entries = [], db_balances = [], db_recon = []\<rparr>"

lemma empty_ledger_inv: "ledger_inv empty_ledger"
  by (simp add: empty_ledger_def ledger_inv_def accounts_ok_def keyed_entries_def cached_balance_def)

definition demo_env :: "nat \<Rightarrow> ledger_env" where
  "demo_env base = \<lparr>env_flt = no_fault, env_commit = (\<lambda>_. Committed), env_newID = (\<lambda>n. of_nat (base + n)),
     env_txID = of_nat base, env_now = 5\<rparr>"

section \<open>The effect of each posting\<close>

definition user_key :: "uuid \<Rightarrow> uuid \<Rightarrow> account_key" where
  "user_key v u = (AccountTypeUserVaultPosition, Some v, Some u, None)"
definition pool_key :: "uuid \<Rightarrow> account_key" where
  "pool_key v = (AccountTypeVaultAssetPool, Some v, None, None)"
definition suspense_key :: account_key where
  "suspense_key = (AccountTypeSystemSuspense, None, None, None)"
definition fee_key :: account_key where
  "fee_key = (AccountTypeFee, None, None, None)"
definition yield_key :: "string \<Rightarrow> account_key" where
  "yield_key ad = (AccountTypeYieldSource, None, None, Some ad)"

lemmas key_defs = user_key_def pool_key_def suspense_key_def fee_key_def yield_key_def

text \<open>Every account other than those of \<open>keys\<close> keeps its balance.\<close>

definition only_moves :: "LedgerDB \<Rightarrow> LedgerDB \<Rightarrow> account_key list \<Rightarrow> bool" where
  "only_moves db db' keys \<longleftrightarrow>
     (\<forall>a \<in> set (db_accounts db). (\<forall>k \<in> set keys. \<not> key_match k a) \<longrightarrow>
        cached_balance db' (acc_ID a) = cached_balance db (acc_ID a))"

lemma key_match_fun: "key_match (ty, v, u, ad) = account_match ty v u ad ''USDC''"
  by (rule ext) simp

lemma user_read: "LedgerRepository_GetUserVaultBalance no_fault db u v = Inr (key_balance db (user_key v u))"
  by (simp add: LedgerRepository_GetUserVaultBalance_def key_balance_def user_key_def key_match_fun)

lemma pool_read: "LedgerRepository_GetVaultPoolBalance no_fault db v = Inr (key_balance db (pool_key v))"
  by (simp add: LedgerRepository_GetVaultPoolBalance_def key_balance_def pool_key_def key_match_fun)

text \<open>
  C1: a successful \<open>PostDeposit\<close> of \<open>s\<close> stroops, in the caller's transaction, in one of its
  own or directly, raises the user's position and the vault's pool by exactly \<open>s\<close> as their
  readers report them, lowers the suspense account by \<open>2 s\<close>, moves no other balance, and
  leaves the sum of all entries as it was, for every \<open>s\<close> up to \<open>2 ^ 62\<close>.
\<close>

theorem PostDeposit_effect:
  assumes "ledger_inv db" and "s = decimalToStroops ops amount" and "s \<le> 2 ^ 62"
    and "LedgerService_PostDeposit ops env mode db v u amount ev = (None, db')"
  shows "LedgerRepository_GetUserVaultBalance no_fault db' u v
       = map_sum id (\<lambda>b. b + s) (LedgerRepository_GetUserVaultBalance no_fault db u v)
    \<and> LedgerRepository_GetVaultPoolBalance no_fault db' v
       = map_sum id (\<lambda>b. b + s) (LedgerRepository_GetVaultPoolBalance no_fault db v)
    \<and> key_balance db' suspense_key = key_balance db suspense_key - 2 * s
    \<and> only_moves db db' [user_key v u, pool_key v, suspense_key]
    \<and> entries_total (db_entries db') = entries_total (db_entries db)
    \<and> ledger_inv db'"
proof -
  let ?x = "(ops, env, mode, v, u, amount, ev)"
  have eff: "key_balance db' (position_keys v u ! j) = key_balance db (position_keys v u ! j) + [s, s, - 2 * s] ! j" if "j < 3" for j
    using deposit.effect [of ?x db db' j] assms that by simp
  have "only_moves db db' (position_keys v u)"
    using deposit.frame [of ?x db db'] assms by (auto simp: only_moves_def)
  moreover have "entries_total (db_entries db') = entries_total (db_entries db)" "ledger_inv db'"
    using deposit.books [of ?x db None db'] deposit.keeps_inv [of ?x db None db'] assms by simp_all
  ultimately show ?thesis
    using eff [of 0] eff [of 1] eff [of 2] by (simp add: user_read pool_read position_keys_def key_defs)
qed

theorem PostDeposit_effect_witness:
  "LedgerRepository_GetUserVaultBalance no_fault
     (snd (LedgerService_PostDeposit rat_ops (demo_env 1000) OwnTx empty_ledger 7 8 (5 / 2) ''e1'')) 8 7
   = map_sum id (\<lambda>b. b + 25000000) (LedgerRepository_GetUserVaultBalance no_fault empty_ledger 8 7)"
proof -
  have "(25000000::int) = decimalToStroops rat_ops (5 / 2)" "(25000000::int) \<le> 2 ^ 62" by code_simp+
  moreover have "fst (LedgerService_PostDeposit rat_ops (demo_env 1000) OwnTx empty_ledger 7 8 (5 / 2) ''e1'') = None"
    by code_simp
  ultimately show ?thesis
    using PostDeposit_effect [OF empty_ledger_inv, of 25000000 rat_ops "5 / 2" "demo_env 1000" OwnTx 7 8 "''e1''"]
    by (metis prod.collapse)
qed

text \<open>
  A successful \<open>PostWithdrawal\<close> lowers the user's position and the vault's pool by the
  amount, raises the suspense account by twice the amount, moves no other balance and keeps
  the sum of all entries.
\<close>

theorem PostWithdrawal_effect:
  assumes "ledger_inv db" and "s = decimalToStroops ops amount" and "s < 2 ^ 62"
    and "LedgerService_PostWithdrawal ops env mode db v u amount ev = (None, db')"
  shows "LedgerRepository_GetUserVaultBalance no_fault db' u v
       = map_sum id (\<lambda>b. b - s) (LedgerRepository_GetUserVaultBalance no_fault db u v)
    \<and> LedgerRepository_GetVaultPoolBalance no_fault db' v
       = map_sum id (\<lambda>b. b - s) (LedgerRepository_GetVaultPoolBalance no_fault db v)
    \<and> key_balance db' suspense_key = key_balance db suspense_key + 2 * s
    \<and> only_moves db db' [user_key v u, pool_key v, suspense_key]
    \<and> entries_total (db_entries db') = entries_total (db_entries db)
    \<and> ledger_inv db'"
proof -
  let ?x = "(ops, env, mode, v, u, amount, ev)"
  have eff: "key_balance db' (position_keys v u ! j) = key_balance db (position_keys v u ! j) + [- s, - s, 2 * s] ! j" if "j < 3" for j
    using withdrawal.effect [of ?x db db' j] assms that by simp
  have "only_moves db db' (position_keys v u)"
    using withdrawal.frame [of ?x db db'] assms by (auto simp: only_moves_def)
  moreover have "entries_total (db_entries db') = entries_total (db_entries db)" "ledger_inv db'"
    using withdrawal.books [of ?x db None db'] withdrawal.keeps_inv [of ?x db None db'] assms by simp_all
  ultimately show ?thesis
    using eff [of 0] eff [of 1] eff [of 2] by (simp add: user_read pool_read position_keys_def key_defs)
qed

theorem PostWithdrawal_effect_witness:
  "LedgerRepository_GetUserVaultBalance no_fault
     (snd (LedgerService_PostWithdrawal rat_ops (demo_env 1000) Direct empty_ledger 7 8 2 ''e1'')) 8 7
   = map_sum id (\<lambda>b. b - 20000000) (LedgerRepository_GetUserVaultBalance no_fault empty_ledger 8 7)"
proof -
  have "(20000000::int) = decimalToStroops rat_ops 2" "(20000000::int) < 2 ^ 62" by code_simp+
  moreover have "fst (LedgerService_PostWithdrawal rat_ops (demo_env 1000) Direct empty_ledger 7 8 2 ''e1'') = None"
    by code_simp
  ultimately show ?thesis
    using PostWithdrawal_effect [OF empty_ledger_inv, of 20000000 rat_ops 2 "demo_env 1000" Direct 7 8 "''e1''"]
    by (metis prod.collapse)
qed

text \<open>
  A successful \<open>PostRebalance\<close> moves the amount from one adapter's yield source to the
  other's, and nothing else.
\<close>

theorem PostRebalance_effect:
  assumes "ledger_inv db" and "s = decimalToStroops ops amount" and "s < 2 ^ 62"
    and "LedgerService_PostRebalance ops env mode db f t amount ev = (None, db')"
  shows "f \<noteq> t \<and> 0 < s
    \<and> key_balance db' (yield_key f) = key_balance db (yield_key f) - s
    \<and> key_balance db' (yield_key t) = key_balance db (yield_key t) + s
    \<and> only_moves db db' [yield_key f, yield_key t]
    \<and> entries_total (db_entries db') = entries_total (db_entries db)
    \<and> ledger_inv db'"
proof -
  let ?x = "(ops, env, mode, f, t, amount, ev)"
  have eff: "key_balance db' (rebalance_keys f t ! j) = key_balance db (rebalance_keys f t ! j) + [- s, s] ! j" if "j < 2" for j
    using rebalance.effect [of ?x db db' j] assms that by simp
  have "only_moves db db' (rebalance_keys f t)"
    using rebalance.frame [of ?x db db'] assms by (auto simp: only_moves_def)
  moreover have "entries_total (db_entries db') = entries_total (db_entries db)" "ledger_inv db'"
    using rebalance.books [of ?x db None db'] rebalance.keeps_inv [of ?x db None db'] assms by simp_all
  moreover have "f \<noteq> t \<and> 0 < s"
    using assms(2,4) by (auto simp: LedgerService_PostRebalance_def Let_def split: if_splits)
  ultimately show ?thesis
    using eff [of 0] eff [of 1] by (simp add: rebalance_keys_def key_defs)
qed

theorem PostRebalance_effect_witness:
  "key_balance (snd (LedgerService_PostRebalance rat_ops (demo_env 1000) CallerTx empty_ledger ''aave'' ''blend'' 3 ''r''))
     (yield_key ''blend'') = key_balance empty_ledger (yield_key ''blend'') + 30000000"
proof -
  have "(30000000::int) = decimalToStroops rat_ops 3" "(30000000::int) < 2 ^ 62" by code_simp+
  moreover have "fst (LedgerService_PostRebalance rat_ops (demo_env 1000) CallerTx empty_ledger ''aave'' ''blend'' 3 ''r'') = None"
    by code_simp
  ultimately show ?thesis
    using PostRebalance_effect [OF empty_ledger_inv, of 30000000 rat_ops 3 "demo_env 1000" CallerTx "''aave''" "''blend''" "''r''"]
    by (metis prod.collapse)
qed

text \<open>
  C2: a successful \<open>PostHarvest\<close> whose amounts satisfy \<open>gross = net + fee\<close> credits the vault's
  pool and the harvester with the net yield and the fee account with the fee, and debits
  the adapter's yield source by the gross and the suspense account by the net; nothing else
  moves. Zero legs are dropped, which changes no balance.
\<close>

theorem PostHarvest_effect:
  assumes "ledger_inv db"
    and "n = decimalToStroops ops netYield" and "f = decimalToStroops ops fee" and "g = decimalToStroops ops grossYield"
    and "harvest_range n f g" and "g = n + f"
    and "LedgerService_PostHarvest ops env mode db v u netYield fee grossYield ad ev = (None, db')"
  shows "LedgerRepository_GetVaultPoolBalance no_fault db' v
       = map_sum id (\<lambda>b. b + n) (LedgerRepository_GetVaultPoolBalance no_fault db v)
    \<and> LedgerRepository_GetUserVaultBalance no_fault db' u v
       = map_sum id (\<lambda>b. b + n) (LedgerRepository_GetUserVaultBalance no_fault db u v)
    \<and> key_balance db' fee_key = key_balance db fee_key + f
    \<and> key_balance db' (yield_key ad) = key_balance db (yield_key ad) - g
    \<and> key_balance db' suspense_key = key_balance db suspense_key - n
    \<and> only_moves db db' [pool_key v, user_key v u, fee_key, yield_key ad, suspense_key]
    \<and> entries_total (db_entries db') = entries_total (db_entries db)
    \<and> ledger_inv db'"
proof -
  let ?x = "(ops, env, mode, v, u, netYield, fee, grossYield, ad, ev)"
  have eff: "key_balance db' (harvest_keys v u ad ! j) = key_balance db (harvest_keys v u ad ! j) + harvest_legs n f g ! j" if "j < 5" for j
    using harvest.effect [of ?x db db' j] assms that by simp
  have "only_moves db db' (harvest_keys v u ad)"
    using harvest.frame [of ?x db db'] assms by (auto simp: only_moves_def)
  moreover have "entries_total (db_entries db') = entries_total (db_entries db)" "ledger_inv db'"
    using harvest.books [of ?x db None db'] harvest.keeps_inv [of ?x db None db'] assms by simp_all
  ultimately show ?thesis
    using eff [of 0] eff [of 1] eff [of 2] eff [of 3] eff [of 4]
    by (simp add: user_read pool_read harvest_keys_def harvest_legs_def key_defs)
qed

theorem PostHarvest_effect_witness:
  "key_balance (snd (LedgerService_PostHarvest rat_ops (demo_env 1000) OwnTx empty_ledger 7 8 4 0 4 ''blend'' ''h''))
     (yield_key ''blend'') = key_balance empty_ledger (yield_key ''blend'') - 40000000"
proof -
  have "(40000000::int) = decimalToStroops rat_ops 4" "(0::int) = decimalToStroops rat_ops 0"
    "harvest_range 40000000 0 40000000" "(40000000::int) = 40000000 + 0" by code_simp+
  moreover have "fst (LedgerService_PostHarvest rat_ops (demo_env 1000) OwnTx empty_ledger 7 8 4 0 4 ''blend'' ''h'') = None"
    by code_simp
  ultimately show ?thesis
    using PostHarvest_effect [OF empty_ledger_inv, of 40000000 rat_ops 4 0 0 40000000 4 "demo_env 1000" OwnTx 7 8 "''blend''" "''h''"]
    by (metis prod.collapse)
qed

section \<open>All or nothing, and at most once\<close>

lemma service_posted_rows:
  assumes "service_posted db et ev keys amounts db'" and "length amounts = length keys" and "0 \<notin> set amounts"
  shows "\<exists>rows. db_entries db' = db_entries db @ rows \<and> map e_Amount rows = amounts \<and>
    (\<forall>e \<in> set rows. e_DomainEventType e = et \<and> e_DomainEventID e = ev)"
proof -
  obtain db1 accs tx where ext: "acct_ext db db1" and hold: "list_all2 (holds db1) keys accs"
    and post: "posted db1 (nonzero (posting_entries tx et ev accs amounts)) db'"
    using assms(1) by (auto simp: service_posted_def)
  let ?es = "posting_entries tx et ev accs amounts"
  have len: "length accs = length amounts" using hold assms(2) by (simp add: list_all2_lengthD)
  have amts: "map e_Amount (nonzero ?es) = amounts"
    using len assms(3) by (induction accs amounts rule: list_induct2) (simp_all add: nonzero_def)
  obtain rows where rows: "db_entries db' = db_entries db @ rows" "map e_Amount rows = amounts"
      "map event_key rows = map event_key (nonzero ?es)"
    using post ext amts by (auto simp: posted_def acct_ext_def)
  have "e_DomainEventType e = et \<and> e_DomainEventID e = ev" if "e \<in> set rows" for e
  proof -
    have "event_key e \<in> event_key ` set (nonzero ?es)" using that rows(3) by (metis imageI list.set_map)
    then show ?thesis by (auto simp: nonzero_def posting_entries_def event_key_def posting_entry_def)
  qed
  with rows show ?thesis by blast
qed

text \<open>
  C3: \<open>PostDeposit\<close> is all or nothing, whatever statements and commits fail. Either the three
  legs of the event are appended together, or the call reports an error and neither
  entries nor balances changed; and outside the direct mode an error whose commit was not
  merely unacknowledged leaves the whole database as it was.
\<close>

theorem PostDeposit_all_or_nothing:
  assumes "ledger_inv db" and "s = decimalToStroops ops amount" and "s \<le> 2 ^ 62"
    and "LedgerService_PostDeposit ops env mode db v u amount ev = (r, db')"
  shows "(r \<noteq> None \<and> db_entries db' = db_entries db \<and> db_balances db' = db_balances db
       \<or> (\<exists>rows. db_entries db' = db_entries db @ rows \<and> map e_Amount rows = [s, s, - 2 * s] \<and>
            (\<forall>e \<in> set rows. e_DomainEventType e = ''deposit'' \<and> e_DomainEventID e = ev)))
    \<and> (mode \<noteq> Direct \<and> r \<noteq> None \<and> env_commit env 200 \<noteq> CommitUnacked \<longrightarrow> db' = db)
    \<and> ledger_inv db'"
proof (cases "s \<le> 0")
  case True
  then show ?thesis using assms by (auto simp: LedgerService_PostDeposit_def)
next
  case False
  have "mode \<noteq> Direct \<and> r \<noteq> None \<and> env_commit env 200 \<noteq> CommitUnacked \<longrightarrow> db' = db"
    using assms(2,4) False by (auto simp: LedgerService_PostDeposit_def Let_def dest!: dispatch_tx_cases)
  moreover have "service_posted db ''deposit'' ev (position_keys v u) [s, s, - 2 * s] db' \<Longrightarrow>
      \<exists>rows. db_entries db' = db_entries db @ rows \<and> map e_Amount rows = [s, s, - 2 * s] \<and>
        (\<forall>e \<in> set rows. e_DomainEventType e = ''deposit'' \<and> e_DomainEventID e = ev)"
    using False by (intro service_posted_rows [where keys = "position_keys v u"]) auto
  moreover have "ledger_inv db'"
    using deposit.keeps_inv [of "(ops, env, mode, v, u, amount, ev)" db r db'] assms by simp
  ultimately show ?thesis
    using PostDeposit_cases [OF assms(4,1) assms(3) [unfolded assms(2)]] assms(2)
    by (auto simp: unposted_def acct_ext_def)
qed

definition lost_ack_env :: ledger_env where
  "lost_ack_env = (demo_env 1000)\<lparr>env_commit := \<lambda>_. CommitUnacked\<rparr>"

theorem PostDeposit_all_or_nothing_witness:
  "\<exists>rows. db_entries (snd (LedgerService_PostDeposit rat_ops lost_ack_env OwnTx empty_ledger 7 8 2 ''e1''))
     = db_entries empty_ledger @ rows \<and> map e_Amount rows = [20000000, 20000000, - 40000000]"
proof -
  have "(20000000::int) = decimalToStroops rat_ops 2" "(20000000::int) \<le> 2 ^ 62" by code_simp+
  moreover have "db_entries (snd (LedgerService_PostDeposit rat_ops lost_ack_env OwnTx empty_ledger 7 8 2 ''e1'')) \<noteq> db_entries empty_ledger"
    by code_simp
  ultimately show ?thesis
    using PostDeposit_all_or_nothing [OF empty_ledger_inv, of 20000000 rat_ops 2 lost_ack_env OwnTx 7 8 "''e1''"
      "fst (LedgerService_PostDeposit rat_ops lost_ack_env OwnTx empty_ledger 7 8 2 ''e1'')"
      "snd (LedgerService_PostDeposit rat_ops lost_ack_env OwnTx empty_ledger 7 8 2 ''e1'')"]
    by auto
qed

text \<open>
  C4: a deposit event is posted at most once. After a successful \<open>PostDeposit\<close> for a nonempty
  event id, every later call with that id, for any vault, user, amount and mode, reports an
  error and changes neither entries nor balances.
\<close>

theorem PostDeposit_at_most_once:
  assumes "ledger_inv db" and "decimalToStroops ops amount \<le> 2 ^ 62"
    and "LedgerService_PostDeposit ops env mode db v u amount ev = (None, db1)" and "ev \<noteq> []"
    and "later db1 db2" and "ledger_inv db2" and "decimalToStroops ops amount2 \<le> 2 ^ 62"
    and "LedgerService_PostDeposit ops env2 mode2 db2 v2 u2 amount2 ev = (r, db3)"
  shows "r \<noteq> None \<and> db_entries db3 = db_entries db2 \<and> db_balances db3 = db_balances db2"
proof (cases "decimalToStroops ops amount2 \<le> 0")
  case True
  then show ?thesis using assms(8) by (auto simp: LedgerService_PostDeposit_def)
next
  case False
  have "decimalToStroops ops amount > 0"
    using assms(3) by (auto simp: LedgerService_PostDeposit_def Let_def split: if_splits)
  then have "r \<noteq> None \<and> unposted db2 db3"
    using deposit.at_most_once [of "(ops, env, mode, v, u, amount, ev)" db db1 db2
        "(ops, env2, mode2, v2, u2, amount2, ev)" r db3 2 2] assms False
    by (simp add: position_keys_def)
  then show ?thesis by (auto simp: unposted_def acct_ext_def)
qed

definition deposited_ledger :: LedgerDB where
  "deposited_ledger = snd (LedgerService_PostDeposit rat_ops (demo_env 1000) OwnTx empty_ledger 7 8 2 ''e1'')"

lemma deposited_ledger_call:
  "LedgerService_PostDeposit rat_ops (demo_env 1000) OwnTx empty_ledger 7 8 2 ''e1'' = (None, deposited_ledger)"
proof -
  have "fst (LedgerService_PostDeposit rat_ops (demo_env 1000) OwnTx empty_ledger 7 8 2 ''e1'') = None" by code_simp
  then show ?thesis by (simp add: deposited_ledger_def prod_eq_iff)
qed

theorem PostDeposit_at_most_once_witness:
  "db_entries (snd (LedgerService_PostDeposit rat_ops (demo_env 5000) CallerTx deposited_ledger 7 8 3 ''e1''))
   = db_entries deposited_ledger
   \<and> fst (LedgerService_PostDeposit rat_ops (demo_env 5000) CallerTx deposited_ledger 7 8 3 ''e1'') = Some ErrAlreadyPosted"
proof -
  have ok: "decimalToStroops rat_ops 2 \<le> 2 ^ 62" "decimalToStroops rat_ops 3 \<le> 2 ^ 62" "''e1'' \<noteq> []" by code_simp+
  note first = deposited_ledger_call
  have inv: "ledger_inv deposited_ledger"
    using deposit.keeps_inv [of "(rat_ops, demo_env 1000, OwnTx, 7, 8, 2, ''e1'')"] ok(1) first empty_ledger_inv by simp
  have "fst (LedgerService_PostDeposit rat_ops (demo_env 5000) CallerTx deposited_ledger 7 8 3 ''e1'') = Some ErrAlreadyPosted"
    by code_simp
  moreover have "later deposited_ledger deposited_ledger" by (simp add: later_def)
  ultimately show ?thesis
    using PostDeposit_at_most_once [OF empty_ledger_inv ok(1) first ok(3) _ inv ok(2)] by (metis prod.collapse)
qed

section \<open>The books in every reachable state\<close>

text \<open>
  The system the service runs: any of the four postings, in any mode, with any pattern of
  faults and commit outcomes and any reported result, interleaved with new vaults and
  users. Amounts stay inside the range for which no leg leaves \<open>int64\<close>.
\<close>

inductive ledger_step :: "'d decimal_ops \<Rightarrow> LedgerDB \<Rightarrow> LedgerDB \<Rightarrow> bool" for ops where
  step_deposit: "LedgerService_PostDeposit ops env mode db v u amount ev = (r, db') \<Longrightarrow>
     decimalToStroops ops amount \<le> 2 ^ 62 \<Longrightarrow> ledger_step ops db db'"
| step_withdrawal: "LedgerService_PostWithdrawal ops env mode db v u amount ev = (r, db') \<Longrightarrow>
     decimalToStroops ops amount < 2 ^ 62 \<Longrightarrow> ledger_step ops db db'"
| step_rebalance: "LedgerService_PostRebalance ops env mode db f t amount ev = (r, db') \<Longrightarrow>
     decimalToStroops ops amount < 2 ^ 62 \<Longrightarrow> ledger_step ops db db'"
| step_harvest: "LedgerService_PostHarvest ops env mode db v u net fee gross ad ev = (r, db') \<Longrightarrow>
     harvest_range (decimalToStroops ops net) (decimalToStroops ops fee) (decimalToStroops ops gross) \<Longrightarrow>
     ledger_step ops db db'"
| step_vault: "ledger_step ops db (db\<lparr>db_vaults := v # db_vaults db\<rparr>)"
| step_user: "ledger_step ops db (db\<lparr>db_users := u # db_users db\<rparr>)"

definition ledger_init :: "LedgerDB \<Rightarrow> bool" where
  "ledger_init db \<longleftrightarrow> db_accounts db = [] \<and> db_entries db = [] \<and> db_balances db = []"

definition books_inv :: "LedgerDB \<Rightarrow> bool" where
  "books_inv db \<longleftrightarrow> ledger_inv db \<and> entries_total (db_entries db) = 0"

lemma harvest_keeps_books:
  assumes call: "LedgerService_PostHarvest ops env mode db v u net fee gross ad ev = (r, db')"
    and range: "harvest_range (decimalToStroops ops net) (decimalToStroops ops fee) (decimalToStroops ops gross)"
    and inv: "books_inv db"
  shows "books_inv db'"
proof -
  let ?legs = "harvest_legs (decimalToStroops ops net) (decimalToStroops ops fee) (decimalToStroops ops gross)"
  have ledger: "ledger_inv db" using inv by (simp add: books_inv_def)
  have small: "\<bar>sum_list ?legs\<bar> < 2 ^ 64" using range by (auto simp: harvest_range_def harvest_legs_def)
  have "unposted db db' \<or> service_posted db ''harvest'' ev (harvest_keys v u ad) ?legs db'"
    using PostHarvest_cases [OF call ledger refl refl refl range] by blast
  then show ?thesis
  proof
    assume "unposted db db'"
    then show ?thesis using inv by (auto simp: books_inv_def unposted_def acct_ext_def)
  next
    assume posted: "service_posted db ''harvest'' ev (harvest_keys v u ad) ?legs db'"
    have len: "length ?legs = length (harvest_keys v u ad)" by (simp add: harvest_legs_def)
    show ?thesis
      using service_posted_total [OF posted len] service_posted_balanced [OF posted len small]
        service_posted_inv [OF posted] inv by (simp add: books_inv_def)
  qed
qed

lemma ledger_step_books:
  assumes "ledger_step ops db db'" and "books_inv db"
  shows "books_inv db'"
  using assms
proof cases
  case (step_deposit env mode v u amount ev r)
  let ?x = "(ops, env, mode, v, u, amount, ev)"
  show ?thesis using deposit.books [of ?x db r db'] deposit.keeps_inv [of ?x db r db'] step_deposit assms(2)
    by (simp add: books_inv_def)
next
  case (step_withdrawal env mode v u amount ev r)
  let ?x = "(ops, env, mode, v, u, amount, ev)"
  show ?thesis using withdrawal.books [of ?x db r db'] withdrawal.keeps_inv [of ?x db r db'] step_withdrawal assms(2)
    by (simp add: books_inv_def)
next
  case (step_rebalance env mode f t amount ev r)
  let ?x = "(ops, env, mode, f, t, amount, ev)"
  show ?thesis using rebalance.books [of ?x db r db'] rebalance.keeps_inv [of ?x db r db'] step_rebalance assms(2)
    by (simp add: books_inv_def)
next
  case (step_harvest env mode v u net fee gross ad ev r)
  then show ?thesis using assms(2) by (rule harvest_keeps_books)
next
  case (step_vault v)
  then show ?thesis using assms(2) by (simp add: books_inv_def ledger_inv_def keyed_entries_def cached_balance_def)
next
  case (step_user u)
  then show ?thesis using assms(2) by (simp add: books_inv_def ledger_inv_def keyed_entries_def cached_balance_def)
qed

interpretation ledger_system: invariant_system ledger_init "ledger_step ops" books_inv for ops
proof unfold_locales
  fix db assume "ledger_init db"
  then show "books_inv db"
    by (simp add: ledger_init_def books_inv_def ledger_inv_def accounts_ok_def keyed_entries_def cached_balance_def)
qed (rule ledger_step_books)

lemma recompute_rows_clean:
  assumes "ledger_inv db"
  shows "recompute_rows db accs = Inr []"
proof (induction accs)
  case (Cons a accs)
  have "\<forall>b \<in> set (db_balances db). in64 (b_Balance b)" using assms by (simp add: ledger_inv_def)
  then have "in64 (cached_balance db (acc_ID a))"
    by (auto simp: cached_balance_def split: option.splits dest: find_SomeD)
  moreover have "entries_total (account_entries db (acc_ID a)) = cached_balance db (acc_ID a)"
    using assms by (simp add: account_entries_legs ledger_inv_def)
  ultimately show ?case using Cons by (simp add: scan_int64_def)
qed simp

text \<open>
  C5: in every state the service reaches from an empty ledger, whatever fails on the way,
  \<open>ValidateBooks\<close> finds that all entries sum to zero and \<open>VerifyBalances\<close> finds no cached
  balance that differs from the sum of its account's entries.
\<close>

theorem reachable_books_balance:
  assumes "reach ledger_init (ledger_step ops) db"
  shows "LedgerService_ValidateBooks no_fault db = None \<and> LedgerService_VerifyBalances no_fault db = Inr []"
proof -
  have "books_inv db" using ledger_system.reachable_inv [OF assms] .
  then show ?thesis
    by (simp add: books_inv_def LedgerService_ValidateBooks_def LedgerRepository_SumAllEntries_def scan_int64_def
        LedgerService_VerifyBalances_def LedgerRepository_RecomputeBalances_def recompute_rows_clean)
qed

theorem reachable_books_balance_witness:
  "LedgerService_ValidateBooks no_fault deposited_ledger = None \<and> db_entries deposited_ledger \<noteq> []"
proof -
  have "reach ledger_init (ledger_step rat_ops) empty_ledger"
    by (rule reach_init) (simp add: ledger_init_def empty_ledger_def)
  moreover have "ledger_step rat_ops empty_ledger deposited_ledger"
    by (rule step_deposit [OF deposited_ledger_call]) code_simp
  ultimately have "reach ledger_init (ledger_step rat_ops) deposited_ledger" by (rule reach_step)
  moreover have "db_entries deposited_ledger \<noteq> []" by code_simp
  ultimately show ?thesis using reachable_books_balance by blast
qed

section \<open>Validation and its limit\<close>

text \<open>
  \<open>ValidateBalanced\<close> accepts a posting exactly when it has at least two entries, one
  non-nil transaction id, no zero amount and no nil account, and its amounts sum to zero
  modulo \<open>2 ^ 64\<close>, the arithmetic of Go's \<open>int64\<close>.
\<close>

theorem ValidateBalanced_accepts_iff:
  "ValidateBalanced es = None \<longleftrightarrow>
     2 \<le> length es \<and> e_TransactionID (hd es) \<noteq> uuid_Nil \<and>
     (\<forall>e \<in> set es. e_TransactionID e = e_TransactionID (hd es) \<and> e_Amount e \<noteq> 0 \<and> e_AccountID e \<noteq> uuid_Nil) \<and>
     sum_list (map e_Amount es) mod 2 ^ 64 = 0"
  unfolding ValidateBalanced_None posting_shape_def entries_total_def ..

theorem ValidateBalanced_accepts_iff_witness:
  "ValidateBalanced [posting_entry 1 ''deposit'' ''e'' (new_account 2 0 AccountTypeFee None None None ''USDC'') 5,
                     posting_entry 1 ''deposit'' ''e'' (new_account 3 0 AccountTypeFee None None None ''USDC'') (- 5)] = None"
  unfolding ValidateBalanced_accepts_iff by code_simp

definition huge_deposit :: "ledger_error option \<times> LedgerDB" where
  "huge_deposit = LedgerService_PostDeposit rat_ops (demo_env 1000) OwnTx empty_ledger 7 8
     (9223372036854775807 / 10000000) ''e1''"

text \<open>
  The sum wraps, so the check does not bound amounts. A deposit of \<open>2 ^ 63 - 1\<close> stroops
  is accepted, although \<open>-2 * stroops\<close> has wrapped to \<open>2\<close>: the books are then off by \<open>2 ^ 64\<close>,
  a total \<open>ValidateBooks\<close> cannot even read.
\<close>

theorem PostDeposit_overflow_accepted:
  "fst huge_deposit = None \<and> map e_Amount (db_entries (snd huge_deposit)) = [2 ^ 63 - 1, 2 ^ 63 - 1, 2]
   \<and> entries_total (db_entries (snd huge_deposit)) = 2 ^ 64
   \<and> LedgerService_ValidateBooks no_fault (snd huge_deposit) = Some SqlScan"
  by code_simp

section \<open>Stroops and decimals\<close>

text \<open>
  What the service relies on of \<open>shopspring/decimal\<close>, by the rational value of a decimal:
  products and integers are exact, a quotient by \<open>10 ^ 7\<close> is exact (division keeps sixteen
  decimal places), rounding to no places is to a nearest integer, and \<open>IntPart\<close> of an
  integral value in range is that value.
\<close>

definition decimal_laws :: "'d decimal_ops \<Rightarrow> ('d \<Rightarrow> rat) \<Rightarrow> bool" where
  "decimal_laws ops val \<longleftrightarrow>
     (\<forall>a b. val (d_Mul ops a b) = val a * val b) \<and>
     (\<forall>n. val (d_NewFromInt ops n) = of_int n) \<and>
     (\<forall>n. val (d_Div ops (d_NewFromInt ops n) (d_NewFromInt ops 10000000)) = of_int n / 10000000) \<and>
     (\<forall>a. val (d_Round ops a 0) \<in> \<int> \<and> \<bar>val (d_Round ops a 0) - val a\<bar> \<le> 1 / 2) \<and>
     (\<forall>a n. val a = of_int n \<and> in64 n \<longrightarrow> d_IntPart ops a = n)"

lemma rounded_unique: "\<bar>(r::rat) - of_int n\<bar> \<le> 1 / 2 \<Longrightarrow> r \<in> \<int> \<Longrightarrow> r = of_int n"
proof (elim Ints_cases)
  fix m assume "\<bar>r - of_int n\<bar> \<le> 1 / 2" "r = of_int m"
  then have "\<bar>(of_int (m - n) :: rat)\<bar> \<le> 1 / 2" by simp
  then have "\<bar>(of_int (m - n) :: rat)\<bar> < 1" by linarith
  then have "m = n" by linarith
  with \<open>r = of_int m\<close> show "r = of_int n" by simp
qed

text \<open>
  Converting a balance to a decimal and back loses nothing: every \<open>int64\<close> number of
  stroops is read back exactly.
\<close>

theorem stroops_round_trip:
  assumes "decimal_laws ops val" and "in64 s"
  shows "decimalToStroops ops (stroopsToDecimal ops s) = s"
proof -
  let ?m = "d_Mul ops (stroopsToDecimal ops s) (d_NewFromInt ops 10000000)"
  have "val ?m = of_int s"
    using assms(1) by (simp add: decimal_laws_def stroopsToDecimal_def)
  moreover have "\<bar>val (d_Round ops ?m 0) - val ?m\<bar> \<le> 1 / 2" "val (d_Round ops ?m 0) \<in> \<int>"
    using assms(1) unfolding decimal_laws_def by blast+
  ultimately have "val (d_Round ops ?m 0) = of_int s" using rounded_unique by metis
  then show ?thesis using assms by (simp add: decimal_laws_def decimalToStroops_def)
qed

lemma rat_ops_laws: "decimal_laws rat_ops id"
proof -
  have "\<bar>rat_round a 0 - a\<bar> \<le> 1 / 2 \<and> rat_round a 0 \<in> \<int>" for a
  proof -
    have "\<bar>(of_int \<lfloor>x + 1 / 2\<rfloor> :: rat) - x\<bar> \<le> 1 / 2" for x :: rat
      using floor_correct [of "x + 1 / 2"] unfolding abs_le_iff by linarith
    from this [of "\<bar>a\<bar>"] show ?thesis by (auto simp: rat_round_def Let_def abs_if split: if_splits)
  qed
  then show ?thesis by (auto simp: decimal_laws_def rat_ops_def)
qed

theorem stroops_round_trip_witness:
  "decimalToStroops rat_ops (stroopsToDecimal rat_ops 123456789) = 123456789"
  using stroops_round_trip [OF rat_ops_laws, of 123456789] by (simp add: in64_def min64_def max64_def)

end
