(* ===== verification/Float64.thy ===== *)
theory Float64
  imports Complex_Main
begin

text \<open>
  Go's \<open>float64\<close> as the program uses it: non-negative values obtained from \<open>int\<close>s by
  conversion, division and multiplication, and comparisons. Rounding is to 53 significant
  bits, to nearest and ties to even. No value the program computes is near the subnormal
  range or the largest finite value.
\<close>

datatype float64 = FNum rat | FPosInf | FNegInf | FNaN

text \<open>The integer nearest to \<open>a / b\<close>, for \<open>0 \<le> a\<close> and \<open>0 < b\<close>.\<close>

definition round_half_even :: "int \<Rightarrow> int \<Rightarrow> int" where
  "round_half_even a b =
     (let f = a div b; r = 2 * (a mod b) in
      if r < b then f else if b < r then f + 1 else if even f then f else f + 1)"

text \<open>
  Double the numerator until the quotient has 53 bits before the point, counting the
  doublings; double the denominator until it has no more than 53.
\<close>

fun scale_up :: "nat \<Rightarrow> int \<Rightarrow> int \<Rightarrow> int \<times> nat" where
  "scale_up 0 a b = (a, 0)"
| "scale_up (Suc n) a b =
     (if 2 ^ 52 * b \<le> a then (a, 0) else (let (x, k) = scale_up n (2 * a) b in (x, Suc k)))"

fun scale_down :: "nat \<Rightarrow> int \<Rightarrow> int \<Rightarrow> nat" where
  "scale_down 0 a b = 0"
| "scale_down (Suc n) a b = (if a < 2 ^ 53 * b then 0 else Suc (scale_down n a (2 * b)))"

text \<open>
  The rounded quotient of two non-negative integers. The program's quotients and products
  lie between \<open>2 ^ -63\<close> and \<open>2 ^ 64\<close>, so 120 doublings up and 12 down are enough.
\<close>

definition float64_ratio :: "int \<Rightarrow> int \<Rightarrow> rat" where
  "float64_ratio a b =
     (if a \<le> 0 then 0
      else if a < 2 ^ 52 * b
        then (let (z, k) = scale_up 120 a b in of_int (round_half_even z b) / 2 ^ k)
        else (let k = scale_down 12 a b in of_int (round_half_even a (2 ^ k * b) * 2 ^ k)))"

text \<open>\<open>float64(n)\<close> of a non-negative \<open>int\<close> is again an integer.\<close>

definition float64_of_int :: "int \<Rightarrow> int" where
  "float64_of_int n =
     (if n \<le> 0 then 0 else (let k = scale_down 12 n 1 in round_half_even n (2 ^ k) * 2 ^ k))"

definition float64_le :: "float64 \<Rightarrow> float64 \<Rightarrow> bool" where
  "float64_le x y \<longleftrightarrow>
     (case (x, y) of
        (FNum a, FNum b) \<Rightarrow> a \<le> b
      | (FNaN, _) \<Rightarrow> False | (_, FNaN) \<Rightarrow> False
      | (FNegInf, _) \<Rightarrow> True | (_, FPosInf) \<Rightarrow> True
      | _ \<Rightarrow> False)"

definition float64_less :: "float64 \<Rightarrow> float64 \<Rightarrow> bool" where
  "float64_less x y \<longleftrightarrow>
     (case (x, y) of
        (FNum a, FNum b) \<Rightarrow> a < b
      | (FNaN, _) \<Rightarrow> False | (_, FNaN) \<Rightarrow> False
      | (FNegInf, FNegInf) \<Rightarrow> False | (FNegInf, _) \<Rightarrow> True
      | (FPosInf, _) \<Rightarrow> False | (_, FPosInf) \<Rightarrow> True
      | _ \<Rightarrow> False)"

section \<open>Bounds of rounding\<close>

lemma round_half_even_le:
  assumes "0 < b" and "a \<le> n * b"
  shows "round_half_even a b \<le> n"
proof -
  have ab: "a = b * (a div b) + a mod b" by simp
  have r: "0 \<le> a mod b" "a mod b < b" using assms(1) by simp_all
  have le: "a div b \<le> n" using zdiv_mono1 [OF assms(2,1)] assms(1) by simp
  show ?thesis
  proof (cases "a div b = n")
    case True
    then have "a mod b \<le> 0" using ab assms(2) by (simp add: mult.commute)
    then have "a mod b = 0" using r by simp
    then show ?thesis using True assms(1) by (simp add: round_half_even_def)
  next
    case False
    then show ?thesis using le by (auto simp: round_half_even_def Let_def)
  qed
qed

lemma round_half_even_nonneg: "0 \<le> a \<Longrightarrow> 0 < b \<Longrightarrow> 0 \<le> round_half_even a b"
  by (auto simp: round_half_even_def Let_def pos_imp_zdiv_nonneg_iff intro: add_nonneg_nonneg)

lemma round_half_even_exact: "0 < b \<Longrightarrow> round_half_even (n * b) b = n"
  by (simp add: round_half_even_def)

lemma scale_up_value: "scale_up n a b = (z, k) \<Longrightarrow> z = a * 2 ^ k"
proof (induction n arbitrary: a k)
  case (Suc n)
  show ?case
  proof (cases "2 ^ 52 * b \<le> a")
    case False
    then obtain j where "scale_up n (2 * a) b = (z, j)" "k = Suc j" using Suc.prems by (auto split: prod.splits)
    then show ?thesis using Suc.IH by fastforce
  qed (use Suc.prems in simp)
qed simp

text \<open>The doublings of \<^const>\<open>float64_ratio\<close> suffice for every quotient of positive values below \<open>2 ^ 64\<close>.\<close>

lemma scale_up_enough:
  assumes "0 < a" and "b < 2 ^ 64" and "scale_up 120 a b = (z, k)"
  shows "2 ^ 52 * b \<le> z"
proof -
  have gen: "2 ^ 52 * b \<le> z" if "2 ^ 52 * b \<le> 2 ^ n * a" "scale_up n a b = (z, k)" for n a k
    using that
  proof (induction n arbitrary: a k)
    case (Suc n)
    then show ?case using Suc.IH [of "2 * a"] by (cases "2 ^ 52 * b \<le> a") (auto split: prod.splits simp: mult.commute)
  qed simp
  have "2 ^ 52 * b \<le> 2 ^ 120 * a" using assms(1,2) by simp
  then show ?thesis using gen assms(3) by blast
qed

lemma scale_down_step: "scale_down n a b = Suc k \<Longrightarrow> 2 ^ 53 * (2 ^ k * b) \<le> a"
proof (induction n arbitrary: b k)
  case (Suc n)
  show ?case
  proof (cases k)
    case 0
    then show ?thesis using Suc.prems by (simp split: if_splits)
  next
    case (Suc j)
    then have "scale_down n a (2 * b) = Suc j" using Suc.prems by (simp split: if_splits)
    from Suc.IH [OF this] show ?thesis using Suc by (simp add: ac_simps)
  qed
qed simp

text \<open>A value with at most 53 significant bits.\<close>

definition representable :: "int \<Rightarrow> bool" where
  "representable c \<longleftrightarrow> (\<exists>m j. c = m * 2 ^ j \<and> 0 \<le> m \<and> m \<le> 2 ^ 53)"

lemma representable_dvd:
  assumes "representable c" and "2 ^ 52 * 2 ^ k \<le> c"
  shows "2 ^ k dvd c"
proof -
  obtain m j where c: "c = m * 2 ^ j" "0 \<le> m" "m \<le> 2 ^ 53" using assms(1) by (auto simp: representable_def)
  show ?thesis
  proof (cases "k \<le> j")
    case True
    then show ?thesis using c(1) by (simp add: le_imp_power_dvd)
  next
    case False
    then obtain d where d: "k = j + Suc d" by (metis less_iff_Suc_add not_le add_Suc_right)
    have "2 ^ 52 * (2 ^ j * 2 ^ Suc d) \<le> m * 2 ^ j" using assms(2) c(1) by (simp add: d power_add)
    then have "(2 ^ 52 * 2 ^ Suc d) * 2 ^ j \<le> m * (2::int) ^ j" by (simp add: ac_simps)
    then have m: "2 ^ 52 * 2 ^ Suc d \<le> m" by (rule mult_right_le_imp_le) simp
    have "(1::int) \<le> 2 ^ d" by simp
    then have "2 ^ 53 \<le> 2 ^ 52 * (2::int) ^ Suc d" by simp
    with m c(3) have "m = 2 ^ 52 * 2 ^ Suc d" by linarith
    then show ?thesis using c(1) d by (simp add: power_add)
  qed
qed

lemma scale_down_stop: "a < 2 ^ 53 * (2 ^ n * b) \<Longrightarrow> a < 2 ^ 53 * (2 ^ scale_down n a b * b)"
proof (induction n arbitrary: b)
  case (Suc n)
  show ?case
  proof (cases "a < 2 ^ 53 * b")
    case False
    then show ?thesis using Suc.IH [of "2 * b"] Suc.prems by (simp add: ac_simps)
  qed simp
qed simp

lemma representable_float64_of_int:
  assumes "0 \<le> n" and "n < 2 ^ 64"
  shows "representable (float64_of_int n)"
proof (cases "n = 0")
  case True
  then show ?thesis by (auto simp: float64_of_int_def representable_def intro: exI [of _ 0])
next
  case False
  let ?k = "scale_down 12 n 1"
  have "n < 2 ^ 53 * (2 ^ ?k * 1)" using assms(2) by (intro scale_down_stop) simp
  then have "round_half_even n (2 ^ ?k) \<le> 2 ^ 53" by (intro round_half_even_le) simp_all
  moreover have "0 \<le> round_half_even n (2 ^ ?k)" using assms(1) by (intro round_half_even_nonneg) simp_all
  moreover have "float64_of_int n = round_half_even n (2 ^ ?k) * 2 ^ ?k"
    using False assms(1) by (simp add: float64_of_int_def Let_def)
  ultimately show ?thesis unfolding representable_def by blast
qed

lemma float64_of_int_exact: "0 \<le> n \<Longrightarrow> n < 2 ^ 53 \<Longrightarrow> float64_of_int n = n"
  using round_half_even_exact [of 1 n] by (auto simp: float64_of_int_def eval_nat_numeral)

text \<open>Rounding never passes a representable bound.\<close>

lemma float64_ratio_bounds:
  assumes "0 < b" and "0 \<le> a" and "a \<le> c * b" and "representable c"
  shows "0 \<le> float64_ratio a b \<and> float64_ratio a b \<le> of_int c"
proof -
  have c0: "0 \<le> c" using assms(4) by (auto simp: representable_def)
  consider "a = 0" | "0 < a" "a < 2 ^ 52 * b" | "0 < a" "2 ^ 52 * b \<le> a" using assms(2) by linarith
  then show ?thesis
  proof cases
    case 1
    then show ?thesis using c0 by (simp add: float64_ratio_def)
  next
    case 2
    obtain z k where zk: "scale_up 120 a b = (z, k)" by fastforce
    then have z: "z = a * 2 ^ k" by (rule scale_up_value)
    have "a * 2 ^ k \<le> (c * b) * 2 ^ k" using assms(3) by simp
    then have "round_half_even z b \<le> c * 2 ^ k"
      using assms(1) by (intro round_half_even_le) (simp_all add: z ac_simps)
    then have "of_int (round_half_even z b) \<le> (of_int (c * 2 ^ k) :: rat)" by (simp only: of_int_le_iff)
    moreover have "0 \<le> round_half_even z b" using assms(1,2) by (intro round_half_even_nonneg) (simp_all add: z)
    moreover have "float64_ratio a b = of_int (round_half_even z b) / 2 ^ k"
      using 2 zk by (simp add: float64_ratio_def)
    ultimately show ?thesis by (simp add: divide_le_eq)
  next
    case 3
    let ?k = "scale_down 12 a b"
    let ?u = "2 ^ ?k :: int"
    have "?u dvd c"
    proof (cases ?k)
      case (Suc j)
      have "2 ^ 53 * (2 ^ j * b) \<le> a" using Suc by (rule scale_down_step)
      then have "(2 ^ 53 * 2 ^ j) * b \<le> c * b" using assms(3) by (simp add: ac_simps)
      then have "2 ^ 53 * 2 ^ j \<le> c" using assms(1) by simp
      then show ?thesis using assms(4) by (intro representable_dvd) (simp_all add: Suc)
    qed simp
    then obtain q where q: "c = ?u * q" by (rule dvdE)
    have "round_half_even a (?u * b) \<le> q"
      using assms(1,3) q by (intro round_half_even_le) (simp_all add: ac_simps)
    then have "round_half_even a (?u * b) * ?u \<le> c" using q by (simp add: mult.commute)
    moreover have "0 \<le> round_half_even a (?u * b) * ?u" using assms(1,2) by (intro mult_nonneg_nonneg round_half_even_nonneg) simp_all
    moreover have "float64_ratio a b = of_int (round_half_even a (?u * b) * ?u)"
      using 3 by (simp add: float64_ratio_def Let_def)
    ultimately show ?thesis by (simp only: of_int_le_iff of_int_0_le_iff)
  qed
qed

end
