(* ===== verification/Breaker.thy ===== *)
theory Breaker
  imports Nester_Prelude Float64
begin

text \<open>
  The circuit breaker (\<open>internal/breaker/breaker.go\<close>): configuration and its validation, the
  rolling window of ten buckets, \<open>Allow\<close>, \<open>Record\<close> and \<open>Snapshot\<close>. Every operation takes the
  instant its call to \<open>b.now()\<close> returns; an integer division by zero, which panics in Go,
  is the result \<open>None\<close>.
\<close>

section \<open>Floating point\<close>

text \<open>\<open>float64(a) / float64(b)\<close> for \<open>0 \<le> a\<close> and \<open>0 < b\<close>.\<close>

definition float64_quotient :: "int \<Rightarrow> int \<Rightarrow> float64" where
  "float64_quotient a b = FNum (float64_ratio (float64_of_int a) (float64_of_int b))"

section \<open>State, outcomes and configuration\<close>

datatype State = StateClosed | StateHalfOpen | StateOpen

fun State_String :: "State \<Rightarrow> string" where
  "State_String StateClosed = ''closed''"
| "State_String StateHalfOpen = ''half_open''"
| "State_String StateOpen = ''open''"

definition windowBuckets :: nat where "windowBuckets = 10"

record Config =
  FailureRatio :: float64
  MinRequests :: int
  Window :: duration
  OpenDuration :: duration

definition DefaultFailureRatio :: float64 where "DefaultFailureRatio = FNum (1 / 2)"
definition DefaultMinRequests :: int where "DefaultMinRequests = 10"
definition DefaultWindow :: duration where "DefaultWindow = 60 * second"
definition DefaultOpenDuration :: duration where "DefaultOpenDuration = 15 * second"

definition Config_withDefaults :: "Config \<Rightarrow> Config" where
  "Config_withDefaults c =
     \<lparr>FailureRatio = (if float64_le (FailureRatio c) (FNum 0) then DefaultFailureRatio else FailureRatio c),
      MinRequests = (if MinRequests c \<le> 0 then DefaultMinRequests else MinRequests c),
      Window = (if Window c \<le> 0 then DefaultWindow else Window c),
      OpenDuration = (if OpenDuration c \<le> 0 then DefaultOpenDuration else OpenDuration c)\<rparr>"

datatype config_error = BadFailureRatio | BadMinRequests | BadWindow | BadOpenDuration

definition Config_Validate :: "Config \<Rightarrow> config_error option" where
  "Config_Validate c =
     (if float64_le (FailureRatio c) (FNum 0) \<or> float64_less (FNum 1) (FailureRatio c) then Some BadFailureRatio
      else if MinRequests c \<le> 0 then Some BadMinRequests
      else if Window c \<le> 0 then Some BadWindow
      else if OpenDuration c \<le> 0 then Some BadOpenDuration
      else None)"

datatype Outcome = Success | Failure | Ignored

record Permit =
  generation :: "64 word"
  probe :: bool
  valid :: bool

definition no_permit :: Permit where
  "no_permit = \<lparr>generation = 0, probe = False, valid = False\<rparr>"

record bucket =
  bk_total :: int
  bk_failures :: int

definition empty_bucket :: bucket where
  "empty_bucket = \<lparr>bk_total = 0, bk_failures = 0\<rparr>"

record Breaker =
  br_name :: string
  br_cfg :: Config
  br_state :: State
  br_generation :: "64 word"
  br_openedAt :: time
  br_probeInFlight :: bool
  br_buckets :: "bucket list"
  br_bucketIndex :: nat
  br_bucketStart :: time
  br_bucketDur :: duration
  br_rejected :: "64 word"

record Snapshot =
  sn_Name :: string
  sn_State :: State
  sn_Total :: int
  sn_Failures :: int
  sn_FailureRatio :: float64
  sn_Rejected :: "64 word"
  sn_RetryIn :: duration

record transition =
  tr_from :: State
  tr_to :: State
  tr_snapshot :: Snapshot

datatype OpenError = OpenError (oe_Name: string) (oe_RetryIn: duration)

definition NewWithClock :: "string \<Rightarrow> Config \<Rightarrow> time \<Rightarrow> Breaker" where
  "NewWithClock name cfg now =
     (let cfg = Config_withDefaults cfg in
      \<lparr>br_name = name, br_cfg = cfg, br_state = StateClosed, br_generation = 0, br_openedAt = 0,
       br_probeInFlight = False, br_buckets = replicate windowBuckets empty_bucket, br_bucketIndex = 0,
       br_bucketStart = now, br_bucketDur = go_div (Window cfg) (int windowBuckets), br_rejected = 0\<rparr>)"

section \<open>The rolling window\<close>

definition countsLocked :: "Breaker \<Rightarrow> int \<times> int" where
  "countsLocked b =
     foldl (\<lambda>(total, failures) k. (wrap64 (total + bk_total k), wrap64 (failures + bk_failures k)))
       (0, 0) (br_buckets b)"

definition trippedLocked :: "Breaker \<Rightarrow> bool" where
  "trippedLocked b =
     (let (total, failures) = countsLocked b in
      if total < MinRequests (br_cfg b) then False
      else float64_le (FailureRatio (br_cfg b)) (float64_quotient failures total))"

text \<open>The loop of \<open>advanceLocked\<close>: one step moves to the next bucket and clears it.\<close>

fun roll :: "nat \<Rightarrow> nat \<Rightarrow> bucket list \<Rightarrow> nat \<times> bucket list" where
  "roll 0 i bs = (i, bs)"
| "roll (Suc n) i bs = (let i' = (i + 1) mod windowBuckets in roll n i' (bs[i' := empty_bucket]))"

definition advanceLocked :: "time \<Rightarrow> Breaker \<Rightarrow> Breaker option" where
  "advanceLocked now b =
     (let elapsed = time_sub now (br_bucketStart b) in
      if elapsed < br_bucketDur b then Some b
      else if br_bucketDur b = 0 then None
      else
        (let steps = go_div elapsed (br_bucketDur b);
             (i, bs) = (if int windowBuckets \<le> steps then (0, replicate windowBuckets empty_bucket)
                        else roll (nat steps) (br_bucketIndex b) (br_buckets b))
         in Some (b\<lparr>br_bucketIndex := i, br_buckets := bs,
                    br_bucketStart := br_bucketStart b + wrap64 (steps * br_bucketDur b)\<rparr>)))"

section \<open>Snapshots and state changes\<close>

definition snapshotLocked :: "time \<Rightarrow> Breaker \<Rightarrow> Snapshot" where
  "snapshotLocked now b =
     (let (total, failures) = countsLocked b;
          ratio = (if 0 < total then float64_quotient failures total else FNum 0);
          remaining = wrap64 (OpenDuration (br_cfg b) - time_sub now (br_openedAt b));
          (st, retryIn) = (if br_state b = StateOpen
                           then (if 0 < remaining then (StateOpen, remaining) else (StateHalfOpen, 0))
                           else (br_state b, 0))
      in \<lparr>sn_Name = br_name b, sn_State = st, sn_Total = total, sn_Failures = failures,
          sn_FailureRatio = ratio, sn_Rejected = br_rejected b, sn_RetryIn = retryIn\<rparr>)"

definition setStateLocked :: "State \<Rightarrow> time \<Rightarrow> Breaker \<Rightarrow> Breaker \<times> transition option" where
  "setStateLocked to now b =
     (let from = br_state b in
      if from = to then (b, None)
      else
        (let b1 = b\<lparr>br_state := to, br_generation := br_generation b + 1, br_probeInFlight := False\<rparr>;
             b2 = (case to of
                     StateOpen \<Rightarrow> b1\<lparr>br_openedAt := now\<rparr>
                   | StateClosed \<Rightarrow> b1\<lparr>br_buckets := replicate windowBuckets empty_bucket,
                                       br_bucketIndex := 0, br_bucketStart := now\<rparr>
                   | StateHalfOpen \<Rightarrow> b1)
         in (b2, Some \<lparr>tr_from = from, tr_to = to, tr_snapshot = snapshotLocked now b2\<rparr>)))"

definition openErrorLocked :: "time \<Rightarrow> Breaker \<Rightarrow> OpenError" where
  "openErrorLocked now b =
     (let retryIn = wrap64 (OpenDuration (br_cfg b) - time_sub now (br_openedAt b)) in
      OpenError (br_name b) (if retryIn < 0 then 0 else retryIn))"

section \<open>Allow, Record, Snapshot\<close>

text \<open>The result of \<open>allowLocked\<close>: the permit or the error, and the transition to emit.\<close>

definition allowLocked :: "time \<Rightarrow> Breaker \<Rightarrow> (Breaker \<times> (OpenError + Permit) \<times> transition option) option" where
  "allowLocked now b =
     (case advanceLocked now b of None \<Rightarrow> None | Some b0 \<Rightarrow>
      (let (b1, event) =
             (if br_state b0 = StateOpen \<and> OpenDuration (br_cfg b0) \<le> time_sub now (br_openedAt b0)
              then setStateLocked StateHalfOpen now b0 else (b0, None))
       in Some (case br_state b1 of
            StateOpen \<Rightarrow>
              (b1\<lparr>br_rejected := br_rejected b1 + 1\<rparr>, Inl (openErrorLocked now b1), event)
          | StateHalfOpen \<Rightarrow>
              if br_probeInFlight b1
              then (b1\<lparr>br_rejected := br_rejected b1 + 1\<rparr>, Inl (openErrorLocked now b1), event)
              else (b1\<lparr>br_probeInFlight := True\<rparr>,
                    Inr \<lparr>generation = br_generation b1, probe = True, valid = True\<rparr>, event)
          | StateClosed \<Rightarrow>
              (b1, Inr \<lparr>generation = br_generation b1, probe = False, valid = True\<rparr>, event))))"

definition count_outcome :: "Outcome \<Rightarrow> Breaker \<Rightarrow> Breaker" where
  "count_outcome out b =
     (let k = br_buckets b ! br_bucketIndex b;
          k1 = k\<lparr>bk_total := wrap64 (bk_total k + 1)\<rparr>;
          k2 = (if out = Failure then k1\<lparr>bk_failures := wrap64 (bk_failures k1 + 1)\<rparr> else k1)
      in b\<lparr>br_buckets := (br_buckets b)[br_bucketIndex b := k2]\<rparr>)"

definition recordLocked :: "time \<Rightarrow> Permit \<Rightarrow> Outcome \<Rightarrow> Breaker \<Rightarrow> (Breaker \<times> transition option) option" where
  "recordLocked now permit out b =
     (if generation permit \<noteq> br_generation b then Some (b, None)
      else
        (let b0 = (if probe permit then b\<lparr>br_probeInFlight := False\<rparr> else b) in
         if out = Ignored then Some (b0, None)
         else (case advanceLocked now b0 of None \<Rightarrow> None | Some b1 \<Rightarrow>
           Some (if br_state b1 = StateHalfOpen then
                   (if out = Failure then setStateLocked StateOpen now b1 else setStateLocked StateClosed now b1)
                 else
                   (let b2 = count_outcome out b1 in
                    if br_state b2 = StateClosed \<and> trippedLocked b2 then setStateLocked StateOpen now b2
                    else (b2, None))))))"

definition Breaker_Record :: "time \<Rightarrow> Permit \<Rightarrow> Outcome \<Rightarrow> Breaker \<Rightarrow> (Breaker \<times> transition option) option" where
  "Breaker_Record now permit out b =
     (if \<not> valid permit then Some (b, None) else recordLocked now permit out b)"

definition Breaker_Snapshot :: "time \<Rightarrow> Breaker \<Rightarrow> (Breaker \<times> Snapshot) option" where
  "Breaker_Snapshot now b =
     (case advanceLocked now b of None \<Rightarrow> None | Some b1 \<Rightarrow> Some (b1, snapshotLocked now b1))"

definition Breaker_State :: "time \<Rightarrow> Breaker \<Rightarrow> (Breaker \<times> State) option" where
  "Breaker_State now b = map_option (\<lambda>(b', s). (b', sn_State s)) (Breaker_Snapshot now b)"

end
