(* ===== verification/Breaker_Window.thy ===== *)
theory Breaker_Window
  imports Breaker
begin

text \<open>
  The ring of ten buckets implements a rolling window: read newest first it is a list that
  shifts by one empty bucket per elapsed bucket duration, and its counts are those of the
  recorded outcomes that fall into the last ten slots.
\<close>

section \<open>The ring read newest first\<close>

definition window_of :: "nat \<Rightarrow> bucket list \<Rightarrow> bucket list" where
  "window_of i bs = map (\<lambda>j. bs ! ((i + windowBuckets - j) mod windowBuckets)) [0..<windowBuckets]"

definition shift :: "nat \<Rightarrow> bucket list \<Rightarrow> bucket list" where
  "shift n w = take windowBuckets (replicate n empty_bucket @ w)"

definition ring_ok :: "nat \<Rightarrow> bucket list \<Rightarrow> bool" where
  "ring_ok i bs \<longleftrightarrow> length bs = windowBuckets \<and> i < windowBuckets"

lemma length_window_of [simp]: "length (window_of i bs) = windowBuckets"
  by (simp add: window_of_def)

lemma window_of_nth: "j < windowBuckets \<Longrightarrow> window_of i bs ! j = bs ! ((i + windowBuckets - j) mod windowBuckets)"
  by (simp add: window_of_def)

lemma shift_nth:
  "length w = windowBuckets \<Longrightarrow> j < windowBuckets \<Longrightarrow> shift n w ! j = (if j < n then empty_bucket else w ! (j - n))"
  by (simp add: shift_def nth_append)

lemma length_shift [simp]: "length w = windowBuckets \<Longrightarrow> length (shift n w) = windowBuckets"
  by (simp add: shift_def)

lemma mod_ten: "(x::nat) < 20 \<Longrightarrow> x mod 10 = (if x < 10 then x else x - 10)"
  by (auto simp: le_mod_geq not_less)

lemma ring_index_next: "i < 10 \<Longrightarrow> j < 9 \<Longrightarrow> (Suc i mod 10 + 10 - Suc j) mod 10 = (i + 10 - j) mod (10::nat)"
  by (auto simp: mod_ten)

lemma ring_index_other: "i < 10 \<Longrightarrow> j < 9 \<Longrightarrow> (i + 10 - j) mod 10 \<noteq> Suc i mod (10::nat)"
  by (auto simp: mod_ten)

lemma window_step:
  assumes "ring_ok i bs"
  shows "window_of ((i + 1) mod windowBuckets) (bs[(i + 1) mod windowBuckets := empty_bucket]) = shift 1 (window_of i bs)"
proof (rule nth_equalityI)
  fix j assume "j < length (window_of ((i + 1) mod windowBuckets) (bs[(i + 1) mod windowBuckets := empty_bucket]))"
  then have j: "j < 10" by (simp add: windowBuckets_def)
  show "window_of ((i + 1) mod windowBuckets) (bs[(i + 1) mod windowBuckets := empty_bucket]) ! j = shift 1 (window_of i bs) ! j"
  proof (cases j)
    case 0
    then show ?thesis using assms by (simp add: window_of_nth shift_nth ring_ok_def windowBuckets_def)
  next
    case (Suc k)
    then have "k < 9" "i < 10" using j assms by (simp_all add: ring_ok_def windowBuckets_def)
    then show ?thesis
      using Suc ring_index_next [of i k] ring_index_other [of i k]
      by (simp add: window_of_nth shift_nth windowBuckets_def nth_list_update)
  qed
qed simp

lemma shift_shift: "length w = windowBuckets \<Longrightarrow> shift n (shift m w) = shift (m + n) w"
  by (rule nth_equalityI) (auto simp: shift_nth add.commute)

lemma roll_window:
  "ring_ok i bs \<Longrightarrow> roll n i bs = (i', bs') \<Longrightarrow> ring_ok i' bs' \<and> window_of i' bs' = shift n (window_of i bs)"
proof (induction n arbitrary: i bs)
  case 0
  then show ?case by (simp add: shift_def)
next
  case (Suc n)
  let ?i = "(i + 1) mod windowBuckets"
  have ok: "ring_ok ?i (bs[?i := empty_bucket])"
    using Suc.prems(1) by (simp add: ring_ok_def windowBuckets_def)
  then show ?case
    using Suc.IH [OF ok] Suc.prems window_step [OF Suc.prems(1)] shift_shift [of "window_of i bs" n 1]
    by (simp add: Let_def)
qed

lemma window_cleared: "window_of 0 (replicate windowBuckets empty_bucket) = replicate windowBuckets empty_bucket"
  by (rule nth_equalityI) (simp_all add: window_of_nth windowBuckets_def)

lemma shift_all: "length w = windowBuckets \<Longrightarrow> windowBuckets \<le> n \<Longrightarrow> shift n w = replicate windowBuckets empty_bucket"
  by (rule nth_equalityI) (auto simp: shift_nth)

section \<open>Advancing\<close>

definition breaker_ok :: "Breaker \<Rightarrow> bool" where
  "breaker_ok b \<longleftrightarrow> ring_ok (br_bucketIndex b) (br_buckets b) \<and> 0 < br_bucketDur b \<and> in64 (br_bucketDur b)"

definition window :: "Breaker \<Rightarrow> bucket list" where
  "window b = window_of (br_bucketIndex b) (br_buckets b)"

lemma length_window [simp]: "length (window b) = windowBuckets"
  by (simp add: window_def)

text \<open>Everything but the window.\<close>

definition same_control :: "Breaker \<Rightarrow> Breaker \<Rightarrow> bool" where
  "same_control b b' \<longleftrightarrow>
     br_name b' = br_name b \<and> br_cfg b' = br_cfg b \<and> br_state b' = br_state b \<and>
     br_generation b' = br_generation b \<and> br_openedAt b' = br_openedAt b \<and>
     br_probeInFlight b' = br_probeInFlight b \<and> br_bucketDur b' = br_bucketDur b \<and> br_rejected b' = br_rejected b"

definition steps_of :: "time \<Rightarrow> Breaker \<Rightarrow> int" where
  "steps_of now b = max 0 (time_sub now (br_bucketStart b) div br_bucketDur b)"

lemma go_div_steps: "0 < d \<Longrightarrow> d \<le> e \<Longrightarrow> go_div e d = e div d \<and> 1 \<le> e div d"
  using zdiv_mono1 [of d e d] by (simp add: go_div_nonneg)

text \<open>\<open>advanceLocked\<close> never panics on a breaker with a positive bucket duration, and is a shift.\<close>

lemma advanceLocked_shift:
  assumes "breaker_ok b"
  obtains b' where "advanceLocked now b = Some b'" "breaker_ok b'" "same_control b b'"
    "window b' = shift (nat (steps_of now b)) (window b)"
    "br_bucketStart b' = br_bucketStart b + steps_of now b * br_bucketDur b"
proof (cases "time_sub now (br_bucketStart b) < br_bucketDur b")
  case True
  then have "steps_of now b = 0"
    using assms div_neg_pos_less0 [of "time_sub now (br_bucketStart b)" "br_bucketDur b"]
    by (cases "0 \<le> time_sub now (br_bucketStart b)") (auto simp: steps_of_def breaker_ok_def div_pos_pos_trivial)
  with True assms show ?thesis
    by (intro that [of b]) (auto simp: advanceLocked_def same_control_def shift_def window_def)
next
  case False
  let ?e = "time_sub now (br_bucketStart b)" and ?d = "br_bucketDur b"
  have d: "0 < ?d" "?d \<le> ?e" using False assms by (simp_all add: breaker_ok_def)
  then have steps: "go_div ?e ?d = ?e div ?d" "1 \<le> ?e div ?d" "steps_of now b = ?e div ?d"
    using go_div_steps [OF d] by (simp_all add: steps_of_def)
  have "0 \<le> ?e div ?d * ?d" "?e div ?d * ?d \<le> ?e"
    using d steps(2) by (simp, simp add: minus_mod_eq_div_mult [symmetric])
  moreover have "in64 ?e" by simp
  ultimately have "in64 (?e div ?d * ?d)" by (auto simp: in64_def min64_def)
  then have wrap: "wrap64 (?e div ?d * ?d) = ?e div ?d * ?d" by (rule wrap64_id)
  show ?thesis
  proof (cases "int windowBuckets \<le> ?e div ?d")
    case True
    then show ?thesis
      using d steps wrap False assms window_cleared shift_all [of "window b" "nat (?e div ?d)"]
      by (intro that [of "b\<lparr>br_bucketIndex := 0, br_buckets := replicate windowBuckets empty_bucket,
            br_bucketStart := br_bucketStart b + ?e div ?d * ?d\<rparr>"])
         (auto simp: advanceLocked_def Let_def same_control_def breaker_ok_def ring_ok_def window_def windowBuckets_def)
  next
    case few: False
    obtain i bs where roll: "roll (nat (?e div ?d)) (br_bucketIndex b) (br_buckets b) = (i, bs)" by fastforce
    show ?thesis
      using d steps wrap False few roll assms roll_window [OF _ roll]
      by (intro that [of "b\<lparr>br_bucketIndex := i, br_buckets := bs, br_bucketStart := br_bucketStart b + ?e div ?d * ?d\<rparr>"])
         (auto simp: advanceLocked_def Let_def same_control_def breaker_ok_def window_def)
  qed
qed

section \<open>Counts\<close>

lemma counts_fold:
  "foldl (\<lambda>(total, failures) k. (wrap64 (total + bk_total k), wrap64 (failures + bk_failures k))) (wrap64 x, wrap64 y) bs
   = (wrap64 (x + sum_list (map bk_total bs)), wrap64 (y + sum_list (map bk_failures bs)))"
  by (induction bs arbitrary: x y) (simp_all add: add.assoc)

lemma ten_cases:
  assumes "length bs = 10"
  obtains a b c d e f g h i j where "bs = [a, b, c, d, e, f, g, h, i, j]"
  using assms by (auto simp: eval_nat_numeral length_Suc_conv)

lemma window_of_sum:
  assumes "ring_ok i bs"
  shows "sum_list (map f (window_of i bs)) = (sum_list (map f bs) :: int)"
proof -
  have len: "length bs = 10" and i: "i \<in> set [0..<10]" using assms by (simp_all add: ring_ok_def windowBuckets_def)
  obtain a b c d e f' g h k j where bs: "bs = [a, b, c, d, e, f', g, h, k, j]" using len by (rule ten_cases)
  have "i \<in> {0, 1, 2, 3, 4, 5, 6, 7, 8, 9}" using i by auto
  then show ?thesis unfolding bs window_of_def windowBuckets_def
    by (elim insertE emptyE) (simp_all add: upt_rec)
qed

lemma countsLocked_window:
  assumes "breaker_ok b"
  shows "countsLocked b = (wrap64 (sum_list (map bk_total (window b))), wrap64 (sum_list (map bk_failures (window b))))"
proof -
  have "wrap64 0 = 0" by (simp add: wrap64_def)
  then have "countsLocked b = (wrap64 (sum_list (map bk_total (br_buckets b))), wrap64 (sum_list (map bk_failures (br_buckets b))))"
    using counts_fold [of 0 0 "br_buckets b"] by (simp add: countsLocked_def)
  then show ?thesis using assms window_of_sum by (simp add: breaker_ok_def window_def)
qed

section \<open>The recorded history\<close>

text \<open>
  The reference: the list of recorded outcomes, each with its instant and whether it
  failed. Slots are counted in bucket durations from \<open>base\<close>, where the window last started
  empty; \<open>recent\<close> keeps the outcomes of the last ten slots.
\<close>

definition slot :: "time \<Rightarrow> duration \<Rightarrow> time \<Rightarrow> int" where
  "slot base d t = (t - base) div d"

definition in_slot :: "time \<Rightarrow> duration \<Rightarrow> int \<Rightarrow> (time \<times> bool) list \<Rightarrow> (time \<times> bool) list" where
  "in_slot base d k evs = filter (\<lambda>e. slot base d (fst e) = k) evs"

definition bucket_of :: "(time \<times> bool) list \<Rightarrow> bucket" where
  "bucket_of evs = \<lparr>bk_total = int (length evs), bk_failures = int (length (filter snd evs))\<rparr>"

definition recent :: "time \<Rightarrow> duration \<Rightarrow> time \<Rightarrow> (time \<times> bool) list \<Rightarrow> (time \<times> bool) list" where
  "recent base d now evs = filter (\<lambda>e. slot base d now - slot base d (fst e) < int windowBuckets) evs"

definition tracks_at :: "Breaker \<Rightarrow> time \<Rightarrow> int \<Rightarrow> (time \<times> bool) list \<Rightarrow> bool" where
  "tracks_at b base c evs \<longleftrightarrow> breaker_ok b \<and> br_bucketStart b = base + c * br_bucketDur b \<and>
     (\<forall>e \<in> set evs. slot base (br_bucketDur b) (fst e) \<le> c) \<and>
     window b = map (\<lambda>j. bucket_of (in_slot base (br_bucketDur b) (c - int j) evs)) [0..<windowBuckets]"

definition tracks :: "Breaker \<Rightarrow> time \<Rightarrow> (time \<times> bool) list \<Rightarrow> bool" where
  "tracks b base evs \<longleftrightarrow> (\<exists>c. tracks_at b base c evs)"

lemma in_slot_future: "(\<forall>e \<in> set evs. slot base d (fst e) \<le> c) \<Longrightarrow> c < k \<Longrightarrow> in_slot base d k evs = []"
  by (auto simp: in_slot_def filter_empty_conv)

lemma bucket_of_Nil [simp]: "bucket_of [] = empty_bucket"
  by (simp add: bucket_of_def empty_bucket_def)

lemma advance_tracks:
  assumes "tracks_at b base c evs" and "advanceLocked now b = Some b'"
    and "br_bucketStart b \<le> now" and "now - br_bucketStart b \<le> max64"
  shows "tracks_at b' base (slot base (br_bucketDur b) now) evs" "same_control b b'"
proof -
  have ok: "breaker_ok b" using assms(1) by (simp add: tracks_at_def)
  let ?d = "br_bucketDur b"
  have d: "0 < ?d" using ok by (simp add: breaker_ok_def)
  obtain b1 where b1: "advanceLocked now b = Some b1" "breaker_ok b1" "same_control b b1"
      "window b1 = shift (nat (steps_of now b)) (window b)"
      "br_bucketStart b1 = br_bucketStart b + steps_of now b * ?d"
    by (rule advanceLocked_shift [OF ok])
  then have eq: "b1 = b'" using assms(2) by simp
  have start: "br_bucketStart b = base + c * ?d" using assms(1) by (simp add: tracks_at_def)
  have sub: "time_sub now (br_bucketStart b) = now - br_bucketStart b"
    using assms(3,4) by (intro time_sub_exact) (auto simp: in64_def min64_def)
  have steps: "steps_of now b = (now - br_bucketStart b) div ?d"
    using assms(3) d by (simp add: steps_of_def sub pos_imp_zdiv_nonneg_iff)
  have "(now - base) div ?d = (now - br_bucketStart b + c * ?d) div ?d" using start by (simp add: algebra_simps)
  then have c': "slot base ?d now = c + steps_of now b" using d steps by (simp add: slot_def)
  have nn: "0 \<le> steps_of now b" by (simp add: steps_of_def)
  have "window b1 = map (\<lambda>j. bucket_of (in_slot base ?d (slot base ?d now - int j) evs)) [0..<windowBuckets]"
  proof (rule nth_equalityI)
    fix j assume "j < length (window b1)"
    then have j: "j < windowBuckets" by simp
    show "window b1 ! j = map (\<lambda>j. bucket_of (in_slot base ?d (slot base ?d now - int j) evs)) [0..<windowBuckets] ! j"
    proof (cases "j < nat (steps_of now b)")
      case True
      then have "in_slot base ?d (slot base ?d now - int j) evs = []"
        using assms(1) c' by (intro in_slot_future [where c = c]) (auto simp: tracks_at_def)
      with True j show ?thesis by (simp add: b1(4) shift_nth)
    next
      case False
      then have k: "slot base ?d now - int j = c - int (j - nat (steps_of now b))" using c' nn by auto
      have "window b ! (j - nat (steps_of now b)) = bucket_of (in_slot base ?d (c - int (j - nat (steps_of now b))) evs)"
        using assms(1) j by (simp add: tracks_at_def)
      then show ?thesis using False j by (simp only: k [symmetric] b1(4)) (simp add: shift_nth)
    qed
  qed simp
  moreover have "br_bucketStart b1 = base + slot base ?d now * ?d"
    using b1(5) start c' by (simp add: algebra_simps)
  ultimately show "tracks_at b' base (slot base ?d now) evs" "same_control b b'"
    using b1 assms(1) c' nn eq by (auto simp: tracks_at_def same_control_def)
qed

text \<open>Counting an outcome adds it to the newest slot.\<close>

lemma window_count_outcome:
  assumes "ring_ok (br_bucketIndex b) (br_buckets b)"
  shows "window (count_outcome out b) ! 0 =
      (let k = window b ! 0 in \<lparr>bk_total = wrap64 (bk_total k + 1),
         bk_failures = (if out = Failure then wrap64 (bk_failures k + 1) else bk_failures k)\<rparr>)"
    and "0 < j \<Longrightarrow> j < windowBuckets \<Longrightarrow> window (count_outcome out b) ! j = window b ! j"
proof -
  let ?i = "br_bucketIndex b"
  have ok: "length (br_buckets b) = 10" "?i < 10" using assms by (simp_all add: ring_ok_def windowBuckets_def)
  show "window (count_outcome out b) ! 0 =
      (let k = window b ! 0 in \<lparr>bk_total = wrap64 (bk_total k + 1),
         bk_failures = (if out = Failure then wrap64 (bk_failures k + 1) else bk_failures k)\<rparr>)"
    using ok by (simp add: window_def window_of_nth count_outcome_def Let_def windowBuckets_def)
  assume j: "0 < j" "j < windowBuckets"
  then have "(?i + 10 - j) mod 10 \<noteq> ?i" using ok by (auto simp: mod_ten windowBuckets_def)
  then show "window (count_outcome out b) ! j = window b ! j"
    using j ok by (simp add: window_def window_of_nth count_outcome_def Let_def windowBuckets_def nth_list_update)
qed

lemma in_slot_append: "in_slot base d k (evs @ [(t, f)]) = in_slot base d k evs @ (if slot base d t = k then [(t, f)] else [])"
  by (simp add: in_slot_def)

lemma length_in_slot_le: "length (in_slot base d k evs) \<le> length evs"
  by (simp add: in_slot_def)

lemma count_tracks:
  assumes "tracks_at b base c evs" and "slot base (br_bucketDur b) now = c" and "int (length evs) < max64"
  shows "tracks_at (count_outcome out b) base c (evs @ [(now, out = Failure)])"
proof -
  let ?d = "br_bucketDur b" and ?b = "count_outcome out b" and ?evs = "evs @ [(now, out = Failure)]"
  have ok: "ring_ok (br_bucketIndex b) (br_buckets b)" using assms(1) by (simp add: tracks_at_def breaker_ok_def)
  have same: "br_bucketDur ?b = ?d" "br_bucketStart ?b = br_bucketStart b" "breaker_ok ?b"
    using assms(1) by (simp_all add: count_outcome_def Let_def tracks_at_def breaker_ok_def ring_ok_def)
  let ?old = "in_slot base ?d c evs"
  have "int (length ?old) + 1 \<le> max64" "int (length (filter snd ?old)) + 1 \<le> max64"
    using length_in_slot_le [of base ?d c evs] length_filter_le [of snd ?old] assms(3) by linarith+
  then have wraps: "wrap64 (int (length ?old) + 1) = int (length ?old) + 1"
      "wrap64 (int (length (filter snd ?old)) + 1) = int (length (filter snd ?old)) + 1"
    by (auto intro!: wrap64_id simp: in64_def min64_def)
  have "window ?b = map (\<lambda>j. bucket_of (in_slot base ?d (c - int j) ?evs)) [0..<windowBuckets]"
  proof (rule nth_equalityI)
    fix j assume "j < length (window ?b)"
    then have j: "j < windowBuckets" by simp
    have old: "window b ! j = bucket_of (in_slot base ?d (c - int j) evs)"
      using assms(1) j by (simp add: tracks_at_def)
    show "window ?b ! j = map (\<lambda>j. bucket_of (in_slot base ?d (c - int j) ?evs)) [0..<windowBuckets] ! j"
    proof (cases "j = 0")
      case True
      then show ?thesis using window_count_outcome(1) [OF ok, of out] old j assms(2) wraps
        by (simp add: in_slot_append bucket_of_def Let_def)
    next
      case False
      then show ?thesis using window_count_outcome(2) [OF ok, of j out] old j assms(2)
        by (simp add: in_slot_append)
    qed
  qed simp
  with same assms(1,2) show ?thesis by (auto simp: tracks_at_def)
qed

text \<open>The counts of the window are those of the recent outcomes.\<close>

lemma slots_sum:
  assumes "\<forall>e \<in> set evs. slot base d (fst e) \<le> c"
  shows "sum_list (map (\<lambda>j. int (length (filter P (in_slot base d (c - int j) evs)))) [0..<windowBuckets])
    = int (length (filter P (filter (\<lambda>e. c - slot base d (fst e) < int windowBuckets) evs)))"
  using assms
proof (induction evs)
  case Nil
  then show ?case by (simp add: in_slot_def sum_list_0)
next
  case (Cons e evs)
  let ?hit = "\<lambda>j. if slot base d (fst e) = c - int j \<and> P e then 1 else (0::int)"
  have "slot base d (fst e) \<le> c" using Cons.prems by simp
  then have one: "sum_list (map ?hit [0..<windowBuckets]) =
      (if c - slot base d (fst e) < int windowBuckets \<and> P e then 1 else 0)"
    by (auto simp: windowBuckets_def upt_rec) presburger
  have "sum_list (map (\<lambda>j. int (length (filter P (in_slot base d (c - int j) (e # evs))))) [0..<windowBuckets])
     = sum_list (map (\<lambda>j. ?hit j + int (length (filter P (in_slot base d (c - int j) evs)))) [0..<windowBuckets])"
    by (rule arg_cong [where f = sum_list]) (auto simp: in_slot_def)
  also have "\<dots> = sum_list (map ?hit [0..<windowBuckets]) +
      sum_list (map (\<lambda>j. int (length (filter P (in_slot base d (c - int j) evs)))) [0..<windowBuckets])"
    by (rule sum_list_addf)
  finally show ?case using Cons one by auto
qed

lemma counts_recent:
  assumes "tracks_at b base (slot base (br_bucketDur b) now) evs" and "int (length evs) \<le> max64"
  shows "countsLocked b = (int (length (recent base (br_bucketDur b) now evs)),
      int (length (filter snd (recent base (br_bucketDur b) now evs))))"
proof -
  let ?d = "br_bucketDur b" and ?r = "recent base (br_bucketDur b) now evs"
  have ok: "breaker_ok b" and le: "\<forall>e \<in> set evs. slot base ?d (fst e) \<le> slot base ?d now"
    and w: "window b = map (\<lambda>j. bucket_of (in_slot base ?d (slot base ?d now - int j) evs)) [0..<windowBuckets]"
    using assms(1) by (simp_all add: tracks_at_def)
  have "sum_list (map bk_total (window b)) = int (length ?r)"
    using slots_sum [OF le, of "\<lambda>_. True"] by (simp add: w bucket_of_def recent_def comp_def)
  moreover have "sum_list (map bk_failures (window b)) = int (length (filter snd ?r))"
    using slots_sum [OF le, of snd] by (simp add: w bucket_of_def recent_def comp_def)
  moreover have "int (length ?r) \<le> max64" "int (length (filter snd ?r)) \<le> max64"
    using assms(2) length_filter_le [of _ evs] length_filter_le [of snd ?r]
    by (auto simp: recent_def intro: order.trans [rotated])
  ultimately show ?thesis
    using countsLocked_window [OF ok] by (simp add: wrap64_id in64_def min64_def)
qed

end
