(* ===== verification/Breaker_Properties.thy ===== *)
theory Breaker_Properties
  imports Breaker_Window
begin

text \<open>
  The breaker as callers see it: when a closed breaker opens, what an open one answers, that
  a half-open one admits a single probe and never strands the slot, for every interleaving
  of \<open>Allow\<close>, \<open>Record\<close> and \<open>Snapshot\<close> by any number of callers.
\<close>

section \<open>Single operations\<close>

lemma setStateLocked_control:
  assumes "setStateLocked to now b = (b', ev)"
  shows "br_state b' = to" "ev = None \<longleftrightarrow> br_state b = to"
    "br_generation b' = (if br_state b = to then br_generation b else br_generation b + 1)"
    "br_probeInFlight b' = (if br_state b = to then br_probeInFlight b else False)"
    "br_cfg b' = br_cfg b" "breaker_ok b \<Longrightarrow> breaker_ok b'"
  using assms
  by (auto simp: setStateLocked_def Let_def breaker_ok_def ring_ok_def windowBuckets_def split: if_splits State.splits)

lemma count_outcome_control:
  "same_control b (count_outcome out b)" "breaker_ok b \<Longrightarrow> breaker_ok (count_outcome out b)"
  by (simp_all add: count_outcome_def same_control_def Let_def breaker_ok_def ring_ok_def)

lemma NewWithClock_ok:
  assumes "Window cfg \<le> 0 \<or> 10 \<le> Window cfg" and "in64 (Window cfg)"
  shows "breaker_ok (NewWithClock name cfg now)"
proof -
  have "0 < Window (Config_withDefaults cfg) div 10" "in64 (Window (Config_withDefaults cfg) div 10)"
    using assms by (auto simp: Config_withDefaults_def DefaultWindow_def second_def in64_def min64_def max64_def)
  then show ?thesis
    by (simp add: NewWithClock_def Let_def breaker_ok_def ring_ok_def windowBuckets_def go_div_nonneg pos_imp_zdiv_pos_iff)
qed

lemma NewWithClock_tracks:
  assumes "breaker_ok (NewWithClock name cfg now)"
  shows "tracks (NewWithClock name cfg now) now []"
proof -
  have "tracks_at (NewWithClock name cfg now) now 0 []"
    using assms window_cleared
    by (simp add: tracks_at_def window_def NewWithClock_def Let_def in_slot_def map_replicate_const)
  then show ?thesis unfolding tracks_def ..
qed

text \<open>
  C6: the buckets implement the rolling window. Recording an outcome on a closed breaker
  opens it exactly when the outcomes recorded in the last ten slots, this one included,
  number at least \<open>MinRequests\<close> and their failure ratio is at least \<open>FailureRatio\<close>; otherwise
  the breaker stays closed and still tracks the recorded history.
\<close>

theorem closed_record_refines_window:
  assumes "tracks b base evs" and "br_state b = StateClosed"
    and "valid p" and "generation p = br_generation b" and "out \<noteq> Ignored"
    and "br_bucketStart b \<le> now" and "now - br_bucketStart b \<le> max64" and "int (length evs) < max64"
    and "Breaker_Record now p out b = Some (b', ev)"
    and "hist = evs @ [(now, out = Failure)]" and "r = recent base (br_bucketDur b) now hist"
  shows "(br_state b' = StateOpen \<longleftrightarrow> MinRequests (br_cfg b) \<le> int (length r) \<and>
       float64_le (FailureRatio (br_cfg b)) (float64_quotient (int (length (filter snd r))) (int (length r))))
    \<and> (br_state b' \<noteq> StateOpen \<longrightarrow> br_state b' = StateClosed \<and> tracks b' base hist)"
proof -
  let ?b0 = "if probe p then b\<lparr>br_probeInFlight := False\<rparr> else b" and ?d = "br_bucketDur b"
  obtain c where "tracks_at b base c evs" using assms(1) by (auto simp: tracks_def)
  then have t0: "tracks_at ?b0 base c evs" by (auto simp: tracks_at_def breaker_ok_def window_def)
  obtain b1 where adv: "advanceLocked now ?b0 = Some b1"
    using t0 advanceLocked_shift [of ?b0 now] by (auto simp: tracks_at_def)
  have dur: "br_bucketDur ?b0 = ?d" "br_bucketStart ?b0 = br_bucketStart b" by simp_all
  have t1: "tracks_at b1 base (slot base ?d now) evs" and same: "same_control ?b0 b1"
    using advance_tracks [OF t0 adv] assms(6,7) by (simp_all add: dur)
  have ctl: "br_bucketDur b1 = ?d" "br_state b1 = StateClosed" "br_cfg b1 = br_cfg b"
    using same assms(2) by (simp_all add: same_control_def split: if_splits)
  let ?b2 = "count_outcome out b1"
  have t2: "tracks_at ?b2 base (slot base ?d now) hist"
    using count_tracks [OF t1 _ assms(8), of now out] ctl(1) assms(10) by simp
  have ctl2: "br_bucketDur ?b2 = ?d" "br_state ?b2 = StateClosed" "br_cfg ?b2 = br_cfg b"
    using count_outcome_control(1) [of b1 out] ctl by (simp_all add: same_control_def)
  have "int (length hist) \<le> max64" using assms(8,10) by simp
  then have counts: "countsLocked ?b2 = (int (length r), int (length (filter snd r)))"
    using counts_recent [of ?b2 base now hist] t2 ctl2(1) assms(11) by simp
  have "(if trippedLocked ?b2 then setStateLocked StateOpen now ?b2 else (?b2, None)) = (b', ev)"
    using assms(3-5,9) adv ctl(2) ctl2(2) by (simp add: Breaker_Record_def recordLocked_def Let_def)
  moreover have "tracks ?b2 base hist" using t2 by (auto simp: tracks_def)
  moreover have "trippedLocked ?b2 \<longleftrightarrow> MinRequests (br_cfg b) \<le> int (length r) \<and>
      float64_le (FailureRatio (br_cfg b)) (float64_quotient (int (length (filter snd r))) (int (length r)))"
    by (simp add: trippedLocked_def counts ctl2(3) not_less)
  ultimately show ?thesis
    using setStateLocked_control(1) [of StateOpen now ?b2 b' ev] ctl2(2) by (auto split: if_splits)
qed

definition demo_cfg :: Config where
  "demo_cfg = \<lparr>FailureRatio = FNum (1 / 2), MinRequests = 2, Window = 60 * second, OpenDuration = 15 * second\<rparr>"

definition demo_breaker :: Breaker where
  "demo_breaker = NewWithClock ''horizon'' demo_cfg 1000"

definition demo_permit :: Permit where
  "demo_permit = \<lparr>generation = 0, probe = False, valid = True\<rparr>"

theorem closed_record_refines_window_witness:
  "tracks (fst (the (Breaker_Record 2000 demo_permit Failure demo_breaker))) 1000 [(2000, True)]"
proof -
  let ?r = "Breaker_Record 2000 demo_permit Failure demo_breaker"
  have tr: "tracks demo_breaker 1000 []"
    unfolding demo_breaker_def
    by (intro NewWithClock_tracks NewWithClock_ok) (simp_all add: demo_cfg_def second_def in64_def min64_def max64_def)
  have "?r \<noteq> None" "br_state (fst (the ?r)) \<noteq> StateOpen" "br_state demo_breaker = StateClosed"
    "br_bucketStart demo_breaker = 1000" "br_generation demo_breaker = 0" by code_simp+
  then show ?thesis
    using closed_record_refines_window [OF tr, of demo_permit Failure 2000 "fst (the ?r)" "snd (the ?r)"]
    by (auto simp: demo_permit_def max64_def)
qed

section \<open>Any number of callers\<close>

text \<open>
  The system: the breaker, the permits its callers hold, the number of state changes so far
  and the clock. Every operation runs under the breaker's mutex, so an interleaving of
  callers is a sequence of steps; a caller reports a permit once. The generation counter
  has 64 bits, and the steps cover the breaker's life up to its wrap-around.
\<close>

record BreakerSystem =
  sys_breaker :: Breaker
  sys_permits :: "(Permit \<times> nat) list"
  sys_changes :: nat
  sys_clock :: time

definition changed :: "transition option \<Rightarrow> nat" where
  "changed ev = (case ev of None \<Rightarrow> 0 | Some _ \<Rightarrow> 1)"

definition generation_free :: "nat \<Rightarrow> bool" where
  "generation_free n \<longleftrightarrow> int n < 2 ^ 64"

inductive breaker_step :: "BreakerSystem \<Rightarrow> BreakerSystem \<Rightarrow> bool" where
  step_admit: "allowLocked now (sys_breaker s) = Some (b, Inr p, ev) \<Longrightarrow> sys_clock s \<le> now \<Longrightarrow>
     generation_free (sys_changes s + changed ev) \<Longrightarrow>
     breaker_step s (s\<lparr>sys_breaker := b, sys_permits := (p, sys_changes s + changed ev) # sys_permits s,
       sys_changes := sys_changes s + changed ev, sys_clock := now\<rparr>)"
| step_reject: "allowLocked now (sys_breaker s) = Some (b, Inl e, ev) \<Longrightarrow> sys_clock s \<le> now \<Longrightarrow>
     generation_free (sys_changes s + changed ev) \<Longrightarrow>
     breaker_step s (s\<lparr>sys_breaker := b, sys_changes := sys_changes s + changed ev, sys_clock := now\<rparr>)"
| step_record: "pn \<in> set (sys_permits s) \<Longrightarrow> Breaker_Record now (fst pn) out (sys_breaker s) = Some (b, ev) \<Longrightarrow>
     sys_clock s \<le> now \<Longrightarrow> generation_free (sys_changes s + changed ev) \<Longrightarrow>
     breaker_step s (s\<lparr>sys_breaker := b, sys_permits := remove1 pn (sys_permits s),
       sys_changes := sys_changes s + changed ev, sys_clock := now\<rparr>)"
| step_snapshot: "Breaker_Snapshot now (sys_breaker s) = Some (b, sn) \<Longrightarrow> sys_clock s \<le> now \<Longrightarrow>
     breaker_step s (s\<lparr>sys_breaker := b, sys_clock := now\<rparr>)"

definition breaker_init :: "BreakerSystem \<Rightarrow> bool" where
  "breaker_init s \<longleftrightarrow>
     (\<exists>name cfg now. (Window cfg \<le> 0 \<or> 10 \<le> Window cfg) \<and> in64 (Window cfg) \<and>
        s = \<lparr>sys_breaker = NewWithClock name cfg now, sys_permits = [], sys_changes = 0, sys_clock = now\<rparr>)"

text \<open>The calls in flight that were admitted since the last state change.\<close>

definition live :: "BreakerSystem \<Rightarrow> (Permit \<times> nat) list" where
  "live s = filter (\<lambda>pn. snd pn = sys_changes s) (sys_permits s)"

definition slots_inv :: "State \<Rightarrow> bool \<Rightarrow> (Permit \<times> nat) list \<Rightarrow> bool" where
  "slots_inv st inflight lv \<longleftrightarrow>
     (case st of
        StateClosed \<Rightarrow> \<not> inflight \<and> (\<forall>pn \<in> set lv. \<not> probe (fst pn))
      | StateHalfOpen \<Rightarrow> length lv = (if inflight then 1 else 0) \<and> (\<forall>pn \<in> set lv. probe (fst pn))
      | StateOpen \<Rightarrow> \<not> inflight \<and> lv = [])"

definition breaker_inv :: "BreakerSystem \<Rightarrow> bool" where
  "breaker_inv s \<longleftrightarrow> breaker_ok (sys_breaker s) \<and>
     br_generation (sys_breaker s) = of_nat (sys_changes s) \<and> generation_free (sys_changes s) \<and>
     (\<forall>pn \<in> set (sys_permits s). valid (fst pn) \<and> generation (fst pn) = of_nat (snd pn) \<and> snd pn \<le> sys_changes s) \<and>
     slots_inv (br_state (sys_breaker s)) (br_probeInFlight (sys_breaker s)) (live s)"

lemma of_nat_word64_eq: "generation_free m \<Longrightarrow> generation_free n \<Longrightarrow> (of_nat m :: 64 word) = of_nat n \<longleftrightarrow> m = n"
  using take_bit_nat_eq_self [of m 64] take_bit_nat_eq_self [of n 64] by (simp add: word_of_nat_eq_iff generation_free_def)

text \<open>After a state change no permit in flight is live.\<close>

lemma live_changed:
  assumes "\<forall>pn \<in> set ps. snd pn \<le> n"
  shows "filter (\<lambda>pn. snd pn = n + changed ev) ps = (if ev = None then filter (\<lambda>pn. snd pn = n) ps else [])"
  using assms by (cases ev) (auto simp: changed_def filter_empty_conv)

lemma advance_control:
  assumes "breaker_ok b" and "advanceLocked now b = Some b'"
  shows "breaker_ok b'" "same_control b b'"
  using advanceLocked_shift [OF assms(1), of now] assms(2) by (metis option.inject)+

text \<open>What \<open>Allow\<close> does to the control part of the breaker.\<close>

lemma allow_cases:
  assumes ok: "breaker_ok b" and res: "allowLocked now b = Some (b', r, ev)"
  shows "breaker_ok b' \<and> br_cfg b' = br_cfg b \<and> br_generation b' = br_generation b + of_nat (changed ev) \<and>
    (ev \<noteq> None \<longrightarrow> br_state b = StateOpen) \<and>
    (case r of
       Inl e \<Rightarrow> ev = None \<and> br_state b' = br_state b \<and> br_probeInFlight b' = br_probeInFlight b
     | Inr p \<Rightarrow> valid p \<and> generation p = br_generation b' \<and>
         (br_state b = StateClosed \<and> br_state b' = StateClosed \<and> ev = None \<and> \<not> probe p \<and>
            br_probeInFlight b' = br_probeInFlight b \<or>
          br_state b' = StateHalfOpen \<and> br_probeInFlight b' \<and> probe p \<and>
            (ev \<noteq> None \<or> br_state b = StateHalfOpen \<and> \<not> br_probeInFlight b)))"
proof -
  obtain b0 where adv: "advanceLocked now b = Some b0" using res by (auto simp: allowLocked_def split: option.splits)
  note c0 = advance_control [OF ok adv]
  show ?thesis
  proof (cases "br_state b0 = StateOpen \<and> OpenDuration (br_cfg b0) \<le> time_sub now (br_openedAt b0)")
    case True
    obtain b1 ev1 where set1: "setStateLocked StateHalfOpen now b0 = (b1, ev1)" by fastforce
    note c1 = setStateLocked_control [OF set1]
    show ?thesis
      using res adv True set1 c0 c1
      by (auto simp: allowLocked_def same_control_def changed_def breaker_ok_def split: option.splits)
  next
    case False
    then show ?thesis
      using res adv c0
      by (auto simp: allowLocked_def same_control_def changed_def breaker_ok_def split: State.splits if_splits)
  qed
qed

text \<open>What \<open>Record\<close> does: nothing for a stale permit, and at most one state change otherwise.\<close>

lemma record_stale:
  "generation p \<noteq> br_generation b \<Longrightarrow> Breaker_Record now p out b = Some (b, None)"
  by (simp add: Breaker_Record_def recordLocked_def)

lemma record_cases:
  assumes ok: "breaker_ok b" and p: "valid p" "generation p = br_generation b"
    and res: "Breaker_Record now p out b = Some (b', ev)"
  shows "breaker_ok b' \<and> br_cfg b' = br_cfg b \<and> br_generation b' = br_generation b + of_nat (changed ev) \<and>
    (if ev = None then br_state b' = br_state b \<and> br_probeInFlight b' = (br_probeInFlight b \<and> \<not> probe p)
     else br_state b' \<noteq> br_state b \<and> br_state b' \<noteq> StateHalfOpen \<and> \<not> br_probeInFlight b')"
proof (cases "out = Ignored")
  case True
  then show ?thesis using assms by (auto simp: Breaker_Record_def recordLocked_def changed_def breaker_ok_def split: if_splits)
next
  case False
  let ?b0 = "if probe p then b\<lparr>br_probeInFlight := False\<rparr> else b"
  have ok0: "breaker_ok ?b0" using ok by (simp add: breaker_ok_def)
  obtain b1 where adv: "advanceLocked now ?b0 = Some b1"
    using res p False by (auto simp: Breaker_Record_def recordLocked_def Let_def split: option.splits)
  note c1 = advance_control [OF ok0 adv]
  let ?b2 = "count_outcome out b1"
  note c2 = count_outcome_control(1) [of b1 out] count_outcome_control(2) [OF c1(1), of out]
  have s1: "br_state b1 = br_state b" "br_generation b1 = br_generation b" "br_cfg b1 = br_cfg b"
    "br_probeInFlight b1 = (br_probeInFlight b \<and> \<not> probe p)" "breaker_ok b1"
    using c1 by (auto simp: same_control_def split: if_splits)
  have s2: "br_state ?b2 = br_state b" "br_generation ?b2 = br_generation b" "br_cfg ?b2 = br_cfg b"
    "br_probeInFlight ?b2 = (br_probeInFlight b \<and> \<not> probe p)" "breaker_ok ?b2"
    using c2 s1 by (auto simp: same_control_def)
  have step: "(if br_state b = StateHalfOpen then
        (if out = Failure then setStateLocked StateOpen now b1 else setStateLocked StateClosed now b1)
      else if br_state b = StateClosed \<and> trippedLocked ?b2 then setStateLocked StateOpen now ?b2 else (?b2, None)) = (b', ev)"
    using res p False adv s1(1) s2(1) by (auto simp: Breaker_Record_def recordLocked_def Let_def split: if_splits)
  show ?thesis
    using step setStateLocked_control [of StateOpen now b1 b' ev] setStateLocked_control [of StateClosed now b1 b' ev]
      setStateLocked_control [of StateOpen now ?b2 b' ev] s1 s2
    by (auto simp: changed_def split: if_splits option.splits)
qed

lemma snapshot_control:
  assumes "breaker_ok b" and "Breaker_Snapshot now b = Some (b', sn)"
  shows "breaker_ok b'" "same_control b b'" "sn = snapshotLocked now b'"
  using assms advance_control by (auto simp: Breaker_Snapshot_def split: option.splits)

section \<open>The invariant\<close>

lemma inv_admit:
  assumes inv: "breaker_inv s" and res: "allowLocked now (sys_breaker s) = Some (b, Inr p, ev)"
    and n: "generation_free (sys_changes s + changed ev)"
  shows "breaker_inv (s\<lparr>sys_breaker := b, sys_permits := (p, sys_changes s + changed ev) # sys_permits s,
    sys_changes := sys_changes s + changed ev, sys_clock := now\<rparr>)"
proof -
  have ok: "breaker_ok (sys_breaker s)" and le: "\<forall>pn \<in> set (sys_permits s). snd pn \<le> sys_changes s"
    using inv by (auto simp: breaker_inv_def)
  note A = allow_cases [OF ok res]
  show ?thesis
    using inv n A live_changed [OF le, of ev]
    by (auto simp: breaker_inv_def live_def slots_inv_def)
qed

lemma inv_reject:
  assumes inv: "breaker_inv s" and res: "allowLocked now (sys_breaker s) = Some (b, Inl e, ev)"
  shows "breaker_inv (s\<lparr>sys_breaker := b, sys_changes := sys_changes s + changed ev, sys_clock := now\<rparr>)"
proof -
  have ok: "breaker_ok (sys_breaker s)" using inv by (simp add: breaker_inv_def)
  show ?thesis
    using inv allow_cases [OF ok res] by (auto simp: breaker_inv_def live_def changed_def)
qed

lemma slots_remove1:
  assumes "slots_inv st inflight lv" and "pn \<in> set lv"
  shows "slots_inv st (inflight \<and> \<not> probe (fst pn)) (remove1 pn lv)"
  using assms by (auto simp: slots_inv_def length_remove1 dest: notin_set_remove1 split: State.splits if_splits)

lemma inv_record:
  assumes inv: "breaker_inv s" and pn: "pn \<in> set (sys_permits s)"
    and res: "Breaker_Record now (fst pn) out (sys_breaker s) = Some (b, ev)"
    and n: "generation_free (sys_changes s + changed ev)"
  shows "breaker_inv (s\<lparr>sys_breaker := b, sys_permits := remove1 pn (sys_permits s),
    sys_changes := sys_changes s + changed ev, sys_clock := now\<rparr>)"
proof -
  have ok: "breaker_ok (sys_breaker s)" and le: "\<forall>q \<in> set (sys_permits s). snd q \<le> sys_changes s"
    and p: "valid (fst pn)" "generation (fst pn) = of_nat (snd pn)" "snd pn \<le> sys_changes s"
    and gen: "br_generation (sys_breaker s) = of_nat (sys_changes s)" "generation_free (sys_changes s)"
    and slots: "slots_inv (br_state (sys_breaker s)) (br_probeInFlight (sys_breaker s)) (live s)"
    using inv pn by (auto simp: breaker_inv_def)
  have le': "\<forall>q \<in> set (remove1 pn (sys_permits s)). snd q \<le> sys_changes s" using le by (auto dest: notin_set_remove1)
  show ?thesis
  proof (cases "snd pn = sys_changes s")
    case False
    moreover have "generation_free (snd pn)" using p(3) gen(2) by (simp add: generation_free_def)
    ultimately have "generation (fst pn) \<noteq> br_generation (sys_breaker s)"
      using p gen of_nat_word64_eq [of "snd pn" "sys_changes s"] by simp
    then have same: "b = sys_breaker s" "ev = None" using res record_stale by simp_all
    have "filter (\<lambda>q. snd q = sys_changes s) (remove1 pn (sys_permits s)) = live s"
      using False by (simp add: live_def filter_remove1)
    with same inv show ?thesis by (auto simp: breaker_inv_def live_def changed_def dest: notin_set_remove1)
  next
    case True
    then have cur: "generation (fst pn) = br_generation (sys_breaker s)" "pn \<in> set (live s)"
      using p gen pn by (simp_all add: live_def)
    note R = record_cases [OF ok p(1) cur(1) res]
    have lv: "filter (\<lambda>q. snd q = sys_changes s) (remove1 pn (sys_permits s)) = remove1 pn (live s)"
      by (simp add: live_def filter_remove1)
    have "slots_inv (br_state b) (br_probeInFlight b)
        (filter (\<lambda>q. snd q = sys_changes s + changed ev) (remove1 pn (sys_permits s)))"
    proof (cases ev)
      case None
      then show ?thesis using R slots_remove1 [OF slots cur(2)] lv by (simp add: changed_def)
    next
      case (Some t)
      then show ?thesis using R live_changed [OF le', of ev] by (cases "br_state b") (simp_all add: slots_inv_def)
    qed
    moreover have "\<forall>q \<in> set (remove1 pn (sys_permits s)). valid (fst q) \<and> generation (fst q) = of_nat (snd q) \<and>
        snd q \<le> sys_changes s + changed ev"
      using inv set_remove1_subset [of pn "sys_permits s"] by (fastforce simp: breaker_inv_def)
    ultimately show ?thesis using n R gen(1) by (simp add: breaker_inv_def live_def)
  qed
qed

lemma breaker_step_inv: "breaker_inv s \<Longrightarrow> breaker_step s t \<Longrightarrow> breaker_inv t"
proof (erule breaker_step.cases, goal_cases)
  case (1 now s' b p ev)
  then show ?case using inv_admit by blast
next
  case (2 now s' b e ev)
  then show ?case using inv_reject by blast
next
  case (3 pn s' now out b ev)
  then show ?case using inv_record by blast
next
  case (4 now s' b sn)
  then have ok: "breaker_ok (sys_breaker s)" and res: "Breaker_Snapshot now (sys_breaker s) = Some (b, sn)"
    by (simp_all add: breaker_inv_def)
  then show ?case
    using 4 snapshot_control [OF ok res] by (auto simp: breaker_inv_def live_def same_control_def)
qed

lemma breaker_init_inv: "breaker_init s \<Longrightarrow> breaker_inv s"
  by (auto simp: breaker_init_def breaker_inv_def live_def slots_inv_def NewWithClock_ok generation_free_def)
     (simp_all add: NewWithClock_def Let_def)

interpretation breaker_system: invariant_system breaker_init breaker_step breaker_inv
  using breaker_init_inv breaker_step_inv by unfold_locales

text \<open>
  C7: a half-open breaker lets one call through at a time, whatever the interleaving of its
  callers: at most one permit of the current generation is in flight, it is the probe, and
  while it is, every \<open>Allow\<close> is rejected. While the breaker is open no permit of the current
  generation exists at all.
\<close>

theorem half_open_single_probe:
  assumes "reach breaker_init breaker_step s"
  shows "(br_state (sys_breaker s) = StateHalfOpen \<longrightarrow>
        length (live s) \<le> 1 \<and> (\<forall>pn \<in> set (live s). probe (fst pn)) \<and>
        (live s \<noteq> [] \<longrightarrow> (\<exists>b e. allowLocked now (sys_breaker s) = Some (b, Inl e, None))))
    \<and> (br_state (sys_breaker s) = StateOpen \<longrightarrow> live s = [])"
proof -
  let ?b = "sys_breaker s"
  have inv: "breaker_inv s" using breaker_system.reachable_inv [OF assms] .
  then have slots: "slots_inv (br_state ?b) (br_probeInFlight ?b) (live s)" and ok: "breaker_ok ?b"
    by (simp_all add: breaker_inv_def)
  obtain b0 where adv: "advanceLocked now ?b = Some b0" using advanceLocked_shift [OF ok] by blast
  have "\<exists>b e. allowLocked now ?b = Some (b, Inl e, None)" if "br_state ?b = StateHalfOpen" "live s \<noteq> []"
  proof -
    have "br_probeInFlight ?b" using slots that by (auto simp: slots_inv_def split: if_splits)
    then show ?thesis
      using advance_control [OF ok adv] adv that(1) by (simp add: allowLocked_def same_control_def)
  qed
  moreover have "\<forall>pn \<in> set (live s). probe (fst pn)" "length (live s) \<le> 1" if "br_state ?b = StateHalfOpen"
    using slots that by (simp_all add: slots_inv_def)
  moreover have "live s = []" if "br_state ?b = StateOpen" using slots that by (simp add: slots_inv_def)
  ultimately show ?thesis by blast
qed

subsection \<open>Running the system\<close>

datatype breaker_act = ActAllow time | ActRecord nat time Outcome | ActSnapshot time

fun exec_act :: "breaker_act \<Rightarrow> BreakerSystem \<Rightarrow> BreakerSystem option" where
  "exec_act (ActAllow now) s =
     (case allowLocked now (sys_breaker s) of None \<Rightarrow> None | Some (b, r, ev) \<Rightarrow>
        if sys_clock s \<le> now \<and> generation_free (sys_changes s + changed ev) then
          Some (case r of
              Inr p \<Rightarrow> s\<lparr>sys_breaker := b, sys_permits := (p, sys_changes s + changed ev) # sys_permits s,
                         sys_changes := sys_changes s + changed ev, sys_clock := now\<rparr>
            | Inl e \<Rightarrow> s\<lparr>sys_breaker := b, sys_changes := sys_changes s + changed ev, sys_clock := now\<rparr>)
        else None)"
| "exec_act (ActRecord i now out) s =
     (if i < length (sys_permits s) then
        (let pn = sys_permits s ! i in
         case Breaker_Record now (fst pn) out (sys_breaker s) of None \<Rightarrow> None | Some (b, ev) \<Rightarrow>
           if sys_clock s \<le> now \<and> generation_free (sys_changes s + changed ev) then
             Some (s\<lparr>sys_breaker := b, sys_permits := remove1 pn (sys_permits s),
                     sys_changes := sys_changes s + changed ev, sys_clock := now\<rparr>)
           else None)
      else None)"
| "exec_act (ActSnapshot now) s =
     (case Breaker_Snapshot now (sys_breaker s) of None \<Rightarrow> None | Some (b, sn) \<Rightarrow>
        if sys_clock s \<le> now then Some (s\<lparr>sys_breaker := b, sys_clock := now\<rparr>) else None)"

fun exec_acts :: "breaker_act list \<Rightarrow> BreakerSystem \<Rightarrow> BreakerSystem option" where
  "exec_acts [] s = Some s"
| "exec_acts (a # acts) s = (case exec_act a s of None \<Rightarrow> None | Some t \<Rightarrow> exec_acts acts t)"

lemma exec_act_step: "exec_act a s = Some t \<Longrightarrow> breaker_step s t"
  by (cases a)
     (auto simp: Let_def split: option.splits prod.splits if_splits sum.splits intro: breaker_step.intros)

lemma exec_acts_reach:
  "reach breaker_init breaker_step s \<Longrightarrow> exec_acts acts s = Some t \<Longrightarrow> reach breaker_init breaker_step t"
proof (induction acts arbitrary: s)
  case (Cons a acts)
  obtain u where "exec_act a s = Some u" "exec_acts acts u = Some t"
    using Cons.prems(2) by (auto split: option.splits)
  then show ?case using Cons.IH [of u] reach_step [OF Cons.prems(1) exec_act_step] by blast
qed simp

definition demo_start :: BreakerSystem where
  "demo_start = \<lparr>sys_breaker = demo_breaker, sys_permits = [], sys_changes = 0, sys_clock = 1000\<rparr>"

lemma demo_start_reach: "reach breaker_init breaker_step demo_start"
proof (rule reach_init)
  have "Window demo_cfg \<le> 0 \<or> 10 \<le> Window demo_cfg" "in64 (Window demo_cfg)" by code_simp+
  then show "breaker_init demo_start" unfolding breaker_init_def demo_start_def demo_breaker_def by blast
qed

text \<open>Two calls fail, the breaker opens, and after the open period a call becomes the probe.\<close>

definition demo_acts :: "breaker_act list" where
  "demo_acts = [ActAllow 1500, ActAllow 1600, ActRecord 0 2000 Failure, ActRecord 0 3000 Failure, ActAllow (20 * second)]"

definition demo_half_open :: BreakerSystem where
  "demo_half_open = the (exec_acts demo_acts demo_start)"

lemma demo_half_open_reach: "reach breaker_init breaker_step demo_half_open"
proof -
  have "exec_acts demo_acts demo_start \<noteq> None" by code_simp
  then show ?thesis using exec_acts_reach [OF demo_start_reach] by (auto simp: demo_half_open_def)
qed

theorem half_open_single_probe_witness:
  "br_state (sys_breaker demo_half_open) = StateHalfOpen \<and> live demo_half_open \<noteq> [] \<and>
   (\<exists>b e. allowLocked (21 * second) (sys_breaker demo_half_open) = Some (b, Inl e, None))"
proof -
  have "br_state (sys_breaker demo_half_open) = StateHalfOpen" "live demo_half_open \<noteq> []" by code_simp+
  then show ?thesis using half_open_single_probe [OF demo_half_open_reach, of "21 * second"] by blast
qed

text \<open>
  C8: the probe slot never leaks. In every reachable half-open state with no live permit in
  flight, in particular after a cancelled probe was reported as ignored, the next \<open>Allow\<close>
  is admitted as the probe.
\<close>

theorem probe_slot_never_leaks:
  assumes "reach breaker_init breaker_step s" and "br_state (sys_breaker s) = StateHalfOpen" and "live s = []"
  shows "\<exists>b p. allowLocked now (sys_breaker s) = Some (b, Inr p, None) \<and> probe p \<and> br_probeInFlight b"
proof -
  have inv: "breaker_inv s" using breaker_system.reachable_inv [OF assms(1)] .
  then have ok: "breaker_ok (sys_breaker s)" and free: "\<not> br_probeInFlight (sys_breaker s)"
    using assms(2,3) by (auto simp: breaker_inv_def slots_inv_def split: if_splits)
  obtain b0 where adv: "advanceLocked now (sys_breaker s) = Some b0" using advanceLocked_shift [OF ok] by blast
  show ?thesis
    using advance_control [OF ok adv] adv assms(2) free by (simp add: allowLocked_def same_control_def)
qed

definition demo_cancelled :: BreakerSystem where
  "demo_cancelled = the (exec_act (ActRecord 0 (21 * second) Ignored) demo_half_open)"

theorem probe_slot_never_leaks_witness:
  "\<exists>b p. allowLocked (22 * second) (sys_breaker demo_cancelled) = Some (b, Inr p, None) \<and> probe p \<and> br_probeInFlight b"
proof -
  have "exec_act (ActRecord 0 (21 * second) Ignored) demo_half_open \<noteq> None" by code_simp
  then have "breaker_step demo_half_open demo_cancelled"
    by (auto simp: demo_cancelled_def intro: exec_act_step simp del: exec_act.simps)
  then have "reach breaker_init breaker_step demo_cancelled" by (rule reach_step [OF demo_half_open_reach])
  moreover have "br_state (sys_breaker demo_cancelled) = StateHalfOpen" "live demo_cancelled = []" by code_simp+
  ultimately show ?thesis by (rule probe_slot_never_leaks)
qed

section \<open>Open periods, snapshots and panics\<close>

text \<open>
  An open breaker rejects every call until \<open>OpenDuration\<close> has passed since it opened,
  telling the caller exactly how long is left, and admits the first call after it as the
  half-open probe.
\<close>

theorem open_period:
  assumes "breaker_ok b" and "br_state b = StateOpen" and "in64 (OpenDuration (br_cfg b))"
    and "br_openedAt b \<le> now" and "now - br_openedAt b \<le> max64"
  shows "(now - br_openedAt b < OpenDuration (br_cfg b) \<longrightarrow>
        (\<exists>b'. allowLocked now b = Some (b', Inl (OpenError (br_name b) (OpenDuration (br_cfg b) - (now - br_openedAt b))), None)
          \<and> br_state b' = StateOpen \<and> br_openedAt b' = br_openedAt b))
    \<and> (OpenDuration (br_cfg b) \<le> now - br_openedAt b \<longrightarrow>
        (\<exists>b' p t. allowLocked now b = Some (b', Inr p, Some t) \<and> probe p \<and> br_state b' = StateHalfOpen
          \<and> generation p = br_generation b + 1))"
proof -
  obtain b0 where adv: "advanceLocked now b = Some b0" using advanceLocked_shift [OF assms(1)] by blast
  note c0 = advance_control(2) [OF assms(1) adv]
  have sub: "time_sub now (br_openedAt b) = now - br_openedAt b"
    using assms(4,5) by (intro time_sub_exact) (simp add: in64_def min64_def)
  have "in64 (OpenDuration (br_cfg b) - (now - br_openedAt b))" if "now - br_openedAt b < OpenDuration (br_cfg b)"
    using that assms(3,4) by (simp add: in64_def min64_def)
  then have wrap: "now - br_openedAt b < OpenDuration (br_cfg b) \<Longrightarrow>
      wrap64 (OpenDuration (br_cfg b) - (now - br_openedAt b)) = OpenDuration (br_cfg b) - (now - br_openedAt b)"
    by (rule wrap64_id)
  show ?thesis
    using adv c0 assms(2) sub wrap
    by (auto simp: allowLocked_def same_control_def openErrorLocked_def setStateLocked_def Let_def)
qed

definition demo_open :: Breaker where
  "demo_open = sys_breaker (the (exec_acts (butlast demo_acts) demo_start))"

theorem open_period_witness:
  "\<exists>b'. allowLocked (5 * second) demo_open = Some (b', Inl (OpenError ''horizon'' (15 * second - (5 * second - 3000))), None)
     \<and> br_state b' = StateOpen \<and> br_openedAt b' = 3000"
proof -
  have "breaker_ok demo_open" "br_state demo_open = StateOpen" "br_openedAt demo_open = 3000"
    "OpenDuration (br_cfg demo_open) = 15 * second" "br_name demo_open = ''horizon''" by code_simp+
  then show ?thesis
    using open_period [of demo_open "5 * second"] by (simp add: second_def in64_def min64_def max64_def)
qed

text \<open>
  \<open>Snapshot\<close> tells the truth. The state it reports is the state \<open>Allow\<close> would act in at
  that instant, including an open breaker whose period has elapsed, and it changes nothing
  but the rolled window.
\<close>

theorem snapshot_reports_effective_state:
  assumes "breaker_ok b" and "0 < OpenDuration (br_cfg b)" and "in64 (OpenDuration (br_cfg b))"
    and "br_openedAt b \<le> now" and "now - br_openedAt b \<le> max64"
  shows "\<exists>b1 sn b2 r ev. Breaker_Snapshot now b = Some (b1, sn) \<and> same_control b b1 \<and>
     allowLocked now b = Some (b2, r, ev) \<and> sn_State sn = br_state b2"
proof -
  let ?left = "OpenDuration (br_cfg b) - (now - br_openedAt b)"
  obtain b0 where adv: "advanceLocked now b = Some b0" using advanceLocked_shift [OF assms(1)] by blast
  note c0 = advance_control(2) [OF assms(1) adv]
  have sub: "time_sub now (br_openedAt b) = now - br_openedAt b"
    using assms(4,5) by (intro time_sub_exact) (simp add: in64_def min64_def)
  have "in64 ?left" using assms(2-5) by (auto simp: in64_def min64_def max64_def)
  then have wrap: "wrap64 ?left = ?left" by (rule wrap64_id)
  have snap: "sn_State (snapshotLocked now b0) =
      (if br_state b = StateOpen \<and> OpenDuration (br_cfg b) \<le> now - br_openedAt b then StateHalfOpen else br_state b)"
    using c0 sub wrap by (auto simp: snapshotLocked_def same_control_def Let_def split: prod.splits)
  have allow: "\<exists>b2 r ev. allowLocked now b = Some (b2, r, ev) \<and> br_state b2 =
      (if br_state b = StateOpen \<and> OpenDuration (br_cfg b) \<le> now - br_openedAt b then StateHalfOpen else br_state b)"
    using c0 sub adv
    by (auto simp: allowLocked_def same_control_def setStateLocked_def Let_def split: State.splits)
  then show ?thesis using snap adv c0 by (auto simp: Breaker_Snapshot_def)
qed

theorem snapshot_reports_effective_state_witness:
  "\<exists>b1 sn b2 r ev. Breaker_Snapshot (5 * second) demo_open = Some (b1, sn) \<and> same_control demo_open b1 \<and>
     allowLocked (5 * second) demo_open = Some (b2, r, ev) \<and> sn_State sn = br_state b2"
proof -
  have "breaker_ok demo_open" "br_openedAt demo_open = 3000" "OpenDuration (br_cfg demo_open) = 15 * second" by code_simp+
  then show ?thesis
    using snapshot_reports_effective_state [of demo_open "5 * second"] by (simp add: second_def in64_def min64_def max64_def)
qed

text \<open>
  A breaker built from a window of at least ten nanoseconds, or from none, never panics:
  in every reachable state, at any instant, \<open>Allow\<close>, \<open>Record\<close> and \<open>Snapshot\<close> return.
\<close>

theorem breaker_never_panics:
  assumes "reach breaker_init breaker_step s"
  shows "allowLocked now (sys_breaker s) \<noteq> None \<and> Breaker_Record now p out (sys_breaker s) \<noteq> None \<and>
    Breaker_Snapshot now (sys_breaker s) \<noteq> None"
proof -
  let ?b = "sys_breaker s"
  have ok: "breaker_ok ?b" using breaker_system.reachable_inv [OF assms] by (simp add: breaker_inv_def)
  obtain b0 where adv: "advanceLocked now ?b = Some b0" using advanceLocked_shift [OF ok] by blast
  have "breaker_ok (if probe p then ?b\<lparr>br_probeInFlight := False\<rparr> else ?b)" using ok by (simp add: breaker_ok_def)
  then obtain b1 where adv1: "advanceLocked now (if probe p then ?b\<lparr>br_probeInFlight := False\<rparr> else ?b) = Some b1"
    using advanceLocked_shift by blast
  have "allowLocked now ?b \<noteq> None" by (simp add: allowLocked_def adv split_beta)
  moreover have "Breaker_Record now p out ?b \<noteq> None" by (simp add: Breaker_Record_def recordLocked_def adv1 Let_def)
  moreover have "Breaker_Snapshot now ?b \<noteq> None" by (simp add: Breaker_Snapshot_def adv)
  ultimately show ?thesis by blast
qed

theorem breaker_never_panics_witness:
  "allowLocked (100 * second) (sys_breaker demo_half_open) \<noteq> None"
  using breaker_never_panics [OF demo_half_open_reach] by blast

text \<open>
  \<open>Validate\<close> does not rule the panic out. A window of five nanoseconds is valid, but its
  bucket duration truncates to zero and the first call divides by it.
\<close>

theorem valid_window_panics:
  "Config_Validate \<lparr>FailureRatio = FNum (1 / 2), MinRequests = 10, Window = 5, OpenDuration = 15 * second\<rparr> = None
   \<and> allowLocked 1001 (NewWithClock ''horizon''
       \<lparr>FailureRatio = FNum (1 / 2), MinRequests = 10, Window = 5, OpenDuration = 15 * second\<rparr> 1000) = None"
  by code_simp

text \<open>
  \<open>Validate\<close> accepts a failure ratio that is not a number, which \<open>ParseFloat\<close> yields for
  \<open>"NaN"\<close>. Defaults leave it in place, and no comparison with it holds, so such a breaker
  never opens however many calls fail.
\<close>

theorem nan_ratio_never_trips:
  "(\<forall>c. FailureRatio c = FNaN \<longrightarrow>
      FailureRatio (Config_withDefaults c) = FNaN \<and>
      Config_Validate \<lparr>FailureRatio = FNaN, MinRequests = 10, Window = 60 * second, OpenDuration = 15 * second\<rparr> = None)
   \<and> (\<forall>b. FailureRatio (br_cfg b) = FNaN \<longrightarrow> \<not> trippedLocked b)"
  by (auto simp: Config_withDefaults_def Config_Validate_def float64_le_def float64_less_def trippedLocked_def second_def
      split: prod.splits)

theorem nan_ratio_never_trips_witness:
  "\<not> trippedLocked (demo_open\<lparr>br_cfg := demo_cfg\<lparr>FailureRatio := FNaN\<rparr>\<rparr>)"
  using nan_ratio_never_trips by simp

end
