(* ===== verification/Breaker_Transport.thy ===== *)
theory Breaker_Transport
  imports Breaker_Properties
begin

text \<open>
  The HTTP transport in front of the breakers (\<open>internal/breaker/transport.go\<close>): routing a
  request to the breaker of the longest registered prefix, classifying a completed
  attempt, and the round trip that asks, calls and reports.
\<close>

section \<open>Routing\<close>

text \<open>The two parts of a \<open>url.URL\<close> the router reads; a breaker is named by its address.\<close>

record url =
  u_Host :: string
  u_Path :: string

record routeEntry =
  re_host :: string
  re_prefix :: string
  re_breaker :: nat

type_synonym Router = "routeEntry list"

text \<open>\<open>strings.ToLower\<close> on the ASCII letters, which are those a host name has.\<close>

definition ascii_lower :: "char \<Rightarrow> char" where
  "ascii_lower c = (if of_char c \<in> {65..(90::nat)} then char_of (of_char c + 32 :: nat) else c)"

definition ToLower :: "string \<Rightarrow> string" where
  "ToLower s = map ascii_lower s"

definition TrimSuffix :: "string \<Rightarrow> string \<Rightarrow> string" where
  "TrimSuffix s suf =
     (if length suf \<le> length s \<and> drop (length s - length suf) s = suf then take (length s - length suf) s else s)"

datatype register_error = ErrBreakerRequired | ErrParseURL | ErrNoHost | ErrCollision nat

text \<open>\<open>parsed\<close> is what \<open>url.Parse\<close> makes of the trimmed configuration string.\<close>

definition Router_Register :: "url option \<Rightarrow> nat option \<Rightarrow> Router \<Rightarrow> register_error + Router" where
  "Router_Register parsed b entries =
     (case b of None \<Rightarrow> Inl ErrBreakerRequired | Some br \<Rightarrow>
      (case parsed of None \<Rightarrow> Inl ErrParseURL | Some u \<Rightarrow>
       if u_Host u = [] then Inl ErrNoHost
       else
         (let host = ToLower (u_Host u); prefix = TrimSuffix (u_Path u) ''/'' in
          case find (\<lambda>e. re_host e = host \<and> re_prefix e = prefix) entries of
            Some e \<Rightarrow> Inl (ErrCollision (re_breaker e))
          | None \<Rightarrow> Inr (entries @ [\<lparr>re_host = host, re_prefix = prefix, re_breaker = br\<rparr>]))))"

definition route_match :: "url \<Rightarrow> routeEntry \<Rightarrow> bool" where
  "route_match u e \<longleftrightarrow> re_host e = ToLower (u_Host u) \<and> (re_prefix e = [] \<or> str_has_prefix (u_Path u) (re_prefix e))"

definition better :: "url \<Rightarrow> routeEntry option \<Rightarrow> routeEntry \<Rightarrow> routeEntry option" where
  "better u best e =
     (if \<not> route_match u e then best
      else (case best of None \<Rightarrow> Some e
            | Some b \<Rightarrow> if length (re_prefix b) < length (re_prefix e) then Some e else best))"

definition Router_For :: "Router \<Rightarrow> url option \<Rightarrow> nat option" where
  "Router_For entries u =
     (case u of None \<Rightarrow> None | Some u \<Rightarrow> map_option re_breaker (foldl (better u) None entries))"

definition Router_Breakers :: "Router \<Rightarrow> nat list" where
  "Router_Breakers entries = map re_breaker entries"

section \<open>Classifying an attempt\<close>

text \<open>
  An attempt ended in a transport error (whether it is \<open>context.Canceled\<close>) or a response
  with a status code, or neither.
\<close>

datatype attempt = TransportError bool | Response int | NoResponse

definition Classify :: "bool \<Rightarrow> attempt \<Rightarrow> Outcome" where
  "Classify ctx_canceled a =
     (case a of
        TransportError is_canceled \<Rightarrow> if is_canceled \<or> ctx_canceled then Ignored else Failure
      | NoResponse \<Rightarrow> Ignored
      | Response code \<Rightarrow> if 500 \<le> code then Failure else if code = 429 then Failure else Success)"

section \<open>The round trip\<close>

text \<open>
  One request: the breakers by address, the instants of the two clock reads, and the attempt
  the next transport would return. The result says whether the next transport was called.
\<close>

datatype trip = Rejected OpenError | Completed attempt

definition RoundTrip ::
  "time \<Rightarrow> time \<Rightarrow> bool \<Rightarrow> attempt \<Rightarrow> Router \<Rightarrow> url option \<Rightarrow> (nat \<Rightarrow> Breaker) \<Rightarrow> (trip \<times> bool \<times> (nat \<Rightarrow> Breaker)) option" where
  "RoundTrip now1 now2 ctx_canceled next entries u store =
     (case Router_For entries u of
        None \<Rightarrow> Some (Completed next, True, store)
      | Some i \<Rightarrow>
          (case allowLocked now1 (store i) of
             None \<Rightarrow> None
           | Some (b, Inl e, ev) \<Rightarrow> Some (Rejected e, False, store(i := b))
           | Some (b, Inr permit, ev) \<Rightarrow>
               (case Breaker_Record now2 permit (Classify ctx_canceled next) b of
                  None \<Rightarrow> None
                | Some (b', ev') \<Rightarrow> Some (Completed next, True, store(i := b')))))"

section \<open>The longest prefix wins\<close>

text \<open>The routers \<open>Register\<close> builds have no two entries with the same host and prefix.\<close>

definition router_ok :: "Router \<Rightarrow> bool" where
  "router_ok entries \<longleftrightarrow> distinct (map (\<lambda>e. (re_host e, re_prefix e)) entries)"

lemma Register_router_ok:
  "router_ok entries \<Longrightarrow> Router_Register parsed b entries = Inr entries' \<Longrightarrow> router_ok entries'"
  by (auto simp: Router_Register_def router_ok_def Let_def find_None_iff split: option.splits if_splits) blast

lemma best_route:
  "foldl (better u) best entries = r \<Longrightarrow>
   (\<forall>b. best = Some b \<longrightarrow> route_match u b) \<Longrightarrow>
   (case r of
      None \<Rightarrow> best = None \<and> (\<forall>e \<in> set entries. \<not> route_match u e)
    | Some w \<Rightarrow> (w \<in> set entries \<or> best = Some w) \<and> route_match u w \<and>
        (\<forall>e \<in> set entries. route_match u e \<longrightarrow> length (re_prefix e) \<le> length (re_prefix w)) \<and>
        (\<forall>b. best = Some b \<longrightarrow> length (re_prefix b) \<le> length (re_prefix w)))"
proof (induction entries arbitrary: best)
  case Nil
  then show ?case by (cases best) auto
next
  case (Cons e entries)
  have prem: "\<forall>b. better u best e = Some b \<longrightarrow> route_match u b"
    using Cons.prems(2) by (auto simp: better_def split: option.splits if_splits)
  have fold: "foldl (better u) (better u best e) entries = r" using Cons.prems(1) by simp
  show ?case
    using Cons.IH [OF fold prem] Cons.prems(2)
    by (cases r) (auto simp: better_def split: option.splits if_splits)
qed

text \<open>Two prefixes of one path that have the same length are the same.\<close>

lemma route_match_prefix: "route_match u e \<Longrightarrow> re_prefix e = take (length (re_prefix e)) (u_Path u)"
  by (auto simp: route_match_def str_has_prefix_def)

text \<open>
  On a router that \<open>Register\<close> built, a request goes to the breaker of the longest
  registered prefix of its host and path, and that entry is the only one of its length, so
  the choice does not depend on the order of registration; a request no entry matches is
  not guarded.
\<close>

theorem Router_For_longest:
  assumes "router_ok entries"
  shows "case Router_For entries (Some u) of
      None \<Rightarrow> \<forall>e \<in> set entries. \<not> route_match u e
    | Some i \<Rightarrow> \<exists>w \<in> set entries. re_breaker w = i \<and> route_match u w \<and>
        (\<forall>e \<in> set entries. route_match u e \<longrightarrow> e = w \<or> length (re_prefix e) < length (re_prefix w))"
proof (cases "foldl (better u) None entries")
  case None
  then show ?thesis using best_route [OF None] by (simp add: Router_For_def)
next
  case (Some w)
  note best = best_route [OF Some]
  have "e = w" if "e \<in> set entries" "route_match u e" "length (re_prefix e) = length (re_prefix w)" for e
  proof -
    have "route_match u w" using best by simp
    then have "re_prefix e = re_prefix w"
      using route_match_prefix [OF that(2)] route_match_prefix [of u w] that(3) by simp
    moreover have "re_host e = re_host w" using that(2) best by (simp add: route_match_def)
    ultimately show ?thesis
      using distinct_map_unique [of "\<lambda>e. (re_host e, re_prefix e)" entries e w] assms that(1) best
      by (simp add: router_ok_def)
  qed
  then show ?thesis using best Some by (auto simp: Router_For_def le_less)
qed

theorem Router_For_longest_witness:
  "router_ok [\<lparr>re_host = ''h'', re_prefix = [], re_breaker = 0\<rparr>, \<lparr>re_host = ''h'', re_prefix = ''/rpc'', re_breaker = 1\<rparr>] \<and>
   (\<exists>w \<in> {\<lparr>re_host = ''h'', re_prefix = [], re_breaker = 0\<rparr>, \<lparr>re_host = ''h'', re_prefix = ''/rpc'', re_breaker = 1\<rparr>}.
      re_breaker w = 1 \<and> route_match \<lparr>u_Host = ''H'', u_Path = ''/rpc/x''\<rparr> w)"
proof -
  let ?r = "[\<lparr>re_host = ''h'', re_prefix = [], re_breaker = 0\<rparr>, \<lparr>re_host = ''h'', re_prefix = ''/rpc'', re_breaker = 1\<rparr>]"
  have "router_ok ?r" "Router_For ?r (Some \<lparr>u_Host = ''H'', u_Path = ''/rpc/x''\<rparr>) = Some 1" by code_simp+
  then show ?thesis using Router_For_longest [of ?r "\<lparr>u_Host = ''H'', u_Path = ''/rpc/x''\<rparr>"] by auto
qed

text \<open>
  Shedding is local. While the breaker guarding a request is open and its period has
  not elapsed, \<open>RoundTrip\<close> returns the open error without calling the next transport, and no
  other breaker changes; a request that is let through changes only its own breaker.
\<close>

theorem RoundTrip_sheds_locally:
  assumes "Router_For entries u = Some i" and "breaker_ok (store i)"
  shows "(br_state (store i) = StateOpen \<and> time_sub now1 (br_openedAt (store i)) < OpenDuration (br_cfg (store i)) \<longrightarrow>
        (\<exists>e store'. RoundTrip now1 now2 canceled next entries u store = Some (Rejected e, False, store')))
    \<and> (\<exists>t called store'. RoundTrip now1 now2 canceled next entries u store = Some (t, called, store')
          \<and> (called \<longleftrightarrow> t = Completed next) \<and> (\<forall>j. j \<noteq> i \<longrightarrow> store' j = store j))"
proof -
  obtain b0 where adv: "advanceLocked now1 (store i) = Some b0" using advanceLocked_shift [OF assms(2)] by blast
  note c0 = advance_control [OF assms(2) adv]
  have rej: "\<exists>b e. allowLocked now1 (store i) = Some (b, Inl e, None)"
    if "br_state (store i) = StateOpen \<and> time_sub now1 (br_openedAt (store i)) < OpenDuration (br_cfg (store i))"
    using that adv c0(2) by (simp add: allowLocked_def same_control_def)
  have "allowLocked now1 (store i) \<noteq> None" by (simp add: allowLocked_def adv split_beta)
  then obtain b r ev where allow: "allowLocked now1 (store i) = Some (b, r, ev)" by auto
  have ok: "breaker_ok b" using allow_cases [OF assms(2) allow] by simp
  have "Breaker_Record now2 p out b \<noteq> None" for p out
  proof -
    have "breaker_ok (if probe p then b\<lparr>br_probeInFlight := False\<rparr> else b)" using ok by (simp add: breaker_ok_def)
    then obtain b1 where "advanceLocked now2 (if probe p then b\<lparr>br_probeInFlight := False\<rparr> else b) = Some b1"
      using advanceLocked_shift by blast
    then show ?thesis by (simp add: Breaker_Record_def recordLocked_def Let_def)
  qed
  then have rec: "\<exists>c w. Breaker_Record now2 p out b = Some (c, w)" for p out by (metis not_None_eq surj_pair)
  have "\<exists>t called store'. RoundTrip now1 now2 canceled next entries u store = Some (t, called, store')
          \<and> (called \<longleftrightarrow> t = Completed next) \<and> (\<forall>j. j \<noteq> i \<longrightarrow> store' j = store j)"
    using allow rec by (cases r) (auto simp: RoundTrip_def assms(1) split: prod.splits option.splits)
  moreover have "\<exists>e store'. RoundTrip now1 now2 canceled next entries u store = Some (Rejected e, False, store')"
    if "br_state (store i) = StateOpen \<and> time_sub now1 (br_openedAt (store i)) < OpenDuration (br_cfg (store i))"
    using rej [OF that] by (auto simp: RoundTrip_def assms(1))
  ultimately show ?thesis by blast
qed

theorem RoundTrip_sheds_locally_witness:
  "\<exists>e store'. RoundTrip (5 * second) (6 * second) False (Response 200)
     [\<lparr>re_host = ''h'', re_prefix = [], re_breaker = 0\<rparr>] (Some \<lparr>u_Host = ''h'', u_Path = ''/x''\<rparr>) (\<lambda>_. demo_open)
   = Some (Rejected e, False, store')"
proof -
  have "Router_For [\<lparr>re_host = ''h'', re_prefix = [], re_breaker = 0\<rparr>] (Some \<lparr>u_Host = ''h'', u_Path = ''/x''\<rparr>) = Some 0"
    "breaker_ok demo_open" "br_state demo_open = StateOpen"
    "time_sub (5 * second) (br_openedAt demo_open) < OpenDuration (br_cfg demo_open)" by code_simp+
  then show ?thesis
    using RoundTrip_sheds_locally [of "[\<lparr>re_host = ''h'', re_prefix = [], re_breaker = 0\<rparr>]"
        "Some \<lparr>u_Host = ''h'', u_Path = ''/x''\<rparr>" 0 "\<lambda>_. demo_open" "5 * second" "6 * second" False "Response 200"] by blast
qed

end
