(* ===== verification/Job_Queue.thy ===== *)
theory Job_Queue
  imports Nester_Prelude Float64
begin

text \<open>
  The durable job queue: its domain model and producer facade
  (\<open>internal/domain/jobqueue\<close>) and the Postgres repository that implements it
  (\<open>internal/repository/postgres/job_repository.go\<close>) over the \<open>jobs\<close> table of migration 059.
  Each statement is atomic; the rows another session has locked, which
  \<open>FOR UPDATE SKIP LOCKED\<close> passes over, are an argument.
\<close>

section \<open>Domain model\<close>

datatype Status = StatusPending | StatusRunning | StatusSucceeded | StatusDead

definition DefaultMaxAttempts :: int where "DefaultMaxAttempts = 5"
definition PriorityDefault :: int where "PriorityDefault = 0"
definition PriorityBalance :: int where "PriorityBalance = 10"

record Job =
  j_ID :: uuid
  j_Type :: string
  j_Payload :: string
  j_Status :: Status
  j_Priority :: int
  j_Attempts :: int
  j_MaxAttempts :: int
  j_IdempotencyKey :: string
  j_CorrelationID :: string
  j_NextRunAt :: time
  j_LeasedUntil :: "time option"
  j_LastError :: string
  j_Result :: string
  j_CreatedAt :: time
  j_UpdatedAt :: time

record EnqueueInput =
  in_Type :: string
  in_Payload :: string
  in_Priority :: int
  in_MaxAttempts :: int
  in_IdempotencyKey :: string
  in_CorrelationID :: string
  in_RunAt :: time

record DequeueParams =
  dq_Type :: string
  dq_Limit :: int
  dq_Lease :: duration
  dq_Now :: time

record QueueStats =
  st_Depth :: int
  st_Scheduled :: int
  st_Running :: int
  st_DeadLetter :: int
  st_DepthByType :: "string \<rightharpoonup> int"

datatype job_error = JobNotFound | JobTypeRequired | JobFault | JobServer pg_error

section \<open>Backoff\<close>

record BackoffConfig =
  bo_Base :: duration
  bo_Max :: duration

text \<open>
  \<open>rng.Float64()\<close> is \<open>k / 2 ^ 53\<close> for a drawn \<open>k < 2 ^ 53\<close>. \<open>float64(base) * 2 ^ (attempt - 1)\<close> is exact,
  or infinite and then not below the maximum; the product with the jitter is rounded, and
  the conversion to a duration truncates.
\<close>

definition backoff_cap :: "BackoffConfig \<Rightarrow> int \<Rightarrow> int" where
  "backoff_cap cfg attempt =
     (let attempt = (if attempt < 1 then 1 else attempt);
          base = (if bo_Base cfg \<le> 0 then second else bo_Base cfg);
          mx = (if bo_Max cfg \<le> 0 then 5 * minute else bo_Max cfg);
          ex = float64_of_int base * 2 ^ nat (attempt - 1)
      in if ex < float64_of_int mx then ex else float64_of_int mx)"

definition backoffDuration :: "BackoffConfig \<Rightarrow> int \<Rightarrow> int \<Rightarrow> duration" where
  "backoffDuration cfg attempt k = \<lfloor>float64_ratio (k * backoff_cap cfg attempt) (2 ^ 53)\<rfloor>"

section \<open>The jobs table\<close>

text \<open>A row, with its nullable columns.\<close>

record JobRow =
  r_id :: uuid
  r_type :: string
  r_payload :: string
  r_status :: Status
  r_priority :: int
  r_attempts :: int
  r_max_attempts :: int
  r_idem :: "string option"
  r_corr :: "string option"
  r_next_run_at :: time
  r_leased_until :: "time option"
  r_last_error :: "string option"
  r_result :: "string option"
  r_created_at :: time
  r_updated_at :: time

type_synonym JobDB = "JobRow list"

definition nullText :: "string \<Rightarrow> string option" where
  "nullText s = (if s = [] then None else Some s)"

definition null_string :: "string option \<Rightarrow> string" where
  "null_string s = (case s of None \<Rightarrow> [] | Some x \<Rightarrow> x)"

definition scanJobFrom :: "JobRow \<Rightarrow> Job" where
  "scanJobFrom r =
     \<lparr>j_ID = r_id r, j_Type = r_type r, j_Payload = r_payload r, j_Status = r_status r,
      j_Priority = r_priority r, j_Attempts = r_attempts r, j_MaxAttempts = r_max_attempts r,
      j_IdempotencyKey = null_string (r_idem r), j_CorrelationID = null_string (r_corr r),
      j_NextRunAt = r_next_run_at r, j_LeasedUntil = r_leased_until r,
      j_LastError = null_string (r_last_error r), j_Result = null_string (r_result r),
      j_CreatedAt = r_created_at r, j_UpdatedAt = r_updated_at r\<rparr>"

definition live_job :: "JobRow \<Rightarrow> bool" where
  "live_job r \<longleftrightarrow> r_status r = StatusPending \<or> r_status r = StatusRunning"

text \<open>The partial unique index \<open>uq_jobs_idempotency_key\<close>: two rows that may not both exist.\<close>

definition idem_clash :: "JobRow \<Rightarrow> JobRow \<Rightarrow> bool" where
  "idem_clash r s \<longleftrightarrow> live_job r \<and> live_job s \<and> r_type r = r_type s \<and> sql_eq (r_idem r) (r_idem s)"

definition int4 :: "int \<Rightarrow> bool" where
  "int4 x \<longleftrightarrow> - (2 ^ 31) \<le> x \<and> x < 2 ^ 31"

section \<open>Enqueue\<close>

definition new_job :: "uuid \<Rightarrow> time \<Rightarrow> time \<Rightarrow> EnqueueInput \<Rightarrow> JobRow" where
  "new_job newID dbnow now i =
     \<lparr>r_id = newID, r_type = in_Type i,
      r_payload = (if in_Payload i = [] then ''{}'' else in_Payload i),
      r_status = StatusPending, r_priority = in_Priority i, r_attempts = 0,
      r_max_attempts = (if in_MaxAttempts i \<le> 0 then DefaultMaxAttempts else in_MaxAttempts i),
      r_idem = nullText (in_IdempotencyKey i), r_corr = nullText (in_CorrelationID i),
      r_next_run_at = (if time_is_zero (in_RunAt i) then now else in_RunAt i),
      r_leased_until = None, r_last_error = None, r_result = None,
      r_created_at = dbnow, r_updated_at = dbnow\<rparr>"

text \<open>
  \<open>INSERT ... ON CONFLICT DO NOTHING RETURNING\<close>: an error of the server, no row on a
  conflict with the partial index, or the new row. What JSONB makes of a text, \<open>None\<close> if it
  is not JSON, is the server's to say.
\<close>

definition insert_job :: "(string \<Rightarrow> string option) \<Rightarrow> JobDB \<Rightarrow> JobRow \<Rightarrow> pg_error + (JobRow option \<times> JobDB)" where
  "insert_job jsonb db r =
     (if 100 < length (r_type r) then Inl (PgError ''22001'' [])
      else (case jsonb (r_payload r) of None \<Rightarrow> Inl (PgError ''22P02'' []) | Some payload \<Rightarrow>
      if \<not> int4 (r_priority r) \<or> \<not> int4 (r_max_attempts r) then Inl (PgError ''22003'' [])
      else if r_id r \<in> r_id ` set db then Inl (PgError ''23505'' ''jobs_pkey'')
      else if list_ex (idem_clash r) db then Inr (None, db)
      else (let r' = r\<lparr>r_payload := payload\<rparr> in Inr (Some r', db @ [r']))))"

text \<open>The row the fallback SELECT returns: the newest live job of the key, if one is still there.\<close>

definition select_live :: "JobDB \<Rightarrow> string \<Rightarrow> string \<Rightarrow> JobRow option" where
  "select_live db typ key =
     (case sort_key (\<lambda>r. - r_created_at r)
             (filter (\<lambda>r. r_type r = typ \<and> r_idem r = Some key \<and> live_job r) db) of
        [] \<Rightarrow> None | r # _ \<Rightarrow> Some r)"

text \<open>
  Between the two statements other sessions run: \<open>db2\<close> is the table the SELECT sees, given
  the one the INSERT left.
\<close>

definition JobRepository_Enqueue ::
  "(string \<Rightarrow> string option) \<Rightarrow> sql_fault \<Rightarrow> uuid \<Rightarrow> time \<Rightarrow> time \<Rightarrow> (JobDB \<Rightarrow> JobDB) \<Rightarrow> JobDB \<Rightarrow> EnqueueInput
   \<Rightarrow> (job_error + (Job \<times> bool)) \<times> JobDB" where
  "JobRepository_Enqueue jsonb flt newID dbnow now others db i =
     (let r = new_job newID dbnow now i in
      if flt 0 then (Inl JobFault, db)
      else (case insert_job jsonb db r of
          Inl e \<Rightarrow> (Inl (JobServer e), db)
        | Inr (Some r', db') \<Rightarrow> (Inr (scanJobFrom r', True), db')
        | Inr (None, db') \<Rightarrow>
            (let db2 = others db' in
             if flt 1 then (Inl JobFault, db2)
             else (case select_live db2 (in_Type i) (in_IdempotencyKey i) of
                 None \<Rightarrow> (Inl JobNotFound, db2)
               | Some e \<Rightarrow> (Inr (scanJobFrom e, False), db2)))))"

text \<open>The facade: a type is required, and the request's id fills an unset correlation id.\<close>

definition Client_Enqueue ::
  "(string \<Rightarrow> string option) \<Rightarrow> sql_fault \<Rightarrow> uuid \<Rightarrow> time \<Rightarrow> time \<Rightarrow> (JobDB \<Rightarrow> JobDB) \<Rightarrow> string \<Rightarrow> JobDB \<Rightarrow> EnqueueInput
   \<Rightarrow> (job_error + Job) \<times> JobDB" where
  "Client_Enqueue jsonb flt newID dbnow now others requestID db i =
     (if in_Type i = [] then (Inl JobTypeRequired, db)
      else
        (let i = i\<lparr>in_CorrelationID := if in_CorrelationID i = [] then requestID else in_CorrelationID i\<rparr> in
         case JobRepository_Enqueue jsonb flt newID dbnow now others db i of
           (Inl e, db') \<Rightarrow> (Inl e, db')
         | (Inr (job, created), db') \<Rightarrow> (Inr job, db')))"

section \<open>Dequeue\<close>

definition runnable :: "time \<Rightarrow> JobRow \<Rightarrow> bool" where
  "runnable now r \<longleftrightarrow>
     (r_status r = StatusPending \<and> r_next_run_at r \<le> now) \<or>
     (r_status r = StatusRunning \<and> (case r_leased_until r of None \<Rightarrow> False | Some t \<Rightarrow> t \<le> now))"

text \<open>\<open>ORDER BY priority DESC, next_run_at\<close>, then skipping locked rows, then the limit.\<close>

definition dequeue_order :: "JobRow list \<Rightarrow> JobRow list" where
  "dequeue_order rs = sort_key (\<lambda>r. - r_priority r) (sort_key r_next_run_at rs)"

definition ready :: "(uuid \<Rightarrow> bool) \<Rightarrow> DequeueParams \<Rightarrow> JobDB \<Rightarrow> JobRow list" where
  "ready locked p db =
     take (nat (dq_Limit p))
       (filter (\<lambda>r. \<not> locked (r_id r))
         (dequeue_order (filter (\<lambda>r. r_type r = dq_Type p \<and> runnable (dq_Now p) r) db)))"

definition lease_row :: "time \<Rightarrow> time \<Rightarrow> JobRow \<Rightarrow> JobRow" where
  "lease_row leasedUntil dbnow r =
     r\<lparr>r_status := StatusRunning, r_leased_until := Some leasedUntil,
       r_attempts := r_attempts r + 1, r_updated_at := dbnow\<rparr>"

definition JobRepository_Dequeue ::
  "(uuid \<Rightarrow> bool) \<Rightarrow> sql_fault \<Rightarrow> time \<Rightarrow> JobDB \<Rightarrow> DequeueParams \<Rightarrow> (job_error + Job list) \<times> JobDB" where
  "JobRepository_Dequeue locked flt dbnow db p =
     (if dq_Limit p \<le> 0 then (Inr [], db)
      else
        (let leasedUntil = dq_Now p + dq_Lease p;
             ids = map r_id (ready locked p db);
             hit = (\<lambda>r. r_id r \<in> set ids)
         in if flt 0 then (Inl JobFault, db)
            else if list_ex (\<lambda>r. hit r \<and> \<not> int4 (r_attempts r + 1)) db then (Inl (JobServer (PgError ''22003'' [])), db)
            else
              (let db' = update_where hit (lease_row leasedUntil dbnow) db
               in (Inr (map scanJobFrom (filter hit db')), db'))))"

section \<open>Finishing a job\<close>

text \<open>Every one of these statements has the guard \<open>id = $1 AND status = 'running'\<close>, and nothing about the lease.\<close>

definition running_id :: "uuid \<Rightarrow> JobRow \<Rightarrow> bool" where
  "running_id i r \<longleftrightarrow> r_id r = i \<and> r_status r = StatusRunning"

definition JobRepository_Complete ::
  "(string \<Rightarrow> string option) \<Rightarrow> sql_fault \<Rightarrow> time \<Rightarrow> JobDB \<Rightarrow> uuid \<Rightarrow> string \<Rightarrow> job_error option \<times> JobDB" where
  "JobRepository_Complete jsonb flt dbnow db i res =
     (if flt 0 then (Some JobFault, db)
      else if res \<noteq> [] \<and> jsonb res = None then (Some (JobServer (PgError ''22P02'' [])), db)
      else (None, update_where (running_id i)
        (\<lambda>r. r\<lparr>r_status := StatusSucceeded, r_result := (if res = [] then None else jsonb res), r_leased_until := None,
                r_last_error := None, r_updated_at := dbnow\<rparr>) db))"

definition JobRepository_Retry ::
  "sql_fault \<Rightarrow> time \<Rightarrow> JobDB \<Rightarrow> uuid \<Rightarrow> time \<Rightarrow> string \<Rightarrow> job_error option \<times> JobDB" where
  "JobRepository_Retry flt dbnow db i nextRunAt lastErr =
     (if flt 0 then (Some JobFault, db)
      else (None, update_where (running_id i)
        (\<lambda>r. r\<lparr>r_status := StatusPending, r_next_run_at := nextRunAt, r_last_error := nullText lastErr,
                r_leased_until := None, r_updated_at := dbnow\<rparr>) db))"

definition JobRepository_DeadLetter ::
  "sql_fault \<Rightarrow> time \<Rightarrow> JobDB \<Rightarrow> uuid \<Rightarrow> string \<Rightarrow> job_error option \<times> JobDB" where
  "JobRepository_DeadLetter flt dbnow db i lastErr =
     (if flt 0 then (Some JobFault, db)
      else (None, update_where (running_id i)
        (\<lambda>r. r\<lparr>r_status := StatusDead, r_last_error := nullText lastErr,
                r_leased_until := None, r_updated_at := dbnow\<rparr>) db))"

definition JobRepository_Heartbeat ::
  "sql_fault \<Rightarrow> time \<Rightarrow> JobDB \<Rightarrow> uuid \<Rightarrow> time \<Rightarrow> job_error option \<times> JobDB" where
  "JobRepository_Heartbeat flt dbnow db i leasedUntil =
     (if flt 0 then (Some JobFault, db)
      else
        (let db' = update_where (running_id i) (\<lambda>r. r\<lparr>r_leased_until := Some leasedUntil, r_updated_at := dbnow\<rparr>) db
         in (if rows_affected (running_id i) db = 0 then Some JobNotFound else None, db')))"

section \<open>Reads and administration\<close>

definition JobRepository_JobStatus :: "sql_fault \<Rightarrow> JobDB \<Rightarrow> uuid \<Rightarrow> job_error + Status" where
  "JobRepository_JobStatus flt db i =
     (if flt 0 then Inl JobFault
      else (case find (\<lambda>r. r_id r = i) db of None \<Rightarrow> Inl JobNotFound | Some r \<Rightarrow> Inr (r_status r)))"

definition JobRepository_Stats :: "sql_fault \<Rightarrow> JobDB \<Rightarrow> JobDB \<Rightarrow> time \<Rightarrow> job_error + QueueStats" where
  "JobRepository_Stats flt db db2 now =
     (if flt 0 \<or> flt 1 then Inl JobFault
      else Inr
        \<lparr>st_Depth = int (rows_affected (\<lambda>r. r_status r = StatusPending \<and> r_next_run_at r \<le> now) db),
         st_Scheduled = int (rows_affected (\<lambda>r. r_status r = StatusPending \<and> now < r_next_run_at r) db),
         st_Running = int (rows_affected (\<lambda>r. r_status r = StatusRunning) db),
         st_DeadLetter = int (rows_affected (\<lambda>r. r_status r = StatusDead) db),
         st_DepthByType = (\<lambda>t. let n = rows_affected (\<lambda>r. live_job r \<and> r_type r = t) db2 in
                               if n = 0 then None else Some (int n))\<rparr>)"

definition JobRepository_GetByID :: "sql_fault \<Rightarrow> JobDB \<Rightarrow> uuid \<Rightarrow> job_error + Job" where
  "JobRepository_GetByID flt db i =
     (if flt 0 then Inl JobFault
      else (case find (\<lambda>r. r_id r = i) db of None \<Rightarrow> Inl JobNotFound | Some r \<Rightarrow> Inr (scanJobFrom r)))"

definition JobRepository_ListDead :: "sql_fault \<Rightarrow> JobDB \<Rightarrow> int \<Rightarrow> int \<Rightarrow> job_error + Job list" where
  "JobRepository_ListDead flt db limit off =
     (let limit = (if limit \<le> 0 then 50 else limit); off = (if off < 0 then 0 else off) in
      if flt 0 then Inl JobFault
      else Inr (map scanJobFrom (take (nat limit) (drop (nat off)
        (sort_key (\<lambda>r. - r_updated_at r) (filter (\<lambda>r. r_status r = StatusDead) db))))))"

text \<open>Putting a dead row back to pending makes it live again, so the partial unique index is checked.\<close>

definition JobRepository_ManualRetry :: "sql_fault \<Rightarrow> time \<Rightarrow> JobDB \<Rightarrow> uuid \<Rightarrow> time \<Rightarrow> job_error option \<times> JobDB" where
  "JobRepository_ManualRetry flt dbnow db i runAt =
     (let P = (\<lambda>r. r_id r = i \<and> r_status r = StatusDead);
          f = (\<lambda>r. r\<lparr>r_status := StatusPending, r_attempts := 0, r_next_run_at := runAt,
                     r_last_error := None, r_leased_until := None, r_updated_at := dbnow\<rparr>)
      in if flt 0 then (Some JobFault, db)
         else if list_ex (\<lambda>r. P r \<and> list_ex (idem_clash (f r)) db) db
           then (Some (JobServer (PgError ''23505'' ''uq_jobs_idempotency_key'')), db)
         else (if rows_affected P db = 0 then Some JobNotFound else None, update_where P f db))"

end
