(* ===== verification/Job_Worker.thy ===== *)
theory Job_Worker
  imports Job_Queue
begin

text \<open>
  The worker pool (\<open>internal/domain/jobqueue/worker.go\<close>): defaults, registration, one poll
  over the registered types, and the processing of one leased job. The handler is a
  parameter: what it returned, or that it panicked.
\<close>

section \<open>Configuration and registration\<close>

record WorkerConfig =
  wc_Enabled :: bool
  wc_PollInterval :: duration
  wc_Lease :: duration
  wc_HeartbeatInterval :: duration
  wc_JobTimeout :: duration
  wc_DefaultConcurrency :: int
  wc_Backoff :: BackoffConfig
  wc_StatsInterval :: duration
  wc_DrainTimeout :: duration

definition WorkerConfig_withDefaults :: "WorkerConfig \<Rightarrow> WorkerConfig" where
  "WorkerConfig_withDefaults c =
     (let lease = (if wc_Lease c \<le> 0 then 30 * second else wc_Lease c) in
      c\<lparr>wc_PollInterval := if wc_PollInterval c \<le> 0 then second else wc_PollInterval c,
        wc_Lease := lease,
        wc_HeartbeatInterval := if wc_HeartbeatInterval c \<le> 0 then go_div lease 3 else wc_HeartbeatInterval c,
        wc_DefaultConcurrency := if wc_DefaultConcurrency c < 1 then 1 else wc_DefaultConcurrency c,
        wc_DrainTimeout := if wc_DrainTimeout c \<le> 0 then 30 * second else wc_DrainTimeout c\<rparr>)"

text \<open>A registered type: the capacity of its semaphore and how many slots are taken.\<close>

record registration =
  reg_type :: string
  reg_concurrency :: int
  reg_busy :: int

text \<open>Registering a type twice panics, which is \<open>None\<close>.\<close>

definition Worker_Register :: "WorkerConfig \<Rightarrow> string \<Rightarrow> int \<Rightarrow> registration list \<Rightarrow> registration list option" where
  "Worker_Register cfg jobType concurrency regs =
     (if list_ex (\<lambda>g. reg_type g = jobType) regs then None
      else Some (regs @ [\<lparr>reg_type = jobType,
        reg_concurrency = (if concurrency \<le> 0 then wc_DefaultConcurrency cfg else concurrency), reg_busy = 0\<rparr>]))"

section \<open>One poll\<close>

text \<open>
  The registered types in the order the map iteration takes them. A dequeue error ends the
  poll when the worker's context is cancelled, and skips the type otherwise. The poll
  returns the jobs it dispatched.
\<close>

fun tick ::
  "(DequeueParams \<Rightarrow> 'db \<Rightarrow> (job_error + Job list) \<times> 'db) \<Rightarrow> bool \<Rightarrow> WorkerConfig \<Rightarrow> (string \<Rightarrow> time)
   \<Rightarrow> registration list \<Rightarrow> 'db \<Rightarrow> registration list \<times> Job list \<times> 'db" where
  "tick deq cancelled cfg now [] db = ([], [], db)"
| "tick deq cancelled cfg now (g # gs) db =
     (let free = reg_concurrency g - reg_busy g in
      if free \<le> 0 then
        (let (gs', jobs, db') = tick deq cancelled cfg now gs db in (g # gs', jobs, db'))
      else
        (case deq \<lparr>dq_Type = reg_type g, dq_Limit = free, dq_Lease = wc_Lease cfg, dq_Now = now (reg_type g)\<rparr> db of
           (Inl e, db1) \<Rightarrow>
             if cancelled then (g # gs, [], db1)
             else (let (gs', jobs, db') = tick deq cancelled cfg now gs db1 in (g # gs', jobs, db'))
         | (Inr leased, db1) \<Rightarrow>
             (let (gs', jobs, db') = tick deq cancelled cfg now gs db1
              in (g\<lparr>reg_busy := reg_busy g + int (length leased)\<rparr> # gs', leased @ jobs, db'))))"

section \<open>Processing one job\<close>

datatype handler_end = Returned "(bool \<times> string) option" | Panicked string

text \<open>An error is its permanence and its text; a recovered panic is an error that is not permanent.\<close>

definition runHandler :: "handler_end \<Rightarrow> (bool \<times> string) option" where
  "runHandler h =
     (case h of Returned r \<Rightarrow> r | Panicked v \<Rightarrow> Some (False, ''handler panicked: '' @ v))"

datatype verdict = Succeeded | Dead | Retried | WriteFailed job_error

definition process ::
  "(string \<Rightarrow> string option) \<Rightarrow> sql_fault \<Rightarrow> time \<Rightarrow> time \<Rightarrow> int \<Rightarrow> WorkerConfig \<Rightarrow> Job \<Rightarrow> handler_end
   \<Rightarrow> JobDB \<Rightarrow> verdict \<times> JobDB" where
  "process jsonb flt dbnow now jitter cfg job h db =
     (case runHandler h of
        None \<Rightarrow>
          (case JobRepository_Complete jsonb flt dbnow db (j_ID job) [] of
             (Some e, db') \<Rightarrow> (WriteFailed e, db') | (None, db') \<Rightarrow> (Succeeded, db'))
      | Some (permanent, msg) \<Rightarrow>
          if permanent \<or> j_MaxAttempts job \<le> j_Attempts job then
            (case JobRepository_DeadLetter flt dbnow db (j_ID job) msg of
               (Some e, db') \<Rightarrow> (WriteFailed e, db') | (None, db') \<Rightarrow> (Dead, db'))
          else
            (let delay = backoffDuration (wc_Backoff cfg) (j_Attempts job) jitter in
             case JobRepository_Retry flt dbnow db (j_ID job) (now + delay) msg of
               (Some e, db') \<Rightarrow> (WriteFailed e, db') | (None, db') \<Rightarrow> (Retried, db')))"

text \<open>One beat of \<open>startHeartbeat\<close>: extend the lease, and whether the job's context is cancelled.\<close>

definition heartbeat_tick :: "sql_fault \<Rightarrow> time \<Rightarrow> time \<Rightarrow> WorkerConfig \<Rightarrow> uuid \<Rightarrow> JobDB \<Rightarrow> bool \<times> JobDB" where
  "heartbeat_tick flt dbnow now cfg i db =
     (case JobRepository_Heartbeat flt dbnow db i (now + wc_Lease cfg) of
        (Some JobNotFound, db') \<Rightarrow> (True, db') | (_, db') \<Rightarrow> (False, db'))"

end
