(* ===== verification/Job_Properties.thy ===== *)
theory Job_Properties
  imports Job_Worker
begin

text \<open>
  What the queue guarantees to producers, workers and operators, over any sequence of
  operations of any number of sessions: the table's invariant, deduplication, lease
  exclusion, the order and extent of a dequeue, terminal states, and how a worker disposes
  of a job.
\<close>

section \<open>Operations as steps\<close>

datatype job_op =
    OpEnqueue uuid time time EnqueueInput
  | OpDequeue "uuid \<Rightarrow> bool" time DequeueParams
  | OpComplete time uuid string
  | OpRetry time uuid time string
  | OpDeadLetter time uuid string
  | OpHeartbeat time uuid time
  | OpManualRetry time uuid time

text \<open>The table after an operation, with the faults it meets. The sessions between an enqueue's two statements are steps of their own.\<close>

fun job_exec :: "(string \<Rightarrow> string option) \<Rightarrow> sql_fault \<Rightarrow> job_op \<Rightarrow> JobDB \<Rightarrow> JobDB" where
  "job_exec jsonb flt (OpEnqueue newID dbnow now i) db = snd (JobRepository_Enqueue jsonb flt newID dbnow now id db i)"
| "job_exec jsonb flt (OpDequeue locked dbnow p) db = snd (JobRepository_Dequeue locked flt dbnow db p)"
| "job_exec jsonb flt (OpComplete dbnow i res) db = snd (JobRepository_Complete jsonb flt dbnow db i res)"
| "job_exec jsonb flt (OpRetry dbnow i t err) db = snd (JobRepository_Retry flt dbnow db i t err)"
| "job_exec jsonb flt (OpDeadLetter dbnow i err) db = snd (JobRepository_DeadLetter flt dbnow db i err)"
| "job_exec jsonb flt (OpHeartbeat dbnow i t) db = snd (JobRepository_Heartbeat flt dbnow db i t)"
| "job_exec jsonb flt (OpManualRetry dbnow i t) db = snd (JobRepository_ManualRetry flt dbnow db i t)"

definition job_step :: "JobDB \<Rightarrow> JobDB \<Rightarrow> bool" where
  "job_step db db' \<longleftrightarrow> (\<exists>jsonb flt op. db' = job_exec jsonb flt op db)"

lemma job_step_exec: "job_step db (job_exec jsonb flt op db)"
  unfolding job_step_def by blast

fun job_run :: "(string \<Rightarrow> string option) \<Rightarrow> (sql_fault \<times> job_op) list \<Rightarrow> JobDB \<Rightarrow> JobDB" where
  "job_run jsonb [] db = db"
| "job_run jsonb ((flt, op) # ops) db = job_run jsonb ops (job_exec jsonb flt op db)"

section \<open>The invariant\<close>

definition row_ok :: "JobRow \<Rightarrow> bool" where
  "row_ok r \<longleftrightarrow> 0 \<le> r_attempts r \<and> 1 \<le> r_max_attempts r \<and> r_idem r \<noteq> Some [] \<and>
     (r_status r = StatusRunning \<longleftrightarrow> r_leased_until r \<noteq> None)"

definition jobs_inv :: "JobDB \<Rightarrow> bool" where
  "jobs_inv db \<longleftrightarrow> distinct (map r_id db) \<and> (\<forall>r \<in> set db. row_ok r) \<and>
     (\<forall>r \<in> set db. \<forall>s \<in> set db. idem_clash r s \<longrightarrow> r = s)"

lemma idem_clash_sym: "idem_clash r s \<Longrightarrow> idem_clash s r"
  unfolding idem_clash_def sql_eq_iff by metis

lemma jobs_inv_update:
  assumes inv: "jobs_inv db"
    and keeps: "\<And>r. P r \<Longrightarrow> r_id (f r) = r_id r \<and> r_type (f r) = r_type r \<and> r_idem (f r) = r_idem r"
    and live: "\<And>r. P r \<Longrightarrow> live_job (f r) \<Longrightarrow> live_job r"
    and ok: "\<And>r. P r \<Longrightarrow> row_ok r \<Longrightarrow> row_ok (f r)"
  shows "jobs_inv (update_where P f db)"
proof -
  let ?g = "\<lambda>r. if P r then f r else r"
  have clash: "idem_clash r s" if "idem_clash (?g r) (?g s)" for r s
    using that keeps live by (auto simp: idem_clash_def split: if_splits)
  have set: "set (update_where P f db) = ?g ` set db" by (rule set_update_where)
  have "map r_id (update_where P f db) = map r_id db" using keeps by (intro map_update_where) blast
  moreover have "\<forall>r \<in> set (update_where P f db). row_ok r"
    using inv ok by (simp add: ball_update_where jobs_inv_def)
  moreover have "\<forall>r \<in> set (update_where P f db). \<forall>s \<in> set (update_where P f db). idem_clash r s \<longrightarrow> r = s"
  proof (intro ballI impI)
    fix x y assume "x \<in> set (update_where P f db)" "y \<in> set (update_where P f db)" "idem_clash x y"
    then obtain r s where "r \<in> set db" "s \<in> set db" "x = ?g r" "y = ?g s" "idem_clash r s"
      unfolding set using clash by blast
    then show "x = y" using inv by (auto simp: jobs_inv_def)
  qed
  ultimately show ?thesis using inv by (simp add: jobs_inv_def)
qed

lemma jobs_inv_insert:
  assumes "jobs_inv db" and "insert_job jsonb db r = Inr (q, db')" and "row_ok r"
  shows "jobs_inv db'"
proof -
  consider "db' = db" | p where "db' = db @ [r\<lparr>r_payload := p\<rparr>]" "r_id r \<notin> r_id ` set db" "\<not> list_ex (idem_clash r) db"
    using assms(2) by (auto simp: insert_job_def Let_def split: if_splits option.splits)
  then show ?thesis
  proof cases
    case 2
    let ?r = "r\<lparr>r_payload := p\<rparr>"
    have "\<not> idem_clash ?r s" "\<not> idem_clash s ?r" if "s \<in> set db" for s
      using 2(3) that idem_clash_sym [of s ?r] by (auto simp: list_ex_iff idem_clash_def live_job_def)
    with 2 assms(1,3) show ?thesis by (auto simp: jobs_inv_def row_ok_def)
  qed (use assms(1) in simp)
qed

lemma new_job_ok: "row_ok (new_job newID dbnow now i)"
  by (auto simp: row_ok_def new_job_def nullText_def DefaultMaxAttempts_def)

lemma lease_row_simps [simp]:
  "r_id (lease_row t n r) = r_id r" "r_type (lease_row t n r) = r_type r" "r_idem (lease_row t n r) = r_idem r"
  "r_status (lease_row t n r) = StatusRunning" "r_leased_until (lease_row t n r) = Some t"
  "r_attempts (lease_row t n r) = r_attempts r + 1" "r_max_attempts (lease_row t n r) = r_max_attempts r"
  by (simp_all add: lease_row_def)

lemma Enqueue_db:
  "JobRepository_Enqueue jsonb flt newID dbnow now id db i = (res, db') \<Longrightarrow>
     db' = db \<or> (\<exists>q. insert_job jsonb db (new_job newID dbnow now i) = Inr (q, db'))"
  by (auto simp: JobRepository_Enqueue_def Let_def split: if_splits sum.splits prod.splits option.splits)

lemma Dequeue_db:
  "JobRepository_Dequeue locked flt dbnow db p = (res, db') \<Longrightarrow>
     db' = db \<or> db' = update_where (\<lambda>r. r_id r \<in> set (map r_id (ready locked p db)))
       (lease_row (dq_Now p + dq_Lease p) dbnow) db"
  by (auto simp: JobRepository_Dequeue_def Let_def split: if_splits)

lemma in_ready:
  "r \<in> set (ready locked p db) \<Longrightarrow>
     r \<in> set db \<and> r_type r = dq_Type p \<and> runnable (dq_Now p) r \<and> \<not> locked (r_id r)"
  by (auto simp: ready_def dequeue_order_def dest!: in_set_takeD)

text \<open>With distinct ids, the rows an id list of \<open>ready\<close> hits are the ready rows.\<close>

lemma hit_ready:
  "distinct (map r_id db) \<Longrightarrow> r \<in> set db \<Longrightarrow> r_id r \<in> set (map r_id (ready locked p db)) \<Longrightarrow> r \<in> set (ready locked p db)"
  using in_ready distinct_map_unique by (metis (no_types, lifting) imageE list.set_map)

lemma ManualRetry_inv:
  assumes inv: "jobs_inv db" and res: "JobRepository_ManualRetry flt dbnow db i t = (e, db')"
  shows "jobs_inv db'"
proof -
  let ?P = "\<lambda>r. r_id r = i \<and> r_status r = StatusDead"
  let ?f = "\<lambda>r. r\<lparr>r_status := StatusPending, r_attempts := 0, r_next_run_at := t,
                   r_last_error := None, r_leased_until := None, r_updated_at := dbnow\<rparr>"
  show ?thesis
  proof (cases "flt 0 \<or> list_ex (\<lambda>r. ?P r \<and> list_ex (idem_clash (?f r)) db) db")
    case True
    then show ?thesis using inv res by (auto simp: JobRepository_ManualRetry_def Let_def split: if_splits)
  next
    case False
    then have db': "db' = update_where ?P ?f db"
      using res by (auto simp: JobRepository_ManualRetry_def Let_def split: if_splits)
    have free: "\<not> idem_clash (?f r) s" if "r \<in> set db" "?P r" "s \<in> set db" for r s
      using False that by (auto simp: list_ex_iff)
    have "map r_id db' = map r_id db" unfolding db' by (intro map_update_where) simp
    moreover have "\<forall>r \<in> set db'. row_ok r"
      using inv unfolding db' ball_update_where by (auto simp: jobs_inv_def row_ok_def)
    moreover have "\<forall>r \<in> set db'. \<forall>s \<in> set db'. idem_clash r s \<longrightarrow> r = s"
    proof (intro ballI impI)
      fix x y assume xy: "x \<in> set db'" "y \<in> set db'" "idem_clash x y"
      have same: "r = s" if "r \<in> set db" "s \<in> set db" "r_id r = r_id s" for r s
        using that inv distinct_map_unique by (auto simp: jobs_inv_def)
      from xy(1) obtain r where r: "r \<in> set db" "x = (if ?P r then ?f r else r)" unfolding db' set_update_where by blast
      from xy(2) obtain s where s: "s \<in> set db" "y = (if ?P s then ?f s else s)" unfolding db' set_update_where by blast
      show "x = y"
      proof (cases "?P r"; cases "?P s")
        assume "?P r" "?P s"
        then have "r = s" using same [OF r(1) s(1)] by simp
        then show ?thesis using r(2) s(2) by simp
      next
        assume "?P r" "\<not> ?P s"
        then have "x = ?f r" "y = s" using r(2) s(2) by (metis (no_types, lifting))+
        then show ?thesis using free [OF r(1) \<open>?P r\<close> s(1)] xy(3) by blast
      next
        assume "\<not> ?P r" "?P s"
        then have "x = r" "y = ?f s" using r(2) s(2) by (metis (no_types, lifting))+
        then show ?thesis using free [OF s(1) \<open>?P s\<close> r(1)] idem_clash_sym [OF xy(3)] by blast
      next
        assume "\<not> ?P r" "\<not> ?P s"
        then have "x = r" "y = s" using r(2) s(2) by (metis (no_types, lifting))+
        then show ?thesis using xy(3) r(1) s(1) inv unfolding jobs_inv_def by blast
      qed
    qed
    ultimately show ?thesis using inv by (simp add: jobs_inv_def)
  qed
qed

lemma job_exec_inv: "jobs_inv db \<Longrightarrow> jobs_inv (job_exec jsonb flt op db)"
proof (cases op)
  case (OpEnqueue newID dbnow now i)
  assume inv: "jobs_inv db"
  obtain res db' where e: "JobRepository_Enqueue jsonb flt newID dbnow now id db i = (res, db')" by fastforce
  from Enqueue_db [OF e] show ?thesis
    using inv jobs_inv_insert [OF inv _ new_job_ok] by (auto simp: OpEnqueue e)
next
  case (OpDequeue locked dbnow p)
  assume inv: "jobs_inv db"
  obtain res db' where e: "JobRepository_Dequeue locked flt dbnow db p = (res, db')" by fastforce
  let ?P = "\<lambda>r. r \<in> set (ready locked p db)"
  have "jobs_inv (update_where ?P (lease_row (dq_Now p + dq_Lease p) dbnow) db)"
    using inv by (rule jobs_inv_update) (auto dest!: in_ready simp: live_job_def runnable_def row_ok_def)
  moreover have "update_where (\<lambda>r. r_id r \<in> set (map r_id (ready locked p db))) (lease_row (dq_Now p + dq_Lease p) dbnow) db
      = update_where ?P (lease_row (dq_Now p + dq_Lease p) dbnow) db"
    using inv hit_ready [of db] unfolding update_where_def jobs_inv_def by (intro map_cong refl if_cong) (auto simp: image_iff)
  ultimately show ?thesis using inv Dequeue_db [OF e] by (auto simp: OpDequeue e)
next
  case (OpManualRetry dbnow i t)
  assume "jobs_inv db"
  then show ?thesis using ManualRetry_inv [OF _ surjective_pairing] by (simp add: OpManualRetry)
qed (auto simp: JobRepository_Complete_def JobRepository_Retry_def JobRepository_DeadLetter_def JobRepository_Heartbeat_def
    running_id_def row_ok_def live_job_def Let_def intro!: jobs_inv_update)

interpretation job_table: invariant_system "\<lambda>db. db = []" job_step jobs_inv
proof unfold_locales
  fix db :: JobDB
  assume "db = []"
  then show "jobs_inv db" by (simp add: jobs_inv_def)
next
  fix db db' assume "jobs_inv db" "job_step db db'"
  then show "jobs_inv db'" unfolding job_step_def by (elim exE) (simp only: job_exec_inv)
qed

section \<open>Producers\<close>

text \<open>
  C9: In every state the queue reaches, whatever operations interleave and fail, a job holds a
  lease exactly while it is running, its attempts are counted from zero against a limit of at
  least one, and an empty key is stored as no key; ids are unique, and at most one live job exists
  per type and idempotency key.
\<close>

theorem jobs_reachable_inv:
  assumes "reach (\<lambda>db. db = []) job_step db" and "r \<in> set db" and "s \<in> set db"
  shows "(live_job r \<and> live_job s \<and> r_type r = r_type s \<and> r_idem r = r_idem s \<and> r_idem r \<noteq> None \<longrightarrow> r = s)
    \<and> (r_id r = r_id s \<longrightarrow> r = s)
    \<and> (r_status r = StatusRunning \<longleftrightarrow> r_leased_until r \<noteq> None)
    \<and> 0 \<le> r_attempts r \<and> 1 \<le> r_max_attempts r \<and> r_idem r \<noteq> Some []"
proof -
  have inv: "jobs_inv db" using job_table.reachable_inv [OF assms(1)] .
  have "idem_clash r s \<longrightarrow> r = s" "row_ok r" using inv assms(2,3) unfolding jobs_inv_def by blast+
  moreover have "r_id r = r_id s \<longrightarrow> r = s"
    using inv assms(2,3) distinct_map_unique [of r_id db r s] unfolding jobs_inv_def by blast
  ultimately show ?thesis unfolding row_ok_def idem_clash_def sql_eq_iff by blast
qed

definition demo_json :: "string \<Rightarrow> string option" where
  "demo_json t = (if t = ''{}'' then Some ''{}'' else None)"

definition demo_input :: EnqueueInput where
  "demo_input = \<lparr>in_Type = ''settle'', in_Payload = [], in_Priority = 0, in_MaxAttempts = 2,
     in_IdempotencyKey = ''k1'', in_CorrelationID = [], in_RunAt = 0\<rparr>"

definition demo_dequeue :: "time \<Rightarrow> DequeueParams" where
  "demo_dequeue now = \<lparr>dq_Type = ''settle'', dq_Limit = 5, dq_Lease = 30, dq_Now = now\<rparr>"

definition demo_jobs :: JobDB where
  "demo_jobs = job_exec demo_json no_fault (OpDequeue (\<lambda>_. False) 101 (demo_dequeue 101))
     (job_exec demo_json no_fault (OpEnqueue 42 100 100 demo_input) [])"

definition demo_job :: JobRow where
  "demo_job = \<lparr>r_id = 42, r_type = ''settle'', r_payload = ''{}'', r_status = StatusRunning, r_priority = 0,
     r_attempts = 1, r_max_attempts = 2, r_idem = Some ''k1'', r_corr = None, r_next_run_at = 100,
     r_leased_until = Some 131, r_last_error = None, r_result = None, r_created_at = 100, r_updated_at = 101\<rparr>"

lemma demo_jobs_row: "demo_jobs = [demo_job]"
  by code_simp

lemma demo_jobs_reach: "reach (\<lambda>db. db = []) job_step demo_jobs"
  unfolding demo_jobs_def by (rule reach_step, rule reach_step, rule reach_init, rule refl, rule job_step_exec, rule job_step_exec)

theorem jobs_reachable_inv_witness:
  "r_status demo_job = StatusRunning \<longleftrightarrow> r_leased_until demo_job \<noteq> None"
  using jobs_reachable_inv [OF demo_jobs_reach, of demo_job demo_job] by (simp add: demo_jobs_row)

lemma idem_clash_new:
  "idem_clash (new_job newID dbnow now i) s \<longleftrightarrow>
     live_job s \<and> r_type s = in_Type i \<and> in_IdempotencyKey i \<noteq> [] \<and> r_idem s = Some (in_IdempotencyKey i)"
  by (auto simp: idem_clash_def new_job_def live_job_def sql_eq_iff nullText_def)

lemma select_live_unique:
  assumes "jobs_inv db" and "r \<in> set db" and "live_job r" and "r_idem r = Some key"
  shows "select_live db (r_type r) key = Some r"
proof -
  let ?F = "filter (\<lambda>s. r_type s = r_type r \<and> r_idem s = Some key \<and> live_job s) db"
  have only: "s = r" if "s \<in> set ?F" for s
    using that assms by (auto simp: jobs_inv_def idem_clash_def)
  have "set (sort_key (\<lambda>s. - r_created_at s) ?F) \<noteq> {}" using assms(2-4) by auto
  then obtain x xs where x: "sort_key (\<lambda>s. - r_created_at s) ?F = x # xs"
    by (cases "sort_key (\<lambda>s. - r_created_at s) ?F") auto
  then have "x \<in> set (sort_key (\<lambda>s. - r_created_at s) ?F)" by simp
  then have "x \<in> set ?F" by (simp only: set_sort)
  then show ?thesis using only x by (simp add: select_live_def)
qed

text \<open>
  C10: enqueueing is idempotent. While a live job of the same type and non-empty key exists,
  \<open>Enqueue\<close> returns that job with \<open>created = false\<close> and leaves the table as it is; otherwise a
  well-formed input creates exactly one new pending job with no attempts.
\<close>

theorem Enqueue_idempotent:
  assumes "jobs_inv db" and "length (in_Type i) \<le> 100"
    and "jsonb (if in_Payload i = [] then ''{}'' else in_Payload i) = Some payload"
    and "int4 (in_Priority i)" and "int4 (in_MaxAttempts i)" and "newID \<notin> r_id ` set db"
    and "JobRepository_Enqueue jsonb no_fault newID dbnow now id db i = (res, db')"
  shows "(\<forall>r \<in> set db. live_job r \<and> r_type r = in_Type i \<and> r_idem r = Some (in_IdempotencyKey i) \<longrightarrow>
        res = Inr (scanJobFrom r, False) \<and> db' = db)
    \<and> ((\<forall>r \<in> set db. \<not> (live_job r \<and> r_type r = in_Type i \<and> r_idem r = Some (in_IdempotencyKey i))) \<longrightarrow>
        (\<exists>r. res = Inr (scanJobFrom r, True) \<and> db' = db @ [r] \<and> r_id r = newID \<and>
           r_status r = StatusPending \<and> r_attempts r = 0 \<and> r_payload r = payload))"
proof -
  let ?n = "new_job newID dbnow now i"
  have ins: "insert_job jsonb db ?n =
      (if list_ex (idem_clash ?n) db then Inr (None, db)
       else Inr (Some (?n\<lparr>r_payload := payload\<rparr>), db @ [?n\<lparr>r_payload := payload\<rparr>]))"
    using assms(2-6) by (auto simp: insert_job_def new_job_def DefaultMaxAttempts_def int4_def Let_def)
  have key: "in_IdempotencyKey i \<noteq> []" if "r \<in> set db" "r_idem r = Some (in_IdempotencyKey i)" for r
    using assms(1) that by (auto simp: jobs_inv_def row_ok_def)
  show ?thesis
  proof (cases "list_ex (idem_clash ?n) db")
    case True
    then obtain s where s: "s \<in> set db" "idem_clash ?n s" by (auto simp: list_ex_iff)
    then have s': "live_job s" "r_type s = in_Type i" "r_idem s = Some (in_IdempotencyKey i)"
      by (simp_all add: idem_clash_new)
    have "select_live db (in_Type i) (in_IdempotencyKey i) = Some s"
      using select_live_unique [OF assms(1) s(1) s'(1,3)] s'(2) by simp
    then have res: "res = Inr (scanJobFrom s, False)" "db' = db"
      using assms(7) ins True by (simp_all add: JobRepository_Enqueue_def Let_def)
    have "r = s" if "r \<in> set db" "live_job r \<and> r_type r = in_Type i \<and> r_idem r = Some (in_IdempotencyKey i)" for r
      using that s(1) s' assms(1) by (auto simp: jobs_inv_def idem_clash_def)
    then show ?thesis using res s(1) s' by blast
  next
    case False
    then have none: "\<not> (live_job r \<and> r_type r = in_Type i \<and> r_idem r = Some (in_IdempotencyKey i))" if "r \<in> set db" for r
      using that key by (auto simp: list_ex_iff idem_clash_new)
    have res: "res = Inr (scanJobFrom (?n\<lparr>r_payload := payload\<rparr>), True)" "db' = db @ [?n\<lparr>r_payload := payload\<rparr>]"
      using assms(7) ins False by (simp_all add: JobRepository_Enqueue_def Let_def)
    show ?thesis using none res by (auto simp: new_job_def)
  qed
qed

theorem Enqueue_idempotent_witness:
  "JobRepository_Enqueue demo_json no_fault 43 200 200 id demo_jobs demo_input = (Inr (scanJobFrom demo_job, False), demo_jobs)"
proof -
  have inv: "jobs_inv demo_jobs" using job_table.reachable_inv [OF demo_jobs_reach] .
  have pre: "length (in_Type demo_input) \<le> 100" "demo_json (if in_Payload demo_input = [] then ''{}'' else in_Payload demo_input) = Some ''{}''"
    "int4 (in_Priority demo_input)" "int4 (in_MaxAttempts demo_input)" "43 \<notin> r_id ` set demo_jobs" by code_simp+
  have "demo_job \<in> set demo_jobs" "live_job demo_job \<and> r_type demo_job = in_Type demo_input \<and> r_idem demo_job = Some (in_IdempotencyKey demo_input)"
    by (simp_all add: demo_jobs_row demo_job_def demo_input_def live_job_def)
  then show ?thesis
    using Enqueue_idempotent [where jsonb = demo_json and payload = "''{}''" and newID = 43 and dbnow = 200 and now = 200, OF inv pre, of "fst (JobRepository_Enqueue demo_json no_fault 43 200 200 id demo_jobs demo_input)"
        "snd (JobRepository_Enqueue demo_json no_fault 43 200 200 id demo_jobs demo_input)"] by (simp add: prod_eq_iff)
qed

section \<open>Workers\<close>

text \<open>A row no step may take from its worker: running with a lease that ends later.\<close>

definition leased_past :: "time \<Rightarrow> JobRow \<Rightarrow> bool" where
  "leased_past now r \<longleftrightarrow> r_status r = StatusRunning \<and> (\<exists>t. r_leased_until r = Some t \<and> now < t)"

text \<open>Operations that name the job, which any session may issue: no statement looks at who holds the lease.\<close>

fun op_on :: "uuid \<Rightarrow> job_op \<Rightarrow> bool" where
  "op_on i (OpComplete _ j _) = (j = i)"
| "op_on i (OpRetry _ j _ _) = (j = i)"
| "op_on i (OpDeadLetter _ j _) = (j = i)"
| "op_on i (OpHeartbeat _ j _) = (j = i)"
| "op_on i (OpManualRetry _ j _) = (j = i)"
| "op_on i _ = False"

text \<open>Of these, the ones that make the job available before \<open>t\<close>: rescheduling it to run earlier, or cutting its lease.\<close>

fun op_releases :: "uuid \<Rightarrow> time \<Rightarrow> job_op \<Rightarrow> bool" where
  "op_releases i t (OpRetry _ j runAt _) = (j = i \<and> runAt < t)"
| "op_releases i t (OpManualRetry _ j runAt) = (j = i \<and> runAt < t)"
| "op_releases i t (OpHeartbeat _ j leasedUntil) = (j = i \<and> leasedUntil < t)"
| "op_releases i t _ = False"

text \<open>A row that no dequeue takes before \<open>t\<close>.\<close>

definition withheld :: "time \<Rightarrow> JobRow \<Rightarrow> bool" where
  "withheld t r \<longleftrightarrow> (r_status r = StatusPending \<longrightarrow> t \<le> r_next_run_at r)
     \<and> (r_status r = StatusRunning \<longrightarrow> (\<exists>u. r_leased_until r = Some u \<and> t \<le> u))"

lemma withheld_not_runnable: "withheld t r \<Longrightarrow> now < t \<Longrightarrow> \<not> runnable now r"
  by (auto simp: withheld_def runnable_def)

fun op_before :: "time \<Rightarrow> job_op \<Rightarrow> bool" where
  "op_before t (OpDequeue _ _ p) = (dq_Now p < t)"
| "op_before t _ = True"

lemma update_where_keeps: "r \<in> set t \<Longrightarrow> \<not> P r \<Longrightarrow> r \<in> set (update_where P f t)"
  unfolding set_update_where by (rule image_eqI [of _ _ r]) simp_all

lemma Dequeue_result:
  assumes "JobRepository_Dequeue locked flt dbnow db p = (Inr jobs, db')"
  shows "db' = update_where (\<lambda>r. r_id r \<in> set (map r_id (ready locked p db))) (lease_row (dq_Now p + dq_Lease p) dbnow) db"
    and "jobs = map scanJobFrom (filter (\<lambda>r. r_id r \<in> set (map r_id (ready locked p db))) db')"
proof -
  have empty: "ready locked p db = []" if "dq_Limit p \<le> 0" using that by (simp add: ready_def)
  show "db' = update_where (\<lambda>r. r_id r \<in> set (map r_id (ready locked p db))) (lease_row (dq_Now p + dq_Lease p) dbnow) db"
    using assms empty by (cases "dq_Limit p \<le> 0") (auto simp: JobRepository_Dequeue_def Let_def update_where_none split: if_splits)
  show "jobs = map scanJobFrom (filter (\<lambda>r. r_id r \<in> set (map r_id (ready locked p db))) db')"
    using assms empty by (cases "dq_Limit p \<le> 0") (auto simp: JobRepository_Dequeue_def Let_def split: if_splits)
qed

lemma scanJobFrom_id [simp]: "j_ID (scanJobFrom r) = r_id r"
  by (simp add: scanJobFrom_def)

lemma Dequeue_ids:
  assumes "JobRepository_Dequeue locked flt dbnow db p = (Inr jobs, db')"
  shows "j_ID ` set jobs = r_id ` set (ready locked p db)"
proof -
  have "r_id ` set db' = r_id ` set db"
    unfolding Dequeue_result(1) [OF assms] by (metis (no_types, lifting) lease_row_simps(1) list.set_map map_update_where)
  moreover have "r_id ` set (ready locked p db) \<subseteq> r_id ` set db" using in_ready by blast
  moreover have "r_id ` set (filter (\<lambda>r. r_id r \<in> S) db') = r_id ` set db' \<inter> S" for S by auto
  ultimately have "r_id ` set (filter (\<lambda>r. r_id r \<in> set (map r_id (ready locked p db))) db') = r_id ` set (ready locked p db)"
    by (simp add: Int_absorb1)
  then show ?thesis unfolding Dequeue_result(2) [OF assms] by (simp add: image_image)
qed

lemma Dequeue_leases:
  assumes "JobRepository_Dequeue locked flt dbnow db p = (Inr jobs, db')" and "r \<in> set db'" and "r_id r \<in> j_ID ` set jobs"
  obtains x where "x \<in> set db" "r = lease_row (dq_Now p + dq_Lease p) dbnow x" "r_id x \<in> r_id ` set (ready locked p db)"
proof -
  have "r_id r \<in> r_id ` set (ready locked p db)" using assms(3) Dequeue_ids [OF assms(1)] by simp
  with assms(2) show thesis
    unfolding Dequeue_result(1) [OF assms(1)] by (elim in_update_whereE) (auto intro: that)
qed

lemma Dequeue_keeps_leased:
  assumes "jobs_inv db" and "r \<in> set db" and "leased_past (dq_Now p) r"
  shows "r \<notin> set (ready locked p db)" "r \<in> set (snd (JobRepository_Dequeue locked flt dbnow db p))"
proof -
  show notin: "r \<notin> set (ready locked p db)"
    using assms(3) by (auto dest!: in_ready simp: leased_past_def runnable_def)
  then have "r_id r \<notin> set (map r_id (ready locked p db))"
    using hit_ready [of db r locked p] assms(1,2) by (auto simp: jobs_inv_def)
  then have "r \<in> set (update_where (\<lambda>r. r_id r \<in> set (map r_id (ready locked p db))) (lease_row (dq_Now p + dq_Lease p) dbnow) db)"
    using assms(2) by (intro update_where_keeps)
  then show "r \<in> set (snd (JobRepository_Dequeue locked flt dbnow db p))"
    using Dequeue_db [of locked flt dbnow db p "fst (JobRepository_Dequeue locked flt dbnow db p)"
        "snd (JobRepository_Dequeue locked flt dbnow db p)"] assms(2) by auto
qed

lemma job_exec_keeps_leased:
  assumes "jobs_inv db" and "r \<in> set db" and "r_status r = StatusRunning" and "r_leased_until r = Some t"
    and "\<not> op_on (r_id r) op" and "op_before t op"
  shows "r \<in> set (job_exec jsonb flt op db)"
proof (cases op)
  case (OpEnqueue newID dbnow now i)
  obtain res db' where e: "JobRepository_Enqueue jsonb flt newID dbnow now id db i = (res, db')" by fastforce
  then have "db' = db \<or> (\<exists>x. db' = db @ [x])"
    using Enqueue_db [OF e] by (auto simp: insert_job_def Let_def split: if_splits option.splits)
  then show ?thesis using assms(2) by (auto simp: OpEnqueue e)
next
  case (OpDequeue locked dbnow p)
  then show ?thesis using Dequeue_keeps_leased(2) [OF assms(1,2)] assms(3,4,6) by (simp add: leased_past_def)
qed (use assms(2,3,5) in \<open>auto simp: JobRepository_Complete_def JobRepository_Retry_def JobRepository_DeadLetter_def
      JobRepository_Heartbeat_def JobRepository_ManualRetry_def running_id_def Let_def intro!: update_where_keeps\<close>)

lemma job_run_keeps_leased:
  assumes "jobs_inv db" and "r \<in> set db" and "r_status r = StatusRunning" and "r_leased_until r = Some t"
    and "\<forall>(flt, op) \<in> set ops. \<not> op_on (r_id r) op \<and> op_before t op"
  shows "r \<in> set (job_run jsonb ops db) \<and> jobs_inv (job_run jsonb ops db)"
  using assms
proof (induction ops arbitrary: db)
  case (Cons fop ops)
  obtain flt op where fop: "fop = (flt, op)" by fastforce
  then have "r \<in> set (job_exec jsonb flt op db)" using job_exec_keeps_leased Cons.prems by auto
  then show ?case using Cons.IH job_exec_inv Cons.prems fop by auto
qed simp

definition all_withheld :: "uuid \<Rightarrow> time \<Rightarrow> JobDB \<Rightarrow> bool" where
  "all_withheld i t db \<longleftrightarrow> (\<forall>r \<in> set db. r_id r = i \<longrightarrow> withheld t r) \<and> i \<in> r_id ` set db"

lemma all_withheld_update:
  assumes "all_withheld i t db" and "\<And>r. P r \<Longrightarrow> r_id (f r) = r_id r"
    and "\<And>r. P r \<Longrightarrow> r_id r = i \<Longrightarrow> withheld t r \<Longrightarrow> withheld t (f r)"
  shows "all_withheld i t (update_where P f db)"
proof -
  have "map r_id (update_where P f db) = map r_id db"
    unfolding update_where_def using assms(2) by (induction db) auto
  then have "r_id ` set (update_where P f db) = r_id ` set db" by (metis list.set_map)
  moreover have "withheld t r" if "r \<in> set (update_where P f db)" "r_id r = i" for r
    using that assms by (elim in_update_whereE) (auto simp: all_withheld_def)
  ultimately show ?thesis using assms(1) by (auto simp: all_withheld_def)
qed

lemma job_exec_withheld:
  assumes "jobs_inv db" and held: "all_withheld i t db" and "\<not> op_releases i t op" and "op_before t op"
  shows "all_withheld i t (job_exec jsonb flt op db)"
proof (cases op)
  case (OpEnqueue newID dbnow now inp)
  obtain res db' where e: "JobRepository_Enqueue jsonb flt newID dbnow now id db inp = (res, db')" by fastforce
  then have "db' = db \<or> (\<exists>x. db' = db @ [x] \<and> r_id x \<notin> r_id ` set db)"
    using Enqueue_db [OF e] by (auto simp: insert_job_def Let_def split: if_splits option.splits)
  then show ?thesis using held by (auto simp: OpEnqueue e all_withheld_def)
next
  case (OpDequeue locked dbnow p)
  let ?db' = "snd (JobRepository_Dequeue locked flt dbnow db p)"
  let ?hit = "\<lambda>r. r_id r \<in> set (map r_id (ready locked p db))"
  have miss: "i \<notin> set (map r_id (ready locked p db))"
    using held assms(4) in_ready [of _ locked p db] withheld_not_runnable [of t _ "dq_Now p"] by (fastforce simp: OpDequeue all_withheld_def)
  have keep: "r \<in> set (update_where ?hit (lease_row (dq_Now p + dq_Lease p) dbnow) db) \<and> r_id r = i \<longleftrightarrow> r \<in> set db \<and> r_id r = i" for r
  proof
    assume "r \<in> set (update_where ?hit (lease_row (dq_Now p + dq_Lease p) dbnow) db) \<and> r_id r = i"
    then show "r \<in> set db \<and> r_id r = i" using miss by (elim conjE in_update_whereE) simp_all
  qed (use miss in \<open>blast intro: update_where_keeps\<close>)
  have "?db' = db \<or> ?db' = update_where ?hit (lease_row (dq_Now p + dq_Lease p) dbnow) db"
    using Dequeue_db [of locked flt dbnow db p "fst (JobRepository_Dequeue locked flt dbnow db p)" ?db'] by auto
  then have "r \<in> set ?db' \<and> r_id r = i \<longleftrightarrow> r \<in> set db \<and> r_id r = i" for r using keep by (elim disjE) (simp_all only:)
  then show ?thesis using held unfolding OpDequeue job_exec.simps all_withheld_def by blast
next
  case (OpComplete dbnow j res)
  then show ?thesis
    using held by (auto simp: JobRepository_Complete_def running_id_def withheld_def intro!: all_withheld_update [OF held])
next
  case (OpRetry dbnow j runAt err)
  then show ?thesis
    using held assms(3) by (auto simp: JobRepository_Retry_def running_id_def withheld_def intro!: all_withheld_update [OF held])
next
  case (OpDeadLetter dbnow j err)
  then show ?thesis
    using held by (auto simp: JobRepository_DeadLetter_def running_id_def withheld_def intro!: all_withheld_update [OF held])
next
  case (OpHeartbeat dbnow j until)
  then show ?thesis
    using held assms(3) by (auto simp: JobRepository_Heartbeat_def running_id_def withheld_def Let_def intro!: all_withheld_update [OF held])
next
  case (OpManualRetry dbnow j runAt)
  then show ?thesis
    using held assms(3) by (auto simp: JobRepository_ManualRetry_def withheld_def Let_def intro!: all_withheld_update [OF held])
qed

lemma job_run_withheld:
  assumes "jobs_inv db" and "all_withheld i t db" and "\<forall>(flt, op) \<in> set ops. \<not> op_releases i t op \<and> op_before t op"
  shows "all_withheld i t (job_run jsonb ops db)"
  using assms
proof (induction ops arbitrary: db)
  case (Cons fop ops)
  obtain flt op where fop: "fop = (flt, op)" by fastforce
  then have "all_withheld i t (job_exec jsonb flt op db)" using job_exec_withheld Cons.prems by auto
  then show ?case using Cons.IH [of "job_exec jsonb flt op db"] job_exec_inv [OF Cons.prems(1)] Cons.prems(3) by (simp add: fop)
qed simp

text \<open>
  C11: a lease excludes. Once a job is leased, whatever operations of whatever sessions follow,
  completions, failures and heartbeats of stale workers included, no \<open>Dequeue\<close> before the lease
  ends hands the job out again, unless one of them reschedules that job to run before then, by
  \<open>Retry\<close> or \<open>ManualRetry\<close>, or sets its lease to end before then; and if no operation names the job,
  its row is unchanged. Nothing but the status guards \<open>Retry\<close> (\<open>stale_retry_frees_the_job\<close>).
\<close>

theorem lease_is_exclusive:
  assumes "jobs_inv db" and "JobRepository_Dequeue locked flt dbnow db p = (Inr jobs, db1)"
    and "r \<in> set db1" and "r_id r \<in> j_ID ` set jobs"
    and "\<forall>(flt, op) \<in> set ops. \<not> op_releases (r_id r) (dq_Now p + dq_Lease p) op \<and> op_before (dq_Now p + dq_Lease p) op"
    and "dq_Now q < dq_Now p + dq_Lease p"
    and "JobRepository_Dequeue locked2 flt2 dbnow2 (job_run jsonb ops db1) q = (Inr jobs2, db3)"
  shows "r_id r \<notin> j_ID ` set jobs2 \<and> ((\<forall>(flt, op) \<in> set ops. \<not> op_on (r_id r) op) \<longrightarrow> r \<in> set db3)"
proof -
  let ?t = "dq_Now p + dq_Lease p" and ?db2 = "job_run jsonb ops db1"
  have inv1: "jobs_inv db1" using job_exec_inv [OF assms(1), of _ flt "OpDequeue locked dbnow p"] assms(2) by simp
  obtain x where "r = lease_row ?t dbnow x" by (rule Dequeue_leases [OF assms(2-4)])
  then have r: "r_status r = StatusRunning" "r_leased_until r = Some ?t" by simp_all
  have "all_withheld (r_id r) ?t db1"
    using inv1 assms(3) r distinct_map_unique [of r_id db1] by (fastforce simp: jobs_inv_def withheld_def all_withheld_def)
  from job_run_withheld [OF inv1 this assms(5)] have "r_id r \<notin> r_id ` set (ready locked2 q ?db2)"
    using in_ready [of _ locked2 q ?db2] withheld_not_runnable [OF _ assms(6)] by (fastforce simp: all_withheld_def)
  moreover have "r \<in> set db3" if "\<forall>(flt, op) \<in> set ops. \<not> op_on (r_id r) op"
  proof -
    have r2: "r \<in> set ?db2" "jobs_inv ?db2"
      using job_run_keeps_leased [OF inv1 assms(3) r, of ops jsonb] assms(5) that by auto
    have "leased_past (dq_Now q) r" using r assms(6) by (simp add: leased_past_def)
    from Dequeue_keeps_leased(2) [OF r2(2,1) this, of locked2 flt2 dbnow2] show ?thesis using assms(7) by simp
  qed
  ultimately show ?thesis using Dequeue_ids [OF assms(7)] by simp
qed

text \<open>A stale worker's completion and a heartbeat of the holder do not let a second dequeue take the job.\<close>

theorem lease_is_exclusive_witness:
  "r_id demo_job \<notin> j_ID ` set (case fst (JobRepository_Dequeue (\<lambda>_. False) no_fault 110
       (job_run demo_json [(no_fault, OpHeartbeat 105 42 200), (no_fault, OpComplete 106 42 [])] demo_jobs) (demo_dequeue 130)) of
       Inl _ \<Rightarrow> [] | Inr jobs \<Rightarrow> jobs)"
proof -
  let ?ops = "[(no_fault, OpHeartbeat 105 42 200), (no_fault, OpComplete 106 42 [])]"
  let ?db0 = "job_exec demo_json no_fault (OpEnqueue 42 100 100 demo_input) []"
  let ?D = "JobRepository_Dequeue (\<lambda>_. False) no_fault 101 ?db0 (demo_dequeue 101)"
  have inv0: "jobs_inv ?db0" by (rule job_exec_inv) (simp add: jobs_inv_def)
  have d1: "?D = (Inr [scanJobFrom demo_job], demo_jobs)" by code_simp
  have "map_sum (\<lambda>_. ()) length (fst (JobRepository_Dequeue (\<lambda>_. False) no_fault 110 (job_run demo_json ?ops demo_jobs) (demo_dequeue 130))) = Inr 0"
    by code_simp
  then obtain jobs2 where d2: "JobRepository_Dequeue (\<lambda>_. False) no_fault 110 (job_run demo_json ?ops demo_jobs) (demo_dequeue 130)
      = (Inr jobs2, snd (JobRepository_Dequeue (\<lambda>_. False) no_fault 110 (job_run demo_json ?ops demo_jobs) (demo_dequeue 130)))"
    by (cases "fst (JobRepository_Dequeue (\<lambda>_. False) no_fault 110 (job_run demo_json ?ops demo_jobs) (demo_dequeue 130))")
      (auto simp: prod_eq_iff)
  have "r_id demo_job \<notin> j_ID ` set jobs2"
    using lease_is_exclusive [OF inv0 d1 _ _ _ _ d2, of demo_job]
    by (simp add: demo_jobs_row demo_dequeue_def demo_job_def)
  then show ?thesis using arg_cong [OF d2, of fst] by simp
qed

text \<open>\<open>r\<close> comes before \<open>s\<close> in the order of the dequeue statement, or they tie.\<close>

definition before :: "JobRow \<Rightarrow> JobRow \<Rightarrow> bool" where
  "before r s \<longleftrightarrow> r_priority s < r_priority r \<or> r_priority r = r_priority s \<and> r_next_run_at r \<le> r_next_run_at s"

lemma dequeue_order_sorted: "sorted_wrt before (dequeue_order rs)"
proof -
  have "sorted_wrt (\<lambda>x y. r_next_run_at x \<le> r_next_run_at y) (sort_key r_next_run_at rs)"
    by (metis sorted_map sorted_sort_key)
  from sort_key_lex [OF this, of "\<lambda>r. - r_priority r"] show ?thesis
    by (simp add: dequeue_order_def before_def [abs_def])
qed

definition eligible :: "(uuid \<Rightarrow> bool) \<Rightarrow> DequeueParams \<Rightarrow> JobRow \<Rightarrow> bool" where
  "eligible locked p r \<longleftrightarrow> r_type r = dq_Type p \<and> runnable (dq_Now p) r \<and> \<not> locked (r_id r)"

lemma ready_best:
  assumes "x \<in> set (ready locked p db)" and "y \<in> set db" and "eligible locked p y" and "y \<notin> set (ready locked p db)"
  shows "before x y \<and> length (ready locked p db) = nat (dq_Limit p)"
proof -
  let ?L = "filter (\<lambda>r. \<not> locked (r_id r)) (dequeue_order (filter (\<lambda>r. r_type r = dq_Type p \<and> runnable (dq_Now p) r) db))"
  let ?n = "nat (dq_Limit p)"
  have ready: "ready locked p db = take ?n ?L" by (simp add: ready_def)
  have "y \<in> set ?L" using assms(2,3) by (simp add: dequeue_order_def eligible_def)
  then have y: "y \<in> set (drop ?n ?L)"
    using assms(4) unfolding ready by (metis Un_iff append_take_drop_id set_append)
  have "sorted_wrt before ?L" by (rule sorted_wrt_filter [OF dequeue_order_sorted])
  then have "before x y" using assms(1) y unfolding ready by (rule sorted_wrt_take_drop)
  moreover have "?n < length ?L" using y by (cases "?n < length ?L") auto
  ultimately show ?thesis by (simp add: ready)
qed

lemma ready_bound: "int (length (ready locked p db)) \<le> max 0 (dq_Limit p)"
  by (simp add: ready_def)

lemma Dequeue_length:
  assumes "jobs_inv db" and "JobRepository_Dequeue locked flt dbnow db p = (Inr jobs, db')"
  shows "length jobs = length (ready locked p db)"
proof -
  let ?R = "ready locked p db"
  have dist: "distinct (map r_id db)" using assms(1) by (simp add: jobs_inv_def)
  have "map r_id db' = map r_id db"
    unfolding Dequeue_result(1) [OF assms(2)] by (intro map_update_where) simp
  then have "distinct (map r_id db')" using dist by simp
  then have "distinct (map j_ID jobs)"
    unfolding Dequeue_result(2) [OF assms(2)] by (simp add: comp_def distinct_map_filter)
  moreover have "distinct (map r_id ?R)"
  proof -
    have "distinct (map r_id (dequeue_order rs)) \<longleftrightarrow> distinct (map r_id rs)" for rs
      by (simp add: dequeue_order_def distinct_map)
    then show ?thesis using dist by (simp add: ready_def distinct_map_filter take_map [symmetric])
  qed
  ultimately show ?thesis
    using Dequeue_ids [OF assms(2)] by (metis distinct_card length_map list.set_map)
qed

text \<open>
  What a \<open>Dequeue\<close> leases. At most \<open>Limit\<close> jobs; every one was runnable and unlocked, and
  is returned running, with one more attempt and the lease ending at \<open>now + lease\<close>; every
  other row is untouched; and an eligible job is left behind only when the limit is used up
  by jobs of higher priority, or of the same priority and due no later.
\<close>

theorem Dequeue_takes_best:
  assumes "jobs_inv db" and "JobRepository_Dequeue locked flt dbnow db p = (Inr jobs, db')"
  shows "int (length jobs) \<le> max 0 (dq_Limit p)
    \<and> (\<forall>job \<in> set jobs. \<exists>x \<in> set db. eligible locked p x \<and>
          job = scanJobFrom (lease_row (dq_Now p + dq_Lease p) dbnow x))
    \<and> (\<forall>y \<in> set db. r_id y \<notin> j_ID ` set jobs \<longrightarrow> y \<in> set db' \<and>
          (eligible locked p y \<longrightarrow> int (length jobs) = max 0 (dq_Limit p) \<and>
             (\<forall>x \<in> set db. r_id x \<in> j_ID ` set jobs \<longrightarrow> before x y)))"
proof -
  let ?R = "ready locked p db"
  have dist: "distinct (map r_id db)" using assms(1) by (simp add: jobs_inv_def)
  note ids = Dequeue_ids [OF assms(2)] and len = Dequeue_length [OF assms]
  have taken: "\<exists>x \<in> set db. eligible locked p x \<and> job = scanJobFrom (lease_row (dq_Now p + dq_Lease p) dbnow x)"
    if job: "job \<in> set jobs" for job
  proof -
    obtain r where r: "r \<in> set db'" "job = scanJobFrom r"
      using job unfolding Dequeue_result(2) [OF assms(2)] by auto
    then have "r_id r \<in> j_ID ` set jobs" using job by force
    then obtain x where x: "x \<in> set db" "r = lease_row (dq_Now p + dq_Lease p) dbnow x" "r_id x \<in> r_id ` set ?R"
      by (rule Dequeue_leases [OF assms(2) r(1)])
    then have "x \<in> set ?R" using hit_ready [OF dist x(1)] by simp
    then have "eligible locked p x" using in_ready [of x locked p db] by (simp add: eligible_def)
    then show ?thesis using x(1,2) r(2) by blast
  qed
  have left: "y \<in> set db' \<and> (eligible locked p y \<longrightarrow> int (length jobs) = max 0 (dq_Limit p) \<and>
       (\<forall>x \<in> set db. r_id x \<in> j_ID ` set jobs \<longrightarrow> before x y))"
    if y: "y \<in> set db" "r_id y \<notin> j_ID ` set jobs" for y
  proof -
    have y': "y \<notin> set ?R" using y(2) ids by auto
    have "y \<in> set db'"
      unfolding Dequeue_result(1) [OF assms(2)] using y ids by (intro update_where_keeps) simp_all
    moreover have "before x y" if "eligible locked p y" "x \<in> set db" "r_id x \<in> j_ID ` set jobs" for x
      using ready_best [OF _ y(1) that(1) y', of x] hit_ready [OF dist that(2)] that(3) ids by simp
    moreover have "int (length jobs) = max 0 (dq_Limit p)" if e: "eligible locked p y"
    proof (cases "?R")
      case Nil
      have "y \<in> set (filter (\<lambda>r. \<not> locked (r_id r)) (dequeue_order (filter (\<lambda>r. r_type r = dq_Type p \<and> runnable (dq_Now p) r) db)))"
        using e y(1) by (simp add: dequeue_order_def eligible_def)
      then have "filter (\<lambda>r. \<not> locked (r_id r)) (dequeue_order (filter (\<lambda>r. r_type r = dq_Type p \<and> runnable (dq_Now p) r) db)) \<noteq> []"
        by (metis empty_iff empty_set)
      then have "dq_Limit p \<le> 0" using Nil by (simp add: ready_def)
      then show ?thesis using len Nil by simp
    next
      case (Cons x xs)
      then have "length ?R = nat (dq_Limit p)" using ready_best [OF _ y(1) e y', of x] by simp
      then show ?thesis using len by simp
    qed
    ultimately show ?thesis by blast
  qed
  show ?thesis using taken left ready_bound [of locked p db] len by auto
qed

theorem Dequeue_takes_best_witness:
  "\<exists>x \<in> set (job_exec demo_json no_fault (OpEnqueue 42 100 100 demo_input) []).
     eligible (\<lambda>_. False) (demo_dequeue 101) x \<and> scanJobFrom demo_job = scanJobFrom (lease_row 131 101 x)"
proof -
  let ?db0 = "job_exec demo_json no_fault (OpEnqueue 42 100 100 demo_input) []"
  have inv0: "jobs_inv ?db0" by (rule job_exec_inv) (simp add: jobs_inv_def)
  have d1: "JobRepository_Dequeue (\<lambda>_. False) no_fault 101 ?db0 (demo_dequeue 101) = (Inr [scanJobFrom demo_job], demo_jobs)"
    by code_simp
  show ?thesis using Dequeue_takes_best [OF inv0 d1] by (simp add: demo_dequeue_def)
qed

section \<open>Terminal states\<close>

lemma job_exec_keeps_terminal:
  assumes "jobs_inv db" and "r \<in> set db" and "\<not> live_job r"
    and "r_status r = StatusDead \<longrightarrow> (\<forall>dbnow t. op \<noteq> OpManualRetry dbnow (r_id r) t)"
  shows "r \<in> set (job_exec jsonb flt op db)"
proof (cases op)
  case (OpEnqueue newID dbnow now i)
  obtain res db' where e: "JobRepository_Enqueue jsonb flt newID dbnow now id db i = (res, db')" by fastforce
  then have "db' = db \<or> (\<exists>x. db' = db @ [x])"
    using Enqueue_db [OF e] by (auto simp: insert_job_def Let_def split: if_splits option.splits)
  then show ?thesis using assms(2) by (auto simp: OpEnqueue e)
next
  case (OpDequeue locked dbnow p)
  obtain res db' where e: "JobRepository_Dequeue locked flt dbnow db p = (res, db')" by fastforce
  have "r \<notin> set (ready locked p db)" using assms(3) by (auto dest!: in_ready simp: live_job_def runnable_def)
  then have "r_id r \<notin> set (map r_id (ready locked p db))"
    using hit_ready [of db r locked p] assms(1,2) by (auto simp: jobs_inv_def)
  then show ?thesis using Dequeue_db [OF e] assms(2) update_where_keeps [OF assms(2)] by (auto simp: OpDequeue e)
next
  case (OpManualRetry dbnow i t)
  then have "\<not> (r_id r = i \<and> r_status r = StatusDead)" using assms(4) by blast
  then show ?thesis using assms(2) OpManualRetry
    by (auto simp: JobRepository_ManualRetry_def Let_def intro!: update_where_keeps)
qed (use assms(2,3) in \<open>auto simp: JobRepository_Complete_def JobRepository_Retry_def JobRepository_DeadLetter_def
      JobRepository_Heartbeat_def running_id_def live_job_def Let_def intro!: update_where_keeps\<close>)

text \<open>
  Terminal is terminal. Through any sequence of operations a succeeded job keeps its row
  for ever, and a dead one keeps it until an operator retries that very job.
\<close>

theorem terminal_jobs_stay:
  assumes "jobs_inv db" and "r \<in> set db" and "r_status r = StatusSucceeded \<or> r_status r = StatusDead"
    and "\<forall>(flt, op) \<in> set ops. r_status r = StatusDead \<longrightarrow> (\<forall>dbnow t. op \<noteq> OpManualRetry dbnow (r_id r) t)"
  shows "r \<in> set (job_run jsonb ops db)"
  using assms
proof (induction ops arbitrary: db)
  case (Cons fop ops)
  obtain flt op where fop: "fop = (flt, op)" by fastforce
  have "r \<in> set (job_exec jsonb flt op db)"
    using job_exec_keeps_terminal [OF Cons.prems(1,2)] Cons.prems(3,4) fop by (auto simp: live_job_def)
  then show ?case using Cons.IH job_exec_inv Cons.prems fop by auto
qed simp

theorem terminal_jobs_stay_witness:
  "demo_job\<lparr>r_status := StatusSucceeded, r_leased_until := None\<rparr> \<in>
     set (job_run demo_json [(no_fault, OpDequeue (\<lambda>_. False) 500 (demo_dequeue 500)), (no_fault, OpRetry 501 42 600 ''x'')]
       [demo_job\<lparr>r_status := StatusSucceeded, r_leased_until := None\<rparr>])"
  by (rule terminal_jobs_stay) (simp_all add: jobs_inv_def row_ok_def demo_job_def)

section \<open>How a worker disposes of a job\<close>

lemma backoffDuration_nonneg:
  assumes "0 \<le> k" and "k < 2 ^ 53" and "in64 (bo_Base cfg)" and "in64 (bo_Max cfg)"
  shows "0 \<le> backoffDuration cfg attempt k \<and> backoffDuration cfg attempt k \<le> backoff_cap cfg attempt"
proof -
  let ?base = "if bo_Base cfg \<le> 0 then second else bo_Base cfg" and ?max = "if bo_Max cfg \<le> 0 then 5 * minute else bo_Max cfg"
  let ?a = "nat ((if attempt < 1 then 1 else attempt) - 1)"
  have range: "0 \<le> ?base" "?base < 2 ^ 64" "0 \<le> ?max" "?max < 2 ^ 64"
    using assms(3,4) by (auto simp: in64_def min64_def max64_def duration_defs)
  have cap: "backoff_cap cfg attempt = (if float64_of_int ?base * 2 ^ ?a < float64_of_int ?max
      then float64_of_int ?base * 2 ^ ?a else float64_of_int ?max)"
    by (simp add: backoff_cap_def Let_def)
  have "representable (float64_of_int ?base)" "representable (float64_of_int ?max)"
    using range by (intro representable_float64_of_int; simp)+
  moreover have "representable (m * 2 ^ j)" if "representable m" for m j
    using that unfolding representable_def by (metis mult.assoc power_add)
  ultimately have rep: "representable (backoff_cap cfg attempt)" unfolding cap by (auto split: if_splits)
  then have "0 \<le> backoff_cap cfg attempt" by (auto simp: representable_def)
  then have "k * backoff_cap cfg attempt \<le> 2 ^ 53 * backoff_cap cfg attempt" "0 \<le> k * backoff_cap cfg attempt"
    using assms(1,2) by (simp_all add: mult_right_mono)
  then have "0 \<le> float64_ratio (k * backoff_cap cfg attempt) (2 ^ 53)"
      "float64_ratio (k * backoff_cap cfg attempt) (2 ^ 53) \<le> of_int (backoff_cap cfg attempt)"
    using float64_ratio_bounds [OF _ _ _ rep, of "2 ^ 53" "k * backoff_cap cfg attempt"] by (simp_all add: mult.commute)
  then show ?thesis by (simp add: backoffDuration_def floor_le_iff le_floor_iff)
qed

text \<open>
  A retry delay is never negative and never above the exponential bound: at most
  \<open>Base * 2 ^ (attempt - 1)\<close> and at most \<open>Max\<close>, as \<open>float64\<close> reads them, which is exactly for
  durations below \<open>2 ^ 53\<close> nanoseconds (104 days).
\<close>

theorem backoffDuration_bounds:
  assumes "0 \<le> k" and "k < 2 ^ 53" and "0 < bo_Base cfg" and "bo_Base cfg < 2 ^ 53"
    and "0 < bo_Max cfg" and "bo_Max cfg < 2 ^ 53" and "1 \<le> attempt"
  shows "0 \<le> backoffDuration cfg attempt k \<and> backoffDuration cfg attempt k \<le> bo_Max cfg
    \<and> backoffDuration cfg attempt k \<le> bo_Base cfg * 2 ^ nat (attempt - 1)"
proof -
  have "in64 (bo_Base cfg)" "in64 (bo_Max cfg)" using assms by (simp_all add: in64_def min64_def max64_def)
  then have "0 \<le> backoffDuration cfg attempt k" "backoffDuration cfg attempt k \<le> backoff_cap cfg attempt"
    using backoffDuration_nonneg [OF assms(1,2)] by blast+
  moreover have "backoff_cap cfg attempt = min (bo_Base cfg * 2 ^ nat (attempt - 1)) (bo_Max cfg)"
    using assms by (auto simp: backoff_cap_def Let_def float64_of_int_exact)
  ultimately show ?thesis by simp
qed

theorem backoffDuration_bounds_witness:
  "backoffDuration \<lparr>bo_Base = second, bo_Max = 5 * minute\<rparr> 3 4503599627370496 \<le> 5 * minute"
  using backoffDuration_bounds [of 4503599627370496 "\<lparr>bo_Base = second, bo_Max = 5 * minute\<rparr>" 3]
  by (simp add: second_def minute_def)

text \<open>
  How \<open>process\<close> disposes of a job the worker holds, when its write goes through. Success
  completes the row; a permanent error, or any error or panic on the last allowed attempt,
  dead-letters it; any other failure puts it back to pending, due no earlier than now. Every
  other row keeps its place.
\<close>

theorem process_disposes:
  assumes "jobs_inv db" and "r \<in> set db" and "r_status r = StatusRunning" and "job = scanJobFrom r"
    and "0 \<le> k" and "k < 2 ^ 53" and "in64 (bo_Base (wc_Backoff cfg))" and "in64 (bo_Max (wc_Backoff cfg))"
    and "process jsonb no_fault dbnow now k cfg job h db = (v, db')"
  shows "(\<exists>r' \<in> set db'. r_id r' = r_id r \<and> r_attempts r' = r_attempts r \<and> r_leased_until r' = None \<and>
       (case h of
          Returned None \<Rightarrow> v = Succeeded \<and> r_status r' = StatusSucceeded
        | Returned (Some (permanent, msg)) \<Rightarrow>
            (if permanent \<or> r_max_attempts r \<le> r_attempts r then v = Dead \<and> r_status r' = StatusDead
             else v = Retried \<and> r_status r' = StatusPending \<and> now \<le> r_next_run_at r')
        | Panicked msg \<Rightarrow>
            (if r_max_attempts r \<le> r_attempts r then v = Dead \<and> r_status r' = StatusDead
             else v = Retried \<and> r_status r' = StatusPending \<and> now \<le> r_next_run_at r')))
    \<and> (\<forall>s \<in> set db. r_id s \<noteq> r_id r \<longrightarrow> s \<in> set db')"
proof -
  have delay: "0 \<le> backoffDuration (wc_Backoff cfg) (r_attempts r) k"
    using backoffDuration_nonneg [OF assms(5-8)] by blast
  have job: "j_ID job = r_id r" "j_Attempts job = r_attempts r" "j_MaxAttempts job = r_max_attempts r"
    using assms(4) by (simp_all add: scanJobFrom_def)
  have hit: "f r \<in> set (update_where (running_id (r_id r)) f db)" for f
    unfolding set_update_where using assms(2,3) by (intro image_eqI [of _ _ r]) (simp_all add: running_id_def)
  have miss: "s \<in> set (update_where (running_id (r_id r)) f db)" if "s \<in> set db" "r_id s \<noteq> r_id r" for s f
    using that by (intro update_where_keeps) (simp_all add: running_id_def)
  obtain f where db': "db' = update_where (running_id (r_id r)) f db"
    and f: "r_id (f r) = r_id r \<and> r_attempts (f r) = r_attempts r \<and> r_leased_until (f r) = None \<and>
       (case h of
          Returned None \<Rightarrow> v = Succeeded \<and> r_status (f r) = StatusSucceeded
        | Returned (Some (permanent, msg)) \<Rightarrow>
            (if permanent \<or> r_max_attempts r \<le> r_attempts r then v = Dead \<and> r_status (f r) = StatusDead
             else v = Retried \<and> r_status (f r) = StatusPending \<and> now \<le> r_next_run_at (f r))
        | Panicked msg \<Rightarrow>
            (if r_max_attempts r \<le> r_attempts r then v = Dead \<and> r_status (f r) = StatusDead
             else v = Retried \<and> r_status (f r) = StatusPending \<and> now \<le> r_next_run_at (f r)))"
    using assms(9) job delay
    by (auto simp: process_def runHandler_def JobRepository_Complete_def JobRepository_DeadLetter_def
        JobRepository_Retry_def Let_def split: handler_end.splits option.splits if_splits)
  show ?thesis using hit [of f] miss f unfolding db' by blast
qed

definition demo_worker :: WorkerConfig where
  "demo_worker = WorkerConfig_withDefaults
     \<lparr>wc_Enabled = True, wc_PollInterval = 0, wc_Lease = 0, wc_HeartbeatInterval = 0, wc_JobTimeout = 0,
      wc_DefaultConcurrency = 0, wc_Backoff = \<lparr>bo_Base = 0, bo_Max = 0\<rparr>, wc_StatsInterval = 0, wc_DrainTimeout = 0\<rparr>"

theorem process_disposes_witness:
  "\<exists>r' \<in> set (snd (process demo_json no_fault 110 110 7 demo_worker (scanJobFrom demo_job) (Panicked ''x'') demo_jobs)).
     r_id r' = 42 \<and> r_status r' = StatusPending"
proof -
  have inv: "jobs_inv demo_jobs" using job_table.reachable_inv [OF demo_jobs_reach] .
  have "wc_Backoff demo_worker = \<lparr>bo_Base = 0, bo_Max = 0\<rparr>" "r_status demo_job = StatusRunning" "demo_job \<in> set demo_jobs"
    by (simp_all add: demo_worker_def WorkerConfig_withDefaults_def Let_def demo_job_def demo_jobs_row)
  then show ?thesis
    using process_disposes [OF inv, of demo_job "scanJobFrom demo_job" 7 demo_worker demo_json 110 110 "Panicked ''x''"
        "fst (process demo_json no_fault 110 110 7 demo_worker (scanJobFrom demo_job) (Panicked ''x'') demo_jobs)"
        "snd (process demo_json no_fault 110 110 7 demo_worker (scanJobFrom demo_job) (Panicked ''x'') demo_jobs)"]
    by (auto simp: demo_job_def)
qed

text \<open>
  The terminal writes do not look at the lease. After a worker's lease expired and another
  worker leased the same job, the first worker's \<open>Complete\<close> still marks the job succeeded,
  under the second worker's lease.
\<close>

theorem stale_worker_completes:
  assumes "jobs_inv db" and "r \<in> set db" and "eligible locked p r" and "r_status r = StatusRunning"
    and "JobRepository_Dequeue locked no_fault dbnow db p = (Inr jobs, db1)" and "r_id r \<in> j_ID ` set jobs"
    and "JobRepository_Complete jsonb no_fault dbnow2 db1 (r_id r) [] = (e, db2)"
  shows "e = None \<and> (\<exists>s \<in> set db2. r_id s = r_id r \<and> r_status s = StatusSucceeded \<and> r_attempts s = r_attempts r + 1)"
proof -
  let ?x = "lease_row (dq_Now p + dq_Lease p) dbnow r"
  have "?x \<in> set db1"
    unfolding Dequeue_result(1) [OF assms(5)] set_update_where using assms(2,6) Dequeue_ids [OF assms(5)]
    by (intro image_eqI [of _ _ r]) simp_all
  let ?y = "?x\<lparr>r_status := StatusSucceeded, r_result := None, r_leased_until := None, r_last_error := None, r_updated_at := dbnow2\<rparr>"
  have e: "e = None" and db2: "db2 = update_where (running_id (r_id r))
      (\<lambda>r. r\<lparr>r_status := StatusSucceeded, r_result := None, r_leased_until := None, r_last_error := None, r_updated_at := dbnow2\<rparr>) db1"
    using assms(7) by (simp_all add: JobRepository_Complete_def)
  have "?y \<in> set db2"
    unfolding db2 set_update_where using \<open>?x \<in> set db1\<close> by (intro image_eqI [of _ _ ?x]) (simp_all add: running_id_def)
  then show ?thesis using e by (intro conjI bexI [of _ ?y]) simp_all
qed

theorem stale_worker_completes_witness:
  "\<exists>s \<in> set (snd (JobRepository_Complete demo_json no_fault 210
       (snd (JobRepository_Dequeue (\<lambda>_. False) no_fault 200 demo_jobs (demo_dequeue 200))) 42 [])).
     r_id s = 42 \<and> r_status s = StatusSucceeded \<and> r_attempts s = 2"
proof -
  have inv: "jobs_inv demo_jobs" using job_table.reachable_inv [OF demo_jobs_reach] .
  let ?D = "JobRepository_Dequeue (\<lambda>_. False) no_fault 200 demo_jobs (demo_dequeue 200)"
  have d: "?D = (Inr [scanJobFrom (lease_row 230 200 demo_job)], [lease_row 230 200 demo_job])" by code_simp
  have "demo_job \<in> set demo_jobs" "eligible (\<lambda>_. False) (demo_dequeue 200) demo_job" "r_status demo_job = StatusRunning"
    "r_id demo_job = 42" "r_attempts demo_job = 1"
    by (simp_all add: demo_jobs_row demo_job_def eligible_def runnable_def demo_dequeue_def)
  then show ?thesis
    using stale_worker_completes [OF inv _ _ _ d, of demo_job demo_json 210] d by (simp add: prod_eq_iff)
qed

text \<open>
  A worker whose lease has run out reschedules the job while another one holds it: a third
  worker is handed the job with 23 of the 30 nanoseconds of the second lease still to go.
\<close>

theorem stale_retry_frees_the_job:
  "map_sum (\<lambda>_. ()) (map j_ID) (fst (JobRepository_Dequeue (\<lambda>_. False) no_fault 207
     (job_exec demo_json no_fault (OpRetry 205 42 206 ''timeout'')
       (job_exec demo_json no_fault (OpDequeue (\<lambda>_. False) 200 (demo_dequeue 200)) demo_jobs)) (demo_dequeue 207))) = Inr [42]
   \<and> map r_leased_until (job_exec demo_json no_fault (OpDequeue (\<lambda>_. False) 200 (demo_dequeue 200)) demo_jobs) = [Some 230]"
  by code_simp

section \<open>The poll\<close>

text \<open>
  What the worker relies on of the repository it polls: a dequeue keeps the table's
  invariant and never returns more jobs than it was asked for.
\<close>

locale dequeue_port =
  fixes deq :: "DequeueParams \<Rightarrow> 'db \<Rightarrow> (job_error + Job list) \<times> 'db" and inv :: "'db \<Rightarrow> bool"
  assumes deq_inv: "inv db \<Longrightarrow> inv (snd (deq p db))"
    and deq_limit: "inv db \<Longrightarrow> deq p db = (Inr jobs, db') \<Longrightarrow> int (length jobs) \<le> max 0 (dq_Limit p)"
begin

lemma tick_slots:
  "inv db \<Longrightarrow> \<forall>g \<in> set regs. reg_busy g \<le> reg_concurrency g \<Longrightarrow>
   tick deq cancelled cfg now regs db = (regs', jobs, db') \<Longrightarrow>
   (\<forall>g \<in> set regs'. reg_busy g \<le> reg_concurrency g) \<and>
   map reg_type regs' = map reg_type regs \<and> map reg_concurrency regs' = map reg_concurrency regs \<and>
   sum_list (map reg_busy regs') = sum_list (map reg_busy regs) + int (length jobs) \<and> inv db'"
proof (induction regs arbitrary: db regs' jobs db')
  case Nil
  then show ?case by simp
next
  case (Cons g gs)
  let ?p = "\<lparr>dq_Type = reg_type g, dq_Limit = reg_concurrency g - reg_busy g, dq_Lease = wc_Lease cfg, dq_Now = now (reg_type g)\<rparr>"
  have busy: "\<forall>h \<in> set gs. reg_busy h \<le> reg_concurrency h" using Cons.prems(2) by simp
  show ?case
  proof (cases "reg_concurrency g - reg_busy g \<le> 0")
    case True
    obtain gs' js d where rest: "tick deq cancelled cfg now gs db = (gs', js, d)" by (metis prod_cases3)
    with True Cons.prems have "regs' = g # gs'" "jobs = js" "db' = d" by (simp_all add: Let_def)
    then show ?thesis using Cons.IH [OF Cons.prems(1) busy rest] Cons.prems(2) by simp
  next
    case False
    obtain q db1 where deq: "deq ?p db = (q, db1)" by fastforce
    then have inv1: "inv db1" using deq_inv [OF Cons.prems(1), of ?p] by simp
    obtain gs' js d where rest: "tick deq cancelled cfg now gs db1 = (gs', js, d)" by (metis prod_cases3)
    note IH = Cons.IH [OF inv1 busy rest]
    show ?thesis
    proof (cases q)
      case (Inl e)
      then show ?thesis using False deq rest IH Cons.prems inv1 by (auto simp: Let_def split: if_splits)
    next
      case (Inr leased)
      have "int (length leased) \<le> reg_concurrency g - reg_busy g"
        using deq_limit [OF Cons.prems(1) deq [unfolded Inr]] False by simp
      then show ?thesis using False deq rest IH Cons.prems Inr by (auto simp: Let_def)
    qed
  qed
qed

end

interpretation job_port: dequeue_port "\<lambda>p db. JobRepository_Dequeue locked flt dbnow db p" jobs_inv
  for locked flt dbnow
proof unfold_locales
  fix db p assume "jobs_inv db"
  then show "jobs_inv (snd (JobRepository_Dequeue locked flt dbnow db p))"
    using job_exec_inv [of db _ flt "OpDequeue locked dbnow p"] by simp
next
  fix db p jobs db' assume "jobs_inv db" "JobRepository_Dequeue locked flt dbnow db p = (Inr jobs, db')"
  then show "int (length jobs) \<le> max 0 (dq_Limit p)" using Dequeue_length ready_bound by metis
qed

text \<open>
  A poll never exceeds a type's concurrency. If no type has more jobs in flight than
  slots, it is so after the poll, which takes exactly one slot per job it dispatched: the
  send on the semaphore, which the source says cannot block, does not.
\<close>

theorem tick_respects_concurrency:
  assumes "jobs_inv db" and "\<forall>g \<in> set regs. reg_busy g \<le> reg_concurrency g"
    and "tick (\<lambda>p db. JobRepository_Dequeue locked flt dbnow db p) cancelled cfg now regs db = (regs', jobs, db')"
  shows "(\<forall>g \<in> set regs'. reg_busy g \<le> reg_concurrency g)
    \<and> map reg_concurrency regs' = map reg_concurrency regs
    \<and> sum_list (map reg_busy regs') = sum_list (map reg_busy regs) + int (length jobs) \<and> jobs_inv db'"
  using job_port.tick_slots [OF assms] by blast

theorem tick_respects_concurrency_witness:
  "list_all (\<lambda>g. reg_busy g \<le> reg_concurrency g) (fst (tick (\<lambda>p db. JobRepository_Dequeue (\<lambda>_. False) no_fault 200 db p) False demo_worker (\<lambda>_. 200)
       [\<lparr>reg_type = ''settle'', reg_concurrency = 1, reg_busy = 0\<rparr>] demo_jobs))"
proof -
  have inv: "jobs_inv demo_jobs" using job_table.reachable_inv [OF demo_jobs_reach] .
  obtain a b c where t: "tick (\<lambda>p db. JobRepository_Dequeue (\<lambda>_. False) no_fault 200 db p) False demo_worker (\<lambda>_. 200)
       [\<lparr>reg_type = ''settle'', reg_concurrency = 1, reg_busy = 0\<rparr>] demo_jobs = (a, b, c)" by (metis prod_cases3)
  show ?thesis using tick_respects_concurrency [OF inv _ t] t by (simp add: list_all_iff)
qed

end
