(* ===== verification/Outbox.thy ===== *)
theory Outbox
  imports Nester_Prelude Job_Queue
begin

text \<open>
  The transactional outbox: its domain model (\<open>internal/domain/outbox/model.go\<close>), the Postgres
  repository (\<open>internal/repository/postgres/outbox_repository.go\<close>) over the \<open>outbox\<close> table, and
  the retention job. Statements are atomic; rows other sessions have locked are an argument.
\<close>

section \<open>Events\<close>

datatype OutboxStatus = OutboxPending | OutboxDispatching | OutboxDispatched | OutboxDead

definition OutboxDefaultMaxAttempts :: int where "OutboxDefaultMaxAttempts = 5"

record Event =
  ev_ID :: uuid
  ev_AggregateType :: string
  ev_AggregateID :: string
  ev_EventType :: string
  ev_Payload :: string
  ev_DedupeKey :: string
  ev_Status :: OutboxStatus
  ev_Attempts :: int
  ev_MaxAttempts :: int
  ev_NextAttemptAt :: time
  ev_LeasedUntil :: "time option"
  ev_JobID :: "uuid option"
  ev_LastError :: string
  ev_CreatedAt :: time
  ev_UpdatedAt :: time
  ev_DispatchedAt :: "time option"

text \<open>A row of the table is the event itself; a NULL \<open>last_error\<close> scans as the empty string.\<close>

type_synonym OutboxDB = "Event list"

datatype outbox_error =
    OutboxAggregateTypeRequired | OutboxAggregateIDRequired | OutboxEventTypeRequired | OutboxDedupeKeyRequired
  | OutboxPayloadNotJSON | OutboxTxRequired | OutboxFault | OutboxServer pg_error

definition Event_Validate :: "(string \<Rightarrow> string option) \<Rightarrow> Event \<Rightarrow> outbox_error option" where
  "Event_Validate jsonb e =
     (if ev_AggregateType e = [] then Some OutboxAggregateTypeRequired
      else if ev_AggregateID e = [] then Some OutboxAggregateIDRequired
      else if ev_EventType e = [] then Some OutboxEventTypeRequired
      else if ev_DedupeKey e = [] then Some OutboxDedupeKeyRequired
      else if ev_Payload e \<noteq> [] \<and> jsonb (ev_Payload e) = None then Some OutboxPayloadNotJSON
      else None)"

section \<open>Insert\<close>

text \<open>
  \<open>INSERT ... ON CONFLICT (dedupe_key) DO NOTHING\<close> on the caller's handle, \<open>None\<close> for \<open>nil\<close>.
  \<open>created_at\<close> is the transaction's timestamp.
\<close>

definition OutboxRepository_Insert ::
  "(string \<Rightarrow> string option) \<Rightarrow> sql_fault \<Rightarrow> time \<Rightarrow> time \<Rightarrow> OutboxDB option \<Rightarrow> Event \<Rightarrow> outbox_error + OutboxDB" where
  "OutboxRepository_Insert jsonb flt dbnow now tx e =
     (case tx of None \<Rightarrow> Inl OutboxTxRequired | Some db \<Rightarrow>
      (let payload = (if ev_Payload e = [] then ''{}'' else ev_Payload e);
           maxAttempts = (if ev_MaxAttempts e \<le> 0 then OutboxDefaultMaxAttempts else ev_MaxAttempts e);
           nextAttempt = (if time_is_zero (ev_NextAttemptAt e) then now else ev_NextAttemptAt e)
       in if flt 0 then Inl OutboxFault
          else if 100 < length (ev_AggregateType e) \<or> 100 < length (ev_EventType e) then Inl (OutboxServer (PgError ''22001'' []))
          else if \<not> int4 maxAttempts then Inl (OutboxServer (PgError ''22003'' []))
          else (case jsonb payload of
              None \<Rightarrow> Inl (OutboxServer (PgError ''22P02'' []))
            | Some stored \<Rightarrow>
                if ev_DedupeKey e \<in> ev_DedupeKey ` set db then Inr db
                else if ev_ID e \<in> ev_ID ` set db then Inl (OutboxServer (PgError ''23505'' ''outbox_pkey''))
                else Inr (db @ [e\<lparr>ev_Payload := stored, ev_Status := OutboxPending, ev_Attempts := 0,
                       ev_MaxAttempts := maxAttempts, ev_NextAttemptAt := nextAttempt, ev_LeasedUntil := None,
                       ev_JobID := None, ev_LastError := [], ev_CreatedAt := dbnow, ev_UpdatedAt := dbnow,
                       ev_DispatchedAt := None\<rparr>]))))"

text \<open>The producer's facade: validate, fill in the id and the attempt budget, insert.\<close>

definition Writer_Insert ::
  "(string \<Rightarrow> string option) \<Rightarrow> sql_fault \<Rightarrow> uuid \<Rightarrow> time \<Rightarrow> time \<Rightarrow> OutboxDB option \<Rightarrow> Event \<Rightarrow> outbox_error + OutboxDB" where
  "Writer_Insert jsonb flt newID dbnow now tx e =
     (case Event_Validate jsonb e of
        Some err \<Rightarrow> Inl err
      | None \<Rightarrow> OutboxRepository_Insert jsonb flt dbnow now tx
          (e\<lparr>ev_ID := if ev_ID e = uuid_Nil then newID else ev_ID e,
             ev_MaxAttempts := if ev_MaxAttempts e \<le> 0 then OutboxDefaultMaxAttempts else ev_MaxAttempts e\<rparr>))"

text \<open>\<open>NewEvent\<close> and \<open>Publish\<close>; what \<open>json.Marshal\<close> makes of the payload, if anything, is \<open>raw\<close>.\<close>

definition NewEvent ::
  "(string \<Rightarrow> string option) \<Rightarrow> uuid \<Rightarrow> string \<Rightarrow> string \<Rightarrow> string \<Rightarrow> string \<Rightarrow> string option \<Rightarrow> outbox_error + Event" where
  "NewEvent jsonb newID aggregateType aggregateID eventType dedupeKey raw =
     (case raw of None \<Rightarrow> Inl OutboxPayloadNotJSON | Some payload \<Rightarrow>
      (let e = \<lparr>ev_ID = newID, ev_AggregateType = aggregateType, ev_AggregateID = aggregateID, ev_EventType = eventType,
                ev_Payload = payload, ev_DedupeKey = dedupeKey, ev_Status = OutboxPending, ev_Attempts = 0,
                ev_MaxAttempts = OutboxDefaultMaxAttempts, ev_NextAttemptAt = 0, ev_LeasedUntil = None, ev_JobID = None,
                ev_LastError = [], ev_CreatedAt = 0, ev_UpdatedAt = 0, ev_DispatchedAt = None\<rparr>
       in case Event_Validate jsonb e of Some err \<Rightarrow> Inl err | None \<Rightarrow> Inr e))"

definition Writer_Publish ::
  "(string \<Rightarrow> string option) \<Rightarrow> sql_fault \<Rightarrow> uuid \<Rightarrow> time \<Rightarrow> time \<Rightarrow> OutboxDB option \<Rightarrow> string \<Rightarrow> string \<Rightarrow> string \<Rightarrow> string \<Rightarrow> string option
   \<Rightarrow> outbox_error + OutboxDB" where
  "Writer_Publish jsonb flt newID dbnow now tx aggregateType aggregateID eventType dedupeKey raw =
     (case NewEvent jsonb newID aggregateType aggregateID eventType dedupeKey raw of
        Inl err \<Rightarrow> Inl err
      | Inr e \<Rightarrow> Writer_Insert jsonb flt newID dbnow now tx e)"

section \<open>Claiming\<close>

definition undelivered :: "Event \<Rightarrow> bool" where
  "undelivered e \<longleftrightarrow> ev_Status e = OutboxPending \<or> ev_Status e = OutboxDispatching"

definition same_aggregate :: "Event \<Rightarrow> Event \<Rightarrow> bool" where
  "same_aggregate e f \<longleftrightarrow> ev_AggregateType e = ev_AggregateType f \<and> ev_AggregateID e = ev_AggregateID f"

text \<open>The order \<open>created_at, id\<close>; UUIDs compare as unsigned.\<close>

definition earlier :: "Event \<Rightarrow> Event \<Rightarrow> bool" where
  "earlier e f \<longleftrightarrow> ev_CreatedAt e < ev_CreatedAt f \<or> ev_CreatedAt e = ev_CreatedAt f \<and> ev_ID e < ev_ID f"

text \<open>
  \<open>DISTINCT ON (aggregate_type, aggregate_id) ... ORDER BY ..., created_at, id\<close> over the
  undelivered rows keeps a row exactly when no undelivered row of its aggregate is earlier.
\<close>

definition is_head :: "OutboxDB \<Rightarrow> Event \<Rightarrow> bool" where
  "is_head db e \<longleftrightarrow> undelivered e \<and> list_all (\<lambda>f. undelivered f \<and> same_aggregate f e \<longrightarrow> \<not> earlier f e) db"

definition claimable :: "time \<Rightarrow> Event \<Rightarrow> bool" where
  "claimable now e \<longleftrightarrow>
     (ev_Status e = OutboxPending \<and> ev_NextAttemptAt e \<le> now) \<or>
     (ev_Status e = OutboxDispatching \<and> ev_JobID e = None \<and>
       (case ev_LeasedUntil e of None \<Rightarrow> False | Some t \<Rightarrow> t \<le> now))"

record ClaimParams =
  cp_Limit :: int
  cp_Lease :: duration
  cp_Now :: time

definition claim_order :: "Event list \<Rightarrow> Event list" where
  "claim_order es = sort_key ev_CreatedAt (sort_key ev_ID es)"

definition claim_ready :: "(uuid \<Rightarrow> bool) \<Rightarrow> int \<Rightarrow> time \<Rightarrow> OutboxDB \<Rightarrow> Event list" where
  "claim_ready locked limit now db =
     take (nat limit) (filter (\<lambda>e. \<not> locked (ev_ID e))
       (claim_order (filter (\<lambda>e. is_head db e \<and> claimable now e) db)))"

definition claim_row :: "time \<Rightarrow> time \<Rightarrow> Event \<Rightarrow> Event" where
  "claim_row leasedUntil dbnow e =
     e\<lparr>ev_Status := OutboxDispatching, ev_JobID := None, ev_LeasedUntil := Some leasedUntil,
       ev_Attempts := ev_Attempts e + 1, ev_UpdatedAt := dbnow\<rparr>"

text \<open>\<open>wall\<close> is the clock \<open>ClaimDue\<close> falls back to for a zero \<open>Now\<close>.\<close>

definition OutboxRepository_ClaimDue ::
  "(uuid \<Rightarrow> bool) \<Rightarrow> sql_fault \<Rightarrow> time \<Rightarrow> time \<Rightarrow> OutboxDB \<Rightarrow> ClaimParams \<Rightarrow> (outbox_error + Event list) \<times> OutboxDB" where
  "OutboxRepository_ClaimDue locked flt dbnow wall db p =
     (if cp_Limit p \<le> 0 then (Inr [], db)
      else
        (let now = (if time_is_zero (cp_Now p) then wall else cp_Now p);
             ids = map ev_ID (claim_ready locked (cp_Limit p) now db);
             hit = (\<lambda>e. ev_ID e \<in> set ids)
         in if flt 0 then (Inl OutboxFault, db)
            else if list_ex (\<lambda>e. hit e \<and> \<not> int4 (ev_Attempts e + 1)) db then (Inl (OutboxServer (PgError ''22003'' [])), db)
            else
              (let db' = update_where hit (claim_row (now + cp_Lease p) dbnow) db
               in (Inr (filter hit db'), db'))))"

section \<open>Recording an outcome\<close>

definition OutboxRepository_MarkDispatching ::
  "sql_fault \<Rightarrow> time \<Rightarrow> OutboxDB \<Rightarrow> uuid \<Rightarrow> uuid \<Rightarrow> outbox_error option \<times> OutboxDB" where
  "OutboxRepository_MarkDispatching flt dbnow db i jobID =
     (if flt 0 then (Some OutboxFault, db)
      else (None, update_where (\<lambda>e. ev_ID e = i \<and> ev_Status e = OutboxDispatching)
        (\<lambda>e. e\<lparr>ev_JobID := Some jobID, ev_UpdatedAt := dbnow\<rparr>) db))"

definition OutboxRepository_MarkDispatched ::
  "sql_fault \<Rightarrow> time \<Rightarrow> time \<Rightarrow> OutboxDB \<Rightarrow> uuid \<Rightarrow> time \<Rightarrow> outbox_error option \<times> OutboxDB" where
  "OutboxRepository_MarkDispatched flt dbnow wall db i stamp =
     (if flt 0 then (Some OutboxFault, db)
      else (None, update_where (\<lambda>e. ev_ID e = i \<and> ev_Status e \<noteq> OutboxDispatched)
        (\<lambda>e. e\<lparr>ev_Status := OutboxDispatched, ev_DispatchedAt := Some (if time_is_zero stamp then wall else stamp),
                ev_LeasedUntil := None, ev_LastError := [], ev_UpdatedAt := dbnow\<rparr>) db))"

definition OutboxRepository_MarkDead ::
  "sql_fault \<Rightarrow> time \<Rightarrow> OutboxDB \<Rightarrow> uuid \<Rightarrow> string \<Rightarrow> outbox_error option \<times> OutboxDB" where
  "OutboxRepository_MarkDead flt dbnow db i lastErr =
     (if flt 0 then (Some OutboxFault, db)
      else (None, update_where (\<lambda>e. ev_ID e = i \<and> ev_Status e \<noteq> OutboxDead)
        (\<lambda>e. e\<lparr>ev_Status := OutboxDead, ev_LastError := lastErr, ev_LeasedUntil := None, ev_UpdatedAt := dbnow\<rparr>) db))"

definition OutboxRepository_Release ::
  "sql_fault \<Rightarrow> time \<Rightarrow> OutboxDB \<Rightarrow> uuid \<Rightarrow> time \<Rightarrow> string \<Rightarrow> outbox_error option \<times> OutboxDB" where
  "OutboxRepository_Release flt dbnow db i nextAttemptAt lastErr =
     (if flt 0 then (Some OutboxFault, db)
      else (None, update_where (\<lambda>e. ev_ID e = i \<and> ev_Status e = OutboxDispatching)
        (\<lambda>e. e\<lparr>ev_Status := OutboxPending, ev_NextAttemptAt := nextAttemptAt, ev_LastError := lastErr,
                ev_LeasedUntil := None, ev_JobID := None, ev_UpdatedAt := dbnow\<rparr>) db))"

definition OutboxRepository_InFlight :: "sql_fault \<Rightarrow> OutboxDB \<Rightarrow> int \<Rightarrow> outbox_error + Event list" where
  "OutboxRepository_InFlight flt db limit =
     (if limit \<le> 0 then Inr []
      else if flt 0 then Inl OutboxFault
      else Inr (take (nat limit) (claim_order (filter (\<lambda>e. ev_Status e = OutboxDispatching \<and> ev_JobID e \<noteq> None) db))))"

section \<open>Statistics and retention\<close>

record OutboxStats =
  os_Pending :: int
  os_Dispatching :: int
  os_Dead :: int
  os_OldestPendingAge :: duration

definition OutboxRepository_Stats :: "sql_fault \<Rightarrow> time \<Rightarrow> OutboxDB \<Rightarrow> time \<Rightarrow> outbox_error + OutboxStats" where
  "OutboxRepository_Stats flt wall db now =
     (let now = (if time_is_zero now then wall else now);
          open_at = map ev_CreatedAt (filter undelivered db);
          age = (case open_at of [] \<Rightarrow> 0 | t # ts \<Rightarrow> time_sub now (foldl min t ts))
      in if flt 0 then Inl OutboxFault
         else Inr \<lparr>os_Pending = int (rows_affected (\<lambda>e. ev_Status e = OutboxPending \<and> ev_NextAttemptAt e \<le> now) db),
                   os_Dispatching = int (rows_affected (\<lambda>e. ev_Status e = OutboxDispatching) db),
                   os_Dead = int (rows_affected (\<lambda>e. ev_Status e = OutboxDead) db),
                   os_OldestPendingAge = (if 0 < age then age else 0)\<rparr>)"

text \<open>Two DELETE statements, the second not run when the first fails.\<close>

definition OutboxRepository_PruneTerminal ::
  "sql_fault \<Rightarrow> OutboxDB \<Rightarrow> time \<Rightarrow> time \<Rightarrow> (outbox_error option \<times> int \<times> int) \<times> OutboxDB" where
  "OutboxRepository_PruneTerminal flt db dispatchedBefore deadBefore =
     (let P = (\<lambda>e. ev_Status e = OutboxDispatched \<and> ev_UpdatedAt e < dispatchedBefore);
          Q = (\<lambda>e. ev_Status e = OutboxDead \<and> ev_UpdatedAt e < deadBefore);
          db1 = filter (\<lambda>e. \<not> P e) db; n1 = int (rows_affected P db)
      in if flt 0 then ((Some OutboxFault, 0, 0), db)
         else if flt 1 then ((Some OutboxFault, n1, 0), db1)
         else ((None, n1, int (rows_affected Q db1)), filter (\<lambda>e. \<not> Q e) db1))"

definition DefaultDispatchedRetention :: duration where "DefaultDispatchedRetention = 7 * 24 * hour"
definition DefaultDeadRetention :: duration where "DefaultDeadRetention = 30 * 24 * hour"

record RetentionConfig =
  rc_DispatchedRetention :: duration
  rc_DeadRetention :: duration

definition RetentionConfig_withDefaults :: "RetentionConfig \<Rightarrow> RetentionConfig" where
  "RetentionConfig_withDefaults c =
     \<lparr>rc_DispatchedRetention = (if rc_DispatchedRetention c \<le> 0 then DefaultDispatchedRetention else rc_DispatchedRetention c),
      rc_DeadRetention = (if rc_DeadRetention c \<le> 0 then DefaultDeadRetention else rc_DeadRetention c)\<rparr>"

text \<open>One sweep; \<open>leader\<close> is \<open>None\<close> when no checker is wired.\<close>

definition RetentionJob_Tick :: "bool option \<Rightarrow> sql_fault \<Rightarrow> RetentionConfig \<Rightarrow> time \<Rightarrow> OutboxDB \<Rightarrow> int \<times> OutboxDB" where
  "RetentionJob_Tick leader flt cfg now db =
     (if leader = Some False then (0, db)
      else (case OutboxRepository_PruneTerminal flt db (now - rc_DispatchedRetention cfg) (now - rc_DeadRetention cfg) of
          ((Some err, _, _), db') \<Rightarrow> (0, db')
        | ((None, dispatched, dead), db') \<Rightarrow> (dispatched + dead, db')))"

end
