(* ===== verification/Outbox_Relay.thy ===== *)
theory Outbox_Relay
  imports Outbox
begin

text \<open>
  The outbox relay (\<open>internal/domain/outbox/relay.go\<close>): one tick reconciles the events in
  flight against the jobs that carry them, then claims the aggregate heads that are due and
  hands each to the job queue. The queue is behind two narrow interfaces, \<open>Enqueuer\<close> and
  \<open>JobStatusReader\<close>, which are arguments here. Calls on the metrics collector are kept, in
  order; log lines are not.
\<close>

section \<open>Configuration\<close>

record RelayConfig =
  rl_Enabled :: bool
  rl_PollInterval :: duration
  rl_BatchSize :: int
  rl_Lease :: duration
  rl_Backoff :: duration
  rl_StatsInterval :: duration

definition RelayConfig_withDefaults :: "RelayConfig \<Rightarrow> RelayConfig" where
  "RelayConfig_withDefaults c =
     c\<lparr>rl_PollInterval := if rl_PollInterval c \<le> 0 then second else rl_PollInterval c,
       rl_BatchSize := if rl_BatchSize c \<le> 0 then 100 else rl_BatchSize c,
       rl_Lease := if rl_Lease c \<le> 0 then 30 * second else rl_Lease c,
       rl_Backoff := if rl_Backoff c \<le> 0 then 5 * second else rl_Backoff c\<rparr>"

section \<open>The relay's world\<close>

datatype relay_metric =
    IncRelayed string
  | ObserveTimeToFirstAttempt string duration
  | IncDispatched string
  | ObserveTimeToDelivery string duration
  | IncDeadLettered string

text \<open>Why an event is dead-lettered or released; how the reason is spelt is an argument.\<close>

datatype relay_reason =
    JobGone "uuid option" | JobDead "uuid option" | ExhaustedHandOffs int | NoRoute string
  | EnqueueExhausted int job_error | EnqueueError job_error

record 'j relay_state =
  rs_outbox :: OutboxDB
  rs_jobs :: 'j
  rs_metrics :: "relay_metric list"

text \<open>
  What a tick meets: the outcome of the two listing statements, and per event the outcome of
  the statement that records its fate, the relay's clock and the database's.
\<close>

record relay_env =
  re_inflight_fault :: bool
  re_claim_fault :: bool
  re_fault :: "uuid \<Rightarrow> bool"
  re_now :: time
  re_clock :: "uuid \<Rightarrow> time"
  re_dbnow :: time
  re_locked :: "uuid \<Rightarrow> bool"
  re_msg :: "relay_reason \<Rightarrow> string"

definition emit :: "relay_metric list \<Rightarrow> 'j relay_state \<Rightarrow> 'j relay_state" where
  "emit ms s = s\<lparr>rs_metrics := rs_metrics s @ ms\<rparr>"

section \<open>Dead letters and releases\<close>

definition Relay_deadLetter :: "relay_env \<Rightarrow> Event \<Rightarrow> relay_reason \<Rightarrow> 'j relay_state \<Rightarrow> 'j relay_state" where
  "Relay_deadLetter env e why s =
     (case OutboxRepository_MarkDead (\<lambda>_. re_fault env (ev_ID e)) (re_dbnow env) (rs_outbox s) (ev_ID e) (re_msg env why) of
        (Some err, ob) \<Rightarrow> s\<lparr>rs_outbox := ob\<rparr>
      | (None, ob) \<Rightarrow> emit [IncDeadLettered (ev_EventType e)] (s\<lparr>rs_outbox := ob\<rparr>))"

definition Relay_release :: "RelayConfig \<Rightarrow> relay_env \<Rightarrow> Event \<Rightarrow> relay_reason \<Rightarrow> 'j relay_state \<Rightarrow> 'j relay_state" where
  "Relay_release cfg env e why s =
     (let nxt = re_clock env (ev_ID e) + rl_Backoff cfg
      in s\<lparr>rs_outbox := snd (OutboxRepository_Release (\<lambda>_. re_fault env (ev_ID e)) (re_dbnow env) (rs_outbox s)
             (ev_ID e) nxt (re_msg env why))\<rparr>)"

section \<open>Reconcile\<close>

text \<open>One event of the in-flight list; the number is 1 when the event was resolved.\<close>

definition reconcile_event ::
  "('j \<Rightarrow> uuid \<Rightarrow> job_error + Status) \<Rightarrow> RelayConfig \<Rightarrow> relay_env \<Rightarrow> Event \<Rightarrow> 'j relay_state \<Rightarrow> int \<times> 'j relay_state" where
  "reconcile_event status cfg env e s =
     (case ev_JobID e of None \<Rightarrow> (0, s) | Some jobID \<Rightarrow>
      (case status (rs_jobs s) jobID of
         Inl JobNotFound \<Rightarrow> (1, Relay_release cfg env e (JobGone (ev_JobID e)) s)
       | Inl err \<Rightarrow> (0, s)
       | Inr StatusSucceeded \<Rightarrow>
           (let now = re_clock env (ev_ID e) in
            case OutboxRepository_MarkDispatched (\<lambda>_. re_fault env (ev_ID e)) (re_dbnow env) now (rs_outbox s) (ev_ID e) now of
              (Some err, ob) \<Rightarrow> (0, s\<lparr>rs_outbox := ob\<rparr>)
            | (None, ob) \<Rightarrow> (1, emit [IncDispatched (ev_EventType e),
                 ObserveTimeToDelivery (ev_EventType e) (time_sub now (ev_CreatedAt e))] (s\<lparr>rs_outbox := ob\<rparr>)))
       | Inr StatusDead \<Rightarrow> (1, Relay_deadLetter env e (JobDead (ev_JobID e)) s)
       | Inr _ \<Rightarrow> (0, s)))"

fun reconcile_events ::
  "('j \<Rightarrow> uuid \<Rightarrow> job_error + Status) \<Rightarrow> RelayConfig \<Rightarrow> relay_env \<Rightarrow> Event list \<Rightarrow> 'j relay_state \<Rightarrow> int \<times> 'j relay_state" where
  "reconcile_events status cfg env [] s = (0, s)"
| "reconcile_events status cfg env (e # es) s =
     (case reconcile_event status cfg env e s of (n, s1) \<Rightarrow>
      (case reconcile_events status cfg env es s1 of (m, s2) \<Rightarrow> (n + m, s2)))"

text \<open>\<open>r.jobs\<close> may be nil: then nothing is reconciled.\<close>

definition Relay_reconcile ::
  "('j \<Rightarrow> uuid \<Rightarrow> job_error + Status) option \<Rightarrow> RelayConfig \<Rightarrow> relay_env \<Rightarrow> 'j relay_state \<Rightarrow> int \<times> 'j relay_state" where
  "Relay_reconcile jobs cfg env s =
     (case jobs of None \<Rightarrow> (0, s) | Some status \<Rightarrow>
      (case OutboxRepository_InFlight (\<lambda>_. re_inflight_fault env) (rs_outbox s) (rl_BatchSize cfg) of
         Inl err \<Rightarrow> (0, s)
       | Inr inFlight \<Rightarrow> reconcile_events status cfg env inFlight s))"

section \<open>Dispatch\<close>

definition handoff_input :: "string \<Rightarrow> Event \<Rightarrow> EnqueueInput" where
  "handoff_input jobType e =
     \<lparr>in_Type = jobType, in_Payload = ev_Payload e, in_Priority = 0, in_MaxAttempts = 0,
      in_IdempotencyKey = ev_DedupeKey e, in_CorrelationID = ev_DedupeKey e, in_RunAt = 0\<rparr>"

text \<open>One claimed event; the number is 1 when it was handed to the queue and that was recorded.\<close>

definition dispatch_event ::
  "(EnqueueInput \<Rightarrow> 'j \<Rightarrow> (job_error + Job) \<times> 'j) \<Rightarrow> (string \<rightharpoonup> string) \<Rightarrow> RelayConfig \<Rightarrow> relay_env \<Rightarrow> Event \<Rightarrow> 'j relay_state
   \<Rightarrow> int \<times> 'j relay_state" where
  "dispatch_event enq routes cfg env e s =
     (if ev_MaxAttempts e < ev_Attempts e then (0, Relay_deadLetter env e (ExhaustedHandOffs (ev_MaxAttempts e)) s)
      else (case routes (ev_EventType e) of
          None \<Rightarrow> (0, Relay_deadLetter env e (NoRoute (ev_EventType e)) s)
        | Some jobType \<Rightarrow>
            (case enq (handoff_input jobType e) (rs_jobs s) of
               (Inl err, js) \<Rightarrow>
                 (0, if ev_MaxAttempts e \<le> ev_Attempts e
                     then Relay_deadLetter env e (EnqueueExhausted (ev_Attempts e) err) (s\<lparr>rs_jobs := js\<rparr>)
                     else Relay_release cfg env e (EnqueueError err) (s\<lparr>rs_jobs := js\<rparr>))
             | (Inr job, js) \<Rightarrow>
                 (case OutboxRepository_MarkDispatching (\<lambda>_. re_fault env (ev_ID e)) (re_dbnow env) (rs_outbox s) (ev_ID e) (j_ID job) of
                    (Some err, ob) \<Rightarrow> (0, s\<lparr>rs_jobs := js, rs_outbox := ob\<rparr>)
                  | (None, ob) \<Rightarrow>
                      (1, emit (IncRelayed (ev_EventType e) #
                            (if ev_Attempts e = 0
                             then [ObserveTimeToFirstAttempt (ev_EventType e) (time_sub (re_clock env (ev_ID e)) (ev_CreatedAt e))]
                             else [])) (s\<lparr>rs_jobs := js, rs_outbox := ob\<rparr>))))))"

fun dispatch_events ::
  "(EnqueueInput \<Rightarrow> 'j \<Rightarrow> (job_error + Job) \<times> 'j) \<Rightarrow> (string \<rightharpoonup> string) \<Rightarrow> RelayConfig \<Rightarrow> relay_env \<Rightarrow> Event list \<Rightarrow> 'j relay_state
   \<Rightarrow> int \<times> 'j relay_state" where
  "dispatch_events enq routes cfg env [] s = (0, s)"
| "dispatch_events enq routes cfg env (e # es) s =
     (case dispatch_event enq routes cfg env e s of (n, s1) \<Rightarrow>
      (case dispatch_events enq routes cfg env es s1 of (m, s2) \<Rightarrow> (n + m, s2)))"

definition Relay_dispatch ::
  "(EnqueueInput \<Rightarrow> 'j \<Rightarrow> (job_error + Job) \<times> 'j) \<Rightarrow> (string \<rightharpoonup> string) \<Rightarrow> RelayConfig \<Rightarrow> relay_env \<Rightarrow> 'j relay_state
   \<Rightarrow> int \<times> 'j relay_state" where
  "Relay_dispatch enq routes cfg env s =
     (case OutboxRepository_ClaimDue (re_locked env) (\<lambda>_. re_claim_fault env) (re_dbnow env) (re_now env) (rs_outbox s)
             \<lparr>cp_Limit = rl_BatchSize cfg, cp_Lease = rl_Lease cfg, cp_Now = re_now env\<rparr> of
        (Inl err, ob) \<Rightarrow> (0, s\<lparr>rs_outbox := ob\<rparr>)
      | (Inr claimed, ob) \<Rightarrow> dispatch_events enq routes cfg env claimed (s\<lparr>rs_outbox := ob\<rparr>))"

text \<open>\<open>Tick\<close>: the two phases may meet different faults and clocks.\<close>

definition Relay_Tick ::
  "('j \<Rightarrow> uuid \<Rightarrow> job_error + Status) option \<Rightarrow> (EnqueueInput \<Rightarrow> 'j \<Rightarrow> (job_error + Job) \<times> 'j) \<Rightarrow> (string \<rightharpoonup> string) \<Rightarrow> RelayConfig
   \<Rightarrow> relay_env \<Rightarrow> relay_env \<Rightarrow> 'j relay_state \<Rightarrow> int \<times> 'j relay_state" where
  "Relay_Tick jobs enq routes cfg env1 env2 s =
     (case Relay_reconcile jobs cfg env1 s of (n, s1) \<Rightarrow>
      (case Relay_dispatch enq routes cfg env2 s1 of (m, s2) \<Rightarrow> (n + m, s2)))"

text \<open>How long \<open>Run\<close> waits before the next tick.\<close>

definition Relay_next_poll :: "RelayConfig \<Rightarrow> int \<Rightarrow> duration" where
  "Relay_next_poll cfg worked = (if 0 < worked then 0 else rl_PollInterval cfg)"

end
