(* ===== verification/Outbox_Order.thy ===== *)
theory Outbox_Order
  imports Outbox_Relay
begin

text \<open>
  The outbox table under any interleaving of its statements: an event of an aggregate is
  attempted only when every earlier one that was there before it is terminal.
\<close>

section \<open>Statements as steps\<close>

datatype outbox_op =
    DoInsert uuid time time Event
  | DoClaim "uuid \<Rightarrow> bool" time time ClaimParams
  | DoMarkDispatching time uuid uuid
  | DoMarkDispatched time time uuid time
  | DoMarkDead time uuid string
  | DoRelease time uuid time string
  | DoPrune time time

fun outbox_exec :: "(string \<Rightarrow> string option) \<Rightarrow> sql_fault \<Rightarrow> outbox_op \<Rightarrow> OutboxDB \<Rightarrow> OutboxDB" where
  "outbox_exec jsonb flt (DoInsert newID dbnow now e) db =
     (case Writer_Insert jsonb flt newID dbnow now (Some db) e of Inl _ \<Rightarrow> db | Inr db' \<Rightarrow> db')"
| "outbox_exec jsonb flt (DoClaim locked dbnow wall p) db = snd (OutboxRepository_ClaimDue locked flt dbnow wall db p)"
| "outbox_exec jsonb flt (DoMarkDispatching dbnow i j) db = snd (OutboxRepository_MarkDispatching flt dbnow db i j)"
| "outbox_exec jsonb flt (DoMarkDispatched dbnow wall i t) db = snd (OutboxRepository_MarkDispatched flt dbnow wall db i t)"
| "outbox_exec jsonb flt (DoMarkDead dbnow i err) db = snd (OutboxRepository_MarkDead flt dbnow db i err)"
| "outbox_exec jsonb flt (DoRelease dbnow i t err) db = snd (OutboxRepository_Release flt dbnow db i t err)"
| "outbox_exec jsonb flt (DoPrune t u) db = snd (OutboxRepository_PruneTerminal flt db t u)"

inductive outbox_step :: "OutboxDB \<Rightarrow> OutboxDB \<Rightarrow> bool" where
  outbox_stepI: "outbox_step db (outbox_exec jsonb flt op db)"

inductive_cases outbox_stepE: "outbox_step db db'"

section \<open>The invariant\<close>

text \<open>
  Rows are in the order in which their inserts took effect, which need not be that of
  \<open>created_at, id\<close>: \<open>created_at\<close> is the start of the producer's transaction.
\<close>

definition waits_for :: "Event \<Rightarrow> Event \<Rightarrow> bool" where
  "waits_for e f \<longleftrightarrow> (same_aggregate e f \<and> earlier e f \<and> 0 < ev_Attempts f \<longrightarrow> \<not> undelivered e)"

definition in_order :: "OutboxDB \<Rightarrow> bool" where
  "in_order db \<longleftrightarrow> sorted_wrt waits_for db"

definition event_ok :: "Event \<Rightarrow> bool" where
  "event_ok e \<longleftrightarrow> 0 \<le> ev_Attempts e \<and> 1 \<le> ev_MaxAttempts e \<and> (ev_Status e = OutboxDispatching \<longrightarrow> 0 < ev_Attempts e)"

definition outbox_inv :: "OutboxDB \<Rightarrow> bool" where
  "outbox_inv db \<longleftrightarrow> distinct (map ev_ID db) \<and> distinct (map ev_DedupeKey db) \<and> (\<forall>e \<in> set db. event_ok e) \<and> in_order db"

lemma earlier_irrefl: "\<not> earlier e e"
  by (simp add: earlier_def)

lemma earlier_total: "ev_ID e \<noteq> ev_ID f \<Longrightarrow> earlier e f \<or> earlier f e"
  by (auto simp: earlier_def)

text \<open>An update that keeps what identifies and orders an event, revives no terminal row, and attempts only heads.\<close>

definition same_event :: "Event \<Rightarrow> Event \<Rightarrow> bool" where
  "same_event e f \<longleftrightarrow> ev_ID e = ev_ID f \<and> ev_AggregateType e = ev_AggregateType f \<and> ev_AggregateID e = ev_AggregateID f
     \<and> ev_EventType e = ev_EventType f \<and> ev_Payload e = ev_Payload f \<and> ev_DedupeKey e = ev_DedupeKey f
     \<and> ev_MaxAttempts e = ev_MaxAttempts f \<and> ev_CreatedAt e = ev_CreatedAt f"

lemma same_event_order:
  "same_event e e' \<Longrightarrow> same_event f f' \<Longrightarrow> same_aggregate e' f' = same_aggregate e f \<and> earlier e' f' = earlier e f"
  by (simp add: same_event_def same_aggregate_def earlier_def)

lemma outbox_inv_update:
  assumes inv: "outbox_inv db"
    and keeps: "\<And>e. e \<in> set db \<Longrightarrow> P e \<Longrightarrow> same_event e (g e)"
    and live: "\<And>e. e \<in> set db \<Longrightarrow> P e \<Longrightarrow> undelivered (g e) \<Longrightarrow> undelivered e"
    and ok: "\<And>e. e \<in> set db \<Longrightarrow> P e \<Longrightarrow> event_ok e \<Longrightarrow> event_ok (g e)"
    and att: "\<And>e. e \<in> set db \<Longrightarrow> P e \<Longrightarrow> ev_Attempts (g e) = ev_Attempts e \<or> is_head db e"
  shows "outbox_inv (update_where P g db)"
proof -
  let ?h = "\<lambda>e. if P e then g e else e"
  have same: "same_event e (?h e)" if "e \<in> set db" for e using keeps that by (simp add: same_event_def)
  have ids: "map ev_ID (update_where P g db) = map ev_ID db" "map ev_DedupeKey (update_where P g db) = map ev_DedupeKey db"
    using same unfolding update_where_def by (auto simp: same_event_def)
  have "\<forall>e \<in> set (update_where P g db). event_ok e"
    using inv ok by (simp add: ball_update_where outbox_inv_def)
  moreover have "in_order (update_where P g db)"
  proof -
    have "waits_for (?h e) (?h f)" if "e \<in> set db" "f \<in> set db" "waits_for e f" for e f
    proof (rule ccontr)
      assume "\<not> waits_for (?h e) (?h f)"
      then have 1: "same_aggregate e f" "earlier e f" "0 < ev_Attempts (?h f)" "undelivered (?h e)"
        using same_event_order [OF same [OF that(1)] same [OF that(2)]] unfolding waits_for_def by blast+
      have und: "undelivered e" using 1(4) live [OF that(1)] by (auto split: if_splits)
      then have "\<not> is_head db f" using 1(1,2) that(1) by (auto simp: is_head_def list_all_iff)
      then have "0 < ev_Attempts f" using 1(3) att [OF that(2)] by (auto split: if_splits)
      then show False using that(3) und 1(1,2) by (simp add: waits_for_def)
    qed
    then have "sorted_wrt (\<lambda>e f. waits_for (?h e) (?h f)) db"
      using inv unfolding in_order_def outbox_inv_def by (blast intro: sorted_wrt_mono_rel)
    then show ?thesis unfolding in_order_def update_where_def sorted_wrt_map .
  qed
  ultimately show ?thesis using inv ids by (simp add: outbox_inv_def)
qed

lemma outbox_inv_filter: "outbox_inv db \<Longrightarrow> outbox_inv (filter P db)"
  by (auto simp: outbox_inv_def in_order_def distinct_map inj_on_def sorted_wrt_filter)

lemma outbox_inv_insert:
  assumes inv: "outbox_inv db" and ins: "Writer_Insert jsonb flt newID dbnow now (Some db) e = Inr db'"
  shows "outbox_inv db'"
proof -
  have "db' = db \<or> (\<exists>x. db' = db @ [x] \<and> ev_ID x \<notin> ev_ID ` set db \<and> ev_DedupeKey x \<notin> ev_DedupeKey ` set db \<and> event_ok x \<and> ev_Attempts x = 0)"
    using ins by (auto simp: Writer_Insert_def OutboxRepository_Insert_def Let_def OutboxDefaultMaxAttempts_def event_ok_def
        split: option.splits if_splits)
  then show ?thesis using inv by (auto simp: outbox_inv_def in_order_def sorted_wrt_append waits_for_def)
qed

lemma in_claim_ready:
  "e \<in> set (claim_ready locked n now db) \<Longrightarrow> e \<in> set db \<and> is_head db e \<and> claimable now e \<and> \<not> locked (ev_ID e)"
  by (auto simp: claim_ready_def claim_order_def dest!: in_set_takeD)

lemma hit_claim_ready:
  "distinct (map ev_ID db) \<Longrightarrow> e \<in> set db \<Longrightarrow> ev_ID e \<in> set (map ev_ID (claim_ready locked n now db)) \<Longrightarrow>
   e \<in> set (claim_ready locked n now db)"
  using in_claim_ready distinct_map_unique by (metis (no_types, lifting) imageE list.set_map)

lemma claim_row_simps [simp]:
  "same_event e (claim_row t n e)" "ev_ID (claim_row t n e) = ev_ID e" "ev_Status (claim_row t n e) = OutboxDispatching"
  "ev_Attempts (claim_row t n e) = ev_Attempts e + 1" "undelivered (claim_row t n e)" "ev_JobID (claim_row t n e) = None"
  "ev_LeasedUntil (claim_row t n e) = Some t"
  by (simp_all add: claim_row_def undelivered_def same_event_def)

lemma outbox_inv_claim:
  assumes inv: "outbox_inv db"
  shows "outbox_inv (snd (OutboxRepository_ClaimDue locked flt dbnow wall db p))"
proof -
  have "outbox_inv (update_where (\<lambda>e. ev_ID e \<in> set (map ev_ID (claim_ready locked n now db))) (claim_row t dbnow) db)" for n now t
    using inv
  proof (rule outbox_inv_update, goal_cases)
    case (1 e) show ?case by simp
  next
    case (2 e)
    then show ?case using in_claim_ready hit_claim_ready inv unfolding is_head_def outbox_inv_def by blast
  next
    case (3 e) then show ?case by (simp add: event_ok_def claim_row_def)
  next
    case (4 e)
    then show ?case using in_claim_ready hit_claim_ready inv unfolding outbox_inv_def by blast
  qed
  then show ?thesis using inv by (simp add: OutboxRepository_ClaimDue_def Let_def del: set_map)
qed

lemma outbox_inv_mark:
  assumes "outbox_inv db" and "\<And>e. Q e \<Longrightarrow> same_event e (g e) \<and> ev_Attempts (g e) = ev_Attempts e
    \<and> (undelivered (g e) \<longrightarrow> undelivered e) \<and> (event_ok e \<longrightarrow> event_ok (g e))"
  shows "outbox_inv (update_where Q g db)"
  using assms by (intro outbox_inv_update) blast+

lemma outbox_exec_inv: "outbox_inv db \<Longrightarrow> outbox_inv (outbox_exec jsonb flt op db)"
proof (cases op)
  case (DoInsert newID dbnow now e)
  assume "outbox_inv db"
  then show ?thesis using outbox_inv_insert [of db jsonb flt newID dbnow now e] by (auto simp: DoInsert split: sum.splits)
next
  case (DoClaim locked dbnow wall p)
  assume "outbox_inv db"
  then show ?thesis by (simp add: DoClaim outbox_inv_claim)
qed (auto simp: OutboxRepository_MarkDispatching_def OutboxRepository_MarkDispatched_def OutboxRepository_MarkDead_def
    OutboxRepository_Release_def OutboxRepository_PruneTerminal_def Let_def same_event_def undelivered_def event_ok_def
    simp del: filter_filter intro!: outbox_inv_mark outbox_inv_filter)

interpretation outbox_table: invariant_system "\<lambda>db. db = []" outbox_step outbox_inv
proof unfold_locales
  fix db :: OutboxDB
  assume "db = []"
  then show "outbox_inv db" by (simp add: outbox_inv_def in_order_def)
next
  fix db db' assume "outbox_inv db" "outbox_step db db'"
  then show "outbox_inv db'" by (auto elim!: outbox_stepE intro: outbox_exec_inv)
qed

end
