(* ===== verification/Outbox_Properties.thy ===== *)
theory Outbox_Properties
  imports Outbox_Order Job_Properties
begin

text \<open>
  What the outbox guarantees: per-aggregate order, what a claim takes, that an event counts as
  delivered only once the job carrying it succeeded, and that handing an event over again
  joins the live job instead of starting a second one.
\<close>

section \<open>What a claim returns\<close>

lemma ClaimDue_result:
  assumes "OutboxRepository_ClaimDue locked flt dbnow wall db p = (Inr es, db')" and "outbox_inv db"
  defines "now \<equiv> if time_is_zero (cp_Now p) then wall else cp_Now p"
  defines "S \<equiv> if cp_Limit p \<le> 0 then [] else claim_ready locked (cp_Limit p) now db"
  shows "set es = claim_row (now + cp_Lease p) dbnow ` set S"
    and "db' = update_where (\<lambda>e. e \<in> set S) (claim_row (now + cp_Lease p) dbnow) db"
    and "length es = length S"
proof -
  let ?c = "claim_row (now + cp_Lease p) dbnow"
  let ?hit = "\<lambda>e. ev_ID e \<in> set (map ev_ID S)"
  have hit: "?hit e \<longleftrightarrow> e \<in> set S" if "e \<in> set db" for e
    using that assms(2) hit_claim_ready [of db e locked "cp_Limit p" now] by (auto simp: S_def outbox_inv_def split: if_splits)
  have sub: "set S \<subseteq> set db" using in_claim_ready [of _ locked "cp_Limit p" now db] by (auto simp: S_def)
  have dist: "distinct S" "distinct db" "inj_on ev_ID (set db)"
    using assms(2) distinct_map
    by (auto simp: S_def claim_ready_def claim_order_def outbox_inv_def distinct_map distinct_sort intro!: distinct_take)
  have es: "es = filter ?hit (update_where ?hit ?c db)" and db': "db' = update_where ?hit ?c db"
    using assms(1) by (auto simp: OutboxRepository_ClaimDue_def Let_def S_def now_def update_where_none split: if_splits)
  show "db' = update_where (\<lambda>e. e \<in> set S) ?c db"
    unfolding db' update_where_def using hit by (intro map_cong) auto
  have "filter ?hit (update_where ?hit ?c db) = map ?c (filter ?hit db)"
    unfolding update_where_def by (induction db) auto
  also have "filter ?hit db = filter (\<lambda>e. e \<in> set S) db" using hit by (intro filter_cong) auto
  finally have es': "es = map ?c (filter (\<lambda>e. e \<in> set S) db)" using es by simp
  then show "set es = ?c ` set S" using sub by auto
  have "set (filter (\<lambda>e. e \<in> set S) db) = set S" using sub by auto
  then show "length es = length S" using es' dist by (metis distinct_card distinct_filter length_map)
qed

lemma claimed_is_head:
  assumes "OutboxRepository_ClaimDue locked flt dbnow wall db p = (Inr es, db')" and "outbox_inv db" and "f \<in> set es"
  obtains g where "g \<in> set db" "is_head db g" "same_event g f"
  using ClaimDue_result(1) [OF assms(1,2)] assms(3) in_claim_ready [of _ locked "cp_Limit p" _ db] by (fastforce split: if_splits)

section \<open>Order\<close>

text \<open>
  C12: in every state the outbox table reaches, whatever statements of whatever producers and
  relays interleave and fail, an event that has been attempted finds every event of its
  aggregate that is earlier in \<open>created_at, id\<close> and was inserted before it dispatched or dead,
  and a claim returns only events for which this holds of every earlier event in the table,
  whenever inserted. An earlier event that commits late, after a later one has been attempted,
  is the one case that is out of order (\<open>late_commit_is_attempted_late\<close>). Ids and dedupe keys
  are unique.
\<close>

theorem aggregate_attempted_in_order:
  assumes "reach (\<lambda>db. db = []) outbox_step db"
  shows "(\<forall>i j. i < j \<and> j < length db \<and> same_aggregate (db ! i) (db ! j) \<and> earlier (db ! i) (db ! j) \<and> 0 < ev_Attempts (db ! j)
      \<longrightarrow> ev_Status (db ! i) = OutboxDispatched \<or> ev_Status (db ! i) = OutboxDead)
    \<and> (\<forall>locked flt dbnow wall p es db' e f. OutboxRepository_ClaimDue locked flt dbnow wall db p = (Inr es, db')
        \<and> f \<in> set es \<and> e \<in> set db \<and> same_aggregate e f \<and> earlier e f \<longrightarrow> ev_Status e = OutboxDispatched \<or> ev_Status e = OutboxDead)
    \<and> distinct (map ev_ID db) \<and> distinct (map ev_DedupeKey db)"
proof -
  have inv: "outbox_inv db" using outbox_table.reachable_inv [OF assms] .
  have terminal: "ev_Status e = OutboxDispatched \<or> ev_Status e = OutboxDead" if "\<not> undelivered e" for e
    using that by (cases "ev_Status e") (auto simp: undelivered_def)
  have ord: "\<not> undelivered (db ! i)" if "i < j" "j < length db" "same_aggregate (db ! i) (db ! j)" "earlier (db ! i) (db ! j)" "0 < ev_Attempts (db ! j)" for i j
    using inv that sorted_wrt_nth_less [of waits_for db i j] by (simp add: outbox_inv_def in_order_def waits_for_def)
  have heads: "\<not> undelivered e"
    if "OutboxRepository_ClaimDue locked flt dbnow wall db p = (Inr es, db')" "f \<in> set es" "e \<in> set db" "same_aggregate e f" "earlier e f"
    for locked flt dbnow wall p es db' e f
  proof -
    note claim = that(1) inv that(2)
    obtain g where g: "is_head db g" "same_event g f" by (rule claimed_is_head [OF claim])
    have "same_event e e" by (simp add: same_event_def)
    from same_event_order [OF this g(2)] have "same_aggregate e g" "earlier e g" using that(4,5) by simp_all
    then show ?thesis using g(1) that(3) by (auto simp: is_head_def list_all_iff)
  qed
  show ?thesis
  proof (intro conjI allI impI, goal_cases)
    case (1 i j)
    then show ?case by (intro terminal ord [of i j]) simp_all
  next
    case (2 locked flt dbnow wall p es db' e f)
    then show ?case by (elim conjE) (rule terminal [OF heads])
  qed (use inv in \<open>simp_all add: outbox_inv_def\<close>)
qed

definition demo_event :: "uuid \<Rightarrow> string \<Rightarrow> Event" where
  "demo_event i key =
     \<lparr>ev_ID = i, ev_AggregateType = ''vault'', ev_AggregateID = ''v1'', ev_EventType = ''created'', ev_Payload = [],
      ev_DedupeKey = key, ev_Status = OutboxPending, ev_Attempts = 0, ev_MaxAttempts = 3, ev_NextAttemptAt = 0,
      ev_LeasedUntil = None, ev_JobID = None, ev_LastError = [], ev_CreatedAt = 0, ev_UpdatedAt = 0, ev_DispatchedAt = None\<rparr>"

definition demo_claim :: "time \<Rightarrow> ClaimParams" where
  "demo_claim now = \<lparr>cp_Limit = 10, cp_Lease = 30, cp_Now = now\<rparr>"

definition demo_outbox2 :: OutboxDB where
  "demo_outbox2 = outbox_exec demo_json no_fault (DoInsert 8 101 101 (demo_event 8 ''b''))
     (outbox_exec demo_json no_fault (DoInsert 7 100 100 (demo_event 7 ''a'')) [])"

definition demo_outbox :: OutboxDB where
  "demo_outbox = outbox_exec demo_json no_fault (DoClaim (\<lambda>_. False) 110 110 (demo_claim 110)) demo_outbox2"

definition demo_claimed :: Event where
  "demo_claimed = (demo_event 7 ''a'')\<lparr>ev_Payload := ''{}'', ev_Status := OutboxDispatching, ev_Attempts := 1, ev_NextAttemptAt := 100,
     ev_LeasedUntil := Some 140, ev_CreatedAt := 100, ev_UpdatedAt := 110\<rparr>"

definition demo_waiting :: Event where
  "demo_waiting = (demo_event 8 ''b'')\<lparr>ev_Payload := ''{}'', ev_NextAttemptAt := 101, ev_CreatedAt := 101, ev_UpdatedAt := 101\<rparr>"

lemma demo_outbox_rows: "demo_outbox = [demo_claimed, demo_waiting]"
  by code_simp

lemma outbox_reach_exec:
  "reach (\<lambda>db. db = []) outbox_step db \<Longrightarrow> reach (\<lambda>db. db = []) outbox_step (outbox_exec jsonb flt op db)"
  by (rule reach_step, assumption, rule outbox_stepI)

lemma demo_outbox2_reach: "reach (\<lambda>db. db = []) outbox_step demo_outbox2"
  unfolding demo_outbox2_def by (intro outbox_reach_exec reach_init refl)

lemma demo_outbox_reach: "reach (\<lambda>db. db = []) outbox_step demo_outbox"
  unfolding demo_outbox_def by (rule outbox_reach_exec [OF demo_outbox2_reach])

theorem aggregate_attempted_in_order_witness:
  "earlier demo_claimed demo_waiting \<and> ev_Attempts demo_waiting \<le> 0 \<and> distinct (map ev_ID demo_outbox)"
proof -
  have "same_aggregate demo_claimed demo_waiting" "earlier demo_claimed demo_waiting" "ev_Status demo_claimed = OutboxDispatching"
    by (simp_all add: same_aggregate_def earlier_def demo_claimed_def demo_waiting_def demo_event_def)
  moreover have "distinct (map ev_ID demo_outbox)" using aggregate_attempted_in_order [OF demo_outbox_reach] by blast
  ultimately show ?thesis
    using aggregate_attempted_in_order [OF demo_outbox_reach, THEN conjunct1, rule_format, of 0 1]
    by (cases "0 < ev_Attempts demo_waiting") (auto simp: demo_outbox_rows)
qed

text \<open>
  Two producers of one aggregate overlap: the one that started later commits first and its
  event is handed over; the event of the other, which is earlier, comes after it.
\<close>

definition late_outbox :: OutboxDB where
  "late_outbox = outbox_exec demo_json no_fault (DoInsert 7 100 100 (demo_event 7 ''a''))
     (outbox_exec demo_json no_fault (DoClaim (\<lambda>_. False) 110 110 (demo_claim 110))
       (outbox_exec demo_json no_fault (DoInsert 8 101 101 (demo_event 8 ''b'')) []))"

theorem late_commit_is_attempted_late:
  "map (\<lambda>e. (ev_ID e, ev_CreatedAt e, ev_Attempts e, ev_Status e)) late_outbox = [(8, 101, 1, OutboxDispatching), (7, 100, 0, OutboxPending)]
   \<and> earlier (late_outbox ! 1) (late_outbox ! 0) \<and> same_aggregate (late_outbox ! 1) (late_outbox ! 0)"
  by code_simp

section \<open>Claims\<close>

text \<open>
  A claim takes at most \<open>Limit\<close> events and at most one per aggregate, each due and with
  every earlier event of its aggregate terminal; it leaves an event it could take only when
  the limit is reached. Each claimed row is dispatching, unbound from any job, leased, and
  counted as one more attempt; no other row changes.
\<close>

theorem ClaimDue_claims_heads:
  assumes "outbox_inv db" and "OutboxRepository_ClaimDue locked flt dbnow wall db p = (Inr es, db')"
    and "now = (if time_is_zero (cp_Now p) then wall else cp_Now p)"
  shows "(\<forall>x \<in> set es. \<exists>e \<in> set db. x = claim_row (now + cp_Lease p) dbnow e \<and> claimable now e \<and> \<not> locked (ev_ID e)
        \<and> (\<forall>f \<in> set db. same_aggregate f e \<and> earlier f e \<longrightarrow> \<not> undelivered f))
    \<and> (\<forall>x \<in> set es. \<forall>y \<in> set es. same_aggregate x y \<longrightarrow> x = y)
    \<and> int (length es) \<le> max 0 (cp_Limit p)
    \<and> (int (length es) < cp_Limit p \<longrightarrow> (\<forall>e \<in> set db. is_head db e \<and> claimable now e \<and> \<not> locked (ev_ID e) \<longrightarrow>
         claim_row (now + cp_Lease p) dbnow e \<in> set es))
    \<and> (\<forall>x \<in> set db'. x \<in> set db \<or> x \<in> set es)"
proof -
  define S where "S = (if cp_Limit p \<le> 0 then [] else claim_ready locked (cp_Limit p) now db)"
  note R = ClaimDue_result [OF assms(2,1), folded assms(3), folded S_def]
  have S: "e \<in> set db \<and> is_head db e \<and> claimable now e \<and> \<not> locked (ev_ID e)" if "e \<in> set S" for e
    using that in_claim_ready [of e locked "cp_Limit p" now db] by (auto simp: S_def split: if_splits)
  have heads: "\<forall>f \<in> set db. same_aggregate f e \<and> earlier f e \<longrightarrow> \<not> undelivered f" if "e \<in> set S" for e
    using S [OF that] by (auto simp: is_head_def list_all_iff)
  have one: "e = f" if "e \<in> set S" "f \<in> set S" "same_aggregate e f" for e f
  proof (rule ccontr)
    assume "e \<noteq> f"
    then have "ev_ID e \<noteq> ev_ID f" using S that assms(1) distinct_map_unique unfolding outbox_inv_def by metis
    then have "earlier e f \<or> earlier f e" by (rule earlier_total)
    then show False using heads S that unfolding is_head_def same_aggregate_def by metis
  qed
  have len: "int (length S) \<le> max 0 (cp_Limit p)" by (auto simp: S_def claim_ready_def)
  have all: "e \<in> set S" if "int (length S) < cp_Limit p" "e \<in> set db" "is_head db e" "claimable now e" "\<not> locked (ev_ID e)" for e
  proof -
    let ?F = "filter (\<lambda>e. \<not> locked (ev_ID e)) (claim_order (filter (\<lambda>e. is_head db e \<and> claimable now e) db))"
    have "S = take (nat (cp_Limit p)) ?F" using that(1) by (auto simp: S_def claim_ready_def)
    moreover from this have "length ?F \<le> nat (cp_Limit p)" using that(1) by (auto simp: min_def split: if_splits)
    ultimately show ?thesis using that by (simp add: claim_order_def)
  qed
  have agg: "claim_row t dbnow e = claim_row t dbnow f"
    if "e \<in> set S" "f \<in> set S" "same_aggregate (claim_row t dbnow e) (claim_row t dbnow f)" for e f t
    using one that same_event_order [OF claim_row_simps(1) claim_row_simps(1)] by metis
  have rest: "\<forall>x \<in> set db'. x \<in> set db \<or> x \<in> set es"
    unfolding R(1,2) set_update_where by auto
  show ?thesis
    unfolding R(3) R(1)
  proof (intro conjI impI)
    show "\<forall>x \<in> claim_row (now + cp_Lease p) dbnow ` set S. \<exists>e \<in> set db. x = claim_row (now + cp_Lease p) dbnow e
        \<and> claimable now e \<and> \<not> locked (ev_ID e) \<and> (\<forall>f \<in> set db. same_aggregate f e \<and> earlier f e \<longrightarrow> \<not> undelivered f)"
      using S heads by blast
  qed (use len all agg rest R(1) in auto)
qed

theorem ClaimDue_claims_heads_witness:
  "fst (OutboxRepository_ClaimDue (\<lambda>_. False) no_fault 110 110 demo_outbox2 (demo_claim 110)) = Inr [demo_claimed]
   \<and> (\<exists>e \<in> set demo_outbox2. demo_claimed = claim_row 140 110 e \<and> claimable 110 e)"
proof -
  have c: "OutboxRepository_ClaimDue (\<lambda>_. False) no_fault 110 110 demo_outbox2 (demo_claim 110) = (Inr [demo_claimed], demo_outbox)"
    by code_simp
  have "110 = (if time_is_zero (cp_Now (demo_claim 110)) then 110 else cp_Now (demo_claim 110))" "cp_Lease (demo_claim 110) = 30"
    by (simp_all add: demo_claim_def time_is_zero_def)
  then show ?thesis
    using ClaimDue_claims_heads [OF outbox_table.reachable_inv [OF demo_outbox2_reach] c, of 110] c by auto
qed

section \<open>Reconcile as one update\<close>

text \<open>What the job carrying an in-flight event makes of its row.\<close>

definition reconciled_row ::
  "(uuid \<Rightarrow> job_error + Status) \<Rightarrow> RelayConfig \<Rightarrow> relay_env \<Rightarrow> Event \<Rightarrow> Event" where
  "reconciled_row status cfg env e =
     (if re_fault env (ev_ID e) then e
      else (case ev_JobID e of None \<Rightarrow> e | Some j \<Rightarrow>
       (case status j of
          Inl JobNotFound \<Rightarrow> e\<lparr>ev_Status := OutboxPending, ev_NextAttemptAt := re_clock env (ev_ID e) + rl_Backoff cfg,
            ev_LastError := re_msg env (JobGone (Some j)), ev_LeasedUntil := None, ev_JobID := None, ev_UpdatedAt := re_dbnow env\<rparr>
        | Inr StatusSucceeded \<Rightarrow> e\<lparr>ev_Status := OutboxDispatched, ev_DispatchedAt := Some (re_clock env (ev_ID e)),
            ev_LeasedUntil := None, ev_LastError := [], ev_UpdatedAt := re_dbnow env\<rparr>
        | Inr StatusDead \<Rightarrow> e\<lparr>ev_Status := OutboxDead, ev_LastError := re_msg env (JobDead (Some j)),
            ev_LeasedUntil := None, ev_UpdatedAt := re_dbnow env\<rparr>
        | _ \<Rightarrow> e)))"

lemma emit_simps [simp]: "rs_outbox (emit ms s) = rs_outbox s" "rs_jobs (emit ms s) = rs_jobs s"
  by (simp_all add: emit_def)

lemma deadLetter_outbox:
  "rs_outbox (Relay_deadLetter env e why s) =
     snd (OutboxRepository_MarkDead (\<lambda>_. re_fault env (ev_ID e)) (re_dbnow env) (rs_outbox s) (ev_ID e) (re_msg env why))"
  by (simp add: Relay_deadLetter_def split: prod.splits option.splits)

lemma relay_jobs [simp]: "rs_jobs (Relay_deadLetter env e why s) = rs_jobs s" "rs_jobs (Relay_release cfg env e why s) = rs_jobs s"
  by (simp_all add: Relay_deadLetter_def Relay_release_def Let_def split: prod.splits option.splits)

lemma update_id_eq:
  assumes "distinct (map k t)" and "x \<in> set t" and "Q x"
  shows "update_where (\<lambda>r. k r = k x \<and> Q r) f t = update_where (\<lambda>r. r = x) f t"
  unfolding update_where_def using assms distinct_map_unique [OF assms(1) _ assms(2)] by (intro map_cong) auto

lemma update_same: "(\<And>r. P r \<Longrightarrow> f r = r) \<Longrightarrow> update_where P f t = t"
  by (simp add: update_where_def map_idI)

lemma update_cong: "(\<And>r. r \<in> set t \<Longrightarrow> P r \<Longrightarrow> f r = g r) \<Longrightarrow> update_where P f t = update_where P g t"
  by (simp add: update_where_def)

lemma reconcile_event_outbox:
  assumes "distinct (map ev_ID (rs_outbox s))" and "e \<in> set (rs_outbox s)" and "ev_Status e = OutboxDispatching"
    and "re_clock env (ev_ID e) \<noteq> 0"
  shows "rs_outbox (snd (reconcile_event status cfg env e s)) =
     update_where (\<lambda>r. r = e) (reconciled_row (status (rs_jobs s)) cfg env) (rs_outbox s)"
  using assms update_id_eq [OF assms(1,2), of "\<lambda>r. ev_Status r \<noteq> OutboxDispatched"]
    update_id_eq [OF assms(1,2), of "\<lambda>r. ev_Status r \<noteq> OutboxDead"]
    update_id_eq [OF assms(1,2), of "\<lambda>r. ev_Status r = OutboxDispatching"]
  by (auto simp: reconcile_event_def reconciled_row_def Relay_release_def deadLetter_outbox OutboxRepository_MarkDead_def
      OutboxRepository_MarkDispatched_def OutboxRepository_Release_def Let_def time_is_zero_def update_same
      intro!: update_cong split: option.splits sum.splits job_error.splits Status.splits)

lemma reconcile_event_jobs: "rs_jobs (snd (reconcile_event status cfg env e s)) = rs_jobs s"
  by (simp add: reconcile_event_def Let_def split: option.splits sum.splits job_error.splits Status.splits prod.splits)

lemma reconciled_row_same: "same_event e (reconciled_row st cfg env e)"
  by (auto simp: reconciled_row_def same_event_def split: option.splits sum.splits job_error.splits Status.splits)

lemma reconcile_events_outbox:
  assumes "distinct (map ev_ID (rs_outbox s))" and "distinct (map ev_ID es)" and "set es \<subseteq> set (rs_outbox s)"
    and "\<forall>e \<in> set es. ev_Status e = OutboxDispatching \<and> re_clock env (ev_ID e) \<noteq> 0"
  shows "rs_outbox (snd (reconcile_events status cfg env es s)) =
     update_where (\<lambda>r. r \<in> set es) (reconciled_row (status (rs_jobs s)) cfg env) (rs_outbox s)"
  using assms
proof (induction es arbitrary: s)
  case Nil
  then show ?case by (simp add: update_same)
next
  case (Cons e es)
  let ?f = "reconciled_row (status (rs_jobs s)) cfg env"
  let ?s1 = "snd (reconcile_event status cfg env e s)"
  have keeps: "ev_ID (?f r) = ev_ID r" for r using reconciled_row_same by (simp add: same_event_def)
  have s1: "rs_outbox ?s1 = update_where (\<lambda>r. r = e) ?f (rs_outbox s)" using Cons.prems by (intro reconcile_event_outbox) auto
  have ids: "map ev_ID (rs_outbox ?s1) = map ev_ID (rs_outbox s)" unfolding s1 by (intro map_update_where) (simp add: keeps)
  have sub: "set es \<subseteq> set (rs_outbox ?s1)"
  proof
    fix x assume "x \<in> set es"
    then have "x \<in> set (rs_outbox s)" "x \<noteq> e" using Cons.prems(2,3) by auto
    then show "x \<in> set (rs_outbox ?s1)" unfolding s1 set_update_where by (intro image_eqI [of _ _ x]) auto
  qed
  have "rs_outbox (snd (reconcile_events status cfg env es ?s1)) = update_where (\<lambda>r. r \<in> set es) ?f (rs_outbox ?s1)"
    using Cons.IH [of ?s1] Cons.prems sub by (simp add: ids reconcile_event_jobs)
  also have "\<dots> = update_where (\<lambda>r. r \<in> set (e # es)) ?f (rs_outbox s)"
  proof -
    have "?f e \<notin> set es" using Cons.prems(2) keeps [of e] by (metis (no_types, lifting) distinct.simps(2) image_eqI list.set_map list.simps(9))
    then show ?thesis unfolding s1 update_where_def map_map by (intro map_cong) auto
  qed
  finally show ?case by (simp add: split_beta)
qed

lemma reconcile_events_jobs: "rs_jobs (snd (reconcile_events status cfg env es s)) = rs_jobs s"
  by (induction es arbitrary: s) (simp_all add: split_beta reconcile_event_jobs)

definition in_flight :: "RelayConfig \<Rightarrow> OutboxDB \<Rightarrow> Event list" where
  "in_flight cfg db = take (nat (rl_BatchSize cfg)) (claim_order (filter (\<lambda>e. ev_Status e = OutboxDispatching \<and> ev_JobID e \<noteq> None) db))"

lemma in_in_flight: "e \<in> set (in_flight cfg db) \<Longrightarrow> e \<in> set db \<and> ev_Status e = OutboxDispatching \<and> ev_JobID e \<noteq> None"
  by (auto simp: in_flight_def claim_order_def dest!: in_set_takeD)

lemma distinct_in_flight:
  assumes "distinct (map ev_ID db)"
  shows "distinct (map ev_ID (in_flight cfg db))"
proof -
  have "distinct db" "inj_on ev_ID (set db)" using assms by (simp_all add: distinct_map)
  moreover have "set (in_flight cfg db) \<subseteq> set db" using in_in_flight by blast
  moreover have "distinct (in_flight cfg db)" using calculation(1) by (simp add: in_flight_def claim_order_def distinct_sort)
  ultimately show ?thesis by (simp add: distinct_map) (meson inj_on_subset)
qed

lemma reconcile_is_one_update_core:
  assumes "outbox_inv (rs_outbox s)" and "\<not> re_inflight_fault env" and "0 < rl_BatchSize cfg"
    and "\<forall>i. re_clock env i \<noteq> 0" and "Relay_reconcile (Some status) cfg env s = (n, s')"
  shows "rs_jobs s' = rs_jobs s \<and> rs_outbox s' =
     update_where (\<lambda>e. e \<in> set (in_flight cfg (rs_outbox s))) (reconciled_row (status (rs_jobs s)) cfg env) (rs_outbox s)"
proof -
  let ?L = "in_flight cfg (rs_outbox s)"
  have inv: "distinct (map ev_ID (rs_outbox s))" using assms(1) by (simp add: outbox_inv_def)
  have "OutboxRepository_InFlight (\<lambda>_. re_inflight_fault env) (rs_outbox s) (rl_BatchSize cfg) = Inr ?L"
    using assms(2,3) by (simp add: OutboxRepository_InFlight_def in_flight_def)
  then have s': "s' = snd (reconcile_events status cfg env ?L s)" using assms(5) by (simp add: Relay_reconcile_def)
  show ?thesis
    unfolding s' using assms(4)
    by (intro conjI reconcile_events_jobs reconcile_events_outbox inv distinct_in_flight ballI subsetI) (blast dest: in_in_flight)+
qed

text \<open>
  C13: the reconcile loop is one simultaneous update. Of the in-flight events it lists,
  the oldest up to the batch size, those whose job succeeded become dispatched, those whose
  job died become dead, those whose job is gone go back to pending for another hand-off,
  and the rest, like every other row and the job table, stay as they are.
\<close>

theorem reconcile_is_one_update:
  assumes "outbox_inv (rs_outbox s)" and "\<not> re_inflight_fault env" and "0 < rl_BatchSize cfg"
    and "\<forall>i. re_clock env i \<noteq> 0" and "Relay_reconcile (Some status) cfg env s = (n, s')"
  shows "rs_jobs s' = rs_jobs s \<and> rs_outbox s' =
     update_where (\<lambda>e. e \<in> set (in_flight cfg (rs_outbox s))) (reconciled_row (status (rs_jobs s)) cfg env) (rs_outbox s)"
  by (rule reconcile_is_one_update_core [OF assms])

definition demo_env :: relay_env where
  "demo_env = \<lparr>re_inflight_fault = False, re_claim_fault = False, re_fault = (\<lambda>_. False), re_now = 200, re_clock = (\<lambda>_. 200),
     re_dbnow = 200, re_locked = (\<lambda>_. False), re_msg = (\<lambda>_. ''gone'')\<rparr>"

definition demo_relay :: RelayConfig where
  "demo_relay = RelayConfig_withDefaults \<lparr>rl_Enabled = True, rl_PollInterval = 0, rl_BatchSize = 0, rl_Lease = 0, rl_Backoff = 0, rl_StatsInterval = 0\<rparr>"

definition demo_bound :: OutboxDB where
  "demo_bound = outbox_exec demo_json no_fault (DoMarkDispatching 120 7 42) demo_outbox"

lemma demo_bound_reach: "reach (\<lambda>db. db = []) outbox_step demo_bound"
  unfolding demo_bound_def by (rule outbox_reach_exec [OF demo_outbox_reach])

definition demo_relay_state :: "JobDB relay_state" where
  "demo_relay_state = \<lparr>rs_outbox = demo_bound, rs_jobs = snd (JobRepository_Complete demo_json no_fault 130 demo_jobs 42 []), rs_metrics = []\<rparr>"

theorem reconcile_is_one_update_witness:
  "\<exists>e \<in> set (rs_outbox (snd (Relay_reconcile (Some (JobRepository_JobStatus no_fault)) demo_relay demo_env demo_relay_state))).
     ev_ID e = 7 \<and> ev_Status e = OutboxDispatched"
proof -
  let ?R = "Relay_reconcile (Some (JobRepository_JobStatus no_fault)) demo_relay demo_env demo_relay_state"
  let ?x = "demo_claimed\<lparr>ev_JobID := Some 42, ev_UpdatedAt := 120\<rparr>"
  let ?y = "reconciled_row (JobRepository_JobStatus no_fault (rs_jobs demo_relay_state)) demo_relay demo_env ?x"
  have "outbox_inv (rs_outbox demo_relay_state)" using outbox_table.reachable_inv [OF demo_bound_reach] by (simp add: demo_relay_state_def)
  moreover have "\<not> re_inflight_fault demo_env" "0 < rl_BatchSize demo_relay" "\<forall>i. re_clock demo_env i \<noteq> 0"
    by (simp_all add: demo_env_def demo_relay_def RelayConfig_withDefaults_def)
  ultimately have R: "rs_outbox (snd ?R) = update_where (\<lambda>e. e \<in> set (in_flight demo_relay (rs_outbox demo_relay_state)))
      (reconciled_row (JobRepository_JobStatus no_fault (rs_jobs demo_relay_state)) demo_relay demo_env) (rs_outbox demo_relay_state)"
    using reconcile_is_one_update [of demo_relay_state demo_env demo_relay "JobRepository_JobStatus no_fault" "fst ?R" "snd ?R"] by simp
  have "?x \<in> set (rs_outbox demo_relay_state)" "?x \<in> set (in_flight demo_relay (rs_outbox demo_relay_state))" by code_simp+
  then have "?y \<in> set (rs_outbox (snd ?R))" unfolding R set_update_where by (intro image_eqI [of _ _ ?x]) simp_all
  moreover have "ev_ID ?y = 7 \<and> ev_Status ?y = OutboxDispatched" by code_simp
  ultimately show ?thesis by blast
qed

section \<open>A tick\<close>

text \<open>How rows move in the dispatch phase: never away, and never to dispatched.\<close>

definition undispatched_move :: "Event \<Rightarrow> Event \<Rightarrow> bool" where
  "undispatched_move e e' \<longleftrightarrow> same_event e e' \<and> (ev_Status e' = OutboxDispatched \<longrightarrow> ev_Status e = OutboxDispatched)"

lemma moves_refl: "list_all2 undispatched_move db db"
  by (simp add: undispatched_move_def same_event_def list_all2_refl)

lemma moves_trans: "list_all2 undispatched_move a b \<Longrightarrow> list_all2 undispatched_move b c \<Longrightarrow> list_all2 undispatched_move a c"
  by (rule list_all2_trans) (auto simp: undispatched_move_def same_event_def)

lemma moves_update: "(\<And>e. P e \<Longrightarrow> undispatched_move e (f e)) \<Longrightarrow> list_all2 undispatched_move db (update_where P f db)"
  by (induction db) (auto simp: update_where_Cons undispatched_move_def same_event_def)

lemma deadLetter_moves: "list_all2 undispatched_move (rs_outbox s) (rs_outbox (Relay_deadLetter env e why s))"
  by (auto simp: deadLetter_outbox OutboxRepository_MarkDead_def moves_refl undispatched_move_def same_event_def intro!: moves_update)

lemma release_moves: "list_all2 undispatched_move (rs_outbox s) (rs_outbox (Relay_release cfg env e why s))"
  by (auto simp: Relay_release_def OutboxRepository_Release_def Let_def moves_refl undispatched_move_def same_event_def intro!: moves_update)

lemma dispatch_event_moves: "list_all2 undispatched_move (rs_outbox s) (rs_outbox (snd (dispatch_event enq routes cfg env e s)))"
  using deadLetter_moves [of s] release_moves [of s] deadLetter_moves [of "s\<lparr>rs_jobs := j\<rparr>" for j] release_moves [of "s\<lparr>rs_jobs := j\<rparr>" for j]
  by (auto simp: dispatch_event_def OutboxRepository_MarkDispatching_def moves_refl undispatched_move_def same_event_def
      intro!: moves_update split: option.splits prod.splits sum.splits)

lemma dispatch_events_moves: "list_all2 undispatched_move (rs_outbox s) (rs_outbox (snd (dispatch_events enq routes cfg env es s)))"
  by (induction es arbitrary: s) (auto simp: split_beta moves_refl intro: moves_trans dispatch_event_moves)

lemma ClaimDue_moves: "list_all2 undispatched_move db (snd (OutboxRepository_ClaimDue locked flt dbnow wall db p))"
  by (auto simp: OutboxRepository_ClaimDue_def Let_def moves_refl undispatched_move_def intro!: moves_update)

lemma dispatch_moves: "list_all2 undispatched_move (rs_outbox s) (rs_outbox (snd (Relay_dispatch enq routes cfg env s)))"
proof -
  let ?C = "OutboxRepository_ClaimDue (re_locked env) (\<lambda>_. re_claim_fault env) (re_dbnow env) (re_now env) (rs_outbox s)
             \<lparr>cp_Limit = rl_BatchSize cfg, cp_Lease = rl_Lease cfg, cp_Now = re_now env\<rparr>"
  have "list_all2 undispatched_move (rs_outbox s) (snd ?C)" by (rule ClaimDue_moves)
  then show ?thesis
    using dispatch_events_moves [of "s\<lparr>rs_outbox := snd ?C\<rparr>" enq routes cfg env]
    by (auto simp: Relay_dispatch_def split: prod.splits sum.splits intro: moves_trans)
qed

lemma moves_ids: "list_all2 undispatched_move db db' \<Longrightarrow> map ev_ID db' = map ev_ID db"
  by (induction rule: list_all2_induct) (auto simp: undispatched_move_def same_event_def)

text \<open>
  C14: no event is lost or delivered early. A tick keeps every row, whatever fails and whatever
  the queue answers; and it marks an event dispatched only if the event was bound to a job
  that the queue reports as succeeded.
\<close>

theorem Tick_delivers_only_after_success:
  assumes "outbox_inv (rs_outbox s)" and "0 < rl_BatchSize cfg" and "\<forall>i. re_clock env1 i \<noteq> 0"
    and "Relay_Tick (Some status) enq routes cfg env1 env2 s = (n, s')"
  shows "map ev_ID (rs_outbox s') = map ev_ID (rs_outbox s) \<and>
    (\<forall>e \<in> set (rs_outbox s). \<forall>e' \<in> set (rs_outbox s'). ev_ID e' = ev_ID e \<and> ev_Status e' = OutboxDispatched \<and> ev_Status e \<noteq> OutboxDispatched \<longrightarrow>
       (\<exists>j. ev_JobID e = Some j \<and> ev_Status e = OutboxDispatching \<and> status (rs_jobs s) j = Inr StatusSucceeded))"
proof -
  let ?R = "Relay_reconcile (Some status) cfg env1 s"
  let ?f = "reconciled_row (status (rs_jobs s)) cfg env1"
  let ?P = "\<lambda>e. \<not> re_inflight_fault env1 \<and> e \<in> set (in_flight cfg (rs_outbox s))"
  have mid: "rs_outbox (snd ?R) = update_where ?P ?f (rs_outbox s)"
  proof (cases "re_inflight_fault env1")
    case True
    then show ?thesis using assms(2) by (simp add: Relay_reconcile_def OutboxRepository_InFlight_def update_same)
  next
    case False
    then show ?thesis
      using reconcile_is_one_update_core [OF assms(1) False assms(2,3), of status "fst ?R" "snd ?R"] by simp
  qed
  have mv: "list_all2 undispatched_move (update_where ?P ?f (rs_outbox s)) (rs_outbox s')"
    using dispatch_moves [of "snd ?R" enq routes cfg env2] assms(4) by (auto simp: Relay_Tick_def mid split: prod.splits)
  have fid: "same_event e (?f e)" for e by (rule reconciled_row_same)
  have ids: "map ev_ID (update_where ?P ?f (rs_outbox s)) = map ev_ID (rs_outbox s)"
    using fid by (intro map_update_where) (simp add: same_event_def)
  show ?thesis
  proof (intro conjI ballI impI)
    show "map ev_ID (rs_outbox s') = map ev_ID (rs_outbox s)" using moves_ids [OF mv] ids by simp
    fix e e' assume e: "e \<in> set (rs_outbox s)" and e': "e' \<in> set (rs_outbox s')"
      and h: "ev_ID e' = ev_ID e \<and> ev_Status e' = OutboxDispatched \<and> ev_Status e \<noteq> OutboxDispatched"
    obtain m where m: "m \<in> set (update_where ?P ?f (rs_outbox s))" "undispatched_move m e'" using mv e' by (rule list_all2_rightE)
    then obtain r where r: "r \<in> set (rs_outbox s)" "m = (if ?P r then ?f r else r)" unfolding set_update_where by blast
    have "ev_ID r = ev_ID e" "ev_Status m = OutboxDispatched" using m(2) h r(2) fid [of r] by (auto simp: undispatched_move_def same_event_def split: if_splits)
    then have "r = e" using e r(1) assms(1) distinct_map_unique [of ev_ID "rs_outbox s"] by (simp add: outbox_inv_def)
    then have "?P e" "ev_Status (?f e) = OutboxDispatched" using r(2) h \<open>ev_Status m = OutboxDispatched\<close> by (auto split: if_splits)
    then show "\<exists>j. ev_JobID e = Some j \<and> ev_Status e = OutboxDispatching \<and> status (rs_jobs s) j = Inr StatusSucceeded"
      using in_in_flight [of e cfg "rs_outbox s"]
      by (auto simp: reconciled_row_def split: if_splits option.splits sum.splits job_error.splits Status.splits)
  qed
qed

text \<open>The queue as the relay sees it.\<close>

definition demo_status :: "JobDB \<Rightarrow> uuid \<Rightarrow> job_error + Status" where
  "demo_status = JobRepository_JobStatus no_fault"

definition demo_enq :: "EnqueueInput \<Rightarrow> JobDB \<Rightarrow> (job_error + Job) \<times> JobDB" where
  "demo_enq i db = Client_Enqueue demo_json no_fault 77 200 200 id [] db i"

theorem Tick_delivers_only_after_success_witness:
  "map ev_ID (rs_outbox (snd (Relay_Tick (Some demo_status) demo_enq [''created'' \<mapsto> ''settle''] demo_relay demo_env demo_env demo_relay_state))) = [7, 8]"
proof -
  let ?T = "Relay_Tick (Some demo_status) demo_enq [''created'' \<mapsto> ''settle''] demo_relay demo_env demo_env demo_relay_state"
  have "outbox_inv (rs_outbox demo_relay_state)" using outbox_table.reachable_inv [OF demo_bound_reach] by (simp add: demo_relay_state_def)
  moreover have "0 < rl_BatchSize demo_relay" "\<forall>i. re_clock demo_env i \<noteq> 0"
    by (simp_all add: demo_env_def demo_relay_def RelayConfig_withDefaults_def)
  moreover have "map ev_ID (rs_outbox demo_relay_state) = [7, 8]" by code_simp
  ultimately show ?thesis
    using Tick_delivers_only_after_success [of demo_relay_state demo_relay demo_env demo_status demo_enq "[''created'' \<mapsto> ''settle'']"
        demo_env "fst ?T" "snd ?T"] by simp
qed

section \<open>Handing over again\<close>

text \<open>
  What the relay relies on of the queue it hands events to: while a job of a type and
  idempotency key is live, an enqueue of that type and key changes nothing and can only
  return that job.
\<close>

locale handoff_port =
  fixes enq :: "EnqueueInput \<Rightarrow> 'j \<Rightarrow> (job_error + Job) \<times> 'j" and live :: "'j \<Rightarrow> string \<Rightarrow> string \<Rightarrow> uuid \<Rightarrow> bool"
  assumes enq_joins: "live js (in_Type i) (in_IdempotencyKey i) u \<Longrightarrow> enq i js = (q, js') \<Longrightarrow>
    js' = js \<and> (\<forall>job. q = Inr job \<longrightarrow> j_ID job = u)"
begin

lemma rehandoff:
  assumes "live (rs_jobs s) ty (ev_DedupeKey e) u" and "routes (ev_EventType e) = Some ty"
    and "dispatch_event enq routes cfg env e s = (n, s')"
  shows "rs_jobs s' = rs_jobs s \<and> (n = 1 \<longrightarrow>
    (\<forall>x \<in> set (rs_outbox s'). ev_ID x = ev_ID e \<and> ev_Status x = OutboxDispatching \<longrightarrow> ev_JobID x = Some u))"
proof -
  let ?i = "handoff_input ty e"
  obtain q js where q: "enq ?i (rs_jobs s) = (q, js)" by fastforce
  have j: "js = rs_jobs s \<and> (\<forall>job. q = Inr job \<longrightarrow> j_ID job = u)"
    using enq_joins [OF _ q] assms(1) by (simp add: handoff_input_def)
  show ?thesis
    using assms(2,3) q j
    by (auto simp: dispatch_event_def OutboxRepository_MarkDispatching_def set_update_where split: if_splits sum.splits)
qed

end

text \<open>A live job of the key in a table that satisfies the queue's invariant.\<close>

definition live_in :: "JobDB \<Rightarrow> string \<Rightarrow> string \<Rightarrow> uuid \<Rightarrow> bool" where
  "live_in db ty key u \<longleftrightarrow> jobs_inv db \<and> key \<noteq> [] \<and> (\<exists>r \<in> set db. live_job r \<and> r_type r = ty \<and> r_idem r = Some key \<and> r_id r = u)"

lemma Enqueue_joins:
  assumes "live_in db (in_Type i) (in_IdempotencyKey i) u" and "JobRepository_Enqueue jsonb flt newID dbnow now id db i = (q, db')"
  shows "db' = db \<and> (\<forall>job c. q = Inr (job, c) \<longrightarrow> j_ID job = u)"
proof -
  obtain r where r: "r \<in> set db" "live_job r" "r_type r = in_Type i" "r_idem r = Some (in_IdempotencyKey i)" "r_id r = u"
    and inv: "jobs_inv db" and key: "in_IdempotencyKey i \<noteq> []" using assms(1) by (auto simp: live_in_def)
  have clash: "list_ex (idem_clash (new_job newID dbnow now i)) db" using r key by (auto simp: list_ex_iff idem_clash_new)
  have ins: "insert_job jsonb db (new_job newID dbnow now i) = Inr (None, db) \<or> (\<exists>e. insert_job jsonb db (new_job newID dbnow now i) = Inl e)"
    using clash by (auto simp: insert_job_def split: option.splits)
  have "select_live db (in_Type i) (in_IdempotencyKey i) = Some r" using select_live_unique [OF inv r(1,2,4)] r(3) by simp
  then show ?thesis using ins assms(2) r(5)
    by (auto simp: JobRepository_Enqueue_def Let_def scanJobFrom_def split: if_splits)
qed

interpretation client_port: handoff_port "\<lambda>i db. Client_Enqueue jsonb (flt i) (newID i) dbnow now id req db i" live_in
  for jsonb flt newID dbnow now req
proof unfold_locales
  fix js i u q js'
  assume l: "live_in js (in_Type i) (in_IdempotencyKey i) u" and c: "Client_Enqueue jsonb (flt i) (newID i) dbnow now id req js i = (q, js')"
  let ?i = "i\<lparr>in_CorrelationID := if in_CorrelationID i = [] then req else in_CorrelationID i\<rparr>"
  obtain q' db' where e: "JobRepository_Enqueue jsonb (flt i) (newID i) dbnow now id js ?i = (q', db')" by fastforce
  show "js' = js \<and> (\<forall>job. q = Inr job \<longrightarrow> j_ID job = u)"
    using Enqueue_joins [OF _ e, of u] l c e by (auto simp: Client_Enqueue_def split: if_splits sum.splits prod.splits)
qed

text \<open>
  Handing an event over again joins the live job. If a job of the event's route and
  dedupe key is live in the queue, dispatching the event leaves the job table as it is,
  whatever statement fails, and when it reports success the row carries that job's id: a
  relay that dies between enqueueing and recording the job starts no second delivery.
\<close>

theorem rehandoff_joins_live_job:
  assumes "jobs_inv (rs_jobs s)" and "r \<in> set (rs_jobs s)" and "live_job r" and "r_type r = ty" and "r_idem r = Some (ev_DedupeKey e)"
    and "ev_DedupeKey e \<noteq> []" and "routes (ev_EventType e) = Some ty"
    and "dispatch_event (\<lambda>i db. Client_Enqueue jsonb (flt i) (newID i) dbnow now id req db i) routes cfg env e s = (n, s')"
  shows "rs_jobs s' = rs_jobs s \<and> (n = 1 \<longrightarrow>
    (\<forall>x \<in> set (rs_outbox s'). ev_ID x = ev_ID e \<and> ev_Status x = OutboxDispatching \<longrightarrow> ev_JobID x = Some (r_id r)))"
  using client_port.rehandoff [OF _ assms(7,8), of "r_id r"] assms(1-6) by (auto simp: live_in_def)

definition demo_handed :: "JobDB relay_state" where
  "demo_handed = \<lparr>rs_outbox = [demo_claimed\<lparr>ev_DedupeKey := ''k1''\<rparr>], rs_jobs = demo_jobs, rs_metrics = []\<rparr>"

theorem rehandoff_joins_live_job_witness:
  "ev_JobID (hd (rs_outbox (snd (dispatch_event (\<lambda>i db. Client_Enqueue demo_json no_fault 77 200 200 id [] db i)
     [''created'' \<mapsto> ''settle''] demo_relay demo_env (demo_claimed\<lparr>ev_DedupeKey := ''k1''\<rparr>) demo_handed)))) = Some 42"
proof -
  let ?e = "demo_claimed\<lparr>ev_DedupeKey := ''k1''\<rparr>"
  let ?D = "dispatch_event (\<lambda>i db. Client_Enqueue demo_json no_fault 77 200 200 id [] db i) [''created'' \<mapsto> ''settle''] demo_relay demo_env ?e demo_handed"
  have inv: "jobs_inv (rs_jobs demo_handed)" using job_table.reachable_inv [OF demo_jobs_reach] by (simp add: demo_handed_def)
  have h: "demo_job \<in> set (rs_jobs demo_handed)" "live_job demo_job" "r_type demo_job = ''settle''" "r_idem demo_job = Some (ev_DedupeKey ?e)"
    "ev_DedupeKey ?e \<noteq> []" "[''created'' \<mapsto> ''settle''] (ev_EventType ?e) = Some ''settle''" and i: "r_id demo_job = 42"
    by (simp_all add: demo_handed_def demo_jobs_row demo_job_def live_job_def demo_claimed_def demo_event_def)
  have "fst ?D = 1" by code_simp
  then have "?D = (1, snd ?D)" by (metis prod.collapse)
  from rehandoff_joins_live_job [OF inv h this]
  have "\<forall>x \<in> set (rs_outbox (snd ?D)). ev_ID x = ev_ID ?e \<and> ev_Status x = OutboxDispatching \<longrightarrow> ev_JobID x = Some 42" unfolding i by simp
  moreover have "hd (rs_outbox (snd ?D)) \<in> set (rs_outbox (snd ?D))" "ev_ID (hd (rs_outbox (snd ?D))) = ev_ID ?e"
    "ev_Status (hd (rs_outbox (snd ?D))) = OutboxDispatching" by code_simp+
  ultimately show ?thesis by blast
qed

section \<open>What the relay does not do\<close>

lemma dispatch_event_metrics:
  "0 < ev_Attempts e \<Longrightarrow> \<forall>ty d. ObserveTimeToFirstAttempt ty d \<notin> set (rs_metrics s) \<Longrightarrow>
   \<forall>ty d. ObserveTimeToFirstAttempt ty d \<notin> set (rs_metrics (snd (dispatch_event enq routes cfg env e s)))"
  by (auto simp: dispatch_event_def Relay_deadLetter_def Relay_release_def emit_def Let_def split: if_splits option.splits prod.splits sum.splits)

lemma dispatch_events_metrics:
  "\<forall>e \<in> set es. 0 < ev_Attempts e \<Longrightarrow> \<forall>ty d. ObserveTimeToFirstAttempt ty d \<notin> set (rs_metrics s) \<Longrightarrow>
   \<forall>ty d. ObserveTimeToFirstAttempt ty d \<notin> set (rs_metrics (snd (dispatch_events enq routes cfg env es s)))"
proof (induction es arbitrary: s)
  case (Cons e es)
  then show ?case using Cons.IH [of "snd (dispatch_event enq routes cfg env e s)"] dispatch_event_metrics [of e s] by (simp add: split_beta)
qed simp

lemma claimed_attempted:
  assumes "outbox_inv db" and "OutboxRepository_ClaimDue locked flt dbnow wall db p = (Inr es, db')"
  shows "\<forall>x \<in> set es. 0 < ev_Attempts x"
proof
  fix x assume "x \<in> set es"
  then obtain e t n now where "x = claim_row t dbnow e" "e \<in> set (claim_ready locked n now db)"
    unfolding ClaimDue_result(1) [OF assms(2,1)] by (auto split: if_splits)
  then show "0 < ev_Attempts x"
    using in_claim_ready [of e locked n now db] assms(1) by (auto simp: outbox_inv_def event_ok_def)
qed

text \<open>
  The observation of the time to the first attempt is dead code: the attempt is counted by
  the claim, so an event reaches \<open>dispatch\<close> with at least one attempt and the metric is
  never recorded.
\<close>

theorem first_attempt_never_observed:
  assumes "outbox_inv (rs_outbox s)" and "rs_metrics s = []"
  shows "\<forall>ty d. ObserveTimeToFirstAttempt ty d \<notin> set (rs_metrics (snd (Relay_dispatch enq routes cfg env s)))"
proof -
  let ?C = "OutboxRepository_ClaimDue (re_locked env) (\<lambda>_. re_claim_fault env) (re_dbnow env) (re_now env) (rs_outbox s)
             \<lparr>cp_Limit = rl_BatchSize cfg, cp_Lease = rl_Lease cfg, cp_Now = re_now env\<rparr>"
  have att: "\<forall>x \<in> set es. 0 < ev_Attempts x" if "fst ?C = Inr es" for es
    using claimed_attempted [OF assms(1), of _ _ _ _ _ es "snd ?C"] that by (metis prod.collapse)
  show ?thesis
    using assms(2) att dispatch_events_metrics [of _ "s\<lparr>rs_outbox := snd ?C\<rparr>" enq routes cfg env]
    by (auto simp: Relay_dispatch_def split: prod.splits sum.splits)
qed

text \<open>
  Within one transaction every event carries the same \<open>created_at\<close>, so the order is that of
  the ids, which are random: an event written second, with the smaller id, is claimed first.
\<close>

theorem same_transaction_order_is_by_id:
  "(case fst (OutboxRepository_ClaimDue (\<lambda>_. False) no_fault 110 110
       (outbox_exec demo_json no_fault (DoInsert 7 100 100 (demo_event 7 ''second''))
         (outbox_exec demo_json no_fault (DoInsert 8 100 100 (demo_event 8 ''first'')) [])) (demo_claim 110)) of
      Inl _ \<Rightarrow> [] | Inr es \<Rightarrow> map ev_DedupeKey es) = [''second'']"
  by code_simp

end
