(* ===== verification/Submission.thy ===== *)
theory Submission
  imports Nester_Prelude
begin

text \<open>
  Durable chain submissions (\<open>internal/stellar/submission.go\<close>, \<open>submission_store_postgres.go\<close>,
  \<open>reconciler.go\<close>, and the submission chokepoint \<open>send\<close> of \<open>invoker.go\<close>): the intent record and
  its states, what a chain answer means, the store over the \<open>submission_intents\<close> table of
  migration 105, the reconciler's sweep, and \<open>send\<close>. The XDR decoder and the RPC are not the
  program's code: what they answer is an argument.
\<close>

section \<open>States and outcomes\<close>

datatype SubmissionState =
    SubmissionPending | SubmissionLanded | SubmissionRejected | SubmissionExpired | SubmissionUnresolvable

definition SubmissionState_Terminal :: "SubmissionState \<Rightarrow> bool" where
  "SubmissionState_Terminal s =
     (case s of SubmissionLanded \<Rightarrow> True | SubmissionRejected \<Rightarrow> True | SubmissionExpired \<Rightarrow> True
      | SubmissionUnresolvable \<Rightarrow> True | _ \<Rightarrow> False)"

datatype ChainOutcome =
    OutcomeUnknown | OutcomeLanded | OutcomeRejected | OutcomeProvenNotLanded | OutcomeUndeterminable

definition ChainOutcome_String :: "ChainOutcome \<Rightarrow> string" where
  "ChainOutcome_String oc =
     (case oc of OutcomeLanded \<Rightarrow> ''landed'' | OutcomeRejected \<Rightarrow> ''rejected''
      | OutcomeProvenNotLanded \<Rightarrow> ''proven_not_landed'' | OutcomeUndeterminable \<Rightarrow> ''undeterminable'' | _ \<Rightarrow> ''unknown'')"

definition PermitsNewAttempt :: "ChainOutcome \<Rightarrow> bool" where
  "PermitsNewAttempt oc \<longleftrightarrow> oc = OutcomeRejected \<or> oc = OutcomeProvenNotLanded"

definition ChainOutcome_State :: "ChainOutcome \<Rightarrow> SubmissionState" where
  "ChainOutcome_State oc =
     (case oc of OutcomeLanded \<Rightarrow> SubmissionLanded | OutcomeRejected \<Rightarrow> SubmissionRejected
      | OutcomeProvenNotLanded \<Rightarrow> SubmissionExpired | OutcomeUndeterminable \<Rightarrow> SubmissionUnresolvable
      | OutcomeUnknown \<Rightarrow> SubmissionPending)"

text \<open>The RPC's status is a string; the three known ones are constants.\<close>

definition TxStatusSuccess :: string where "TxStatusSuccess = ''SUCCESS''"
definition TxStatusFailed :: string where "TxStatusFailed = ''FAILED''"
definition TxStatusNotFound :: string where "TxStatusNotFound = ''NOT_FOUND''"

record ChainView =
  LatestLedgerCloseTime :: time
  OldestLedgerCloseTime :: time

definition ChainView_Valid :: "ChainView \<Rightarrow> bool" where
  "ChainView_Valid v \<longleftrightarrow> \<not> time_is_zero (LatestLedgerCloseTime v) \<and> \<not> time_is_zero (OldestLedgerCloseTime v)"

record SubmissionIntent =
  si_ID :: uuid
  si_IdempotencyReference :: string
  si_TransactionHash :: string
  si_ValidUntil :: time
  si_SourceAccount :: string
  si_DomainAction :: string
  si_State :: SubmissionState
  si_Attempt :: int
  si_CreatedAt :: time
  si_SubmittedAt :: "time option"
  si_ResolvedAt :: "time option"
  si_OutcomeDetail :: string

datatype submission_error =
    ErrIntentNotFound | ErrReferenceReused | ErrReferenceRequired | ErrResolveNeedsTerminal
  | ErrNoTimeBound | ErrParseEnvelope | ErrFeeBump | ErrHashTransaction
  | ErrSubmitFailed | ErrSubmissionUnresolved | ErrRPC | SubmissionFault | SubmissionServer pg_error

section \<open>The identity of a signed envelope\<close>

text \<open>
  What \<open>txnbuild\<close> reads from an envelope: a fee bump, or a transaction with its hash under the
  network's passphrase, if it can be computed, and its unsigned upper time bound, if any.
\<close>

datatype parsed_envelope = FeeBumpEnvelope | TxEnvelope "string option" "64 word option"

record TransactionIdentity =
  ti_Hash :: string
  ti_ValidUntil :: time

text \<open>
  \<open>time.Unix(sec, 0)\<close>: Go keeps the seconds since year 1 in an \<open>int64\<close>, so the shift from the
  Unix epoch wraps for seconds within 62135596800 of the largest \<open>int64\<close>.
\<close>

definition unixToInternal :: int where "unixToInternal = 62135596800"

definition time_Unix :: "int \<Rightarrow> time" where
  "time_Unix sec = wrap64 (sec + unixToInternal) * second"

definition IdentifyTransaction :: "(string \<Rightarrow> parsed_envelope option) \<Rightarrow> string \<Rightarrow> submission_error + TransactionIdentity" where
  "IdentifyTransaction parse signedEnvelopeB64 =
     (case parse signedEnvelopeB64 of
        None \<Rightarrow> Inl ErrParseEnvelope
      | Some FeeBumpEnvelope \<Rightarrow> Inl ErrFeeBump
      | Some (TxEnvelope None _) \<Rightarrow> Inl ErrHashTransaction
      | Some (TxEnvelope (Some hash) bounds) \<Rightarrow>
          Inr \<lparr>ti_Hash = hash,
               ti_ValidUntil = (case bounds of None \<Rightarrow> 0 | Some mt \<Rightarrow>
                 if 0 < mt \<and> uint mt \<le> max64 then time_Unix (uint mt) else 0)\<rparr>)"

section \<open>What an answer of the chain means\<close>

definition EarliestInclusion :: "SubmissionIntent \<Rightarrow> time" where
  "EarliestInclusion i = (case si_SubmittedAt i of Some t \<Rightarrow> t | None \<Rightarrow> si_CreatedAt i)"

definition DetermineOutcome :: "string \<Rightarrow> ChainView \<Rightarrow> SubmissionIntent \<Rightarrow> ChainOutcome" where
  "DetermineOutcome status view intent =
     (if status = TxStatusSuccess then OutcomeLanded
      else if status = TxStatusFailed then OutcomeRejected
      else if status \<noteq> TxStatusNotFound then OutcomeUnknown
      else if \<not> ChainView_Valid view then OutcomeUnknown
      else if time_is_zero (si_ValidUntil intent) then OutcomeUnknown
      else if \<not> LatestLedgerCloseTime view > si_ValidUntil intent then OutcomeUnknown
      else if OldestLedgerCloseTime view > EarliestInclusion intent then OutcomeUndeterminable
      else OutcomeProvenNotLanded)"

section \<open>The store\<close>

text \<open>A row: the intent and the reconciler's bookkeeping columns.\<close>

record IntentRow = SubmissionIntent +
  ir_reconcile_attempts :: int
  ir_last_reconciled_at :: "time option"
  ir_next_reconcile_at :: time

type_synonym IntentDB = "IntentRow list"

definition DefaultReconcileBackoff :: duration where "DefaultReconcileBackoff = 20 * second"
definition DefaultReconcileBatch :: int where "DefaultReconcileBatch = 50"

definition scanIntent :: "IntentRow \<Rightarrow> SubmissionIntent" where
  "scanIntent r = SubmissionIntent.truncate r"

definition new_intent :: "uuid \<Rightarrow> time \<Rightarrow> SubmissionIntent \<Rightarrow> IntentRow" where
  "new_intent newID now i =
     (let created = (if time_is_zero (si_CreatedAt i) then now else si_CreatedAt i)
      in \<lparr>si_ID = newID, si_IdempotencyReference = si_IdempotencyReference i, si_TransactionHash = si_TransactionHash i,
          si_ValidUntil = si_ValidUntil i, si_SourceAccount = si_SourceAccount i, si_DomainAction = si_DomainAction i,
          si_State = SubmissionPending, si_Attempt = 0, si_CreatedAt = created, si_SubmittedAt = None, si_ResolvedAt = None,
          si_OutcomeDetail = [], ir_reconcile_attempts = 0, ir_last_reconciled_at = None, ir_next_reconcile_at = created\<rparr>)"

text \<open>\<open>INSERT ... ON CONFLICT (idempotency_reference) DO NOTHING RETURNING\<close>: no row when the reference is taken.\<close>

definition insertIntent :: "bool \<Rightarrow> uuid \<Rightarrow> time \<Rightarrow> IntentDB \<Rightarrow> SubmissionIntent \<Rightarrow> (submission_error + SubmissionIntent option) \<times> IntentDB" where
  "insertIntent fault newID now db i =
     (if fault then (Inl SubmissionFault, db)
      else if si_IdempotencyReference i \<in> si_IdempotencyReference ` set db then (Inr None, db)
      else if newID \<in> si_ID ` set db then (Inl (SubmissionServer (PgError ''23505'' ''submission_intents_pkey'')), db)
      else (let r = new_intent newID now i in (Inr (Some (scanIntent r)), db @ [r])))"

definition getByReference :: "bool \<Rightarrow> IntentDB \<Rightarrow> string \<Rightarrow> submission_error + SubmissionIntent" where
  "getByReference fault db reference =
     (if fault then Inl SubmissionFault
      else (case find (\<lambda>r. si_IdempotencyReference r = reference) db of
          None \<Rightarrow> Inl ErrIntentNotFound | Some r \<Rightarrow> Inr (scanIntent r)))"

text \<open>\<open>others\<close> is what other sessions do between the INSERT and the SELECT.\<close>

definition SubmissionStore_Claim ::
  "sql_fault \<Rightarrow> uuid \<Rightarrow> time \<Rightarrow> (IntentDB \<Rightarrow> IntentDB) \<Rightarrow> IntentDB \<Rightarrow> SubmissionIntent
   \<Rightarrow> (submission_error + (SubmissionIntent \<times> bool)) \<times> IntentDB" where
  "SubmissionStore_Claim flt newID now others db i =
     (if si_IdempotencyReference i = [] then (Inl ErrReferenceRequired, db)
      else (case insertIntent (flt 0) newID now db i of
          (Inl e, db1) \<Rightarrow> (Inl e, db1)
        | (Inr (Some created), db1) \<Rightarrow> (Inr (created, True), db1)
        | (Inr None, db1) \<Rightarrow>
            (let db2 = others db1 in
             case getByReference (flt 1) db2 (si_IdempotencyReference i) of
               Inl e \<Rightarrow> (Inl e, db2)
             | Inr existing \<Rightarrow>
                 if si_TransactionHash existing \<noteq> si_TransactionHash i then (Inl ErrReferenceReused, db2)
                 else (Inr (existing, False), db2))))"

definition SubmissionStore_MarkSubmitted :: "bool \<Rightarrow> IntentDB \<Rightarrow> uuid \<Rightarrow> time \<Rightarrow> submission_error option \<times> IntentDB" where
  "SubmissionStore_MarkSubmitted fault db i stamp =
     (if fault then (Some SubmissionFault, db)
      else
        (let P = (\<lambda>r. si_ID r = i);
             db' = update_where P (\<lambda>r. r\<lparr>si_SubmittedAt := (case si_SubmittedAt r of None \<Rightarrow> Some stamp | s \<Rightarrow> s),
                                         si_Attempt := si_Attempt r + 1\<rparr>) db
         in (if rows_affected P db = 0 then Some ErrIntentNotFound else None, db')))"

definition SubmissionStore_Resolve ::
  "bool \<Rightarrow> IntentDB \<Rightarrow> uuid \<Rightarrow> SubmissionState \<Rightarrow> string \<Rightarrow> time \<Rightarrow> submission_error option \<times> IntentDB" where
  "SubmissionStore_Resolve fault db i state detail stamp =
     (if state = SubmissionPending then (Some ErrResolveNeedsTerminal, db)
      else if fault then (Some SubmissionFault, db)
      else
        (let P = (\<lambda>r. si_ID r = i \<and> si_State r = SubmissionPending);
             db' = update_where P (\<lambda>r. r\<lparr>si_State := state, si_OutcomeDetail := detail, si_ResolvedAt := Some stamp,
                      ir_last_reconciled_at := Some stamp, ir_reconcile_attempts := ir_reconcile_attempts r + 1\<rparr>) db
         in (if rows_affected P db = 0 then Some ErrIntentNotFound else None, db')))"

definition SubmissionStore_Get :: "bool \<Rightarrow> IntentDB \<Rightarrow> uuid \<Rightarrow> submission_error + SubmissionIntent" where
  "SubmissionStore_Get fault db i =
     (if fault then Inl SubmissionFault
      else (case find (\<lambda>r. si_ID r = i) db of None \<Rightarrow> Inl ErrIntentNotFound | Some r \<Rightarrow> Inr (scanIntent r)))"

definition due_intents :: "(uuid \<Rightarrow> bool) \<Rightarrow> int \<Rightarrow> time \<Rightarrow> IntentDB \<Rightarrow> IntentRow list" where
  "due_intents locked limit now db =
     take (nat limit) (filter (\<lambda>r. \<not> locked (si_ID r))
       (sort_key ir_next_reconcile_at (filter (\<lambda>r. si_State r = SubmissionPending \<and> ir_next_reconcile_at r \<le> now) db)))"

text \<open>The statement runs in a transaction; a commit that fails leaves the rows as they were, unless only its acknowledgement was lost.\<close>

definition ClaimPendingForReconcile ::
  "duration \<Rightarrow> (uuid \<Rightarrow> bool) \<Rightarrow> sql_fault \<Rightarrow> commit_outcome \<Rightarrow> IntentDB \<Rightarrow> int \<Rightarrow> time \<Rightarrow> (submission_error + SubmissionIntent list) \<times> IntentDB" where
  "ClaimPendingForReconcile backoff locked flt co db limit now =
     (let limit = (if limit \<le> 0 then DefaultReconcileBatch else limit);
          ids = map si_ID (due_intents locked limit now db);
          hit = (\<lambda>r. si_ID r \<in> set ids);
          db' = update_where hit (\<lambda>r. r\<lparr>ir_next_reconcile_at := now + backoff\<rparr>) db
      in if flt 0 \<or> flt 1 then (Inl SubmissionFault, db)
         else (case co of
             Committed \<Rightarrow> (Inr (map scanIntent (filter hit db')), db')
           | NotCommitted \<Rightarrow> (Inl SubmissionFault, db)
           | CommitUnacked \<Rightarrow> (Inl SubmissionFault, db')))"

section \<open>The reconciler\<close>

text \<open>
  One submission: \<open>lookup\<close> is the chain's answer for a hash, or an error. Every branch without
  a chain-derived outcome leaves the table alone.
\<close>

definition SubmissionReconciler_reconcile ::
  "(string \<Rightarrow> submission_error + (string \<times> ChainView)) \<Rightarrow> (uuid \<Rightarrow> bool) \<Rightarrow> time \<Rightarrow> SubmissionIntent \<Rightarrow> IntentDB \<Rightarrow> IntentDB" where
  "SubmissionReconciler_reconcile lookup fault now intent db =
     (case lookup (si_TransactionHash intent) of
        Inl err \<Rightarrow> db
      | Inr (status, view) \<Rightarrow>
          (let outcome = DetermineOutcome status view intent in
           if outcome = OutcomeUnknown then db
           else snd (SubmissionStore_Resolve (fault (si_ID intent)) db (si_ID intent) (ChainOutcome_State outcome)
             (''chain reported '' @ status @ ''; outcome '' @ ChainOutcome_String outcome) now)))"

text \<open>The loop over a batch stops when the context is cancelled; \<open>cancelled\<close> tells before which submission.\<close>

fun reconcile_batch ::
  "(string \<Rightarrow> submission_error + (string \<times> ChainView)) \<Rightarrow> (uuid \<Rightarrow> bool) \<Rightarrow> (uuid \<Rightarrow> bool) \<Rightarrow> (uuid \<Rightarrow> time) \<Rightarrow> SubmissionIntent list \<Rightarrow> IntentDB \<Rightarrow> IntentDB" where
  "reconcile_batch lookup fault cancelled now [] db = db"
| "reconcile_batch lookup fault cancelled now (i # is) db =
     (if cancelled (si_ID i) then db
      else reconcile_batch lookup fault cancelled now is (SubmissionReconciler_reconcile lookup fault (now (si_ID i)) i db))"

definition SubmissionReconciler_Tick ::
  "bool option \<Rightarrow> (string \<Rightarrow> submission_error + (string \<times> ChainView)) \<Rightarrow> (uuid \<Rightarrow> bool) \<Rightarrow> (uuid \<Rightarrow> bool) \<Rightarrow> (uuid \<Rightarrow> time)
   \<Rightarrow> (uuid \<Rightarrow> bool) \<Rightarrow> sql_fault \<Rightarrow> commit_outcome \<Rightarrow> time \<Rightarrow> IntentDB \<Rightarrow> IntentDB" where
  "SubmissionReconciler_Tick leader lookup fault cancelled clock locked flt co now db =
     (if leader = Some False then db
      else (case ClaimPendingForReconcile DefaultReconcileBackoff locked flt co db DefaultReconcileBatch now of
          (Inl err, db1) \<Rightarrow> db1
        | (Inr intents, db1) \<Rightarrow> reconcile_batch lookup fault cancelled clock intents db1))"

section \<open>The chokepoint\<close>

definition existingSubmissionResult :: "SubmissionIntent \<Rightarrow> submission_error option" where
  "existingSubmissionResult stored =
     (case si_State stored of
        SubmissionLanded \<Rightarrow> None
      | SubmissionRejected \<Rightarrow> Some ErrSubmitFailed
      | SubmissionExpired \<Rightarrow> Some ErrSubmitFailed
      | SubmissionUnresolvable \<Rightarrow> Some ErrSubmissionUnresolved
      | SubmissionPending \<Rightarrow> Some ErrSubmissionUnresolved)"

text \<open>The RPC's reply to \<open>sendTransaction\<close>: no reply, an error object, or a result with its hash and status.\<close>

datatype send_reply = NoReply | ReplyError | ReplyResult (sr_hash: string) (sr_status: string)

definition submitEnvelope :: "send_reply \<Rightarrow> submission_error + string" where
  "submitEnvelope reply =
     (case reply of NoReply \<Rightarrow> Inl ErrRPC | ReplyError \<Rightarrow> Inl ErrSubmitFailed
      | ReplyResult hash status \<Rightarrow> if status = ''ERROR'' then Inl ErrSubmitFailed else Inr hash)"

text \<open>
  The world \<open>send\<close> changes: the table and the envelopes handed to the RPC, in order. The
  result is the hash and the error \<open>send\<close> returns.
\<close>

record send_world =
  sw_intents :: IntentDB
  sw_sent :: "string list"

record send_env =
  se_fault :: sql_fault
  se_newID :: uuid
  se_now :: time
  se_after :: time
  se_others :: "IntentDB \<Rightarrow> IntentDB"
  se_reply :: send_reply

definition ContractInvoker_send ::
  "(string \<Rightarrow> parsed_envelope option) \<Rightarrow> string \<Rightarrow> bool \<Rightarrow> string \<Rightarrow> send_env \<Rightarrow> string \<Rightarrow> send_world \<Rightarrow> (string \<times> submission_error option) \<times> send_world" where
  "ContractInvoker_send parse operatorAddress hasStore reference env txB64 w =
     (if \<not> hasStore then
        (case submitEnvelope (se_reply env) of
           Inl e \<Rightarrow> (([], Some e), w\<lparr>sw_sent := sw_sent w @ [txB64]\<rparr>)
         | Inr hash \<Rightarrow> ((hash, None), w\<lparr>sw_sent := sw_sent w @ [txB64]\<rparr>))
      else (case IdentifyTransaction parse txB64 of
          Inl e \<Rightarrow> (([], Some e), w)
        | Inr identity \<Rightarrow>
            if time_is_zero (ti_ValidUntil identity) then (([], Some ErrNoTimeBound), w)
            else
              (let reference = (if reference = [] then ''tx:'' @ ti_Hash identity else reference);
                   intent = \<lparr>si_ID = uuid_Nil, si_IdempotencyReference = reference, si_TransactionHash = ti_Hash identity,
                     si_ValidUntil = ti_ValidUntil identity, si_SourceAccount = operatorAddress, si_DomainAction = [],
                     si_State = SubmissionPending, si_Attempt = 0, si_CreatedAt = se_now env, si_SubmittedAt = None,
                     si_ResolvedAt = None, si_OutcomeDetail = []\<rparr>
               in case SubmissionStore_Claim (se_fault env) (se_newID env) (se_now env) (se_others env) (sw_intents w) intent of
                    (Inl e, db) \<Rightarrow> (([], Some e), w\<lparr>sw_intents := db\<rparr>)
                  | (Inr (stored, claimed), db) \<Rightarrow>
                      if \<not> claimed then ((si_TransactionHash stored, existingSubmissionResult stored), w\<lparr>sw_intents := db\<rparr>)
                      else
                        (let w1 = w\<lparr>sw_sent := sw_sent w @ [txB64],
                                    sw_intents := snd (SubmissionStore_MarkSubmitted (se_fault env 2) db (si_ID stored) (se_after env))\<rparr>
                         in case submitEnvelope (se_reply env) of
                              Inl e \<Rightarrow> ((si_TransactionHash stored, Some ErrSubmissionUnresolved), w1)
                            | Inr hash \<Rightarrow> ((hash, None), w1)))))"

section \<open>Reading the chain's answer\<close>

text \<open>
  \<open>LookupTransaction\<close> turns the RPC's reply, a status and two decimal strings of Unix seconds,
  into a status and a view.
\<close>

datatype lookup_reply = LookupNoReply | LookupErrorObject | LookupResult string string string

definition parseLedgerCloseTime :: "string \<Rightarrow> time" where
  "parseLedgerCloseTime raw =
     (case parse_int64 (trim_space raw) of None \<Rightarrow> 0 | Some seconds \<Rightarrow> if seconds \<le> 0 then 0 else time_Unix seconds)"

definition chainView :: "string \<Rightarrow> string \<Rightarrow> ChainView" where
  "chainView latest oldest =
     \<lparr>LatestLedgerCloseTime = parseLedgerCloseTime latest, OldestLedgerCloseTime = parseLedgerCloseTime oldest\<rparr>"

definition LookupTransaction :: "(string \<Rightarrow> lookup_reply) \<Rightarrow> string \<Rightarrow> submission_error + (string \<times> ChainView)" where
  "LookupTransaction rpc hash =
     (case rpc hash of
        LookupNoReply \<Rightarrow> Inl ErrRPC
      | LookupErrorObject \<Rightarrow> Inl ErrRPC
      | LookupResult status latest oldest \<Rightarrow> Inr (status, chainView latest oldest))"

end
