(* ===== verification/Submission_Properties.thy ===== *)
theory Submission_Properties
  imports Submission
begin

text \<open>
  What the submission record guarantees: each logical operation is handed to the chain at
  most once, an operation is declared dead only when it cannot have taken effect and never
  will, settled records never change, and where the code falls short of that.
\<close>

section \<open>At most one submission\<close>

lemma scanIntent_simps [simp]:
  "si_ID (scanIntent r) = si_ID r" "si_State (scanIntent r) = si_State r" "si_TransactionHash (scanIntent r) = si_TransactionHash r"
  "si_IdempotencyReference (scanIntent r) = si_IdempotencyReference r" "si_CreatedAt (scanIntent r) = si_CreatedAt r"
  "si_SubmittedAt (scanIntent r) = si_SubmittedAt r" "si_ValidUntil (scanIntent r) = si_ValidUntil r"
  by (simp_all add: scanIntent_def SubmissionIntent.truncate_def)

lemma new_intent_simps [simp]:
  "si_ID (new_intent n t i) = n" "si_IdempotencyReference (new_intent n t i) = si_IdempotencyReference i"
  "si_State (new_intent n t i) = SubmissionPending"
  by (simp_all add: new_intent_def Let_def)

definition references :: "IntentDB \<Rightarrow> string list" where
  "references db = map si_IdempotencyReference db"

text \<open>The reference under which \<open>send\<close> records an envelope.\<close>

definition effective_reference :: "(string \<Rightarrow> parsed_envelope option) \<Rightarrow> string \<Rightarrow> string \<Rightarrow> string" where
  "effective_reference parse reference txB64 =
     (case IdentifyTransaction parse txB64 of Inl _ \<Rightarrow> reference
      | Inr identity \<Rightarrow> if reference = [] then ''tx:'' @ ti_Hash identity else reference)"

lemma references_update: "(\<And>r. P r \<Longrightarrow> si_IdempotencyReference (f r) = si_IdempotencyReference r) \<Longrightarrow>
   references (update_where P f db) = references db"
  by (simp add: references_def map_update_where)

lemma MarkSubmitted_references: "references (snd (SubmissionStore_MarkSubmitted fault db i t)) = references db"
  by (simp add: SubmissionStore_MarkSubmitted_def Let_def references_update)

lemma Claim_cases:
  assumes "SubmissionStore_Claim flt newID now id db i = (res, db')"
  shows "(\<exists>e. res = Inl e \<and> db' = db) \<or> (\<exists>st. res = Inr (st, False) \<and> db' = db)
    \<or> res = Inr (scanIntent (new_intent newID now i), True) \<and> db' = db @ [new_intent newID now i]
       \<and> si_IdempotencyReference i \<notin> set (references db) \<and> newID \<notin> si_ID ` set db \<and> si_IdempotencyReference i \<noteq> []"
  using assms
  by (auto simp: SubmissionStore_Claim_def insertIntent_def getByReference_def references_def Let_def
      split: if_splits sum.splits option.splits prod.splits)

text \<open>Either nothing is handed over and the set of references stays, or one envelope is, under a reference that was not there.\<close>

lemma send_cases:
  assumes "ContractInvoker_send parse addr True reference env txB64 w = (res, w')" and "se_others env = id"
  shows "(sw_sent w' = sw_sent w \<and> sw_intents w' = sw_intents w)
    \<or> (sw_sent w' = sw_sent w @ [txB64] \<and> effective_reference parse reference txB64 \<notin> set (references (sw_intents w))
       \<and> references (sw_intents w') = references (sw_intents w) @ [effective_reference parse reference txB64])"
proof (cases "IdentifyTransaction parse txB64")
  case (Inl e)
  then show ?thesis using assms(1) by (auto simp: ContractInvoker_send_def)
next
  case (Inr identity)
  let ?i = "\<lparr>si_ID = uuid_Nil, si_IdempotencyReference = effective_reference parse reference txB64, si_TransactionHash = ti_Hash identity,
      si_ValidUntil = ti_ValidUntil identity, si_SourceAccount = addr, si_DomainAction = [], si_State = SubmissionPending, si_Attempt = 0,
      si_CreatedAt = se_now env, si_SubmittedAt = None, si_ResolvedAt = None, si_OutcomeDetail = []\<rparr>"
  obtain q db where c: "SubmissionStore_Claim (se_fault env) (se_newID env) (se_now env) id (sw_intents w) ?i = (q, db)" by fastforce
  have eff: "effective_reference parse reference txB64 = (if reference = [] then ''tx:'' @ ti_Hash identity else reference)"
    using Inr by (simp add: effective_reference_def)
  show ?thesis
    using Claim_cases [OF c] assms c Inr
    by (auto simp: ContractInvoker_send_def Let_def eff [symmetric] references_def MarkSubmitted_references [unfolded references_def]
        split: if_splits sum.splits)
qed

text \<open>The operations on the table and the chain, in any order and number.\<close>

datatype submission_op =
    OpSend string send_env string
  | OpTick "bool option" "string \<Rightarrow> submission_error + (string \<times> ChainView)" "uuid \<Rightarrow> bool" "uuid \<Rightarrow> bool" "uuid \<Rightarrow> time"
      "uuid \<Rightarrow> bool" sql_fault commit_outcome time

fun submission_exec :: "(string \<Rightarrow> parsed_envelope option) \<Rightarrow> string \<Rightarrow> submission_op \<Rightarrow> send_world \<Rightarrow> send_world" where
  "submission_exec parse addr (OpSend reference env txB64) w = snd (ContractInvoker_send parse addr True reference (env\<lparr>se_others := id\<rparr>) txB64 w)"
| "submission_exec parse addr (OpTick leader lookup fault cancelled clock locked flt co now) w =
     w\<lparr>sw_intents := SubmissionReconciler_Tick leader lookup fault cancelled clock locked flt co now (sw_intents w)\<rparr>"

fun submission_run :: "(string \<Rightarrow> parsed_envelope option) \<Rightarrow> string \<Rightarrow> submission_op list \<Rightarrow> send_world \<Rightarrow> send_world" where
  "submission_run parse addr [] w = w"
| "submission_run parse addr (op # ops) w = submission_run parse addr ops (submission_exec parse addr op w)"

text \<open>The references under which a run hands an envelope to the chain, in order.\<close>

fun sent_references :: "(string \<Rightarrow> parsed_envelope option) \<Rightarrow> string \<Rightarrow> submission_op list \<Rightarrow> send_world \<Rightarrow> string list" where
  "sent_references parse addr [] w = []"
| "sent_references parse addr (op # ops) w =
     (let w' = submission_exec parse addr op w in
      (case op of OpSend reference env txB64 \<Rightarrow> if sw_sent w' = sw_sent w then [] else [effective_reference parse reference txB64] | _ \<Rightarrow> [])
      @ sent_references parse addr ops w')"

lemma Resolve_references: "references (snd (SubmissionStore_Resolve fault db i st d t)) = references db"
  by (simp add: SubmissionStore_Resolve_def Let_def references_update)

lemma reconcile_batch_references: "references (reconcile_batch lookup fault cancelled now is db) = references db"
  by (induction "is" arbitrary: db)
    (simp_all add: SubmissionReconciler_reconcile_def Resolve_references Let_def split: sum.splits prod.splits)

lemma ClaimPending_references: "references (snd (ClaimPendingForReconcile b locked flt co db limit now)) = references db"
  by (simp add: ClaimPendingForReconcile_def Let_def references_update split: commit_outcome.splits)

lemma Tick_references: "references (SubmissionReconciler_Tick leader lookup fault cancelled clock locked flt co now db) = references db"
  using ClaimPending_references [of DefaultReconcileBackoff locked flt co db DefaultReconcileBatch now]
  by (auto simp: SubmissionReconciler_Tick_def reconcile_batch_references split: prod.splits sum.splits)

lemma sent_references_fresh:
  "distinct (sent_references parse addr ops w) \<and> set (sent_references parse addr ops w) \<inter> set (references (sw_intents w)) = {}
   \<and> length (sw_sent (submission_run parse addr ops w)) = length (sw_sent w) + length (sent_references parse addr ops w)"
proof (induction ops arbitrary: w)
  case (Cons op ops)
  show ?case
  proof (cases op)
    case (OpSend reference env txB64)
    let ?S = "ContractInvoker_send parse addr True reference (env\<lparr>se_others := id\<rparr>) txB64 w"
    have "?S = (fst ?S, snd ?S)" by simp
    from send_cases [OF this] Cons.IH [of "snd ?S"] show ?thesis by (auto simp: OpSend Let_def)
  next
    case (OpTick leader lookup fault cancelled clock locked flt co now)
    then show ?thesis
      using Cons.IH [of "w\<lparr>sw_intents := SubmissionReconciler_Tick leader lookup fault cancelled clock locked flt co now (sw_intents w)\<rparr>"]
      by (simp add: Tick_references Let_def)
  qed
qed simp

text \<open>
  C16: a logical operation is handed to the chain at most once. In any sequence of sends,
  with any envelopes, references, replies and failed statements, and of reconciler sweeps
  between them, no reference is submitted twice; a send without a reference is keyed by its
  transaction hash, so one signed envelope is submitted at most once.
\<close>

theorem send_at_most_once:
  "distinct (sent_references parse addr ops w)
   \<and> set (sent_references parse addr ops w) \<inter> set (references (sw_intents w)) = {}
   \<and> length (sw_sent (submission_run parse addr ops w)) = length (sw_sent w) + length (sent_references parse addr ops w)"
  by (rule sent_references_fresh)

section \<open>Settled submissions\<close>

text \<open>What every operation keeps of a row: its identity, and its outcome once it is terminal.\<close>

definition keeps_settled :: "IntentRow \<Rightarrow> IntentRow \<Rightarrow> bool" where
  "keeps_settled r r' \<longleftrightarrow> si_ID r' = si_ID r \<and> si_IdempotencyReference r' = si_IdempotencyReference r
     \<and> si_TransactionHash r' = si_TransactionHash r \<and> si_ValidUntil r' = si_ValidUntil r \<and> si_CreatedAt r' = si_CreatedAt r
     \<and> (si_SubmittedAt r \<noteq> None \<longrightarrow> si_SubmittedAt r' = si_SubmittedAt r)
     \<and> (SubmissionState_Terminal (si_State r) \<longrightarrow> si_State r' = si_State r \<and> si_OutcomeDetail r' = si_OutcomeDetail r \<and> si_ResolvedAt r' = si_ResolvedAt r)"

definition all_kept :: "IntentDB \<Rightarrow> IntentDB \<Rightarrow> bool" where
  "all_kept db db' \<longleftrightarrow> (\<forall>r \<in> set db. \<exists>r' \<in> set db'. keeps_settled r r')"

lemma keeps_settled_refl: "keeps_settled r r"
  by (simp add: keeps_settled_def)

lemma keeps_settled_trans: "keeps_settled r s \<Longrightarrow> keeps_settled s t \<Longrightarrow> keeps_settled r t"
  unfolding keeps_settled_def by force

lemma all_kept_refl: "all_kept db db"
  using keeps_settled_refl by (auto simp: all_kept_def)

lemma all_kept_trans: "all_kept a b \<Longrightarrow> all_kept b c \<Longrightarrow> all_kept a c"
  unfolding all_kept_def using keeps_settled_trans by blast

lemma all_kept_append: "all_kept db (db @ xs)"
  using keeps_settled_refl by (auto simp: all_kept_def)

lemma all_kept_update: "(\<And>r. P r \<Longrightarrow> keeps_settled r (f r)) \<Longrightarrow> all_kept db (update_where P f db)"
  unfolding all_kept_def set_update_where
proof
  fix r assume "\<And>r. P r \<Longrightarrow> keeps_settled r (f r)" "r \<in> set db"
  then show "\<exists>r' \<in> (\<lambda>r. if P r then f r else r) ` set db. keeps_settled r r'"
    by (intro bexI [of _ "if P r then f r else r"]) (auto simp: keeps_settled_refl)
qed

lemma terminal_iff: "SubmissionState_Terminal s \<longleftrightarrow> s \<noteq> SubmissionPending"
  by (cases s) (simp_all add: SubmissionState_Terminal_def)

lemma MarkSubmitted_kept: "all_kept db (snd (SubmissionStore_MarkSubmitted fault db i t))"
  by (auto simp: SubmissionStore_MarkSubmitted_def Let_def keeps_settled_def all_kept_refl intro!: all_kept_update split: option.splits)

lemma Resolve_kept: "all_kept db (snd (SubmissionStore_Resolve fault db i st d t))"
  by (auto simp: SubmissionStore_Resolve_def Let_def keeps_settled_def terminal_iff all_kept_refl intro!: all_kept_update)

lemma reconcile_kept: "all_kept db (SubmissionReconciler_reconcile lookup fault now i db)"
  by (auto simp: SubmissionReconciler_reconcile_def Let_def all_kept_refl Resolve_kept split: sum.splits)

lemma reconcile_batch_kept: "all_kept db (reconcile_batch lookup fault cancelled now is db)"
  by (induction "is" arbitrary: db) (auto simp: all_kept_refl intro: all_kept_trans reconcile_kept)

lemma ClaimPending_kept: "all_kept db (snd (ClaimPendingForReconcile b locked flt co db limit now))"
  by (auto simp: ClaimPendingForReconcile_def Let_def keeps_settled_def all_kept_refl intro!: all_kept_update split: commit_outcome.splits)

lemma Tick_kept: "all_kept db (SubmissionReconciler_Tick leader lookup fault cancelled clock locked flt co now db)"
  using ClaimPending_kept [of db DefaultReconcileBackoff locked flt co DefaultReconcileBatch now]
  by (auto simp: SubmissionReconciler_Tick_def all_kept_refl split: prod.splits sum.splits intro: all_kept_trans reconcile_batch_kept)

lemma send_kept:
  assumes "se_others env = id"
  shows "all_kept (sw_intents w) (sw_intents (snd (ContractInvoker_send parse addr True reference env txB64 w)))"
proof (cases "IdentifyTransaction parse txB64")
  case (Inr identity)
  let ?i = "\<lparr>si_ID = uuid_Nil, si_IdempotencyReference = effective_reference parse reference txB64, si_TransactionHash = ti_Hash identity,
      si_ValidUntil = ti_ValidUntil identity, si_SourceAccount = addr, si_DomainAction = [], si_State = SubmissionPending, si_Attempt = 0,
      si_CreatedAt = se_now env, si_SubmittedAt = None, si_ResolvedAt = None, si_OutcomeDetail = []\<rparr>"
  obtain q db where c: "SubmissionStore_Claim (se_fault env) (se_newID env) (se_now env) id (sw_intents w) ?i = (q, db)" by fastforce
  have eff: "effective_reference parse reference txB64 = (if reference = [] then ''tx:'' @ ti_Hash identity else reference)"
    using Inr by (simp add: effective_reference_def)
  have "all_kept (sw_intents w) db" using Claim_cases [OF c] by (auto simp: all_kept_refl all_kept_append)
  then show ?thesis
    using assms c Inr
    by (auto simp: ContractInvoker_send_def Let_def eff [symmetric] all_kept_refl split: sum.splits intro: all_kept_trans MarkSubmitted_kept)
qed (simp add: ContractInvoker_send_def all_kept_refl)

lemma run_kept: "all_kept (sw_intents w) (sw_intents (submission_run parse addr ops w))"
proof (induction ops arbitrary: w)
  case (Cons op ops)
  have "all_kept (sw_intents w) (sw_intents (submission_exec parse addr op w))"
    by (cases op) (simp_all add: send_kept Tick_kept)
  then show ?case using Cons.IH [of "submission_exec parse addr op w"] by (auto intro: all_kept_trans)
qed (simp add: all_kept_refl)

text \<open>
  C17: A settled submission stays settled. Whatever sends and sweeps follow, a row in a
  terminal state keeps its state, its detail and its time of resolution, and every row keeps
  its reference and transaction hash: a late sweep cannot overwrite an outcome.
\<close>

theorem settled_submissions_stick:
  assumes "r \<in> set (sw_intents w)" and "SubmissionState_Terminal (si_State r)"
  shows "\<exists>r' \<in> set (sw_intents (submission_run parse addr ops w)).
     si_ID r' = si_ID r \<and> si_IdempotencyReference r' = si_IdempotencyReference r \<and> si_TransactionHash r' = si_TransactionHash r
     \<and> si_State r' = si_State r \<and> si_OutcomeDetail r' = si_OutcomeDetail r \<and> si_ResolvedAt r' = si_ResolvedAt r"
  using run_kept [of w parse addr ops] assms unfolding all_kept_def keeps_settled_def by blast

definition demo_parse :: "string \<Rightarrow> parsed_envelope option" where
  "demo_parse b = Some (TxEnvelope (Some (''h'' @ b)) (Some 2000000000))"

definition demo_send_env :: send_env where
  "demo_send_env = \<lparr>se_fault = no_fault, se_newID = 5, se_now = 100, se_after = 120, se_others = id, se_reply = NoReply\<rparr>"

definition demo_lookup :: "string \<Rightarrow> submission_error + (string \<times> ChainView)" where
  "demo_lookup hash = Inr (''SUCCESS'', \<lparr>LatestLedgerCloseTime = 200, OldestLedgerCloseTime = 50\<rparr>)"

definition demo_submissions :: send_world where
  "demo_submissions = submission_run demo_parse ''G'' [OpSend ''op-1'' demo_send_env ''tx'',
     OpTick None demo_lookup (\<lambda>_. False) (\<lambda>_. False) (\<lambda>_. 210) (\<lambda>_. False) no_fault Committed 205] \<lparr>sw_intents = [], sw_sent = []\<rparr>"

definition demo_landed :: IntentRow where
  "demo_landed = hd (sw_intents demo_submissions)"

lemma demo_landed_facts:
  "sw_intents demo_submissions = [demo_landed]" "si_State demo_landed = SubmissionLanded" "si_ID demo_landed = 5"
  "si_TransactionHash demo_landed = ''htx''" "sw_sent demo_submissions = [''tx'']"
  by code_simp+

theorem settled_submissions_stick_witness:
  "\<exists>r' \<in> set (sw_intents (submission_run demo_parse ''G'' [OpSend ''op-1'' demo_send_env ''tx'',
      OpTick None (\<lambda>_. Inr (''FAILED'', \<lparr>LatestLedgerCloseTime = 200, OldestLedgerCloseTime = 50\<rparr>)) (\<lambda>_. False) (\<lambda>_. False) (\<lambda>_. 210)
        (\<lambda>_. False) no_fault Committed 300] demo_submissions)). si_ID r' = 5 \<and> si_State r' = SubmissionLanded"
  using settled_submissions_stick [of demo_landed demo_submissions demo_parse "''G''" "[OpSend ''op-1'' demo_send_env ''tx'',
      OpTick None (\<lambda>_. Inr (''FAILED'', \<lparr>LatestLedgerCloseTime = 200, OldestLedgerCloseTime = 50\<rparr>)) (\<lambda>_. False) (\<lambda>_. False) (\<lambda>_. 210)
        (\<lambda>_. False) no_fault Committed 300]"]
  by (auto simp: demo_landed_facts SubmissionState_Terminal_def simp del: submission_run.simps)

section \<open>Outcomes are the chain's\<close>

text \<open>
  The whole history of the chain, past and to come: each inclusion of a transaction, with the
  close time of its ledger and whether it succeeded. What the RPC and the network document:
  an answer reflects that history inside the window the RPC remembers, a transaction is
  included at most once, and never after its own time bound.
\<close>

type_synonym history = "(string \<times> time \<times> bool) list"

definition took_effect :: "history \<Rightarrow> string \<Rightarrow> bool" where
  "took_effect chain hash \<longleftrightarrow> list_ex (\<lambda>(h, t, ok). h = hash \<and> ok) chain"

definition honest_answer :: "history \<Rightarrow> string \<Rightarrow> string \<Rightarrow> ChainView \<Rightarrow> bool" where
  "honest_answer chain hash status view \<longleftrightarrow>
     (status = TxStatusSuccess \<longrightarrow> list_ex (\<lambda>(h, t, ok). h = hash \<and> ok) chain) \<and>
     (status = TxStatusFailed \<longrightarrow> list_ex (\<lambda>(h, t, ok). h = hash \<and> \<not> ok) chain) \<and>
     (status = TxStatusNotFound \<longrightarrow>
        list_all (\<lambda>(h, t, ok). h = hash \<longrightarrow> t < OldestLedgerCloseTime view \<or> LatestLedgerCloseTime view < t) chain)"

definition included_once :: "history \<Rightarrow> string \<Rightarrow> bool" where
  "included_once chain hash \<longleftrightarrow> length (filter (\<lambda>(h, t, ok). h = hash) chain) \<le> 1"

definition included_by :: "history \<Rightarrow> string \<Rightarrow> time \<Rightarrow> bool" where
  "included_by chain hash hi \<longleftrightarrow> list_all (\<lambda>(h, t, ok). h = hash \<longrightarrow> t \<le> hi) chain"

definition included_from :: "history \<Rightarrow> string \<Rightarrow> time \<Rightarrow> bool" where
  "included_from chain hash lo \<longleftrightarrow> list_ex (\<lambda>(h, t, ok). h = hash \<and> lo \<le> t) chain"

lemma included_once_same:
  assumes "included_once chain hash" and "(hash, t, ok) \<in> set chain" and "(hash, t', ok') \<in> set chain"
  shows "ok = ok'"
proof -
  let ?F = "filter (\<lambda>(h, t, ok). h = hash) chain"
  have "(hash, t, ok) \<in> set ?F" "(hash, t', ok') \<in> set ?F" using assms(2,3) by auto
  then show ?thesis using assms(1) unfolding included_once_def by (cases ?F) auto
qed

lemma outcome_sound:
  assumes "honest_answer chain (si_TransactionHash i) status view" and "included_once chain (si_TransactionHash i)"
    and "included_by chain (si_TransactionHash i) (si_ValidUntil i)"
  shows "(DetermineOutcome status view i = OutcomeRejected \<longrightarrow> \<not> took_effect chain (si_TransactionHash i))
    \<and> (DetermineOutcome status view i = OutcomeProvenNotLanded \<longrightarrow> \<not> included_from chain (si_TransactionHash i) (EarliestInclusion i))
    \<and> (DetermineOutcome status view i = OutcomeLanded \<longrightarrow> took_effect chain (si_TransactionHash i))"
proof (intro conjI impI)
  assume "DetermineOutcome status view i = OutcomeRejected"
  then have "status = TxStatusFailed" by (auto simp: DetermineOutcome_def split: if_splits)
  then show "\<not> took_effect chain (si_TransactionHash i)"
    using assms(1) included_once_same [OF assms(2)] by (auto simp: honest_answer_def took_effect_def list_ex_iff)
next
  assume "DetermineOutcome status view i = OutcomeProvenNotLanded"
  then have "status = TxStatusNotFound" "si_ValidUntil i < LatestLedgerCloseTime view" "OldestLedgerCloseTime view \<le> EarliestInclusion i"
    by (auto simp: DetermineOutcome_def split: if_splits)
  then show "\<not> included_from chain (si_TransactionHash i) (EarliestInclusion i)"
    using assms(1,3) by (fastforce simp: honest_answer_def included_from_def included_by_def list_ex_iff list_all_iff)
next
  assume "DetermineOutcome status view i = OutcomeLanded"
  then show "took_effect chain (si_TransactionHash i)"
    using assms(1) by (auto simp: DetermineOutcome_def honest_answer_def took_effect_def split: if_splits)
qed

text \<open>A sweep changes a pending row only to the state its own lookup determines.\<close>

definition same_submission :: "('a SubmissionIntent_scheme) \<Rightarrow> ('b SubmissionIntent_scheme) \<Rightarrow> bool" where
  "same_submission r r' \<longleftrightarrow> si_ID r' = si_ID r \<and> si_TransactionHash r' = si_TransactionHash r \<and> si_ValidUntil r' = si_ValidUntil r
     \<and> si_CreatedAt r' = si_CreatedAt r \<and> si_SubmittedAt r' = si_SubmittedAt r"

definition resolved_by :: "(string \<Rightarrow> submission_error + (string \<times> ChainView)) \<Rightarrow> IntentRow \<Rightarrow> IntentRow \<Rightarrow> bool" where
  "resolved_by lookup r r' \<longleftrightarrow> same_submission r r' \<and>
     (si_State r' = si_State r \<or> si_State r = SubmissionPending \<and>
       (\<exists>status view. lookup (si_TransactionHash r) = Inr (status, view) \<and> DetermineOutcome status view (scanIntent r) \<noteq> OutcomeUnknown
          \<and> si_State r' = ChainOutcome_State (DetermineOutcome status view (scanIntent r))))"

lemma DetermineOutcome_same:
  "same_submission r i \<Longrightarrow> DetermineOutcome status view i = DetermineOutcome status view (scanIntent r)"
  by (simp add: same_submission_def DetermineOutcome_def EarliestInclusion_def split: option.splits)

lemma State_pending_iff: "ChainOutcome_State oc = SubmissionPending \<longleftrightarrow> oc = OutcomeUnknown"
  by (cases oc) (simp_all add: ChainOutcome_State_def)

lemma resolved_by_refl: "resolved_by lookup r r"
  by (simp add: resolved_by_def same_submission_def)

lemma resolved_by_trans: "resolved_by lookup r s \<Longrightarrow> resolved_by lookup s t \<Longrightarrow> resolved_by lookup r t"
  using DetermineOutcome_same [of r "scanIntent s"] by (auto simp: resolved_by_def same_submission_def State_pending_iff)

lemma resolved_list_trans:
  "list_all2 (resolved_by lookup) a b \<Longrightarrow> list_all2 (resolved_by lookup) b c \<Longrightarrow> list_all2 (resolved_by lookup) a c"
  by (rule list_all2_trans) (auto intro: resolved_by_trans)

lemma resolved_update:
  "(\<And>r. r \<in> set db \<Longrightarrow> P r \<Longrightarrow> resolved_by lookup r (f r)) \<Longrightarrow> list_all2 (resolved_by lookup) db (update_where P f db)"
  by (induction db) (auto simp: update_where_Cons resolved_by_refl)

lemma resolved_list_refl: "list_all2 (resolved_by lookup) db db"
  by (simp add: list_all2_refl resolved_by_refl)

text \<open>The snapshot a sweep works from agrees with the table on what does not change.\<close>

definition agrees :: "SubmissionIntent list \<Rightarrow> IntentDB \<Rightarrow> bool" where
  "agrees is db \<longleftrightarrow> (\<forall>i \<in> set is. \<forall>r \<in> set db. si_ID r = si_ID i \<longrightarrow> same_submission r i)"

lemma agrees_resolved: "agrees is db \<Longrightarrow> list_all2 (resolved_by lookup) db db' \<Longrightarrow> agrees is db'"
  unfolding agrees_def
proof (intro ballI impI)
  fix i r' assume a: "\<forall>i \<in> set is. \<forall>r \<in> set db. si_ID r = si_ID i \<longrightarrow> same_submission r i" "list_all2 (resolved_by lookup) db db'"
    and i: "i \<in> set is" and r': "r' \<in> set db'" "si_ID r' = si_ID i"
  obtain r where "r \<in> set db" "resolved_by lookup r r'" using a(2) r'(1) by (rule list_all2_rightE)
  then show "same_submission r' i" using a(1) i r'(2) by (force simp: resolved_by_def same_submission_def)
qed

lemma reconcile_resolves:
  assumes "\<forall>r \<in> set db. si_ID r = si_ID i \<longrightarrow> same_submission r i"
  shows "list_all2 (resolved_by lookup) db (SubmissionReconciler_reconcile lookup fault now i db)"
proof -
  have "resolved_by lookup r (r\<lparr>si_State := ChainOutcome_State (DetermineOutcome status view i), si_OutcomeDetail := d, si_ResolvedAt := t,
      ir_last_reconciled_at := t, ir_reconcile_attempts := n\<rparr>)"
    if "lookup (si_TransactionHash i) = Inr (status, view)" "DetermineOutcome status view i \<noteq> OutcomeUnknown" "r \<in> set db" "si_ID r = si_ID i"
      "si_State r = SubmissionPending" for status view r d t n
  proof -
    have s: "same_submission r i" using assms that(3,4) by blast
    then have "si_TransactionHash i = si_TransactionHash r" by (simp add: same_submission_def)
    then show ?thesis using that DetermineOutcome_same [OF s] by (auto simp: resolved_by_def same_submission_def)
  qed
  then show ?thesis
    by (auto simp: SubmissionReconciler_reconcile_def SubmissionStore_Resolve_def Let_def resolved_list_refl
        intro!: resolved_update split: sum.splits)
qed

lemma reconcile_batch_resolves:
  "agrees is db \<Longrightarrow> list_all2 (resolved_by lookup) db (reconcile_batch lookup fault cancelled now is db)"
proof (induction "is" arbitrary: db)
  case (Cons i "is")
  let ?db1 = "SubmissionReconciler_reconcile lookup fault (now (si_ID i)) i db"
  have one: "list_all2 (resolved_by lookup) db ?db1" using Cons.prems by (intro reconcile_resolves) (auto simp: agrees_def)
  have "agrees is ?db1" using agrees_resolved [OF _ one, of "is"] Cons.prems by (auto simp: agrees_def)
  then show ?case using Cons.IH [of ?db1] one resolved_list_trans by (auto simp: resolved_list_refl)
qed (simp add: resolved_list_refl)

lemma Tick_resolves:
  assumes "distinct (map si_ID db)"
  shows "list_all2 (resolved_by lookup) db (SubmissionReconciler_Tick leader lookup fault cancelled clock locked flt co now db)"
proof -
  obtain q db1 where c: "ClaimPendingForReconcile DefaultReconcileBackoff locked flt co db DefaultReconcileBatch now = (q, db1)" by fastforce
  have one: "list_all2 (resolved_by lookup) db db1"
    using c by (auto simp: ClaimPendingForReconcile_def Let_def resolved_by_def same_submission_def resolved_list_refl
        intro!: resolved_update split: if_splits commit_outcome.splits)
  have ids: "map si_ID db1 = map si_ID db"
    using one by (induction rule: list_all2_induct) (auto simp: resolved_by_def same_submission_def)
  have "agrees is db1" if "q = Inr is" for "is"
  proof -
    have "\<forall>i \<in> set is. \<exists>r \<in> set db1. i = scanIntent r"
      using c that by (auto simp: ClaimPendingForReconcile_def Let_def split: if_splits commit_outcome.splits)
    then show ?thesis
      using assms ids distinct_map_unique [of si_ID db1] unfolding agrees_def same_submission_def by (metis scanIntent_simps(1,3,5,6,7))
  qed
  then show ?thesis
    using c one by (auto simp: SubmissionReconciler_Tick_def resolved_list_refl split: sum.splits intro: resolved_list_trans reconcile_batch_resolves)
qed

text \<open>
  C15: what a sweep may conclude. Against any history of the chain, given honest RPC answers, a
  transaction included at most once and never after its time bound, a sweep leaves a submission
  rejected only if it never takes effect, and landed only if it did; and it leaves one expired,
  which permits a new attempt, only if no inclusion, in the past or the future, is at or after the
  time the record gives as its earliest. That time is read after the RPC call has returned, so an
  inclusion during the call can lie before it: \<open>late_submission_time_buries\<close> is the exception.
\<close>

theorem sweep_never_buries_a_live_transaction:
  assumes "distinct (map si_ID db)" and "r \<in> set db" and "si_State r = SubmissionPending"
    and "\<forall>status view. lookup (si_TransactionHash r) = Inr (status, view) \<longrightarrow> honest_answer chain (si_TransactionHash r) status view"
    and "included_once chain (si_TransactionHash r)" and "included_by chain (si_TransactionHash r) (si_ValidUntil r)"
    and "r' \<in> set (SubmissionReconciler_Tick leader lookup fault cancelled clock locked flt co now db)" and "si_ID r' = si_ID r"
  shows "(si_State r' = SubmissionRejected \<longrightarrow> \<not> took_effect chain (si_TransactionHash r))
    \<and> (si_State r' = SubmissionExpired \<longrightarrow> \<not> included_from chain (si_TransactionHash r) (EarliestInclusion (scanIntent r)))
    \<and> (si_State r' = SubmissionLanded \<longrightarrow> took_effect chain (si_TransactionHash r))"
proof -
  obtain s where s: "s \<in> set db" "resolved_by lookup s r'"
    using Tick_resolves [OF assms(1)] assms(7) by (rule list_all2_rightE)
  then have "s = r" using assms(1,2,8) distinct_map_unique [of si_ID db s r] by (simp add: resolved_by_def same_submission_def)
  then consider "si_State r' = SubmissionPending" | status view where "lookup (si_TransactionHash r) = Inr (status, view)"
      "si_State r' = ChainOutcome_State (DetermineOutcome status view (scanIntent r))"
    using s(2) assms(3) by (auto simp: resolved_by_def)
  then show ?thesis
  proof cases
    case 2
    have "honest_answer chain (si_TransactionHash (scanIntent r)) status view" using assms(4) 2(1) by simp
    from outcome_sound [OF this] assms(5,6) show ?thesis
      unfolding 2(2) by (cases "DetermineOutcome status view (scanIntent r)") (simp_all add: ChainOutcome_State_def)
  qed simp
qed

definition demo_expired_view :: ChainView where
  "demo_expired_view = \<lparr>LatestLedgerCloseTime = 100000000000 * second, OldestLedgerCloseTime = 50\<rparr>"

definition demo_pending :: IntentDB where
  "demo_pending = sw_intents (submission_run demo_parse ''G'' [OpSend ''op-1'' demo_send_env ''tx''] \<lparr>sw_intents = [], sw_sent = []\<rparr>)"

definition demo_swept :: IntentDB where
  "demo_swept = SubmissionReconciler_Tick None (\<lambda>_. Inr (''NOT_FOUND'', demo_expired_view)) (\<lambda>_. False) (\<lambda>_. False) (\<lambda>_. 300)
     (\<lambda>_. False) no_fault Committed 250 demo_pending"

theorem sweep_never_buries_a_live_transaction_witness:
  "si_State (hd demo_swept) = SubmissionExpired
   \<and> \<not> included_from [(''other'', 150, True)] (si_TransactionHash (hd demo_pending)) (EarliestInclusion (scanIntent (hd demo_pending)))"
proof -
  have "distinct (map si_ID demo_pending)" "hd demo_pending \<in> set demo_pending" "si_State (hd demo_pending) = SubmissionPending" by code_simp+
  moreover have "included_once [(''other'', 150, True)] (si_TransactionHash (hd demo_pending))"
    "included_by [(''other'', 150, True)] (si_TransactionHash (hd demo_pending)) (si_ValidUntil (hd demo_pending))"
    "honest_answer [(''other'', 150, True)] (si_TransactionHash (hd demo_pending)) ''NOT_FOUND'' demo_expired_view"
    by code_simp+
  moreover have "hd demo_swept \<in> set demo_swept" "si_ID (hd demo_swept) = si_ID (hd demo_pending)" "si_State (hd demo_swept) = SubmissionExpired" by code_simp+
  ultimately show ?thesis
    using sweep_never_buries_a_live_transaction [of demo_pending "hd demo_pending" "\<lambda>_. Inr (''NOT_FOUND'', demo_expired_view)" "[(''other'', 150, True)]" "hd demo_swept"
        None "\<lambda>_. False" "\<lambda>_. False" "\<lambda>_. 300" "\<lambda>_. False" no_fault Committed 250]
    by (simp add: demo_swept_def)
qed

section \<open>Where the record misleads the reconciler\<close>

text \<open>
  The time of submission is read after the RPC call returned and becomes the earliest time of
  inclusion. A transaction included while the call was still waiting lies before it, so a
  history that starts in between makes an honest NOT_FOUND look like proof: the record
  becomes expired, although the transaction took effect.
\<close>

definition slow_send :: send_world where
  "slow_send = submission_run demo_parse ''G'' [OpSend ''op-1'' (demo_send_env\<lparr>se_now := 100, se_after := 200\<rparr>) ''tx''] \<lparr>sw_intents = [], sw_sent = []\<rparr>"

definition slow_view :: ChainView where
  "slow_view = \<lparr>LatestLedgerCloseTime = 100000000000 * second, OldestLedgerCloseTime = 180\<rparr>"

theorem late_submission_time_buries:
  "honest_answer [(''htx'', 150, True)] ''htx'' ''NOT_FOUND'' slow_view \<and> included_once [(''htx'', 150, True)] ''htx''
   \<and> included_from [(''htx'', 150, True)] ''htx'' (si_CreatedAt (hd (sw_intents slow_send)))
   \<and> included_by [(''htx'', 150, True)] ''htx'' (si_ValidUntil (hd (sw_intents slow_send)))
   \<and> took_effect [(''htx'', 150, True)] ''htx''
   \<and> map si_State (SubmissionReconciler_Tick None (\<lambda>_. Inr (''NOT_FOUND'', slow_view)) (\<lambda>_. False) (\<lambda>_. False) (\<lambda>_. 300)
        (\<lambda>_. False) no_fault Committed 250 (sw_intents slow_send)) = [SubmissionExpired]"
  by (intro conjI; code_simp)

text \<open>
  The guard against time bounds that wrap stops at the largest \<open>int64\<close>, but \<open>time.Unix\<close> shifts
  the epoch by 62135596800 seconds and wraps earlier: a bound in the last stretch below the
  guard is read as an instant before year 1, and NOT_FOUND at once counts as proof.
\<close>

theorem huge_time_bound_wraps:
  assumes "max64 - unixToInternal < uint mt" and "uint mt \<le> max64" and "parse b = Some (TxEnvelope (Some hash) (Some mt))"
    and "si_ValidUntil i = ti_ValidUntil identity" and "IdentifyTransaction parse b = Inr identity"
    and "0 < LatestLedgerCloseTime view" and "0 < OldestLedgerCloseTime view" and "OldestLedgerCloseTime view \<le> EarliestInclusion i"
  shows "ti_ValidUntil identity < 0 \<and> DetermineOutcome TxStatusNotFound view i = OutcomeProvenNotLanded"
proof -
  have pos: "0 < mt" using assms(1) by (simp add: word_less_alt int64_defs unixToInternal_def)
  have "wrap64 (uint mt + unixToInternal) = uint mt + unixToInternal - 2 ^ 64"
  proof -
    let ?y = "uint mt + unixToInternal - 2 ^ 64"
    have "wrap64 (uint mt + unixToInternal) = wrap64 ?y" unfolding wrap64_eq_iff by (metis minus_mod_self2)
    moreover have "in64 ?y" using assms(1,2) by (simp add: int64_defs unixToInternal_def)
    ultimately show ?thesis by (simp add: wrap64_id)
  qed
  then have "wrap64 (uint mt + unixToInternal) < 0" using assms(2) by (simp add: max64_def unixToInternal_def)
  then have neg: "time_Unix (uint mt) < 0" by (simp add: time_Unix_def second_def)
  have "ti_ValidUntil identity = time_Unix (uint mt)" using assms(2,3,5) pos by (auto simp: IdentifyTransaction_def)
  with neg assms show ?thesis
    by (simp add: DetermineOutcome_def TxStatusNotFound_def TxStatusSuccess_def TxStatusFailed_def ChainView_Valid_def time_is_zero_def)
qed

end
