(* ===== verification/Signing.thy ===== *)
theory Signing
  imports Nester_Prelude "HOL-Library.List_Lexorder" "HOL-Library.Char_ord"
begin

text \<open>
  The transaction-signing boundary (\<open>internal/signing\<close>): intents and their structural
  validation (\<open>intent.go\<close>), the deployment policy and the replay guard (\<open>policy.go\<close>), the kill
  switch (\<open>killswitch.go\<close>), counters and audit events (\<open>audit.go\<close>), the enforcement pipeline
  \<open>Service.Sign\<close> (\<open>signer.go\<close>) and the HTTP statuses both ends of the boundary exchange
  (\<open>transport.go\<close>). The key-holding backend, SHA-256 and the file system are arguments. A
  refusal is its category; the text of the reason is left out.
\<close>

section \<open>Intents\<close>

type_synonym Operation = string
type_synonym Shape = string

definition OpPause :: Operation where "OpPause = ''pause''"
definition OpUnpause :: Operation where "OpUnpause = ''unpause''"
definition OpRebalance :: Operation where "OpRebalance = ''rebalance''"
definition OpSetWeights :: Operation where "OpSetWeights = ''set_weights''"
definition OpDeposit :: Operation where "OpDeposit = ''deposit''"
definition OpWithdraw :: Operation where "OpWithdraw = ''withdraw''"
definition OpHarvest :: Operation where "OpHarvest = ''harvest''"
definition OpEmergencyWithdrawAll :: Operation where "OpEmergencyWithdrawAll = ''emergency_withdraw_all''"

definition ShapeVoid :: Shape where "ShapeVoid = ''void''"
definition ShapeI128Pair :: Shape where "ShapeI128Pair = ''i128_pair''"
definition ShapeAddressBool :: Shape where "ShapeAddressBool = ''address_bool''"
definition ShapeWeights :: Shape where "ShapeWeights = ''weights''"

lemmas operation_defs = OpPause_def OpUnpause_def OpRebalance_def OpSetWeights_def OpDeposit_def OpWithdraw_def OpHarvest_def
  OpEmergencyWithdrawAll_def
lemmas shape_defs = ShapeVoid_def ShapeI128Pair_def ShapeAddressBool_def ShapeWeights_def

definition operationShapes :: "(Operation \<times> Shape) list" where
  "operationShapes =
     [(OpPause, ShapeVoid), (OpUnpause, ShapeVoid), (OpRebalance, ShapeVoid), (OpEmergencyWithdrawAll, ShapeVoid),
      (OpSetWeights, ShapeWeights), (OpDeposit, ShapeI128Pair), (OpWithdraw, ShapeI128Pair), (OpHarvest, ShapeAddressBool)]"

definition ShapeFor :: "Operation \<Rightarrow> Shape option" where
  "ShapeFor op = map_of operationShapes op"

text \<open>
  \<open>KnownOperations\<close> collects the keys in the map's iteration order, which is random, and sorts
  them in place: for each \<open>i\<close> the element at \<open>j = i\<close> is swapped down while it is smaller than
  its left neighbour.
\<close>

definition swap_down :: "'a list \<Rightarrow> nat \<Rightarrow> 'a list" where
  "swap_down ops j = ops[j := ops ! (j - 1), j - 1 := ops ! j]"

fun sift_down :: "'a::linorder list \<Rightarrow> nat \<Rightarrow> 'a list" where
  "sift_down ops 0 = ops"
| "sift_down ops (Suc j) = (if ops ! Suc j < ops ! j then sift_down (swap_down ops (Suc j)) j else ops)"

function insertion_loop :: "'a::linorder list \<Rightarrow> nat \<Rightarrow> 'a list" where
  "insertion_loop ops i = (if i < length ops then insertion_loop (sift_down ops i) (Suc i) else ops)"
  by pat_completeness auto

lemma length_sift_down [simp]: "length (sift_down ops j) = length ops"
  by (induction ops j rule: sift_down.induct) (simp_all add: swap_down_def)

termination insertion_loop
  by (relation "measure (\<lambda>(ops, i). length ops - i)") auto

definition KnownOperations :: "Operation list \<Rightarrow> Operation list" where
  "KnownOperations iteration = insertion_loop iteration 1"

record WeightEntry =
  we_Protocol :: string
  we_WeightBps :: int

record Intent =
  in_ID :: string
  in_Operation :: Operation
  in_Shape :: Shape
  in_ContractAddress :: string
  in_NetworkPassphrase :: string
  in_Arg0 :: int
  in_Arg1 :: int
  in_Address :: string
  in_Flag :: bool
  in_Weights :: "WeightEntry list"
  in_IssuedAt :: time
  in_RequestID :: string

datatype Rejection =
    RejectUnknownOperation | RejectShapeMismatch | RejectContractNotAllowed | RejectNetworkMismatch
  | RejectInvalidAddress | RejectAmountOutOfPolicy | RejectWeightsInvalid | RejectIntentExpired
  | RejectIntentReplayed | RejectMalformed | RejectKillSwitchActive | RejectUnauthorized

section \<open>Structural validation\<close>

definition maxWeightEntries :: nat where "maxWeightEntries = 32"
definition totalWeightBps :: int where "totalWeightBps = 10000"
definition strkeyLen :: nat where "strkeyLen = 56"

text \<open>The loop over the weight vector, with the names seen and the running total.\<close>

fun weights_loop :: "WeightEntry list \<Rightarrow> string list \<Rightarrow> int \<Rightarrow> Rejection option" where
  "weights_loop [] seen tot = (if tot \<noteq> totalWeightBps then Some RejectWeightsInvalid else None)"
| "weights_loop (w # ws) seen tot =
     (let name = trim_space (we_Protocol w) in
      if name = [] then Some RejectWeightsInvalid
      else if 64 < length name then Some RejectWeightsInvalid
      else if name \<in> set seen then Some RejectWeightsInvalid
      else if we_WeightBps w < 0 \<or> totalWeightBps < we_WeightBps w then Some RejectWeightsInvalid
      else weights_loop ws (name # seen) (wrap64 (tot + we_WeightBps w)))"

definition validateWeights :: "WeightEntry list \<Rightarrow> Rejection option" where
  "validateWeights weights =
     (if weights = [] then Some RejectWeightsInvalid
      else if maxWeightEntries < length weights then Some RejectWeightsInvalid
      else weights_loop weights [] 0)"

definition validateContractAddress :: "string \<Rightarrow> Rejection option" where
  "validateContractAddress addr =
     (let addr = trim_space addr in
      if addr = [] then Some RejectMalformed
      else if \<not> str_has_prefix addr ''C'' then Some RejectInvalidAddress
      else if length addr \<noteq> strkeyLen then Some RejectInvalidAddress
      else None)"

definition validateAccountAddress :: "string \<Rightarrow> Rejection option" where
  "validateAccountAddress addr =
     (let addr = trim_space addr in
      if addr = [] then Some RejectMalformed
      else if \<not> str_has_prefix addr ''G'' then Some RejectInvalidAddress
      else if length addr \<noteq> strkeyLen then Some RejectInvalidAddress
      else None)"

definition validate_arguments :: "Shape \<Rightarrow> Intent \<Rightarrow> Rejection option" where
  "validate_arguments shape i =
     (if shape = ShapeVoid then
        (if in_Arg0 i \<noteq> 0 \<or> in_Arg1 i \<noteq> 0 \<or> in_Address i \<noteq> [] \<or> in_Weights i \<noteq> [] then Some RejectShapeMismatch else None)
      else if shape = ShapeI128Pair then
        (if in_Address i \<noteq> [] \<or> in_Weights i \<noteq> [] then Some RejectShapeMismatch
         else if in_Arg0 i \<le> 0 then Some RejectAmountOutOfPolicy
         else if in_Arg1 i < 0 then Some RejectAmountOutOfPolicy
         else None)
      else if shape = ShapeAddressBool then
        (if in_Arg0 i \<noteq> 0 \<or> in_Arg1 i \<noteq> 0 \<or> in_Weights i \<noteq> [] then Some RejectShapeMismatch
         else validateAccountAddress (in_Address i))
      else if shape = ShapeWeights then
        (if in_Arg0 i \<noteq> 0 \<or> in_Arg1 i \<noteq> 0 \<or> in_Address i \<noteq> [] then Some RejectShapeMismatch
         else validateWeights (in_Weights i))
      else None)"

definition Intent_Validate :: "Intent \<Rightarrow> Rejection option" where
  "Intent_Validate i =
     (if trim_space (in_ID i) = [] then Some RejectMalformed
      else (case ShapeFor (in_Operation i) of
          None \<Rightarrow> Some RejectUnknownOperation
        | Some shape \<Rightarrow>
            if in_Shape i \<noteq> shape then Some RejectShapeMismatch
            else (case validateContractAddress (in_ContractAddress i) of
                Some r \<Rightarrow> Some r
              | None \<Rightarrow>
                  if trim_space (in_NetworkPassphrase i) = [] then Some RejectMalformed
                  else if time_is_zero (in_IssuedAt i) then Some RejectMalformed
                  else validate_arguments shape i)))"

section \<open>Policy\<close>

record Policy =
  po_NetworkPassphrase :: string
  po_AllowedContracts :: "string list"
  po_AllowedOperations :: "Operation list"
  po_MaxAmountStroops :: int
  po_MaxIntentAge :: duration
  po_ClockSkew :: duration

definition DefaultMaxIntentAge :: duration where "DefaultMaxIntentAge = 2 * minute"
definition DefaultClockSkew :: duration where "DefaultClockSkew = 30 * second"

text \<open>The two sets of a policy are lists here; only membership and emptiness are used.\<close>

definition NewPolicy :: "string \<Rightarrow> string list \<Rightarrow> Operation list \<Rightarrow> int \<Rightarrow> duration \<Rightarrow> duration \<Rightarrow> Policy" where
  "NewPolicy networkPassphrase contracts operations maxAmountStroops maxIntentAge clockSkew =
     \<lparr>po_NetworkPassphrase = trim_space networkPassphrase,
      po_AllowedContracts = filter (\<lambda>c. c \<noteq> []) (map trim_space contracts),
      po_AllowedOperations = filter (\<lambda>op. ShapeFor op \<noteq> None) operations,
      po_MaxAmountStroops = maxAmountStroops,
      po_MaxIntentAge = (if maxIntentAge \<le> 0 then DefaultMaxIntentAge else maxIntentAge),
      po_ClockSkew = (if clockSkew \<le> 0 then DefaultClockSkew else clockSkew)\<rparr>"

definition Policy_Evaluate :: "Policy \<Rightarrow> Intent \<Rightarrow> time \<Rightarrow> Rejection option" where
  "Policy_Evaluate p i now =
     (if po_NetworkPassphrase p = [] then Some RejectNetworkMismatch
      else if in_NetworkPassphrase i \<noteq> po_NetworkPassphrase p then Some RejectNetworkMismatch
      else if po_AllowedOperations p = [] then Some RejectUnknownOperation
      else if in_Operation i \<notin> set (po_AllowedOperations p) then Some RejectUnknownOperation
      else if po_AllowedContracts p = [] then Some RejectContractNotAllowed
      else if trim_space (in_ContractAddress i) \<notin> set (po_AllowedContracts p) then Some RejectContractNotAllowed
      else if in_Shape i = ShapeI128Pair \<and> 0 < po_MaxAmountStroops p \<and> po_MaxAmountStroops p < in_Arg0 i then Some RejectAmountOutOfPolicy
      else
        (let age = time_sub now (in_IssuedAt i) in
         if po_MaxIntentAge p < age then Some RejectIntentExpired
         else if age < wrap64 (- po_ClockSkew p) then Some RejectIntentExpired
         else None))"

section \<open>Replay guard\<close>

record ReplayGuard =
  rg_seen :: "string \<rightharpoonup> time"
  rg_retention :: duration
  rg_lastSweep :: time

definition sweepInterval :: duration where "sweepInterval = 30 * second"

definition NewReplayGuard :: "duration \<Rightarrow> ReplayGuard" where
  "NewReplayGuard retention =
     \<lparr>rg_seen = Map.empty, rg_retention = (if retention \<le> 0 then DefaultMaxIntentAge + DefaultClockSkew else retention), rg_lastSweep = 0\<rparr>"

definition sweepLocked :: "ReplayGuard \<Rightarrow> time \<Rightarrow> ReplayGuard" where
  "sweepLocked g now =
     (if time_sub now (rg_lastSweep g) < sweepInterval then g
      else g\<lparr>rg_lastSweep := now,
             rg_seen := (\<lambda>i. case rg_seen g i of None \<Rightarrow> None
               | Some seenAt \<Rightarrow> if seenAt < now - rg_retention g then None else Some seenAt)\<rparr>)"

definition ReplayGuard_Observe :: "ReplayGuard \<Rightarrow> string \<Rightarrow> time \<Rightarrow> Rejection option \<times> ReplayGuard" where
  "ReplayGuard_Observe g i now =
     (let g = sweepLocked g now in
      case rg_seen g i of
        Some _ \<Rightarrow> (Some RejectIntentReplayed, g)
      | None \<Rightarrow> (None, g\<lparr>rg_seen := (rg_seen g)(i \<mapsto> now)\<rparr>))"

section \<open>Kill switch\<close>

text \<open>What \<open>os.Stat\<close> says of the sentinel file.\<close>

datatype stat_result = StatOk | StatNotExist | StatError

datatype SwitchState = StateEnabled | StateDisabled | StateUnknown

definition KillSwitch_evaluate :: "stat_result \<Rightarrow> SwitchState" where
  "KillSwitch_evaluate st = (case st of StatOk \<Rightarrow> StateDisabled | StatNotExist \<Rightarrow> StateEnabled | StatError \<Rightarrow> StateUnknown)"

text \<open>The state reported, whether signing is refused, and the state cached for \<open>Status\<close>.\<close>

definition KillSwitch_Check :: "stat_result \<Rightarrow> SwitchState \<times> bool" where
  "KillSwitch_Check st =
     (case KillSwitch_evaluate st of StateEnabled \<Rightarrow> (StateEnabled, False) | StateDisabled \<Rightarrow> (StateDisabled, True) | StateUnknown \<Rightarrow> (StateUnknown, True))"

text \<open>
  Engaging creates the sentinel file and releasing removes it. The result is whether the call
  succeeded and whether the file is present; a failed write of the reason leaves it in place.
\<close>

definition KillSwitch_Engage :: "bool \<Rightarrow> bool \<Rightarrow> bool \<Rightarrow> bool \<Rightarrow> bool \<times> bool" where
  "KillSwitch_Engage cancelled openFails writeFails present =
     (if cancelled then (False, present) else if openFails then (False, present)
      else if writeFails then (False, True) else (True, True))"

definition KillSwitch_Release :: "bool \<Rightarrow> bool \<Rightarrow> bool \<Rightarrow> bool \<times> bool" where
  "KillSwitch_Release cancelled removeFails present =
     (if cancelled then (False, present) else if present \<and> removeFails then (False, present) else (True, False))"

definition sanitizeReason :: "string \<Rightarrow> string" where
  "sanitizeReason reason =
     (let reason = trim_space reason in
      if reason = [] then ''unspecified''
      else (let reason = map (\<lambda>c. if c = CHR 0x0A then CHR 0x20 else c) reason;
                reason = map (\<lambda>c. if c = CHR 0x0D then CHR 0x20 else c) reason
            in take 256 reason))"

end
