(* ===== verification/Signer.thy ===== *)
theory Signer
  imports Signing
begin

text \<open>
  The enforcement pipeline of the signer (\<open>signer.go\<close>), with its counters and audit events
  (\<open>audit.go\<close>), and the statuses server and client exchange (\<open>transport.go\<close>). The backend that
  builds and signs, and the hash of the audit commitment, are arguments; every read of the
  clock is a field of its own.
\<close>

section \<open>Audit\<close>

datatype AuditOutcome = AuditSigned | AuditRejected | AuditUnauthorized | AuditDisabled | AuditError

record AuditEvent =
  ae_IntentID :: string
  ae_RequestID :: string
  ae_Caller :: string
  ae_Operation :: Operation
  ae_ContractAddress :: string
  ae_KeyID :: string
  ae_IntentHash :: string
  ae_Outcome :: AuditOutcome
  ae_Rejection :: "Rejection option"
  ae_LatencyMS :: int
  ae_OccurredAt :: time

definition NetworkLabel :: "string \<Rightarrow> string" where
  "NetworkLabel passphrase =
     (let p = trim_space passphrase in
      if p = ''Public Global Stellar Network ; September 2015'' then ''pubnet''
      else if p = ''Test SDF Network ; September 2015'' then ''testnet''
      else if p = ''Test SDF Future Network ; October 2022'' then ''futurenet''
      else if p = [] then ''unset''
      else ''custom'')"

text \<open>\<open>strconv.FormatInt(v, 10)\<close>.\<close>

function decimal :: "nat \<Rightarrow> string" where
  "decimal n = (if n < 10 then [char_of (48 + n)] else decimal (n div 10) @ [char_of (48 + n mod 10)])"
  by pat_completeness auto
termination by (relation "measure id") auto

definition itoa :: "int \<Rightarrow> string" where
  "itoa v = (if v < 0 then CHR ''-'' # decimal (nat (- v)) else decimal (nat v))"

text \<open>The byte string that \<open>HashIntent\<close> hashes; \<open>stamp\<close> renders the time of issue.\<close>

definition writeField :: "string \<Rightarrow> string \<Rightarrow> string" where
  "writeField tag field = tag @ [CHR 0x1F] @ field @ [CHR 0x1E]"

definition intent_preimage :: "(time \<Rightarrow> string) \<Rightarrow> Intent \<Rightarrow> string" where
  "intent_preimage stamp i =
     writeField ''id'' (in_ID i) @ writeField ''op'' (in_Operation i) @ writeField ''shape'' (in_Shape i)
     @ writeField ''contract'' (in_ContractAddress i) @ writeField ''network'' (NetworkLabel (in_NetworkPassphrase i))
     @ writeField ''arg0'' (itoa (in_Arg0 i)) @ writeField ''arg1'' (itoa (in_Arg1 i)) @ writeField ''address'' (in_Address i)
     @ writeField ''flag'' (if in_Flag i then ''true'' else ''false'')
     @ concat (map (\<lambda>w. writeField (''w:'' @ we_Protocol w) (itoa (we_WeightBps w))) (in_Weights i))
     @ writeField ''issued_at'' (stamp (in_IssuedAt i))"

definition HashIntent :: "(string \<Rightarrow> string) \<Rightarrow> (time \<Rightarrow> string) \<Rightarrow> Intent \<Rightarrow> string" where
  "HashIntent sha256hex stamp i = sha256hex (intent_preimage stamp i)"

section \<open>Counters\<close>

record Counters =
  co_requests :: "Operation \<Rightarrow> int"
  co_signed :: "Operation \<Rightarrow> int"
  co_rejected :: "Rejection \<Rightarrow> int"
  co_unauthorized :: int
  co_disabled :: int
  co_errors :: int
  co_latencyTotal :: duration
  co_latencyCount :: int
  co_latencyMax :: duration

definition NewCounters :: Counters where
  "NewCounters = \<lparr>co_requests = (\<lambda>_. 0), co_signed = (\<lambda>_. 0), co_rejected = (\<lambda>_. 0), co_unauthorized = 0, co_disabled = 0,
     co_errors = 0, co_latencyTotal = 0, co_latencyCount = 0, co_latencyMax = 0\<rparr>"

definition ObserveRequest :: "Operation \<Rightarrow> Counters \<Rightarrow> Counters" where
  "ObserveRequest op c = c\<lparr>co_requests := (co_requests c)(op := wrap64 (co_requests c op + 1))\<rparr>"

definition observeLatency :: "duration \<Rightarrow> Counters \<Rightarrow> Counters" where
  "observeLatency latency c =
     c\<lparr>co_latencyTotal := wrap64 (co_latencyTotal c + latency), co_latencyCount := wrap64 (co_latencyCount c + 1),
       co_latencyMax := (if co_latencyMax c < latency then latency else co_latencyMax c)\<rparr>"

definition ObserveSigned :: "Operation \<Rightarrow> duration \<Rightarrow> Counters \<Rightarrow> Counters" where
  "ObserveSigned op latency c = observeLatency latency (c\<lparr>co_signed := (co_signed c)(op := wrap64 (co_signed c op + 1))\<rparr>)"

definition ObserveRejected :: "Rejection \<Rightarrow> duration \<Rightarrow> Counters \<Rightarrow> Counters" where
  "ObserveRejected cat latency c = observeLatency latency (c\<lparr>co_rejected := (co_rejected c)(cat := wrap64 (co_rejected c cat + 1))\<rparr>)"

definition ObserveUnauthorized :: "Counters \<Rightarrow> Counters" where
  "ObserveUnauthorized c = c\<lparr>co_unauthorized := wrap64 (co_unauthorized c + 1)\<rparr>"

definition ObserveDisabled :: "Counters \<Rightarrow> Counters" where
  "ObserveDisabled c = c\<lparr>co_disabled := wrap64 (co_disabled c + 1)\<rparr>"

definition ObserveError :: "Counters \<Rightarrow> Counters" where
  "ObserveError c = c\<lparr>co_errors := wrap64 (co_errors c + 1)\<rparr>"

section \<open>The service\<close>

datatype sign_error = SignRejected Rejection | ErrSigningDisabled | SignBackendError

record SignResult =
  sr_SignedXDR :: string
  sr_KeyID :: string
  sr_IntentHash :: string

text \<open>The mutable parts of a service, the audit events recorded and the intents the backend was asked to sign.\<close>

record signer =
  sg_guard :: ReplayGuard
  sg_counters :: Counters
  sg_events :: "AuditEvent list"
  sg_built :: "Intent list"

text \<open>What does not change between calls: the policy, the backend, its key id, the commitment's hash.\<close>

record signer_config =
  sc_policy :: Policy
  sc_backend :: "Intent \<Rightarrow> string option"
  sc_keyID :: string
  sc_hash :: "Intent \<Rightarrow> string"

text \<open>One call: what the file system says of the sentinel, and the successive reads of the clock.\<close>

record sign_call =
  cl_stat :: stat_result
  cl_start :: time
  cl_evaluate :: time
  cl_observe :: time
  cl_latency :: time
  cl_occurred :: time

definition audit_event :: "signer_config \<Rightarrow> string \<Rightarrow> Intent \<Rightarrow> AuditOutcome \<Rightarrow> Rejection option \<Rightarrow> sign_call \<Rightarrow> AuditEvent" where
  "audit_event cfg caller i outcome rejection call =
     \<lparr>ae_IntentID = in_ID i, ae_RequestID = in_RequestID i, ae_Caller = caller, ae_Operation = in_Operation i,
      ae_ContractAddress = in_ContractAddress i, ae_KeyID = sc_keyID cfg, ae_IntentHash = sc_hash cfg i, ae_Outcome = outcome,
      ae_Rejection = rejection, ae_LatencyMS = go_div (time_sub (cl_latency call) (cl_start call)) millisecond, ae_OccurredAt = cl_occurred call\<rparr>"

definition signer_emit :: "AuditEvent \<Rightarrow> signer \<Rightarrow> signer" where
  "signer_emit ev s = s\<lparr>sg_events := sg_events s @ [ev]\<rparr>"

definition rejectWith :: "signer_config \<Rightarrow> string \<Rightarrow> Intent \<Rightarrow> sign_call \<Rightarrow> Rejection \<Rightarrow> signer \<Rightarrow> (sign_error + SignResult) \<times> signer" where
  "rejectWith cfg caller i call cat s =
     (Inl (SignRejected cat),
      signer_emit (audit_event cfg caller i AuditRejected (Some cat) call)
        (s\<lparr>sg_counters := ObserveRejected cat (time_sub (cl_latency call) (cl_start call)) (sg_counters s)\<rparr>))"

definition Service_Sign :: "signer_config \<Rightarrow> string \<Rightarrow> sign_call \<Rightarrow> Intent \<Rightarrow> signer \<Rightarrow> (sign_error + SignResult) \<times> signer" where
  "Service_Sign cfg caller call i s =
     (let s = s\<lparr>sg_counters := ObserveRequest (in_Operation i) (sg_counters s)\<rparr> in
      if snd (KillSwitch_Check (cl_stat call)) then
        (Inl ErrSigningDisabled,
         signer_emit (audit_event cfg caller i AuditDisabled (Some RejectKillSwitchActive) call) (s\<lparr>sg_counters := ObserveDisabled (sg_counters s)\<rparr>))
      else (case Intent_Validate i of
          Some cat \<Rightarrow> rejectWith cfg caller i call cat s
        | None \<Rightarrow>
      (case Policy_Evaluate (sc_policy cfg) i (cl_evaluate call) of
          Some cat \<Rightarrow> rejectWith cfg caller i call cat s
        | None \<Rightarrow>
      (case ReplayGuard_Observe (sg_guard s) (in_ID i) (cl_observe call) of
          (Some cat, g) \<Rightarrow> rejectWith cfg caller i call cat (s\<lparr>sg_guard := g\<rparr>)
        | (None, g) \<Rightarrow>
            (let s = s\<lparr>sg_guard := g, sg_built := sg_built s @ [i]\<rparr> in
             case sc_backend cfg i of
               None \<Rightarrow>
                 (Inl SignBackendError,
                  signer_emit (audit_event cfg caller i AuditError None call) (s\<lparr>sg_counters := ObserveError (sg_counters s)\<rparr>))
             | Some xdr \<Rightarrow>
                 (Inr \<lparr>sr_SignedXDR = xdr, sr_KeyID = sc_keyID cfg, sr_IntentHash = sc_hash cfg i\<rparr>,
                  signer_emit (audit_event cfg caller i AuditSigned None call)
                    (s\<lparr>sg_counters := ObserveSigned (in_Operation i) (time_sub (cl_latency call) (cl_start call)) (sg_counters s)\<rparr>)))))))"

text \<open>\<open>NewService\<close> with the defaults: the guard retains ids for the age limit plus the skew.\<close>

definition NewService :: "Policy \<Rightarrow> ReplayGuard option \<Rightarrow> signer" where
  "NewService policy guard =
     \<lparr>sg_guard = (case guard of Some g \<Rightarrow> g | None \<Rightarrow> NewReplayGuard (wrap64 (po_MaxIntentAge policy + po_ClockSkew policy))),
      sg_counters = NewCounters, sg_events = [], sg_built = []\<rparr>"

section \<open>The wire\<close>

text \<open>
  The JSON of the messages is the library's: how it writes a request, a response and a refusal,
  and what it reads back. A request may be no JSON (\<open>None\<close>) or have no intent; of a refusal the
  client looks only at the category, which is absent when the text is not one.
\<close>

record wire_json =
  wj_request :: "Intent \<Rightarrow> string"
  wj_readRequest :: "string \<Rightarrow> Intent option option"
  wj_response :: "SignResult \<Rightarrow> string"
  wj_readResponse :: "string \<Rightarrow> SignResult option"
  wj_error :: "string \<Rightarrow> Rejection option \<Rightarrow> string"
  wj_readRejection :: "string \<Rightarrow> Rejection option"

definition maxRequestBytes :: nat where "maxRequestBytes = 65536"

definition writeWireError :: "wire_json \<Rightarrow> int \<Rightarrow> string \<Rightarrow> Rejection option \<Rightarrow> int \<times> string" where
  "writeWireError J status msg rejection = (status, wj_error J msg rejection)"

definition writeSignError :: "wire_json \<Rightarrow> sign_error \<Rightarrow> int \<times> string" where
  "writeSignError J err =
     (case err of SignRejected cat \<Rightarrow> writeWireError J 422 ''intent rejected by signing policy'' (Some cat)
      | ErrSigningDisabled \<Rightarrow> writeWireError J 503 ''signing is disabled'' (Some RejectKillSwitchActive)
      | SignBackendError \<Rightarrow> writeWireError J 502 ''signing failed'' None)"

text \<open>\<open>MaxBytesReader\<close> refuses a body over the limit. \<open>None\<close> is a body that breaks off.\<close>

definition handleSign ::
  "wire_json \<Rightarrow> signer_config \<Rightarrow> bool \<Rightarrow> string option \<Rightarrow> string option \<Rightarrow> sign_call \<Rightarrow> signer \<Rightarrow> (int \<times> string) \<times> signer" where
  "handleSign J cfg isPost caller body call s =
     (if \<not> isPost then (writeWireError J 405 ''method not allowed'' None, s)
      else (case caller of
          None \<Rightarrow> (writeWireError J 401 ''unauthorized'' (Some RejectUnauthorized), s\<lparr>sg_counters := ObserveUnauthorized (sg_counters s)\<rparr>)
        | Some name \<Rightarrow>
            (case body of
               None \<Rightarrow> (writeWireError J 400 ''request body could not be read'' (Some RejectMalformed), s)
             | Some b \<Rightarrow>
               if maxRequestBytes < length b then (writeWireError J 400 ''request body could not be read'' (Some RejectMalformed), s)
               else (case wj_readRequest J b of
                 None \<Rightarrow> (writeWireError J 400 ''request body is not valid JSON'' (Some RejectMalformed), s)
               | Some None \<Rightarrow> (writeWireError J 400 ''intent is required'' (Some RejectMalformed), s)
               | Some (Some i) \<Rightarrow>
                 (case Service_Sign cfg name call i s of
                    (Inl err, s') \<Rightarrow> (writeSignError J err, s')
                  | (Inr res, s') \<Rightarrow> ((200, wj_response J res), s'))))))"

text \<open>
  The client sends the request, reads at most \<open>maxRequestBytes\<close> of the answer, and decodes what
  it has read. \<open>send\<close> is the round trip, \<open>None\<close> when it fails or the body breaks off; the errors
  that carry no category are one value.
\<close>

datatype client_error = ClientPolicy Rejection | ClientDisabled | ClientOther

definition Client_Sign :: "wire_json \<Rightarrow> (string \<Rightarrow> (int \<times> string) option) \<Rightarrow> Intent \<Rightarrow> client_error + SignResult" where
  "Client_Sign J send i =
     (case send (wj_request J i) of
        None \<Rightarrow> Inl ClientOther
      | Some (status, answer) \<Rightarrow>
        (let body = take maxRequestBytes answer in
         if status \<noteq> 200 then
           (case wj_readRejection J body of
              Some cat \<Rightarrow> if cat = RejectKillSwitchActive then Inl ClientDisabled else Inl (ClientPolicy cat)
            | None \<Rightarrow> Inl ClientOther)
         else (case wj_readResponse J body of
             None \<Rightarrow> Inl ClientOther
           | Some res \<Rightarrow> if sr_SignedXDR res = [] then Inl ClientOther else Inr res)))"

end
