(* ===== verification/Signing_Properties.thy ===== *)
theory Signing_Properties
  imports Signer "HOL-Library.Multiset"
begin

text \<open>
  What the signing boundary guarantees: the backend is asked to sign only what passed every
  check, an intent is signed at most once, weight vectors are exactly allocations, refusals
  cross the wire unchanged, and where the code falls short of its comments.
\<close>

section \<open>The order of checks\<close>

lemma signer_emit_simps [simp]:
  "sg_events (signer_emit ev s) = sg_events s @ [ev]" "sg_built (signer_emit ev s) = sg_built s" "sg_guard (signer_emit ev s) = sg_guard s"
  by (simp_all add: signer_emit_def)

lemma audit_event_simps [simp]:
  "ae_Outcome (audit_event cfg caller i out rej call) = out" "ae_Rejection (audit_event cfg caller i out rej call) = rej"
  "ae_IntentID (audit_event cfg caller i out rej call) = in_ID i"
  by (simp_all add: audit_event_def)

definition all_checks :: "signer_config \<Rightarrow> sign_call \<Rightarrow> Intent \<Rightarrow> signer \<Rightarrow> bool" where
  "all_checks cfg call i s \<longleftrightarrow> cl_stat call = StatNotExist \<and> Intent_Validate i = None
     \<and> Policy_Evaluate (sc_policy cfg) i (cl_evaluate call) = None \<and> rg_seen (sweepLocked (sg_guard s) (cl_observe call)) (in_ID i) = None"

lemma switch_open: "\<not> snd (KillSwitch_Check st) \<longleftrightarrow> st = StatNotExist"
  by (cases st) (simp_all add: KillSwitch_Check_def KillSwitch_evaluate_def)

text \<open>
  C18: the backend is asked to sign an intent exactly when the sentinel file is known to be
  absent, the intent is well-formed, the policy permits it at the time of evaluation, and its
  id is not remembered; then the result is the backend's. Otherwise nothing reaches the
  backend and the caller gets an error. Every call, whatever its outcome, appends exactly one
  audit event that names the intent and the outcome.
\<close>

theorem Sign_enforces_every_check:
  assumes "Service_Sign cfg caller call i s = (res, s')"
  shows "sg_built s' = sg_built s @ (if all_checks cfg call i s then [i] else [])
    \<and> (\<exists>ev. sg_events s' = sg_events s @ [ev] \<and> ae_IntentID ev = in_ID i
        \<and> (ae_Outcome ev = AuditSigned \<longleftrightarrow> (\<exists>r. res = Inr r)) \<and> (\<forall>cat. res = Inl (SignRejected cat) \<longleftrightarrow> ae_Outcome ev = AuditRejected \<and> ae_Rejection ev = Some cat))
    \<and> (\<forall>r. res = Inr r \<longrightarrow> all_checks cfg call i s \<and> sc_backend cfg i = Some (sr_SignedXDR r) \<and> sr_IntentHash r = sc_hash cfg i)
    \<and> (all_checks cfg call i s \<and> sc_backend cfg i \<noteq> None \<longrightarrow> (\<exists>r. res = Inr r))"
proof (cases "snd (KillSwitch_Check (cl_stat call))")
  case True
  then have "cl_stat call \<noteq> StatNotExist" using switch_open by blast
  with True assms show ?thesis by (auto simp: Service_Sign_def Let_def all_checks_def)
next
  case False
  then have st: "cl_stat call = StatNotExist" using switch_open by blast
  show ?thesis
    using assms False st
    by (auto simp: Service_Sign_def Let_def all_checks_def rejectWith_def ReplayGuard_Observe_def split: option.splits)
qed

section \<open>No intent is signed twice\<close>

text \<open>A run of the service: the calls in the order in which they reach the replay guard.\<close>

fun sign_run :: "signer_config \<Rightarrow> (string \<times> sign_call \<times> Intent) list \<Rightarrow> signer \<Rightarrow> signer" where
  "sign_run cfg [] s = s"
| "sign_run cfg ((caller, call, i) # cs) s = sign_run cfg cs (snd (Service_Sign cfg caller call i s))"

text \<open>The guard's clock does not go back, and a call reads it at most \<open>d\<close> after it evaluated the policy.\<close>

fun clock_ok :: "duration \<Rightarrow> time \<Rightarrow> (string \<times> sign_call \<times> Intent) list \<Rightarrow> bool" where
  "clock_ok d c [] = True"
| "clock_ok d c ((caller, call, i) # cs) =
     (c \<le> cl_observe call \<and> cl_evaluate call \<le> cl_observe call \<and> cl_observe call \<le> cl_evaluate call + d \<and> clock_ok d (cl_observe call) cs)"

definition policy_ok :: "Policy \<Rightarrow> bool" where
  "policy_ok p \<longleftrightarrow> 0 < po_MaxIntentAge p \<and> po_MaxIntentAge p < max64 \<and> 0 < po_ClockSkew p \<and> po_ClockSkew p \<le> max64"

text \<open>Every intent handed to the backend is remembered, or has expired for good.\<close>

definition remembered :: "Policy \<Rightarrow> duration \<Rightarrow> time \<Rightarrow> signer \<Rightarrow> bool" where
  "remembered p d c s \<longleftrightarrow> distinct (sg_built s) \<and> (\<forall>i \<in> set (sg_built s).
     (\<exists>t. rg_seen (sg_guard s) (in_ID i) = Some t \<and> in_IssuedAt i \<le> t + po_ClockSkew p) \<or> in_IssuedAt i + po_MaxIntentAge p + d < c)"

lemma Evaluate_window:
  assumes "policy_ok p" and "Policy_Evaluate p i now = None"
  shows "now \<le> in_IssuedAt i + po_MaxIntentAge p" and "in_IssuedAt i \<le> now + po_ClockSkew p"
proof -
  have skew: "wrap64 (- po_ClockSkew p) = - po_ClockSkew p" using assms(1) by (intro wrap64_id) (simp add: policy_ok_def int64_defs)
  have "\<not> po_MaxIntentAge p < time_sub now (in_IssuedAt i)" "\<not> time_sub now (in_IssuedAt i) < - po_ClockSkew p"
    using assms(2) by (auto simp: Policy_Evaluate_def Let_def skew split: if_splits)
  then show "now \<le> in_IssuedAt i + po_MaxIntentAge p" "in_IssuedAt i \<le> now + po_ClockSkew p"
    using assms(1) by (auto simp: time_sub_def policy_ok_def int64_defs split: if_splits)
qed

lemma sweepLocked_seen:
  "rg_seen (sweepLocked g now) k = Some t \<Longrightarrow> rg_seen g k = Some t"
  "rg_seen g k = Some t \<Longrightarrow> rg_seen (sweepLocked g now) k = Some t \<or> t < now - rg_retention g"
  by (auto simp: sweepLocked_def split: if_splits option.splits)

lemma sweepLocked_retention [simp]: "rg_retention (sweepLocked g now) = rg_retention g"
  by (simp add: sweepLocked_def)

lemma remembered_sweep:
  assumes "remembered p d c s" and "c \<le> now" and "po_MaxIntentAge p + po_ClockSkew p + d \<le> rg_retention (sg_guard s)"
  shows "remembered p d now (s\<lparr>sg_guard := sweepLocked (sg_guard s) now\<rparr>)"
  unfolding remembered_def
proof (intro conjI ballI)
  show "distinct (sg_built (s\<lparr>sg_guard := sweepLocked (sg_guard s) now\<rparr>))" using assms(1) by (simp add: remembered_def)
  fix i assume "i \<in> set (sg_built (s\<lparr>sg_guard := sweepLocked (sg_guard s) now\<rparr>))"
  then consider t where "rg_seen (sg_guard s) (in_ID i) = Some t" "in_IssuedAt i \<le> t + po_ClockSkew p" | "in_IssuedAt i + po_MaxIntentAge p + d < c"
    using assms(1) by (auto simp: remembered_def)
  then show "(\<exists>t. rg_seen (sg_guard (s\<lparr>sg_guard := sweepLocked (sg_guard s) now\<rparr>)) (in_ID i) = Some t \<and> in_IssuedAt i \<le> t + po_ClockSkew p)
      \<or> in_IssuedAt i + po_MaxIntentAge p + d < now"
  proof cases
    case 1
    then show ?thesis using sweepLocked_seen(2) [OF 1(1), of now] assms(3) by auto
  qed (use assms(2) in auto)
qed

text \<open>What a call does to the guard and the backend's list.\<close>

lemma Sign_guard:
  assumes "Service_Sign cfg caller call i s = (res, s')"
  shows "(sg_guard s' = sg_guard s \<and> sg_built s' = sg_built s)
    \<or> (sg_guard s' = sweepLocked (sg_guard s) (cl_observe call) \<and> sg_built s' = sg_built s)
    \<or> (all_checks cfg call i s \<and> sg_built s' = sg_built s @ [i]
       \<and> sg_guard s' = (sweepLocked (sg_guard s) (cl_observe call))\<lparr>rg_seen := (rg_seen (sweepLocked (sg_guard s) (cl_observe call)))(in_ID i \<mapsto> cl_observe call)\<rparr>)"
proof (cases "snd (KillSwitch_Check (cl_stat call))")
  case True
  with assms show ?thesis by (auto simp: Service_Sign_def Let_def)
next
  case False
  then have st: "cl_stat call = StatNotExist" using switch_open by blast
  show ?thesis
    using assms False st
    by (auto simp: Service_Sign_def Let_def all_checks_def rejectWith_def ReplayGuard_Observe_def split: option.splits)
qed

lemma remembered_Sign:
  assumes rem: "remembered (sc_policy cfg) d c s" and pol: "policy_ok (sc_policy cfg)"
    and ret: "po_MaxIntentAge (sc_policy cfg) + po_ClockSkew (sc_policy cfg) + d \<le> rg_retention (sg_guard s)"
    and clk: "c \<le> cl_observe call" "cl_evaluate call \<le> cl_observe call" "cl_observe call \<le> cl_evaluate call + d"
    and sign: "Service_Sign cfg caller call i s = (res, s')"
  shows "remembered (sc_policy cfg) d (cl_observe call) s' \<and> rg_retention (sg_guard s') = rg_retention (sg_guard s)"
proof -
  let ?p = "sc_policy cfg" let ?o = "cl_observe call"
  have swept: "remembered ?p d ?o (s\<lparr>sg_guard := sweepLocked (sg_guard s) ?o\<rparr>)" by (rule remembered_sweep [OF rem clk(1) ret])
  from Sign_guard [OF sign] show ?thesis
  proof (elim disjE conjE)
    assume "sg_guard s' = sg_guard s" "sg_built s' = sg_built s"
    then show ?thesis using rem clk(1) by (auto simp: remembered_def)
  next
    assume "sg_guard s' = sweepLocked (sg_guard s) ?o" "sg_built s' = sg_built s"
    then show ?thesis using swept by (simp add: remembered_def)
  next
    assume ok: "all_checks cfg call i s" and b: "sg_built s' = sg_built s @ [i]"
      and g: "sg_guard s' = (sweepLocked (sg_guard s) ?o)\<lparr>rg_seen := (rg_seen (sweepLocked (sg_guard s) ?o))(in_ID i \<mapsto> ?o)\<rparr>"
    have ev: "cl_evaluate call \<le> in_IssuedAt i + po_MaxIntentAge ?p" "in_IssuedAt i \<le> cl_evaluate call + po_ClockSkew ?p"
      using Evaluate_window [OF pol] ok by (auto simp: all_checks_def)
    have unseen: "rg_seen (sweepLocked (sg_guard s) ?o) (in_ID i) = None" using ok by (simp add: all_checks_def)
    have fresh: "i \<notin> set (sg_built s)"
    proof
      assume "i \<in> set (sg_built s)"
      then have "in_IssuedAt i + po_MaxIntentAge ?p + d < ?o" using swept unseen by (auto simp: remembered_def)
      then show False using ev(1) clk(3) by linarith
    qed
    have "in_IssuedAt i \<le> ?o + po_ClockSkew ?p" using ev(2) clk(2) by linarith
    moreover have "in_IssuedAt j + po_MaxIntentAge ?p + d < ?o" if "j \<in> set (sg_built s)" "in_ID j = in_ID i" for j
      using swept unseen that by (auto simp: remembered_def)
    ultimately show ?thesis using swept fresh by (auto simp: remembered_def b g)
  qed
qed

lemma sign_run_remembered:
  assumes "policy_ok (sc_policy cfg)" and "po_MaxIntentAge (sc_policy cfg) + po_ClockSkew (sc_policy cfg) + d \<le> rg_retention (sg_guard s)"
    and "remembered (sc_policy cfg) d c s" and "clock_ok d c cs"
  shows "distinct (sg_built (sign_run cfg cs s))"
  using assms
proof (induction cs arbitrary: c s)
  case (Cons x cs)
  obtain caller call i where x: "x = (caller, call, i)" by (metis prod_cases3)
  obtain res s' where r: "Service_Sign cfg caller call i s = (res, s')" by fastforce
  have clk: "c \<le> cl_observe call" "cl_evaluate call \<le> cl_observe call" "cl_observe call \<le> cl_evaluate call + d" "clock_ok d (cl_observe call) cs"
    using Cons.prems(4) by (simp_all add: x)
  have "remembered (sc_policy cfg) d (cl_observe call) s' \<and> rg_retention (sg_guard s') = rg_retention (sg_guard s)"
    using remembered_Sign [OF Cons.prems(3,1,2) clk(1-3) r] .
  then show ?case using Cons.IH [of s' "cl_observe call"] Cons.prems(1,2) clk(4) by (simp add: x r)
qed (simp add: remembered_def)

text \<open>
  C19: no intent reaches the backend twice. In any run of a service whose guard retains ids
  for the age limit plus the skew plus \<open>d\<close>, where the guard's clock does not go back and a
  call consults the guard within \<open>d\<close> of evaluating the policy, the intents handed to the
  backend are pairwise distinct, however often and in whatever order they are replayed.
\<close>

theorem no_intent_signed_twice:
  assumes "policy_ok (sc_policy cfg)" and "sg_built s = []"
    and "po_MaxIntentAge (sc_policy cfg) + po_ClockSkew (sc_policy cfg) + d \<le> rg_retention (sg_guard s)"
    and "clock_ok d c calls"
  shows "distinct (sg_built (sign_run cfg calls s))"
  using sign_run_remembered [OF assms(1,3) _ assms(4)] assms(2) by (simp add: remembered_def)

definition demo_contract :: string where
  "demo_contract = CHR ''C'' # replicate 55 CHR ''A''"

definition demo_policy :: Policy where
  "demo_policy = NewPolicy ''net'' [demo_contract] [OpPause, OpDeposit] 1000 0 0"

definition demo_intent :: Intent where
  "demo_intent = \<lparr>in_ID = ''i1'', in_Operation = ''deposit'', in_Shape = ''i128_pair'', in_ContractAddress = demo_contract,
     in_NetworkPassphrase = ''net'', in_Arg0 = 5, in_Arg1 = 0, in_Address = [], in_Flag = False, in_Weights = [],
     in_IssuedAt = 1000 * second, in_RequestID = []\<rparr>"

definition demo_config :: signer_config where
  "demo_config = \<lparr>sc_policy = demo_policy, sc_backend = (\<lambda>_. Some ''xdr''), sc_keyID = ''k'', sc_hash = (\<lambda>_. ''h'')\<rparr>"

definition demo_call :: "time \<Rightarrow> time \<Rightarrow> sign_call" where
  "demo_call e v = \<lparr>cl_stat = StatNotExist, cl_start = e, cl_evaluate = e, cl_observe = v, cl_latency = v, cl_occurred = v\<rparr>"

lemma demo_checks:
  "policy_ok demo_policy" "sg_built (NewService demo_policy None) = []"
  "po_MaxIntentAge demo_policy + po_ClockSkew demo_policy + 0 \<le> rg_retention (sg_guard (NewService demo_policy None))"
  "sc_policy demo_config = demo_policy"
  by code_simp+

theorem no_intent_signed_twice_witness:
  "distinct (sg_built (sign_run demo_config [(''api'', demo_call (1001 * second) (1001 * second), demo_intent),
     (''api'', demo_call (1002 * second) (1002 * second), demo_intent)] (NewService demo_policy None)))
   \<and> length (sg_built (sign_run demo_config [(''api'', demo_call (1001 * second) (1001 * second), demo_intent)] (NewService demo_policy None))) = 1"
proof -
  have "clock_ok 0 0 [(''api'', demo_call (1001 * second) (1001 * second), demo_intent), (''api'', demo_call (1002 * second) (1002 * second), demo_intent)]"
    by (simp add: demo_call_def second_def)
  moreover have "length (sg_built (sign_run demo_config [(''api'', demo_call (1001 * second) (1001 * second), demo_intent)] (NewService demo_policy None))) = 1"
    by code_simp
  ultimately show ?thesis
    using no_intent_signed_twice [of demo_config "NewService demo_policy None" 0 0] demo_checks by (simp del: sign_run.simps clock_ok.simps)
qed

theorem Sign_enforces_every_check_witness:
  "sg_built (snd (Service_Sign demo_config ''api'' (demo_call (1001 * second) (1001 * second)) demo_intent (NewService demo_policy None))) = [demo_intent]
   \<and> sg_built (snd (Service_Sign demo_config ''api'' ((demo_call (1001 * second) (1001 * second))\<lparr>cl_stat := StatError\<rparr>) demo_intent (NewService demo_policy None))) = []"
proof -
  let ?c = "demo_call (1001 * second) (1001 * second)" let ?s = "NewService demo_policy None"
  have "all_checks demo_config ?c demo_intent ?s" "\<not> all_checks demo_config (?c\<lparr>cl_stat := StatError\<rparr>) demo_intent ?s" by code_simp+
  then show ?thesis
    using Sign_enforces_every_check [of demo_config "''api''" ?c demo_intent ?s "fst (Service_Sign demo_config ''api'' ?c demo_intent ?s)" "snd (Service_Sign demo_config ''api'' ?c demo_intent ?s)"]
      Sign_enforces_every_check [of demo_config "''api''" "?c\<lparr>cl_stat := StatError\<rparr>" demo_intent ?s
        "fst (Service_Sign demo_config ''api'' (?c\<lparr>cl_stat := StatError\<rparr>) demo_intent ?s)" "snd (Service_Sign demo_config ''api'' (?c\<lparr>cl_stat := StatError\<rparr>) demo_intent ?s)"]
    by (simp add: demo_checks)
qed

text \<open>
  With the guard \<open>NewService\<close> builds, \<open>d\<close> is 0, but the service reads the clock again before it
  consults the guard. One nanosecond between the two reads is enough: an intent issued at the
  edge of the skew is signed, and again at the edge of its age, just after the sweep forgot it.
\<close>

theorem replay_at_the_edge:
  "length (sg_built (sign_run demo_config
     [(''api'', demo_call (970 * second) (970 * second), demo_intent),
      (''api'', demo_call (1120 * second) (1120 * second + 1), demo_intent)] (NewService demo_policy None))) = 2"
  by code_simp

section \<open>Weight vectors\<close>

definition weight_name :: "WeightEntry \<Rightarrow> string" where
  "weight_name w = trim_space (we_Protocol w)"

definition weight_ok :: "WeightEntry \<Rightarrow> bool" where
  "weight_ok w \<longleftrightarrow> weight_name w \<noteq> [] \<and> length (weight_name w) \<le> 64 \<and> 0 \<le> we_WeightBps w \<and> we_WeightBps w \<le> 10000"

lemma weights_loop_iff:
  "0 \<le> tot \<Longrightarrow> tot + 10000 * int (length ws) \<le> max64 \<Longrightarrow>
   weights_loop ws seen tot = None \<longleftrightarrow>
     (\<forall>w \<in> set ws. weight_ok w) \<and> distinct (map weight_name ws) \<and> set (map weight_name ws) \<inter> set seen = {}
     \<and> tot + sum_list (map we_WeightBps ws) = 10000"
proof (induction ws seen tot rule: weights_loop.induct)
  case (1 seen tot)
  then show ?case by (simp add: totalWeightBps_def)
next
  case (2 w ws seen tot)
  show ?case
  proof (cases "weight_ok w \<and> weight_name w \<notin> set seen")
    case False
    then show ?thesis by (auto simp: weight_ok_def weight_name_def totalWeightBps_def Let_def)
  next
    case True
    then have wrap: "wrap64 (tot + we_WeightBps w) = tot + we_WeightBps w"
      using 2(2,3) by (intro wrap64_id) (simp add: weight_ok_def int64_defs)
    have "weights_loop (w # ws) seen tot = weights_loop ws (weight_name w # seen) (tot + we_WeightBps w)"
      using True by (simp add: weight_ok_def weight_name_def totalWeightBps_def Let_def wrap)
    moreover have "weights_loop ws (weight_name w # seen) (tot + we_WeightBps w) = None \<longleftrightarrow>
       (\<forall>v \<in> set ws. weight_ok v) \<and> distinct (map weight_name ws) \<and> set (map weight_name ws) \<inter> set (weight_name w # seen) = {}
       \<and> tot + we_WeightBps w + sum_list (map we_WeightBps ws) = 10000"
      using 2(1) [OF refl] True 2(2,3) by (simp add: weight_ok_def weight_name_def [abs_def] totalWeightBps_def wrap del: set_map)
    ultimately show ?thesis using True by auto
  qed
qed

text \<open>
  C20: the validator accepts exactly the allocations: between one and 32 entries with
  distinct, non-empty names of at most 64 bytes once trimmed, each weight between 0 and
  10000 basis points, summing to 10000; the 64-bit running total cannot wrap.
\<close>

theorem validateWeights_accepts_iff:
  "validateWeights ws = None \<longleftrightarrow> ws \<noteq> [] \<and> length ws \<le> 32 \<and> (\<forall>w \<in> set ws. weight_ok w)
     \<and> distinct (map weight_name ws) \<and> sum_list (map we_WeightBps ws) = 10000"
proof (cases "ws = [] \<or> 32 < length ws")
  case False
  then have "(0::int) + 10000 * int (length ws) \<le> max64" by (simp add: max64_def)
  then show ?thesis using weights_loop_iff [of 0 ws "[]"] False by (auto simp: validateWeights_def maxWeightEntries_def)
qed (auto simp: validateWeights_def maxWeightEntries_def)

theorem validateWeights_accepts_iff_witness:
  "sum_list (map we_WeightBps [\<lparr>we_Protocol = ''aave'', we_WeightBps = 4000\<rparr>, \<lparr>we_Protocol = ''blend'', we_WeightBps = 6000\<rparr>]) = 10000"
proof -
  have "validateWeights [\<lparr>we_Protocol = ''aave'', we_WeightBps = 4000\<rparr>, \<lparr>we_Protocol = ''blend'', we_WeightBps = 6000\<rparr>] = None" by code_simp
  then show ?thesis using validateWeights_accepts_iff by blast
qed

section \<open>Listing the operations\<close>

lemma insort_snoc_le: "sorted (xs @ [z]) \<Longrightarrow> x \<le> z \<Longrightarrow> insort x (xs @ [z]) = insort x xs @ [z]"
  by (induction xs) auto

lemma insort_snoc_ge: "sorted xs \<Longrightarrow> \<forall>y \<in> set xs. y \<le> x \<Longrightarrow> insort x xs = xs @ [x]"
proof (induction xs)
  case (Cons a xs)
  then have IH: "insort x xs = xs @ [x]" by simp
  show ?case
  proof (cases "x \<le> a")
    case True
    then have "insort x xs = x # xs" using Cons.prems by (intro insort_is_Cons) auto
    then show ?thesis using True IH Cons.prems by auto
  qed (use IH in simp)
qed simp

lemma sift_down_insort: "sorted xs \<Longrightarrow> sift_down (xs @ x # ys) (length xs) = insort x xs @ ys"
proof (induction xs arbitrary: ys rule: rev_induct)
  case (snoc z zs)
  have nth: "((zs @ [z]) @ x # ys) ! Suc (length zs) = x" "((zs @ [z]) @ x # ys) ! length zs = z" by (simp_all add: nth_append)
  have "swap_down ((zs @ [z]) @ x # ys) (Suc (length zs)) = zs @ x # z # ys"
    by (simp add: swap_down_def nth_append list_update_append)
  moreover have "insort x (zs @ [z]) = zs @ [z, x]" if "z \<le> x"
  proof -
    have "\<forall>y \<in> set (zs @ [z]). y \<le> x" using snoc.prems that by (auto simp: sorted_append)
    then show ?thesis using insort_snoc_ge [OF snoc.prems] by simp
  qed
  ultimately show ?case using snoc nth insort_snoc_le [of zs z x] by (auto simp: sorted_append not_less)
qed simp

lemma insertion_loop_sorts: "sorted xs \<Longrightarrow> insertion_loop (xs @ ys) (length xs) = sort (xs @ ys)"
proof (induction ys arbitrary: xs)
  case Nil
  then show ?case by (simp add: sorted_sort_id)
next
  case (Cons x ys)
  have "insertion_loop (xs @ x # ys) (length xs) = insertion_loop (insort x xs @ ys) (length (insort x xs))"
    using sift_down_insort [OF Cons.prems, of x ys] by simp
  also have "\<dots> = sort (insort x xs @ ys)" using Cons.prems by (intro Cons.IH sorted_insort [THEN iffD2])
  also have "\<dots> = sort (xs @ x # ys)" by (rule properties_for_sort) simp_all
  finally show ?case .
qed

text \<open>
  The listing of the signable operations is a function of the table alone. Whatever order
  the map is iterated in, the in-place sort ends and returns the eight operations in
  ascending order.
\<close>

theorem KnownOperations_deterministic:
  assumes "mset iteration = mset (map fst operationShapes)"
  shows "KnownOperations iteration =
    [''deposit'', ''emergency_withdraw_all'', ''harvest'', ''pause'', ''rebalance'', ''set_weights'', ''unpause'', ''withdraw'']"
proof -
  have "KnownOperations iteration = sort iteration"
  proof (cases iteration)
    case (Cons a l)
    then show ?thesis using insertion_loop_sorts [of "[a]" l] by (simp add: KnownOperations_def del: insertion_loop.simps)
  qed (simp add: KnownOperations_def)
  also have "\<dots> = sort (map fst operationShapes)" using assms by (intro properties_for_sort) simp_all
  also have "\<dots> = [''deposit'', ''emergency_withdraw_all'', ''harvest'', ''pause'', ''rebalance'', ''set_weights'', ''unpause'', ''withdraw'']"
    by code_simp
  finally show ?thesis .
qed

theorem KnownOperations_deterministic_witness:
  "KnownOperations (rev (map fst operationShapes)) =
    [''deposit'', ''emergency_withdraw_all'', ''harvest'', ''pause'', ''rebalance'', ''set_weights'', ''unpause'', ''withdraw'']"
  using KnownOperations_deterministic [of "rev (map fst operationShapes)"] by simp

section \<open>Across the wire\<close>

lemma weights_loop_category: "weights_loop ws seen tot = Some r \<Longrightarrow> r = RejectWeightsInvalid"
  by (induction ws seen tot rule: weights_loop.induct) (auto simp: Let_def split: if_splits)

lemma never_refused_as_disabled: "fst (Service_Sign cfg name call i s) \<noteq> Inl (SignRejected RejectKillSwitchActive)"
proof -
  have args: "validate_arguments sh i \<noteq> Some RejectKillSwitchActive" for sh
    using weights_loop_category [of "in_Weights i" "[]" 0]
    by (auto simp: validate_arguments_def validateAccountAddress_def validateWeights_def Let_def)
  have "Intent_Validate i \<noteq> Some RejectKillSwitchActive"
    using args by (auto simp: Intent_Validate_def validateContractAddress_def Let_def split: option.splits)
  moreover have "Policy_Evaluate (sc_policy cfg) i t \<noteq> Some RejectKillSwitchActive" for t
    by (auto simp: Policy_Evaluate_def Let_def)
  moreover have "fst (ReplayGuard_Observe g k t) \<noteq> Some RejectKillSwitchActive" for g k t
    by (auto simp: ReplayGuard_Observe_def Let_def split: option.splits)
  ultimately show ?thesis
    by (auto simp: Service_Sign_def rejectWith_def Let_def split: option.splits prod.splits if_splits) (metis fst_conv)+
qed

text \<open>
  C21: what the service decided reaches the caller of \<open>Client.Sign\<close>. The request is written as
  JSON, bounded and read by the server, the answer written, cut at 64 KiB and read by the client.
  Where JSON reads back what it wrote of this intent, of the result and of refusals, and the
  answer fits the limit, a refusal arrives under its own category, the kill switch as
  \<open>ErrSigningDisabled\<close>, a backend failure as an error without category, and a signature as it was
  produced, unless it is empty. A request over the limit is refused as malformed, and neither
  it nor one of an unidentified caller reaches the service.
\<close>

theorem wire_preserves_decision:
  assumes "\<forall>msg cat. length msg \<le> 64 \<longrightarrow> wj_readRejection J (take maxRequestBytes (wj_error J msg cat)) = cat"
    and "wj_readRequest J (wj_request J i) = Some (Some i)"
    and "\<forall>name res. caller = Some name \<and> fst (Service_Sign cfg name call i s) = Inr res \<longrightarrow>
      length (wj_response J res) \<le> maxRequestBytes \<and> wj_readResponse J (wj_response J res) = Some res"
  shows "Client_Sign J (\<lambda>b. Some (fst (handleSign J cfg True caller (Some b) call s))) i =
     (case caller of None \<Rightarrow> Inl (ClientPolicy RejectUnauthorized)
      | Some name \<Rightarrow>
         if maxRequestBytes < length (wj_request J i) then Inl (ClientPolicy RejectMalformed)
         else (case fst (Service_Sign cfg name call i s) of
             Inl (SignRejected cat) \<Rightarrow> Inl (ClientPolicy cat)
           | Inl ErrSigningDisabled \<Rightarrow> Inl ClientDisabled
           | Inl SignBackendError \<Rightarrow> Inl ClientOther
           | Inr r \<Rightarrow> if sr_SignedXDR r = [] then Inl ClientOther else Inr r))
   \<and> (caller = None \<or> maxRequestBytes < length (wj_request J i) \<longrightarrow>
       sg_built (snd (handleSign J cfg True caller (Some (wj_request J i)) call s)) = sg_built s)"
proof (cases caller)
  case None
  then show ?thesis using assms(1) by (simp add: handleSign_def Client_Sign_def writeWireError_def)
next
  case (Some name)
  show ?thesis
  proof (cases "maxRequestBytes < length (wj_request J i)")
    case True
    then show ?thesis using assms(1) Some by (simp add: handleSign_def Client_Sign_def writeWireError_def)
  next
    case False
    obtain out s' where out: "Service_Sign cfg name call i s = (out, s')" by fastforce
    then have "out \<noteq> Inl (SignRejected RejectKillSwitchActive)" using never_refused_as_disabled [of cfg name call i s] by simp
    then show ?thesis
      using assms(1-3) False Some out
      by (cases out) (auto simp: handleSign_def Client_Sign_def writeSignError_def writeWireError_def Let_def split: sign_error.splits)
  qed
qed

text \<open>A small encoding: a request by its id, a result by its three lines, a refusal by the number of its category.\<close>

definition rejections :: "Rejection list" where
  "rejections = [RejectUnknownOperation, RejectShapeMismatch, RejectContractNotAllowed, RejectNetworkMismatch, RejectInvalidAddress,
     RejectAmountOutOfPolicy, RejectWeightsInvalid, RejectIntentExpired, RejectIntentReplayed, RejectMalformed, RejectKillSwitchActive,
     RejectUnauthorized]"

definition read_lines :: "string \<Rightarrow> SignResult option" where
  "read_lines t =
     (let line = takeWhile (\<lambda>c. c \<noteq> CHR 0x0A); rest = (\<lambda>u. drop 1 (dropWhile (\<lambda>c. c \<noteq> CHR 0x0A) u))
      in Some \<lparr>sr_SignedXDR = line t, sr_KeyID = line (rest t), sr_IntentHash = rest (rest t)\<rparr>)"

definition demo_wire :: wire_json where
  "demo_wire = \<lparr>wj_request = in_ID, wj_readRequest = (\<lambda>t. Some (Some (demo_intent\<lparr>in_ID := t\<rparr>))),
     wj_response = (\<lambda>r. sr_SignedXDR r @ CHR 0x0A # sr_KeyID r @ CHR 0x0A # sr_IntentHash r), wj_readResponse = read_lines,
     wj_error = (\<lambda>msg cat. case cat of None \<Rightarrow> [] | Some c \<Rightarrow> replicate (length (takeWhile (\<lambda>d. d \<noteq> c) rejections) + 1) CHR ''x''),
     wj_readRejection = (\<lambda>t. if t = [] then None else Some (rejections ! (length t - 1)))\<rparr>"

theorem wire_preserves_decision_witness:
  "Client_Sign demo_wire (\<lambda>b. Some (fst (handleSign demo_wire demo_config True (Some ''api'') (Some b)
      (demo_call (1001 * second) (1001 * second)) (NewService demo_policy None)))) demo_intent
   = Inr \<lparr>sr_SignedXDR = ''xdr'', sr_KeyID = sc_keyID demo_config, sr_IntentHash = sc_hash demo_config demo_intent\<rparr>"
proof -
  let ?c = "demo_call (1001 * second) (1001 * second)" and ?s = "NewService demo_policy None"
  let ?r = "\<lparr>sr_SignedXDR = ''xdr'', sr_KeyID = sc_keyID demo_config, sr_IntentHash = sc_hash demo_config demo_intent\<rparr>"
  have sign: "fst (Service_Sign demo_config ''api'' ?c demo_intent ?s) = Inr ?r" by code_simp
  have ok: "length (wj_response demo_wire ?r) \<le> maxRequestBytes" "wj_readResponse demo_wire (wj_response demo_wire ?r) = Some ?r"
      "length (wj_request demo_wire demo_intent) \<le> maxRequestBytes"
    by (simp_all add: demo_wire_def demo_config_def maxRequestBytes_def demo_intent_def read_lines_def Let_def)
  have errors: "\<forall>msg cat. length msg \<le> 64 \<longrightarrow> wj_readRejection demo_wire (take maxRequestBytes (wj_error demo_wire msg cat)) = cat"
  proof (intro allI impI)
    fix msg cat
    show "wj_readRejection demo_wire (take maxRequestBytes (wj_error demo_wire msg cat)) = cat"
    proof (cases cat)
      case (Some c)
      then show ?thesis by (cases c) (simp_all add: demo_wire_def rejections_def maxRequestBytes_def)
    qed (simp add: demo_wire_def)
  qed
  have request: "wj_readRequest demo_wire (wj_request demo_wire demo_intent) = Some (Some demo_intent)"
    by (simp add: demo_wire_def demo_intent_def)
  show ?thesis
    using wire_preserves_decision [OF errors request, of "Some ''api''" demo_config ?c ?s] sign ok by simp
qed

section \<open>Where the checks are looser than stated\<close>

text \<open>
  A void operation is meant to carry no argument at all, since ignoring one would let a caller
  probe for parsing differences; the flag is ignored.
\<close>

definition demo_void :: Intent where
  "demo_void = demo_intent\<lparr>in_Operation := OpPause, in_Shape := ShapeVoid, in_Arg0 := 0, in_Flag := True\<rparr>"

theorem void_flag_accepted: "in_Flag demo_void \<and> Intent_Validate demo_void = None"
  by code_simp

text \<open>
  The audit commitment is said to distinguish any two intents. Its encoding separates fields
  but does not prefix their length, so a protocol name that contains the separators hides a
  second entry: two valid weight vectors, one with two entries and one with a single one,
  have the same preimage and therefore the same hash.
\<close>

definition weights_intent :: "WeightEntry list \<Rightarrow> Intent" where
  "weights_intent ws = demo_intent\<lparr>in_Operation := OpSetWeights, in_Shape := ShapeWeights, in_Arg0 := 0, in_Weights := ws\<rparr>"

definition two_weights :: "WeightEntry list" where
  "two_weights = [\<lparr>we_Protocol = ''a'', we_WeightBps = 0\<rparr>, \<lparr>we_Protocol = ''b'', we_WeightBps = 10000\<rparr>]"

definition one_weight :: "WeightEntry list" where
  "one_weight = [\<lparr>we_Protocol = ''a'' @ [CHR 0x1F] @ ''0'' @ [CHR 0x1E] @ ''w:b'', we_WeightBps = 10000\<rparr>]"

theorem commitment_collision:
  "Intent_Validate (weights_intent two_weights) = None \<and> Intent_Validate (weights_intent one_weight) = None
   \<and> weights_intent two_weights \<noteq> weights_intent one_weight
   \<and> HashIntent sha256hex stamp (weights_intent two_weights) = HashIntent sha256hex stamp (weights_intent one_weight)"
proof -
  have "Intent_Validate (weights_intent two_weights) = None" "Intent_Validate (weights_intent one_weight) = None" by code_simp+
  moreover have "itoa 0 = ''0''" by code_simp
  then have "HashIntent sha256hex stamp (weights_intent two_weights) = HashIntent sha256hex stamp (weights_intent one_weight)"
    by (simp add: HashIntent_def intent_preimage_def weights_intent_def two_weights_def one_weight_def writeField_def)
  moreover have "weights_intent two_weights \<noteq> weights_intent one_weight"
    by code_simp
  ultimately show ?thesis by blast
qed

end
