(* ===== verification/Money.thy ===== *)
theory Money
  imports Complex_Main Ledger_Service
begin

text \<open>
  Money outside the ledger: the operations of \<open>shopspring/decimal\<close> the vault code calls, as a
  record that extends the ledger's, the laws its documentation states, and the NUMERIC
  columns of the schema, which round a value to their scale and refuse one too large. The
  error type is the sum with early return, composed by \<open>bindE\<close>.
\<close>

section \<open>Early returns\<close>

definition bindE :: "'e + 'a \<Rightarrow> ('a \<Rightarrow> 'e + 'b) \<Rightarrow> 'e + 'b" where
  "bindE m f = (case m of Inl e \<Rightarrow> Inl e | Inr x \<Rightarrow> f x)"

definition failIf :: "bool \<Rightarrow> 'e \<Rightarrow> 'e + unit" where
  "failIf c e = (if c then Inl e else Inr ())"

lemma bindE_simps [simp]: "bindE (Inl e) f = Inl e" "bindE (Inr x) f = f x"
  by (simp_all add: bindE_def)

lemma bindE_Inr: "bindE m f = Inr y \<longleftrightarrow> (\<exists>x. m = Inr x \<and> f x = Inr y)"
  by (cases m) simp_all

lemma failIf_Inr [simp]: "failIf c e = Inr u \<longleftrightarrow> \<not> c"
  by (simp add: failIf_def)

section \<open>Decimals\<close>

text \<open>
  \<open>d_Num\<close> is the number a decimal denotes, which is what the driver sends as its text;
  \<open>d_Scan\<close> is the decimal the driver builds from a NUMERIC of the server.
\<close>

record 'd money_ops = "'d decimal_ops" +
  d_Add :: "'d \<Rightarrow> 'd \<Rightarrow> 'd"
  d_Sub :: "'d \<Rightarrow> 'd \<Rightarrow> 'd"
  d_Cmp :: "'d \<Rightarrow> 'd \<Rightarrow> int"
  d_Sign :: "'d \<Rightarrow> int"
  d_Zero :: 'd
  d_NewFromString :: "string \<Rightarrow> 'd option"
  d_Num :: "'d \<Rightarrow> rat"
  d_Scan :: "rat \<Rightarrow> 'd"

text \<open>A number with at most \<open>s\<close> digits after the point.\<close>

definition has_scale :: "nat \<Rightarrow> rat \<Rightarrow> bool" where
  "has_scale s q \<longleftrightarrow> (\<exists>n. q = of_int n / 10 ^ s)"

definition money_laws :: "('d, 'z) money_ops_scheme \<Rightarrow> bool" where
  "money_laws D \<longleftrightarrow>
     (\<forall>a b. d_Num D (d_Add D a b) = d_Num D a + d_Num D b) \<and>
     (\<forall>a b. d_Num D (d_Sub D a b) = d_Num D a - d_Num D b) \<and>
     (\<forall>a b. d_Cmp D a b = (if d_Num D a < d_Num D b then - 1 else if d_Num D a = d_Num D b then 0 else 1)) \<and>
     (\<forall>a. d_Sign D a = (if d_Num D a < 0 then - 1 else if d_Num D a = 0 then 0 else 1)) \<and>
     d_Num D (d_Zero D) = 0 \<and>
     (\<forall>q. has_scale 8 q \<longrightarrow> d_Num D (d_Scan D q) = q) \<and>
     (\<forall>a b. d_Num D (d_Mul D a b) = d_Num D a * d_Num D b) \<and>
     (\<forall>n. d_Num D (d_NewFromInt D n) = of_int n) \<and>
     (\<forall>a n. d_Num D a = of_int n \<longrightarrow> d_Num D (d_Round D a 0) = of_int n) \<and>
     (\<forall>a n. d_Num D a = of_int n \<and> in64 n \<longrightarrow> d_IntPart D a = n)"

lemma money_lawsD:
  assumes "money_laws D"
  shows "d_Num D (d_Add D a b) = d_Num D a + d_Num D b"
    and "d_Num D (d_Sub D a b) = d_Num D a - d_Num D b"
    and "d_Cmp D a b \<le> 0 \<longleftrightarrow> d_Num D a \<le> d_Num D b"
    and "d_Cmp D a b < 0 \<longleftrightarrow> d_Num D a < d_Num D b"
    and "d_Cmp D a b = 0 \<longleftrightarrow> d_Num D a = d_Num D b"
    and "d_Sign D a \<le> 0 \<longleftrightarrow> d_Num D a \<le> 0"
    and "d_Num D (d_Zero D) = 0"
    and "has_scale 8 q \<Longrightarrow> d_Num D (d_Scan D q) = q"
    and "d_Num D (d_Mul D a b) = d_Num D a * d_Num D b"
    and "d_Num D (d_NewFromInt D n) = of_int n"
    and "d_Num D a = of_int n \<Longrightarrow> d_Num D (d_Round D a 0) = of_int n"
    and "d_Num D a = of_int n \<Longrightarrow> in64 n \<Longrightarrow> d_IntPart D a = n"
  using assms by (auto simp: money_laws_def)

text \<open>Rounding to no places gives a nearest whole number.\<close>

definition rounds_to_nearest :: "('d, 'z) money_ops_scheme \<Rightarrow> bool" where
  "rounds_to_nearest D \<longleftrightarrow> (\<forall>a. \<exists>n. d_Num D (d_Round D a 0) = of_int n \<and> \<bar>of_int n - d_Num D a\<bar> \<le> 1 / 2)"

text \<open>The comparisons of the library are written through \<open>Cmp\<close> and \<open>Sign\<close>.\<close>

definition d_GreaterThan :: "('d, 'z) money_ops_scheme \<Rightarrow> 'd \<Rightarrow> 'd \<Rightarrow> bool" where
  "d_GreaterThan D a b \<longleftrightarrow> 0 < d_Cmp D a b"
definition d_LessThan :: "('d, 'z) money_ops_scheme \<Rightarrow> 'd \<Rightarrow> 'd \<Rightarrow> bool" where
  "d_LessThan D a b \<longleftrightarrow> d_Cmp D a b < 0"
definition d_IsPositive :: "('d, 'z) money_ops_scheme \<Rightarrow> 'd \<Rightarrow> bool" where
  "d_IsPositive D a \<longleftrightarrow> 0 < d_Sign D a"

lemma money_cmp:
  assumes "money_laws D"
  shows "d_GreaterThan D a b \<longleftrightarrow> d_Num D b < d_Num D a"
    and "d_LessThan D a b \<longleftrightarrow> d_Num D a < d_Num D b"
    and "d_IsPositive D a \<longleftrightarrow> 0 < d_Num D a"
  using assms by (auto simp: money_laws_def d_GreaterThan_def d_LessThan_def d_IsPositive_def)

section \<open>NUMERIC columns\<close>

text \<open>PostgreSQL rounds a NUMERIC half away from zero.\<close>

definition numeric_round :: "nat \<Rightarrow> rat \<Rightarrow> rat" where
  "numeric_round s q = (let r = of_int \<lfloor>\<bar>q\<bar> * 10 ^ s + 1 / 2\<rfloor> / 10 ^ s in if q < 0 then - r else r)"

text \<open>Assignment to a column of type \<open>NUMERIC(p, s)\<close>.\<close>

definition numeric :: "nat \<Rightarrow> nat \<Rightarrow> rat \<Rightarrow> pg_error + rat" where
  "numeric p s q =
     (let r = numeric_round s q in
      if 10 ^ (p - s) \<le> \<bar>r\<bar> then Inl (PgError ''22003'' []) else Inr r)"

lemma has_scale_round [simp]: "has_scale s (numeric_round s q)"
proof (cases "q < 0")
  case True
  then have "numeric_round s q = of_int (- \<lfloor>\<bar>q\<bar> * 10 ^ s + 1 / 2\<rfloor>) / 10 ^ s"
    by (simp add: numeric_round_def Let_def)
  then show ?thesis unfolding has_scale_def by blast
next
  case False
  then show ?thesis by (auto simp: numeric_round_def Let_def has_scale_def)
qed

lemma numeric_round_id: "has_scale s q \<Longrightarrow> numeric_round s q = q"
proof -
  assume "has_scale s q"
  then obtain n where q: "q = of_int n / 10 ^ s" by (auto simp: has_scale_def)
  then have "\<bar>q\<bar> * 10 ^ s = of_int \<bar>n\<bar>" by (simp add: abs_divide)
  moreover have "\<lfloor>of_int \<bar>n\<bar> + 1 / 2 :: rat\<rfloor> = \<bar>n\<bar>" by (rule floor_unique) simp_all
  moreover have "q < 0 \<longleftrightarrow> n < 0" using q by (simp add: divide_less_0_iff)
  ultimately show ?thesis using q by (cases "n < 0") (simp_all add: numeric_round_def Let_def)
qed

lemma has_scale_add: "has_scale s a \<Longrightarrow> has_scale s b \<Longrightarrow> has_scale s (a + b)"
  by (auto simp: has_scale_def add_divide_distrib [symmetric] simp flip: of_int_add)

lemma has_scale_uminus: "has_scale s a \<Longrightarrow> has_scale s (- a)"
  unfolding has_scale_def by (metis minus_divide_left of_int_minus)

lemma has_scale_0 [simp]: "has_scale s 0"
  by (auto simp: has_scale_def intro: exI [of _ 0])

lemma has_scale_sum_list: "(\<And>x. x \<in> set xs \<Longrightarrow> has_scale s x) \<Longrightarrow> has_scale s (sum_list xs)"
  by (induction xs) (auto intro: has_scale_add)

text \<open>Rounding is monotone.\<close>

lemma numeric_round_mono:
  assumes "a \<le> b" shows "numeric_round s a \<le> numeric_round s b"
proof -
  define m :: "rat \<Rightarrow> rat" where "m x = of_int \<lfloor>\<bar>x\<bar> * 10 ^ s + 1 / 2\<rfloor> / 10 ^ s" for x
  have round: "numeric_round s x = (if x < 0 then - m x else m x)" for x
    by (simp add: numeric_round_def m_def)
  have pos: "0 \<le> m x" for x by (simp add: m_def)
  have mono: "m x \<le> m y" if "\<bar>x\<bar> \<le> \<bar>y\<bar>" for x y
    unfolding m_def using that by (intro divide_right_mono) (auto intro!: floor_mono mult_right_mono)
  show ?thesis
    using assms pos [of a] pos [of b] mono [of b a] mono [of a b] unfolding round by (auto split: if_splits)
qed

lemma numeric_Inr: "numeric p s q = Inr r \<longleftrightarrow> r = numeric_round s q \<and> \<bar>r\<bar> < 10 ^ (p - s)"
  by (auto simp: numeric_def Let_def)

end
