(* ===== verification/Caps.thy ===== *)
theory Caps
  imports Money
begin

text \<open>
  Deposit caps (\<open>internal/domain/caps/model.go\<close>): the launch caps per user and for the
  protocol with their approach warnings, in the version that reads the totals itself and the
  one that is given totals read under a lock, and the three single-number caps.
\<close>

section \<open>Types\<close>

datatype cap_kind = KindPerUser | KindGlobal

record 'd CapExceededError =
  ce_Kind :: cap_kind
  ce_Cap :: 'd
  ce_CurrentTotal :: 'd
  ce_Attempted :: 'd

datatype cap_sentinel =
    ErrPerUserCapExceeded | ErrGlobalCapExceeded | ErrVaultCapExceeded
  | ErrUserDailyCapExceeded | ErrTVLCapExceeded

definition CapExceededError_Unwrap :: "'d CapExceededError \<Rightarrow> cap_sentinel" where
  "CapExceededError_Unwrap e =
     (if ce_Kind e = KindPerUser then ErrPerUserCapExceeded else ErrGlobalCapExceeded)"

record 'd Warning =
  w_Kind :: cap_kind
  w_UserID :: uuid
  w_Cap :: 'd
  w_NewTotal :: 'd
  w_ThresholdPct :: int

record 'd CapConfig =
  PerUserCap :: 'd
  GlobalCap :: 'd
  WarnThresholdsPct :: "int list"

text \<open>What the two reads of \<open>Totals\<close> answer.\<close>

record ('d, 'e) Totals =
  UserDepositTotal :: "uuid \<Rightarrow> 'e + 'd"
  GlobalDepositTotal :: "'e + 'd"

section \<open>Configuration\<close>

datatype cap_parse_error = InvalidCapValue | NegativeCapValue

definition ParseCapValue :: "('d, 'z) money_ops_scheme \<Rightarrow> string \<Rightarrow> cap_parse_error + 'd" where
  "ParseCapValue D raw =
     (let trimmed = trim_space raw in
      if trimmed = [] \<or> trimmed = ''0'' then Inr (d_Zero D)
      else (case d_NewFromString D trimmed of
          None \<Rightarrow> Inl InvalidCapValue
        | Some v \<Rightarrow> if d_Sign D v < 0 then Inl NegativeCapValue else Inr v))"

definition perUserEnabled :: "('d, 'z) money_ops_scheme \<Rightarrow> 'd CapConfig \<Rightarrow> bool" where
  "perUserEnabled D c \<longleftrightarrow> d_IsPositive D (PerUserCap c)"

definition globalEnabled :: "('d, 'z) money_ops_scheme \<Rightarrow> 'd CapConfig \<Rightarrow> bool" where
  "globalEnabled D c \<longleftrightarrow> d_IsPositive D (GlobalCap c)"

section \<open>Warnings\<close>

definition cap_threshold :: "('d, 'z) money_ops_scheme \<Rightarrow> 'd \<Rightarrow> int \<Rightarrow> 'd" where
  "cap_threshold D cp pct = d_Div D (d_Mul D cp (d_NewFromInt D pct)) (d_NewFromInt D 100)"

definition collectWarnings ::
  "('d, 'z) money_ops_scheme \<Rightarrow> 'd CapConfig \<Rightarrow> cap_kind \<Rightarrow> uuid \<Rightarrow> 'd \<Rightarrow> 'd \<Rightarrow> 'd \<Rightarrow> 'd Warning list" where
  "collectWarnings D cfg kind userID cp priorTotal newTotal =
     (if d_Sign D cp \<le> 0 then []
      else [\<lparr>w_Kind = kind, w_UserID = userID, w_Cap = cp, w_NewTotal = newTotal, w_ThresholdPct = pct\<rparr>.
            pct \<leftarrow> WarnThresholdsPct cfg,
            d_LessThan D priorTotal (cap_threshold D cp pct) \<and> \<not> d_LessThan D newTotal (cap_threshold D cp pct)])"

section \<open>The launch caps\<close>

text \<open>One cap against one total: the refusal, or the warnings to emit if nothing else refuses.\<close>

definition check_total ::
  "('d, 'z) money_ops_scheme \<Rightarrow> 'd CapConfig \<Rightarrow> cap_kind \<Rightarrow> uuid \<Rightarrow> 'd \<Rightarrow> 'd \<Rightarrow> 'd
   \<Rightarrow> 'd CapExceededError + 'd Warning list" where
  "check_total D cfg kind userID cp current amount =
     (let newTotal = d_Add D current amount in
      if d_GreaterThan D newTotal cp
      then Inl \<lparr>ce_Kind = kind, ce_Cap = cp, ce_CurrentTotal = current, ce_Attempted = amount\<rparr>
      else Inr (collectWarnings D cfg kind userID cp current newTotal))"

text \<open>
  A call answers with the refusal, if any, and the warnings it passed to \<open>WarnFunc\<close>. A nil
  checker is \<open>None\<close>.
\<close>

definition EvaluateTotals ::
  "('d, 'z) money_ops_scheme \<Rightarrow> 'd CapConfig option \<Rightarrow> uuid \<Rightarrow> 'd \<Rightarrow> 'd \<Rightarrow> 'd
   \<Rightarrow> 'd CapExceededError option \<times> 'd Warning list" where
  "EvaluateTotals D c userID amount currentUserTotal currentGlobalTotal =
     (case c of None \<Rightarrow> (None, []) | Some cfg \<Rightarrow>
      if \<not> perUserEnabled D cfg \<and> \<not> globalEnabled D cfg then (None, [])
      else if d_Sign D amount \<le> 0 then (None, [])
      else (case (if perUserEnabled D cfg
                  then check_total D cfg KindPerUser userID (PerUserCap cfg) currentUserTotal amount else Inr []) of
          Inl e \<Rightarrow> (Some e, [])
        | Inr ws \<Rightarrow>
          (case (if globalEnabled D cfg
                 then check_total D cfg KindGlobal uuid_Nil (GlobalCap cfg) currentGlobalTotal amount else Inr []) of
             Inl e \<Rightarrow> (Some e, [])
           | Inr ws' \<Rightarrow> (None, ws @ ws'))))"

datatype ('d, 'e) cap_error = CapExceeded "'d CapExceededError" | TotalsFailed 'e

definition CheckDeposit ::
  "('d, 'z) money_ops_scheme \<Rightarrow> ('d CapConfig \<times> ('d, 'e) Totals option) option \<Rightarrow> uuid \<Rightarrow> 'd
   \<Rightarrow> ('d, 'e) cap_error option \<times> 'd Warning list" where
  "CheckDeposit D c userID amount =
     (case c of None \<Rightarrow> (None, []) | Some (cfg, None) \<Rightarrow> (None, []) | Some (cfg, Some tot) \<Rightarrow>
      if \<not> perUserEnabled D cfg \<and> \<not> globalEnabled D cfg then (None, [])
      else if d_Sign D amount \<le> 0 then (None, [])
      else (case (if perUserEnabled D cfg
                  then (case UserDepositTotal tot userID of
                          Inl e \<Rightarrow> Inl (TotalsFailed e)
                        | Inr current \<Rightarrow>
                            map_sum CapExceeded id (check_total D cfg KindPerUser userID (PerUserCap cfg) current amount))
                  else Inr []) of
          Inl e \<Rightarrow> (Some e, [])
        | Inr ws \<Rightarrow>
          (case (if globalEnabled D cfg
                 then (case GlobalDepositTotal tot of
                         Inl e \<Rightarrow> Inl (TotalsFailed e)
                       | Inr current \<Rightarrow>
                           map_sum CapExceeded id (check_total D cfg KindGlobal uuid_Nil (GlobalCap cfg) current amount))
                 else Inr []) of
             Inl e \<Rightarrow> (Some e, [])
           | Inr ws' \<Rightarrow> (None, ws @ ws'))))"

definition Checker_Enabled :: "('d, 'z) money_ops_scheme \<Rightarrow> 'd CapConfig option \<Rightarrow> bool" where
  "Checker_Enabled D c = (case c of None \<Rightarrow> False | Some cfg \<Rightarrow> perUserEnabled D cfg \<or> globalEnabled D cfg)"

section \<open>Single-number caps\<close>

definition CheckVaultCap :: "('d, 'z) money_ops_scheme \<Rightarrow> 'd \<Rightarrow> 'd option \<Rightarrow> 'd \<Rightarrow> cap_sentinel option" where
  "CheckVaultCap D currentBalance cp amount =
     (case cp of None \<Rightarrow> None | Some c \<Rightarrow>
      if d_GreaterThan D (d_Add D currentBalance amount) c then Some ErrVaultCapExceeded else None)"

definition CheckUserDailyCap :: "('d, 'z) money_ops_scheme \<Rightarrow> 'd \<Rightarrow> 'd option \<Rightarrow> 'd \<Rightarrow> cap_sentinel option" where
  "CheckUserDailyCap D rolling24hTotal cp amount =
     (case cp of None \<Rightarrow> None | Some c \<Rightarrow>
      if d_GreaterThan D (d_Add D rolling24hTotal amount) c then Some ErrUserDailyCapExceeded else None)"

definition CheckTVLCap :: "('d, 'z) money_ops_scheme \<Rightarrow> 'd \<Rightarrow> 'd option \<Rightarrow> 'd \<Rightarrow> cap_sentinel option" where
  "CheckTVLCap D currentTVL cp amount =
     (case cp of None \<Rightarrow> None | Some c \<Rightarrow>
      if d_Sign D c \<le> 0 then None
      else if d_GreaterThan D (d_Add D currentTVL amount) c then Some ErrTVLCapExceeded else None)"

section \<open>What the checks decide\<close>

lemma check_total_Inr:
  assumes "money_laws D" and "check_total D cfg k u cp current amount = Inr ws"
  shows "d_Num D current + d_Num D amount \<le> d_Num D cp"
  using assms(2) by (auto simp: check_total_def Let_def money_cmp [OF assms(1)] money_lawsD(1) [OF assms(1)] split: if_splits)

lemma EvaluateTotals_None:
  assumes "money_laws D" and "fst (EvaluateTotals D (Some cfg) u amount ut gt) = None" and "0 < d_Num D amount"
  shows "0 < d_Num D (PerUserCap cfg) \<Longrightarrow> d_Num D ut + d_Num D amount \<le> d_Num D (PerUserCap cfg)"
    and "0 < d_Num D (GlobalCap cfg) \<Longrightarrow> d_Num D gt + d_Num D amount \<le> d_Num D (GlobalCap cfg)"
  using assms(2,3)
  by (auto simp: EvaluateTotals_def perUserEnabled_def globalEnabled_def money_cmp [OF assms(1)]
      money_lawsD(6) [OF assms(1)] split: if_splits sum.splits dest: check_total_Inr [OF assms(1)])

text \<open>A refused deposit emits no warning.\<close>

lemma EvaluateTotals_refused: "EvaluateTotals D c u amount ut gt = (Some e, ws) \<Longrightarrow> ws = []"
  by (auto simp: EvaluateTotals_def split: option.splits if_splits sum.splits)

text \<open>When both reads succeed, the check that reads and the one that is given the totals decide alike.\<close>

lemma CheckDeposit_EvaluateTotals:
  assumes "UserDepositTotal tot u = Inr ut" and "GlobalDepositTotal tot = Inr gt"
  shows "CheckDeposit D (Some (cfg, Some tot)) u amount
    = map_prod (map_option CapExceeded) id (EvaluateTotals D (Some cfg) u amount ut gt)"
  using assms by (auto simp: CheckDeposit_def EvaluateTotals_def map_sum_def split: sum.splits)

text \<open>Along rising totals each threshold warns at most once: exactly when it lies between the first and the last.\<close>

fun run_warnings :: "('d, 'z) money_ops_scheme \<Rightarrow> 'd CapConfig \<Rightarrow> cap_kind \<Rightarrow> uuid \<Rightarrow> 'd \<Rightarrow> 'd list \<Rightarrow> 'd Warning list" where
  "run_warnings D cfg k u cp (t # t' # ts) = collectWarnings D cfg k u cp t t' @ run_warnings D cfg k u cp (t' # ts)"
| "run_warnings D cfg k u cp ts = []"

lemma warnings_of_threshold:
  "length (filter (\<lambda>w. w_ThresholdPct w = p) (collectWarnings D cfg k u cp t t'))
     = (if \<not> d_Sign D cp \<le> 0 \<and> d_LessThan D t (cap_threshold D cp p) \<and> \<not> d_LessThan D t' (cap_threshold D cp p)
        then count_list (WarnThresholdsPct cfg) p else 0)"
proof -
  have "length (filter (\<lambda>w. w_ThresholdPct w = p)
      [\<lparr>w_Kind = k, w_UserID = u, w_Cap = cp, w_NewTotal = t', w_ThresholdPct = pct\<rparr>. pct \<leftarrow> ps, Q pct])
    = (if Q p then count_list ps p else 0)" for ps Q
    by (induction ps) auto
  from this [of "\<lambda>pct. d_LessThan D t (cap_threshold D cp pct) \<and> \<not> d_LessThan D t' (cap_threshold D cp pct)" "WarnThresholdsPct cfg"]
  show ?thesis by (cases "d_Sign D cp \<le> 0") (simp_all add: collectWarnings_def)
qed

lemma warnings_once:
  assumes "money_laws D" and "sorted_wrt (\<lambda>a b. d_Num D a \<le> d_Num D b) (t # ts)"
  shows "length (filter (\<lambda>w. w_ThresholdPct w = p) (run_warnings D cfg k u cp (t # ts)))
    = (if 0 < d_Num D cp \<and> d_Num D t < d_Num D (cap_threshold D cp p) \<and>
         d_Num D (cap_threshold D cp p) \<le> d_Num D (last (t # ts))
       then count_list (WarnThresholdsPct cfg) p else 0)"
  using assms(2)
proof (induction ts arbitrary: t)
  case (Cons t' ts)
  have "d_Num D t' \<le> d_Num D (last (t' # ts))" using Cons.prems by (cases ts rule: rev_cases) auto
  then show ?case
    using Cons.IH [of t'] Cons.prems
    by (auto simp: warnings_of_threshold money_cmp [OF assms(1)] money_lawsD(6) [OF assms(1)])
qed simp

end
