(* ===== verification/Balance_Audit.thy ===== *)
theory Balance_Audit
  imports Money
begin

text \<open>
  The append-only trail of balance changes (\<open>internal/domain/balanceaudit/model.go\<close>,
  \<open>repository/postgres/balance_audit_repository.go\<close>) over the \<open>balance_audit_log\<close> table of
  migration 121, and the replay of a trail.
\<close>

section \<open>Entries\<close>

definition OperationDeposit :: string where "OperationDeposit = ''deposit''"
definition OperationWithdrawal :: string where "OperationWithdrawal = ''withdrawal''"
definition OperationHarvest :: string where "OperationHarvest = ''harvest''"
definition OperationOpeningBalance :: string where "OperationOpeningBalance = ''opening_balance''"

definition SystemActor :: "string \<Rightarrow> string" where
  "SystemActor source = ''system:'' @ source"

text \<open>The metadata map is kept as its JSON text, empty for an empty map.\<close>

record 'd BalanceEntry =
  ba_ID :: uuid
  ba_Seq :: int
  ba_VaultID :: uuid
  ba_UserID :: uuid
  ba_Actor :: string
  ba_Operation :: string
  ba_Amount :: 'd
  ba_BalanceBefore :: 'd
  ba_BalanceAfter :: 'd
  ba_ChainReference :: string
  ba_Metadata :: string
  ba_CreatedAt :: time

datatype audit_error = ErrReconciliationGap | ErrAuditNotFound | AuditServer pg_error | AuditFault

section \<open>Replaying a trail\<close>

text \<open>
  \<open>prevByVault\<close> and \<open>seen\<close> are one partial map: a vault is seen exactly when it has a previous
  balance.
\<close>

fun reconcile_loop ::
  "('d, 'z) money_ops_scheme \<Rightarrow> 'd \<Rightarrow> (uuid \<rightharpoonup> 'd) \<Rightarrow> 'd BalanceEntry list \<Rightarrow> audit_error + 'd" where
  "reconcile_loop D tot prevByVault [] = Inr tot"
| "reconcile_loop D tot prevByVault (e # es) =
     (if (case prevByVault (ba_VaultID e) of
            Some p \<Rightarrow> d_Cmp D (ba_BalanceBefore e) p \<noteq> 0
          | None \<Rightarrow> False)
      then Inl ErrReconciliationGap
      else reconcile_loop D (d_Add D tot (d_Sub D (ba_BalanceAfter e) (ba_BalanceBefore e)))
             (prevByVault(ba_VaultID e \<mapsto> ba_BalanceAfter e)) es)"

definition Reconcile :: "('d, 'z) money_ops_scheme \<Rightarrow> 'd BalanceEntry list \<Rightarrow> audit_error + 'd" where
  "Reconcile D entries = reconcile_loop D (d_Zero D) Map.empty entries"

section \<open>The table\<close>

record AuditRow =
  ar_id :: uuid
  ar_seq :: int
  ar_vault_id :: uuid
  ar_user_id :: uuid
  ar_actor :: string
  ar_operation :: string
  ar_amount :: rat
  ar_balance_before :: rat
  ar_balance_after :: rat
  ar_chain_reference :: "string option"
  ar_metadata :: "string option"
  ar_created_at :: time

text \<open>The rows and the next value of the \<open>seq\<close> sequence.\<close>

record AuditTable =
  at_rows :: "AuditRow list"
  at_next :: int

text \<open>The columns of the statement in the order the server checks them: types, key, foreign keys.\<close>

definition insert_audit ::
  "uuid list \<Rightarrow> uuid list \<Rightarrow> AuditRow \<Rightarrow> AuditTable \<Rightarrow> pg_error + AuditRow \<times> AuditTable" where
  "insert_audit vaultIDs userIDs row tab =
     bindE (numeric 48 8 (ar_amount row)) (\<lambda>amount.
     bindE (numeric 48 8 (ar_balance_before row)) (\<lambda>before.
     bindE (numeric 48 8 (ar_balance_after row)) (\<lambda>after.
     if ar_id row \<in> ar_id ` set (at_rows tab) then Inl (PgError ''23505'' ''balance_audit_log_pkey'')
     else if ar_vault_id row \<notin> set vaultIDs then Inl (PgError ''23503'' ''balance_audit_log_vault_id_fkey'')
     else if ar_user_id row \<notin> set userIDs then Inl (PgError ''23503'' ''balance_audit_log_user_id_fkey'')
     else (let row = row\<lparr>ar_seq := at_next tab, ar_amount := amount, ar_balance_before := before,
                        ar_balance_after := after\<rparr>
           in Inr (row, \<lparr>at_rows = at_rows tab @ [row], at_next = at_next tab + 1\<rparr>)))))"

text \<open>\<open>appendBalanceAuditEntry\<close>: on the pool or on the caller's transaction.\<close>

definition entry_row :: "('d, 'z) money_ops_scheme \<Rightarrow> time \<Rightarrow> 'd BalanceEntry \<Rightarrow> AuditRow" where
  "entry_row D now e =
     \<lparr>ar_id = ba_ID e, ar_seq = 0, ar_vault_id = ba_VaultID e, ar_user_id = ba_UserID e,
      ar_actor = ba_Actor e, ar_operation = ba_Operation e, ar_amount = d_Num D (ba_Amount e),
      ar_balance_before = d_Num D (ba_BalanceBefore e), ar_balance_after = d_Num D (ba_BalanceAfter e),
      ar_chain_reference = (if ba_ChainReference e = [] then None else Some (ba_ChainReference e)),
      ar_metadata = (if ba_Metadata e = [] then None else Some (ba_Metadata e)), ar_created_at = now\<rparr>"

definition appendBalanceAuditEntry ::
  "('d, 'z) money_ops_scheme \<Rightarrow> bool \<Rightarrow> uuid \<Rightarrow> time \<Rightarrow> uuid list \<Rightarrow> uuid list \<Rightarrow> 'd BalanceEntry \<Rightarrow> AuditTable
   \<Rightarrow> audit_error + 'd BalanceEntry \<times> AuditTable" where
  "appendBalanceAuditEntry D fault newID now vaultIDs userIDs e tab =
     (let e = e\<lparr>ba_ID := if ba_ID e = uuid_Nil then newID else ba_ID e\<rparr> in
      if fault then Inl AuditFault
      else (case insert_audit vaultIDs userIDs (entry_row D now e) tab of
          Inl pg \<Rightarrow> Inl (AuditServer pg)
        | Inr (row, tab') \<Rightarrow> Inr (e\<lparr>ba_Seq := ar_seq row, ba_CreatedAt := ar_created_at row\<rparr>, tab')))"

text \<open>On the pool the insert is a statement of its own: one that fails without an answer may still be durable.\<close>

definition BalanceAuditRepository_Append ::
  "('d, 'z) money_ops_scheme \<Rightarrow> bool \<Rightarrow> uuid \<Rightarrow> time \<Rightarrow> uuid list \<Rightarrow> uuid list \<Rightarrow> 'd BalanceEntry \<Rightarrow> AuditTable
   \<Rightarrow> (audit_error + 'd BalanceEntry) \<times> AuditTable" where
  "BalanceAuditRepository_Append D fault newID now vaultIDs userIDs e tab =
     (case appendBalanceAuditEntry D fault newID now vaultIDs userIDs e tab of
        Inl err \<Rightarrow> (Inl err, tab)
      | Inr (e', tab') \<Rightarrow> (Inr e', tab'))"

section \<open>Listing\<close>

definition DefaultListLimit :: int where "DefaultListLimit = 500"

definition normalizeListPage :: "int \<Rightarrow> int \<Rightarrow> int \<times> int" where
  "normalizeListPage limit offset =
     (if limit \<le> 0 then DefaultListLimit else limit, if offset < 0 then 0 else offset)"

definition scan_entry :: "('d, 'z) money_ops_scheme \<Rightarrow> AuditRow \<Rightarrow> 'd BalanceEntry" where
  "scan_entry D r =
     \<lparr>ba_ID = ar_id r, ba_Seq = ar_seq r, ba_VaultID = ar_vault_id r, ba_UserID = ar_user_id r,
      ba_Actor = ar_actor r, ba_Operation = ar_operation r, ba_Amount = d_Scan D (ar_amount r),
      ba_BalanceBefore = d_Scan D (ar_balance_before r), ba_BalanceAfter = d_Scan D (ar_balance_after r),
      ba_ChainReference = (case ar_chain_reference r of None \<Rightarrow> [] | Some s \<Rightarrow> s),
      ba_Metadata = (case ar_metadata r of None \<Rightarrow> [] | Some s \<Rightarrow> s), ba_CreatedAt = ar_created_at r\<rparr>"

definition scanBalanceAuditEntries ::
  "('d, 'z) money_ops_scheme \<Rightarrow> AuditRow list \<Rightarrow> int \<Rightarrow> audit_error + 'd BalanceEntry list" where
  "scanBalanceAuditEntries D rows tot = (if tot = 0 then Inl ErrAuditNotFound else Inr (map (scan_entry D) rows))"

text \<open>\<open>count(*)\<close>, then one page ordered by \<open>seq\<close>.\<close>

definition list_audit ::
  "('d, 'z) money_ops_scheme \<Rightarrow> sql_fault \<Rightarrow> (AuditRow \<Rightarrow> bool) \<Rightarrow> int \<Rightarrow> int \<Rightarrow> AuditTable
   \<Rightarrow> audit_error + 'd BalanceEntry list \<times> int" where
  "list_audit D flt P limit offset tab =
     (let (limit, offset) = normalizeListPage limit offset;
          matching = filter P (at_rows tab)
      in if flt 0 then Inl AuditFault
         else if flt 1 then Inl AuditFault
         else (case scanBalanceAuditEntries D (take (nat limit) (drop (nat offset) (sort_key ar_seq matching)))
                      (int (length matching)) of
             Inl err \<Rightarrow> Inl err
           | Inr es \<Rightarrow> Inr (es, int (length matching))))"

definition BalanceAuditRepository_ListByVault ::
  "('d, 'z) money_ops_scheme \<Rightarrow> sql_fault \<Rightarrow> uuid \<Rightarrow> int \<Rightarrow> int \<Rightarrow> AuditTable \<Rightarrow> audit_error + 'd BalanceEntry list \<times> int" where
  "BalanceAuditRepository_ListByVault D flt vaultID limit offset tab =
     list_audit D flt (\<lambda>r. ar_vault_id r = vaultID) limit offset tab"

definition BalanceAuditRepository_ListByUser ::
  "('d, 'z) money_ops_scheme \<Rightarrow> sql_fault \<Rightarrow> uuid \<Rightarrow> int \<Rightarrow> int \<Rightarrow> AuditTable \<Rightarrow> audit_error + 'd BalanceEntry list \<times> int" where
  "BalanceAuditRepository_ListByUser D flt userID limit offset tab =
     list_audit D flt (\<lambda>r. ar_user_id r = userID) limit offset tab"

section \<open>Chains\<close>

text \<open>The rows of one vault lead from balance \<open>b\<close> to balance \<open>b'\<close> without a gap.\<close>

fun audit_chain :: "rat \<Rightarrow> AuditRow list \<Rightarrow> rat \<Rightarrow> bool" where
  "audit_chain b [] b' \<longleftrightarrow> b = b'"
| "audit_chain b (r # rs) b' \<longleftrightarrow> ar_balance_before r = b \<and> audit_chain (ar_balance_after r) rs b'"

lemma audit_chain_append:
  "audit_chain b (xs @ ys) c \<longleftrightarrow> (\<exists>m. audit_chain b xs m \<and> audit_chain m ys c)"
  by (induction xs arbitrary: b) auto

definition vault_rows :: "uuid \<Rightarrow> AuditTable \<Rightarrow> AuditRow list" where
  "vault_rows v tab = filter (\<lambda>r. ar_vault_id r = v) (at_rows tab)"

text \<open>The sequence numbers rise along the rows and lie below the next one; the balances have scale 8.\<close>

definition audit_ok :: "AuditTable \<Rightarrow> bool" where
  "audit_ok tab \<longleftrightarrow>
     sorted_wrt (\<lambda>a b. ar_seq a < ar_seq b) (at_rows tab) \<and>
     list_all (\<lambda>r. ar_seq r < at_next tab \<and> has_scale 8 (ar_balance_before r) \<and> has_scale 8 (ar_balance_after r))
       (at_rows tab)"

lemma scan_entry_simps [simp]:
  "ba_VaultID (scan_entry D r) = ar_vault_id r"
  "ba_BalanceBefore (scan_entry D r) = d_Scan D (ar_balance_before r)"
  "ba_BalanceAfter (scan_entry D r) = d_Scan D (ar_balance_after r)"
  by (simp_all add: scan_entry_def)

text \<open>Replaying a chain whose decimals are exact yields its end.\<close>

lemma reconcile_chain:
  assumes D: "money_laws D" and "audit_chain b rows b'"
    and "list_all (\<lambda>r. ar_vault_id r = v \<and> has_scale 8 (ar_balance_before r) \<and> has_scale 8 (ar_balance_after r)) rows"
    and "case prev v of None \<Rightarrow> True | Some p \<Rightarrow> d_Num D p = b"
  shows "\<exists>y. reconcile_loop D tot prev (map (scan_entry D) rows) = Inr y \<and> d_Num D y = d_Num D tot + (b' - b)"
  using assms(2-)
proof (induction rows arbitrary: b tot prev)
  case (Cons r rs)
  have nums: "d_Num D (d_Scan D (ar_balance_before r)) = ar_balance_before r"
      "d_Num D (d_Scan D (ar_balance_after r)) = ar_balance_after r"
    using Cons.prems(2) money_lawsD(8) [OF D] by simp_all
  let ?tot = "d_Add D tot (d_Sub D (d_Scan D (ar_balance_after r)) (d_Scan D (ar_balance_before r)))"
  let ?prev = "prev(v \<mapsto> d_Scan D (ar_balance_after r))"
  have chain: "audit_chain (ar_balance_after r) rs b'" using Cons.prems(1) by simp
  have rows: "list_all (\<lambda>r. ar_vault_id r = v \<and> has_scale 8 (ar_balance_before r) \<and> has_scale 8 (ar_balance_after r)) rs"
    using Cons.prems(2) by simp
  have last: "case ?prev v of None \<Rightarrow> True | Some p \<Rightarrow> d_Num D p = ar_balance_after r" using nums by simp
  obtain y where "reconcile_loop D ?tot ?prev (map (scan_entry D) rs) = Inr y"
      "d_Num D y = d_Num D ?tot + (b' - ar_balance_after r)"
    using Cons.IH [where prev = ?prev and tot = ?tot, OF chain rows last] by blast
  then show ?case
    using Cons.prems nums money_lawsD(1,2,5) [OF D] by (auto split: option.splits)
qed simp

lemma sort_key_sorted_id: "sorted_wrt (\<lambda>a b. f a < f b) xs \<Longrightarrow> sort_key f xs = xs"
  for f :: "'a \<Rightarrow> int"
  by (rule sort_key_id_if_sorted) (simp add: sorted_map, erule sorted_wrt_mono_rel [rotated], simp)

text \<open>An appended entry extends its vault's rows and no other's.\<close>

lemma insert_audit_Inr:
  assumes "insert_audit vs us row tab = Inr (row', tab')"
  shows "at_rows tab' = at_rows tab @ [row']" and "at_next tab' = at_next tab + 1"
    and "ar_seq row' = at_next tab" and "ar_vault_id row' = ar_vault_id row"
    and "ar_balance_before row' = numeric_round 8 (ar_balance_before row)"
    and "ar_balance_after row' = numeric_round 8 (ar_balance_after row)"
    and "ar_vault_id row \<in> set vs" and "ar_user_id row \<in> set us"
  using assms by (auto simp: insert_audit_def bindE_Inr numeric_Inr Let_def split: if_splits)

lemma appendBalanceAuditEntry_Inr:
  assumes "appendBalanceAuditEntry D fault newID now vs us e tab = Inr (e', tab')"
  obtains row where "at_rows tab' = at_rows tab @ [row]" "at_next tab' = at_next tab + 1"
    "ar_seq row = at_next tab" "ar_vault_id row = ba_VaultID e"
    "ar_balance_before row = numeric_round 8 (d_Num D (ba_BalanceBefore e))"
    "ar_balance_after row = numeric_round 8 (d_Num D (ba_BalanceAfter e))"
    "ba_VaultID e \<in> set vs" "ba_UserID e \<in> set us"
proof -
  let ?row = "entry_row D now (e\<lparr>ba_ID := if ba_ID e = uuid_Nil then newID else ba_ID e\<rparr>)"
  obtain row where "insert_audit vs us ?row tab = Inr (row, tab')"
    using assms by (auto simp: appendBalanceAuditEntry_def Let_def split: if_splits sum.splits)
  from insert_audit_Inr [OF this] show ?thesis by (intro that [of row]) (simp_all add: entry_row_def)
qed

lemma audit_ok_append:
  assumes "audit_ok tab" and "at_rows tab' = at_rows tab @ [row]" and "at_next tab' = at_next tab + 1"
    and "ar_seq row = at_next tab" and "has_scale 8 (ar_balance_before row)" and "has_scale 8 (ar_balance_after row)"
  shows "audit_ok tab'"
  using assms by (auto simp: audit_ok_def sorted_wrt_append list_all_iff)

lemma vault_rows_append:
  "at_rows tab' = at_rows tab @ [row] \<Longrightarrow>
   vault_rows w tab' = vault_rows w tab @ (if w = ar_vault_id row then [row] else [])"
  by (simp add: vault_rows_def)

text \<open>A complete listing of a vault with an unbroken chain replays to the end of the chain.\<close>

lemma ListByVault_reconciles:
  assumes "money_laws D" and "audit_ok tab" and "audit_chain 0 (vault_rows v tab) b"
    and "BalanceAuditRepository_ListByVault D flt v limit 0 tab = Inr (es, n)" and "n \<le> limit"
  shows "\<exists>y. Reconcile D es = Inr y \<and> d_Num D y = b"
proof -
  have rows: "sort_key ar_seq (vault_rows v tab) = vault_rows v tab"
    using assms(2) by (intro sort_key_sorted_id) (simp add: audit_ok_def vault_rows_def sorted_wrt_filter)
  have n: "n = int (length (vault_rows v tab))" "n \<noteq> 0"
    using assms(4) by (auto simp: BalanceAuditRepository_ListByVault_def list_audit_def scanBalanceAuditEntries_def
        vault_rows_def Let_def split: if_splits sum.splits prod.splits)
  then have "es = map (scan_entry D) (vault_rows v tab)"
    using assms(4,5) rows by (auto simp: BalanceAuditRepository_ListByVault_def list_audit_def scanBalanceAuditEntries_def
        vault_rows_def Let_def normalizeListPage_def split: if_splits sum.splits)
  moreover have "list_all (\<lambda>r. ar_vault_id r = v \<and> has_scale 8 (ar_balance_before r) \<and> has_scale 8 (ar_balance_after r)) (vault_rows v tab)"
    using assms(2) by (auto simp: audit_ok_def vault_rows_def list_all_iff)
  ultimately show ?thesis
    using reconcile_chain [OF assms(1,3), of v Map.empty "d_Zero D"] money_lawsD(7) [OF assms(1)] by (simp add: Reconcile_def)
qed

end
