(* ===== verification/Vault_Ledger.thy ===== *)
theory Vault_Ledger
  imports Money Ledger_Postings
begin

text \<open>
  The vault repository posts to the ledger with helpers of its own
  (\<open>repository/postgres/vault_repository.go\<close>, from \<open>decimalToStroops\<close> to
  \<open>postRebalanceLedgerTx\<close>), inside the transaction that moves the vault's balance. This theory
  models them and shows that they post what the ledger service posts. The migrated schema has
  the ledger tables, so \<open>isLedgerTableMissing\<close> does not hold of any error here.
\<close>

section \<open>The helpers\<close>

definition stroopsPerUSDC :: int where "stroopsPerUSDC = 10000000"

definition vault_decimalToStroops :: "('d, 'z) money_ops_scheme \<Rightarrow> 'd \<Rightarrow> int" where
  "vault_decimalToStroops D d = d_IntPart D (d_Round D (d_Mul D d (d_NewFromInt D stroopsPerUSDC)) 0)"

definition ledger_key_missing :: "string \<Rightarrow> uuid option \<Rightarrow> uuid option \<Rightarrow> ledger_error option" where
  "ledger_key_missing ty vaultID userID =
     (if ty = AccountTypeUserVaultPosition then
        (if vaultID = None \<or> userID = None
         then Some (ErrKeyRequired ''vault_id and user_id required for user_vault_position'') else None)
      else if ty = AccountTypeVaultAssetPool then
        (if vaultID = None then Some (ErrKeyRequired ''vault_id required'') else None)
      else if ty = AccountTypePenaltyEscrow then
        (if vaultID = None then Some (ErrKeyRequired ''vault_id required for penalty_escrow'') else None)
      else if ty = AccountTypeYieldSource \<or> ty = AccountTypeFee \<or> ty = AccountTypeTreasury \<or>
              ty = AccountTypeSystemSuspense \<or> ty = AccountTypeExternal then None
      else Some ErrInvalidAccountType)"

definition default_adapter :: "string \<Rightarrow> string option \<Rightarrow> string option" where
  "default_adapter ty adapterName =
     (if ty = AccountTypeYieldSource \<and> (adapterName = None \<or> adapterName = Some []) then Some ''blend'' else adapterName)"

text \<open>When the second SELECT fails the fresh identifier is returned as if its row had been written.\<close>

definition ledgerGetOrCreateAccountTx ::
  "sql_fault \<Rightarrow> nat \<Rightarrow> uuid \<Rightarrow> time \<Rightarrow> LedgerDB \<Rightarrow> string \<Rightarrow> uuid option \<Rightarrow> uuid option \<Rightarrow> string option \<Rightarrow> string
   \<Rightarrow> ledger_error + uuid \<times> LedgerDB" where
  "ledgerGetOrCreateAccountTx flt n newID now db ty vaultID userID adapterName assetCode =
     (let assetCode = default_asset assetCode in
      case ledger_key_missing ty vaultID userID of Some err \<Rightarrow> Inl err | None \<Rightarrow>
      (let adapterName = default_adapter ty adapterName in
       if flt n then Inl SqlFault
       else (case select_account db ty vaultID userID adapterName assetCode of
          Inr acc \<Rightarrow> Inr (acc_ID acc, db)
        | Inl _ \<Rightarrow>
          if flt (n + 1) then Inl SqlFault
          else (case insert_account db (new_account newID now ty vaultID userID adapterName assetCode) of
              Inl err \<Rightarrow> Inl err
            | Inr (_, db') \<Rightarrow>
              if flt (n + 2) then Inr (newID, db')
              else (case select_account db' ty vaultID userID adapterName assetCode of
                  Inl _ \<Rightarrow> Inr (newID, db')
                | Inr acc \<Rightarrow> Inr (acc_ID acc, db'))))))"

text \<open>A leg: account, amount, type and identifier of the domain event.\<close>

type_synonym ledger_leg = "uuid \<times> int \<times> string \<times> string"

fun legs_sum :: "int \<Rightarrow> ledger_leg list \<Rightarrow> ledger_error + int" where
  "legs_sum s [] = Inr s"
| "legs_sum s ((i, x, ty, ev) # ls) =
     (if x = 0 then Inl ErrZeroAmount else legs_sum (wrap64 (s + x)) ls)"

definition leg_entry :: "uuid \<Rightarrow> uuid \<Rightarrow> time \<Rightarrow> ledger_leg \<Rightarrow> Entry" where
  "leg_entry entryID txID now l =
     (case l of (i, x, ty, ev) \<Rightarrow>
        \<lparr>e_ID = entryID, e_TransactionID = txID, e_AccountID = i, e_Amount = x,
         e_Direction = (if x < 0 then ''credit'' else ''debit''), e_CreatedAt = now,
         e_DomainEventType = ty, e_DomainEventID = ev, e_AssetCode = ''USDC'', e_AssetUnit = ''stroops''\<rparr>)"

fun post_legs ::
  "sql_fault \<Rightarrow> nat \<Rightarrow> (nat \<Rightarrow> uuid) \<Rightarrow> uuid \<Rightarrow> time \<Rightarrow> LedgerDB \<Rightarrow> ledger_leg list \<Rightarrow> ledger_error + LedgerDB" where
  "post_legs flt n newID txID now db [] = Inr db"
| "post_legs flt n newID txID now db (l # ls) =
     (let e = leg_entry (newID n) txID now l in
      if flt n then Inl SqlFault
      else (case insert_entry db e of
          Inl err \<Rightarrow> Inl err
        | Inr db1 \<Rightarrow>
          if flt (n + 1) then Inl SqlFault
          else (case upsert_balance now db1 (e_AccountID e) (e_Amount e) ''USDC'' ''stroops'' of
              Inl err \<Rightarrow> Inl err
            | Inr db2 \<Rightarrow> post_legs flt (n + 2) newID txID now db2 ls)))"

definition ledgerPostEntriesTx :: "ledger_env \<Rightarrow> LedgerDB \<Rightarrow> ledger_leg list \<Rightarrow> ledger_error + LedgerDB" where
  "ledgerPostEntriesTx env db legs =
     (if length legs < 2 then Inl ErrTooFewEntries
      else bindE (legs_sum 0 legs) (\<lambda>s.
        if s \<noteq> 0 then Inl ErrUnbalanced
        else post_legs (env_flt env) 100 (env_newID env) (env_txID env) (env_now env) db legs))"

section \<open>The postings\<close>

text \<open>The calls that open every posting, each with its early return; a statement keeps the position it has in the service.\<close>

fun ledger_accounts :: "ledger_env \<Rightarrow> nat \<Rightarrow> LedgerDB \<Rightarrow> account_key list \<Rightarrow> ledger_error + uuid list \<times> LedgerDB" where
  "ledger_accounts env n db [] = Inr ([], db)"
| "ledger_accounts env n db ((ty, vaultID, userID, adapter) # ks) =
     bindE (ledgerGetOrCreateAccountTx (env_flt env) n (env_newID env n) (env_now env) db ty vaultID userID adapter ''USDC'')
       (\<lambda>(i, db'). bindE (ledger_accounts env (n + 3) db' ks) (\<lambda>(is, db''). Inr (i # is, db'')))"

definition event_legs :: "string \<Rightarrow> string \<Rightarrow> uuid list \<Rightarrow> int list \<Rightarrow> ledger_leg list" where
  "event_legs ty ev ids amounts = map2 (\<lambda>i x. (i, x, ty, ev)) ids amounts"

definition postDepositLedgerTx ::
  "('d, 'z) money_ops_scheme \<Rightarrow> ledger_env \<Rightarrow> uuid \<Rightarrow> uuid \<Rightarrow> 'd \<Rightarrow> string \<Rightarrow> LedgerDB \<Rightarrow> ledger_error + LedgerDB" where
  "postDepositLedgerTx D env vaultID userID amount ev db =
     (let stroops = vault_decimalToStroops D amount in
      if stroops \<le> 0 then Inr db
      else bindE (ledger_accounts env 0 db (position_keys vaultID userID)) (\<lambda>(ids, db').
        ledgerPostEntriesTx env db'
          (event_legs ''deposit'' ev ids [stroops, stroops, wrap64 (- 2 * stroops)])))"

definition postWithdrawalLedgerTx ::
  "('d, 'z) money_ops_scheme \<Rightarrow> ledger_env \<Rightarrow> uuid \<Rightarrow> uuid \<Rightarrow> 'd \<Rightarrow> string \<Rightarrow> LedgerDB \<Rightarrow> ledger_error + LedgerDB" where
  "postWithdrawalLedgerTx D env vaultID userID amount ev db =
     (let stroops = vault_decimalToStroops D amount in
      if stroops \<le> 0 then Inr db
      else bindE (ledger_accounts env 0 db (position_keys vaultID userID)) (\<lambda>(ids, db').
        ledgerPostEntriesTx env db'
          (event_legs ''withdraw'' ev ids [wrap64 (- stroops), wrap64 (- stroops), wrap64 (2 * stroops)])))"

text \<open>The accounts are acquired in the order pool, user, fee, yield, suspense and the legs posted in another.\<close>

definition harvest_ledger_legs :: "int \<Rightarrow> int \<Rightarrow> int \<Rightarrow> string \<Rightarrow> uuid list \<Rightarrow> ledger_leg list" where
  "harvest_ledger_legs net fee gross ev ids =
     (if net \<noteq> 0 then event_legs ''harvest'' ev [ids ! 0, ids ! 1, ids ! 4] [net, net, wrap64 (- net)] else []) @
     (if fee \<noteq> 0 then event_legs ''harvest'' ev [ids ! 2] [fee] else []) @
     (if gross \<noteq> 0 then event_legs ''harvest'' ev [ids ! 3] [wrap64 (- gross)] else [])"

definition postHarvestLedgerTx ::
  "('d, 'z) money_ops_scheme \<Rightarrow> ledger_env \<Rightarrow> uuid \<Rightarrow> uuid \<Rightarrow> 'd \<Rightarrow> 'd \<Rightarrow> string \<Rightarrow> string \<Rightarrow> LedgerDB
   \<Rightarrow> ledger_error + LedgerDB" where
  "postHarvestLedgerTx D env vaultID userID netYield perfFee adapterName ev db =
     (let net = vault_decimalToStroops D netYield; fee = vault_decimalToStroops D perfFee in
      if net \<le> 0 \<and> fee \<le> 0 then Inr db
      else bindE (ledger_accounts env 0 db (harvest_keys vaultID userID adapterName)) (\<lambda>(ids, db').
        ledgerPostEntriesTx env db' (harvest_ledger_legs net fee (wrap64 (net + fee)) ev ids)))"

definition postRebalanceLedgerTx ::
  "('d, 'z) money_ops_scheme \<Rightarrow> ledger_env \<Rightarrow> string \<Rightarrow> string \<Rightarrow> 'd \<Rightarrow> string \<Rightarrow> LedgerDB \<Rightarrow> ledger_error + LedgerDB" where
  "postRebalanceLedgerTx D env fromProtocol toProtocol amount ev db =
     (let stroops = vault_decimalToStroops D amount in
      if stroops \<le> 0 then Inr db
      else if fromProtocol = toProtocol then Inr db
      else bindE (ledger_accounts env 0 db
          [(AccountTypeYieldSource, None, None, Some fromProtocol), (AccountTypeYieldSource, None, None, Some toProtocol)])
        (\<lambda>(ids, db'). ledgerPostEntriesTx env db' (event_legs ''rebalance'' ev ids [wrap64 (- stroops), stroops])))"

section \<open>Agreement with the ledger service\<close>

text \<open>
  A failed statement aborts its transaction, so every later statement fails too; identifiers
  drawn by \<open>uuid.New\<close> are new and not the nil one (no statement has a position from 200 on).
\<close>

definition aborts :: "sql_fault \<Rightarrow> bool" where
  "aborts flt \<longleftrightarrow> (\<forall>m n. m \<le> n \<longrightarrow> flt m \<longrightarrow> flt n)"

definition fresh_env :: "ledger_env \<Rightarrow> LedgerDB \<Rightarrow> bool" where
  "fresh_env env db \<longleftrightarrow> env_txID env \<noteq> uuid_Nil \<and> inj_on (env_newID env) {..<200} \<and>
     (\<forall>n<200. env_newID env n \<noteq> uuid_Nil \<and> env_newID env n \<notin> acc_ID ` set (db_accounts db)) \<and>
     uuid_Nil \<notin> acc_ID ` set (db_accounts db)"

lemma post_legs_entries:
  "post_legs flt n newID txID now db (event_legs ty ev (map acc_ID accs) amounts)
     = postEntriesTx flt n newID now db (posting_entries txID ty ev accs amounts)"
proof (induction accs arbitrary: n db amounts)
  case (Cons a accs)
  show ?case
  proof (cases amounts)
    case (Cons x xs)
    have "leg_entry (newID n) txID now (acc_ID a, x, ty, ev) = complete_entry (newID n) now (posting_entry txID ty ev a x)"
      by (simp add: leg_entry_def complete_entry_def posting_entry_def DirectionFromAmount_def)
    then show ?thesis
      using Cons.IH Cons
      by (simp add: event_legs_def posting_entries_def Let_def complete_entry_def posting_entry_def
          DirectionFromAmount_def split: sum.splits)
  qed (simp add: event_legs_def posting_entries_def)
qed (simp add: event_legs_def posting_entries_def)

text \<open>Keys with which neither implementation refuses the lookup.\<close>

fun plain_key :: "account_key \<Rightarrow> bool" where
  "plain_key (ty, v, u, ad) \<longleftrightarrow>
     ty \<in> set ValidAccountTypes \<and> account_key_missing ty v u ad = None \<and> ledger_key_missing ty v u = None \<and>
     default_adapter ty ad = ad"

lemma plain_position_keys: "list_all plain_key (position_keys v u)"
  by (simp add: position_keys_def account_key_missing_def ledger_key_missing_def default_adapter_def
      ValidAccountTypes_def account_type_defs)

lemma plain_harvest_keys: "ad \<noteq> [] \<Longrightarrow> list_all plain_key (harvest_keys v u ad)"
  by (simp add: harvest_keys_def account_key_missing_def ledger_key_missing_def default_adapter_def
      ValidAccountTypes_def account_type_defs)

lemma select_after_insert:
  assumes "select_account db ty v u ad ac = Inl err"
    and "insert_account db (new_account newID now ty v u ad ac) = Inr (b, db')"
    and "newID \<notin> acc_ID ` set (db_accounts db)" and "account_key_missing ty v u ad = None" and "ty \<in> set ValidAccountTypes"
  shows "\<exists>a. select_account db' ty v u ad ac = Inr a"
proof -
  let ?new = "new_account newID now ty v u ad ac"
  have none: "a \<in> set (db_accounts db) \<Longrightarrow> \<not> account_match ty v u ad ac a" for a
    using assms(1) by (auto simp: select_account_def find_None_iff split: option.splits)
  then have "\<not> list_ex (account_conflict ?new) (db_accounts db)"
    using assms(3) by (auto simp: list_ex_iff account_conflict_def new_account_def image_iff)
  then have db': "db_accounts db' = db_accounts db @ [?new]"
    using assms(2) by (auto simp: insert_account_def split: if_splits)
  have "account_match ty v u ad ac ?new"
    using assms(4,5) by (auto simp: account_match_def new_account_def account_key_missing_def sql_eq_iff
        account_type_defs split: if_splits)
  then show ?thesis
    unfolding select_account_def db' by (cases "find (account_match ty v u ad ac) (db_accounts db @ [?new])")
      (auto simp: find_None_iff)
qed

lemma get_account_agrees:
  assumes "plain_key (ty, v, u, ad)" and "newID \<notin> acc_ID ` set (db_accounts db)" and "\<not> flt (n + 2)"
  shows "ledgerGetOrCreateAccountTx flt n newID now db ty v u ad ''USDC'' = Inr (i, db') \<longleftrightarrow>
    (\<exists>a. LedgerRepository_GetOrCreateAccountTx flt n newID now db ty v u ad ''USDC'' = Inr (a, db') \<and> acc_ID a = i)"
  using assms select_after_insert [of db ty v u ad "''USDC''" _ newID now]
  by (auto simp: ledgerGetOrCreateAccountTx_def LedgerRepository_GetOrCreateAccountTx_def getOrCreateAccountTx_def
      default_asset_def ValidateAccountType_def Let_def split: sum.splits option.splits if_splits) blast

text \<open>An account lookup adds at most the identifier it was given.\<close>

lemma get_account_ids:
  assumes "LedgerRepository_GetOrCreateAccountTx flt n newID now db ty v u ad ac = Inr (a, db')"
  shows "acc_ID ` set (db_accounts db') \<subseteq> insert newID (acc_ID ` set (db_accounts db)) \<and> acc_ID a \<in> acc_ID ` set (db_accounts db')"
  using assms
  by (auto simp: LedgerRepository_GetOrCreateAccountTx_def getOrCreateAccountTx_def insert_account_def new_account_def
      split: option.splits if_splits sum.splits dest!: select_account_Inr)

definition fresh_from :: "ledger_env \<Rightarrow> nat \<Rightarrow> LedgerDB \<Rightarrow> bool" where
  "fresh_from env n db \<longleftrightarrow> inj_on (env_newID env) {..<200} \<and>
     (\<forall>m<200. env_newID env m \<noteq> uuid_Nil) \<and>
     (\<forall>m<200. n \<le> m \<longrightarrow> env_newID env m \<notin> acc_ID ` set (db_accounts db)) \<and>
     uuid_Nil \<notin> acc_ID ` set (db_accounts db)"

lemma fresh_from_get:
  assumes "fresh_from env n db" and n: "n < 200"
    and "LedgerRepository_GetOrCreateAccountTx flt n (env_newID env n) now db ty v u ad ac = Inr (a, db')"
  shows "fresh_from env (n + 3) db'" and "acc_ID a \<noteq> uuid_Nil"
proof -
  have sub: "acc_ID ` set (db_accounts db') \<subseteq> insert (env_newID env n) (acc_ID ` set (db_accounts db))"
      "acc_ID a \<in> acc_ID ` set (db_accounts db')" using get_account_ids [OF assms(3)] by simp_all
  have "env_newID env m \<noteq> env_newID env n" if "n + 3 \<le> m" "m < 200" for m
    using assms(1) that n inj_on_eq_iff [of "env_newID env" "{..<200}" m n] by (simp add: fresh_from_def)
  moreover have "env_newID env m \<notin> acc_ID ` set (db_accounts db)" if "n + 3 \<le> m" "m < 200" for m
    using assms(1) that by (simp add: fresh_from_def)
  ultimately have later: "env_newID env m \<notin> acc_ID ` set (db_accounts db')" if "n + 3 \<le> m" "m < 200" for m
    using sub(1) that by blast
  have "uuid_Nil \<notin> insert (env_newID env n) (acc_ID ` set (db_accounts db))"
    using assms(1) n by (simp add: fresh_from_def) metis
  then have nil: "uuid_Nil \<notin> acc_ID ` set (db_accounts db')" using sub(1) by blast
  show "fresh_from env (n + 3) db'" using assms(1) later nil by (simp add: fresh_from_def)
  show "acc_ID a \<noteq> uuid_Nil" using sub(2) nil by metis
qed

lemma accounts_agree:
  assumes "list_all plain_key ks" and "fresh_from env n db" and "\<And>m. m \<le> n + 3 * length ks \<Longrightarrow> \<not> env_flt env m"
    and "n + 3 * length ks < 200"
  shows "ledger_accounts env n db ks = Inr (ids, db') \<longleftrightarrow>
    (\<exists>accs. accounts_tx env n db ks = Inr (accs, db') \<and> ids = map acc_ID accs)"
  using assms
proof (induction ks arbitrary: n db ids db')
  case (Cons k ks)
  obtain ty v u ad where k: "k = (ty, v, u, ad)" by (cases k) auto
  let ?get = "LedgerRepository_GetOrCreateAccountTx (env_flt env) n (env_newID env n) (env_now env) db ty v u ad ''USDC''"
  have get: "ledgerGetOrCreateAccountTx (env_flt env) n (env_newID env n) (env_now env) db ty v u ad ''USDC'' = Inr (i, db1)
      \<longleftrightarrow> (\<exists>a. ?get = Inr (a, db1) \<and> acc_ID a = i)" for i db1
    using Cons.prems k by (intro get_account_agrees) (auto simp: fresh_from_def)
  have rest: "ledger_accounts env (n + 3) db1 ks = Inr (is, db') \<longleftrightarrow>
      (\<exists>accs. accounts_tx env (n + 3) db1 ks = Inr (accs, db') \<and> is = map acc_ID accs)" if "?get = Inr (a, db1)" for a db1 "is"
    using Cons.IH [of "n + 3" db1 "is" db'] Cons.prems fresh_from_get(1) [OF Cons.prems(2) _ that] by simp
  show ?case unfolding k by (auto simp: bindE_Inr get rest split: sum.splits)
qed auto

lemma legs_sum_validate:
  "(\<And>a. a \<in> set accs \<Longrightarrow> acc_ID a \<noteq> uuid_Nil) \<Longrightarrow>
   legs_sum s (event_legs ty ev (map acc_ID accs) amounts) = validate_entries tx s (posting_entries tx ty ev accs amounts)"
proof (induction accs arbitrary: s amounts)
  case (Cons a accs)
  then show ?case
    by (cases amounts) (auto simp: event_legs_def posting_entries_def posting_entry_def)
qed (simp add: event_legs_def posting_entries_def)

lemma accounts_tx_ids:
  assumes "accounts_tx env n db ks = Inr (accs, db')" and "fresh_from env n db" and "n + 3 * length ks < 200"
  shows "length accs = length ks" and "\<And>a. a \<in> set accs \<Longrightarrow> acc_ID a \<noteq> uuid_Nil"
proof -
  have "length accs = length ks \<and> (\<forall>a \<in> set accs. acc_ID a \<noteq> uuid_Nil)"
    using assms
  proof (induction ks arbitrary: n db accs)
    case (Cons k ks)
    obtain ty v u ad where k: "k = (ty, v, u, ad)" by (cases k) auto
    from Cons.prems obtain a db1 rest where
        get: "LedgerRepository_GetOrCreateAccountTx (env_flt env) n (env_newID env n) (env_now env) db ty v u ad ''USDC'' = Inr (a, db1)"
      and rest: "accounts_tx env (n + 3) db1 ks = Inr (rest, db')" "accs = a # rest"
      unfolding k by (auto split: sum.splits)
    then show ?case
      using Cons.IH [OF rest(1) fresh_from_get(1) [OF Cons.prems(2) _ get]] fresh_from_get(2) [OF Cons.prems(2) _ get] Cons.prems(3) by simp
  qed simp
  then show "length accs = length ks" "\<And>a. a \<in> set accs \<Longrightarrow> acc_ID a \<noteq> uuid_Nil" by auto
qed

lemma ledgerPostEntriesTx_agrees:
  assumes "length accs = length amounts" and "\<And>a. a \<in> set accs \<Longrightarrow> acc_ID a \<noteq> uuid_Nil" and "env_txID env \<noteq> uuid_Nil"
  shows "ledgerPostEntriesTx env db (event_legs ty ev (map acc_ID accs) amounts) = Inr db' \<longleftrightarrow>
    LedgerRepository_PostEntriesTx (env_flt env) 100 (env_newID env) (env_now env) (Some db)
      (posting_entries (env_txID env) ty ev accs amounts) = Inr db'"
proof -
  have len: "length (event_legs ty ev (map acc_ID accs) amounts) = length amounts"
      "length (posting_entries (env_txID env) ty ev accs amounts) = length amounts"
    using assms(1) by (simp_all add: event_legs_def posting_entries_def)
  have hd: "e_TransactionID (hd (posting_entries (env_txID env) ty ev accs amounts)) = env_txID env" if "2 \<le> length amounts"
    using that assms(1) by (cases accs; cases amounts) (simp_all add: posting_entries_def posting_entry_def)
  show ?thesis
    using assms(3) hd
    by (auto simp: ledgerPostEntriesTx_def LedgerRepository_PostEntriesTx_def ValidateBalanced_def len bindE_Inr
        legs_sum_validate [OF assms(2), where tx = "env_txID env"] post_legs_entries Let_def
        split: sum.splits if_splits)
qed

text \<open>
  With fresh identifiers and a transaction that aborts on its first failure, the repository's
  posting succeeds exactly when the service's does, and with the same rows.
\<close>

lemma posting_agrees:
  assumes "list_all plain_key keys" and "length amounts = length keys" and "keys \<noteq> []" and "length keys \<le> 32"
    and "fresh_env env db" and "aborts (env_flt env)"
  shows "bindE (ledger_accounts env 0 db keys) (\<lambda>(ids, db1). ledgerPostEntriesTx env db1 (event_legs ty ev ids amounts)) = Inr db'
    \<longleftrightarrow> post_tx env ty ev keys amounts db = Inr db'"
proof (cases "env_flt env 100")
  case True
  have "ledgerPostEntriesTx env db1 (event_legs ty ev ids amounts) \<noteq> Inr db'" for db1 ids
    using True by (cases "event_legs ty ev ids amounts") (auto simp: ledgerPostEntriesTx_def bindE_Inr Let_def)
  moreover have "LedgerRepository_PostEntriesTx (env_flt env) 100 (env_newID env) (env_now env) (Some db1) es \<noteq> Inr db'" for db1 es
    using True by (cases es) (auto simp: LedgerRepository_PostEntriesTx_def ValidateBalanced_def Let_def split: option.splits sum.splits)
  ultimately show ?thesis by (auto simp: bindE_Inr post_tx_def split: sum.splits)
next
  case False
  have ok: "\<not> env_flt env m" if "m \<le> 0 + 3 * length keys" for m
  proof -
    have "m \<le> 100" using that assms(4) by simp
    then show ?thesis using assms(6) False unfolding aborts_def by blast
  qed
  have fresh: "fresh_from env 0 db" and tx: "env_txID env \<noteq> uuid_Nil" using assms(5) by (auto simp: fresh_env_def fresh_from_def)
  have post: "ledgerPostEntriesTx env db1 (event_legs ty ev (map acc_ID accs) amounts) = Inr db' \<longleftrightarrow>
      LedgerRepository_PostEntriesTx (env_flt env) 100 (env_newID env) (env_now env) (Some db1)
        (posting_entries (env_txID env) ty ev accs amounts) = Inr db'" if "accounts_tx env 0 db keys = Inr (accs, db1)" for accs db1
    using ledgerPostEntriesTx_agrees [of accs amounts env db1 ty ev db'] accounts_tx_ids [OF that fresh] assms(2,4) tx by simp
  show ?thesis
    using accounts_agree [OF assms(1) fresh ok] assms(4) post by (fastforce simp: bindE_Inr post_tx_def split: sum.splits)
qed

lemma postDepositLedgerTx_agrees:
  assumes "fresh_env env db" and "aborts (env_flt env)" and "0 < vault_decimalToStroops D amount"
  shows "postDepositLedgerTx D env v u amount ev db = Inr db' \<longleftrightarrow>
    postDepositWithTx env v u (vault_decimalToStroops D amount) ev db = Inr db'"
  using posting_agrees [OF plain_position_keys _ _ _ assms(1,2)] assms(3)
  by (simp add: postDepositLedgerTx_def postDepositWithTx_def Let_def position_keys_def)

lemma postWithdrawalLedgerTx_agrees:
  assumes "fresh_env env db" and "aborts (env_flt env)" and "0 < vault_decimalToStroops D amount"
  shows "postWithdrawalLedgerTx D env v u amount ev db = Inr db' \<longleftrightarrow>
    postWithdrawalWithTx env v u (vault_decimalToStroops D amount) ev db = Inr db'"
  using posting_agrees [OF plain_position_keys _ _ _ assms(1,2)] assms(3)
  by (simp add: postWithdrawalLedgerTx_def postWithdrawalWithTx_def Let_def position_keys_def)

text \<open>The stroops of an amount that is a whole number of them.\<close>

lemma vault_decimalToStroops_exact:
  assumes "money_laws D" and "d_Num D a = of_int n / 10 ^ 7" and "in64 n"
  shows "vault_decimalToStroops D a = n"
proof -
  have "d_Num D (d_Mul D a (d_NewFromInt D stroopsPerUSDC)) = of_int n"
    using money_lawsD(9,10) [OF assms(1)] assms(2) by (simp add: stroopsPerUSDC_def)
  then show ?thesis
    unfolding vault_decimalToStroops_def using money_lawsD(11,12) [OF assms(1)] assms(3) by blast
qed

text \<open>The stroops of any amount: the nearest whole number of them.\<close>

lemma vault_decimalToStroops_nearest:
  assumes "money_laws D" and "rounds_to_nearest D" and "0 \<le> d_Num D a" and "d_Num D a \<le> 2 ^ 62 / 10 ^ 7"
  shows "0 \<le> vault_decimalToStroops D a" and "vault_decimalToStroops D a \<le> 2 ^ 62"
    and "\<bar>of_int (vault_decimalToStroops D a) - d_Num D a * 10 ^ 7\<bar> \<le> 1 / 2"
proof -
  let ?m = "d_Mul D a (d_NewFromInt D stroopsPerUSDC)"
  have m: "d_Num D ?m = d_Num D a * 10 ^ 7" using money_lawsD(9,10) [OF assms(1)] by (simp add: stroopsPerUSDC_def)
  obtain n where n: "d_Num D (d_Round D ?m 0) = of_int n" "\<bar>of_int n - d_Num D ?m\<bar> \<le> 1 / 2"
    using assms(2) unfolding rounds_to_nearest_def by blast
  have "d_Num D ?m \<le> 2 ^ 62 / 10 ^ 7 * 10 ^ 7" unfolding m using assms(4) by (intro mult_right_mono) simp_all
  then have "0 \<le> d_Num D ?m" "d_Num D ?m \<le> 2 ^ 62" unfolding m using assms(3) by simp_all
  then have "- 1 / 2 \<le> (of_int n :: rat)" "(of_int n :: rat) \<le> 2 ^ 62 + 1 / 2" using n(2) unfolding abs_le_iff by linarith+
  then have "(of_int (- 1) :: rat) < of_int n" "(of_int n :: rat) < of_int (2 ^ 62 + 1)" by simp_all
  then have "- 1 < n" "n < 2 ^ 62 + 1" unfolding of_int_less_iff .
  then have range: "0 \<le> n" "n \<le> 2 ^ 62" by simp_all
  then have "vault_decimalToStroops D a = n"
    unfolding vault_decimalToStroops_def by (intro money_lawsD(12) [OF assms(1) n(1)]) (simp add: int64_defs)
  then show "0 \<le> vault_decimalToStroops D a" "vault_decimalToStroops D a \<le> 2 ^ 62"
    "\<bar>of_int (vault_decimalToStroops D a) - d_Num D a * 10 ^ 7\<bar> \<le> 1 / 2" using range n(2) m by simp_all
qed

end
