(* ===== verification/Vault_Repository.thy ===== *)
theory Vault_Repository
  imports Caps Balance_Audit Vault_Ledger
begin

text \<open>
  The money path of the vault repository (\<open>repository/postgres/vault_repository.go\<close>): creating
  and deleting vaults, deposits, withdrawals, harvests, rebalances and confirmed chain
  movements, each in a transaction that also writes the \<open>vault_transactions\<close> row, the audit
  entry and the ledger postings. The tables carry the column types, checks, unique indexes
  and foreign keys of migrations 002 to 121.
\<close>

section \<open>Tables\<close>

record VaultRow =
  v_id :: uuid
  v_user_id :: uuid
  v_contract_address :: string
  v_total_deposited :: rat
  v_current_balance :: rat
  v_currency :: string
  v_status :: string
  v_yield_earned :: rat
  v_fees_paid :: rat
  v_soft_capacity :: "rat option"
  v_harvest_frequency :: string
  v_last_harvested_at :: "time option"
  v_deleted_at :: "time option"
  v_created_at :: time
  v_updated_at :: time

text \<open>The identifier and the memo of a transaction row are never read by the money path.\<close>

record VaultTxRow =
  vt_vault_id :: uuid
  vt_user_id :: "uuid option"
  vt_type :: string
  vt_amount :: rat
  vt_hash :: "string option"
  vt_shares :: "rat option"
  vt_share_price :: "rat option"
  vt_fee :: "rat option"
  vt_created_at :: time

record UserRow =
  u_id :: uuid
  u_daily_deposit_cap :: "rat option"

text \<open>The ledger tables refer to vaults and users by identifier; \<open>vd_ledger\<close> sees the current ones.\<close>

record VaultDB =
  vd_users :: "UserRow list"
  vd_vaults :: "VaultRow list"
  vd_txs :: "VaultTxRow list"
  vd_audit :: AuditTable
  vd_ledger :: LedgerDB

section \<open>Errors\<close>

datatype 'd vault_error =
    ErrVaultNotFound
  | ErrUserNotFound
  | ErrInvalidAmount
  | ErrInvalidVault
  | ErrDuplicateTransaction
  | ErrContractAddressRegistered
  | ErrWithdrawalExceedsPosition
  | LaunchCap "'d CapExceededError"
  | DepositCap cap_sentinel
  | AuditFailed audit_error
  | LedgerPosting ledger_error
  | VaultServer pg_error
  | VaultFault

definition mapRepositoryError :: "pg_error \<Rightarrow> 'd vault_error" where
  "mapRepositoryError pg =
     (if pg_code pg = ''23503'' \<and> str_contains (pg_constraint pg) ''user'' then ErrUserNotFound
      else if pg_code pg = ''23503'' \<and> str_contains (pg_constraint pg) ''vault'' then ErrVaultNotFound
      else if pg_code pg = ''23505'' \<and> str_contains (pg_constraint pg) ''transaction_hash'' then ErrDuplicateTransaction
      else if pg_code pg = ''23505'' \<and> str_contains (pg_constraint pg) ''vaults_contract_address'' then ErrContractAddressRegistered
      else VaultServer pg)"

section \<open>Statements\<close>

definition live :: "uuid \<Rightarrow> VaultRow \<Rightarrow> bool" where
  "live vid r \<longleftrightarrow> v_id r = vid \<and> v_deleted_at r = None"

definition select_vault :: "uuid \<Rightarrow> VaultDB \<Rightarrow> VaultRow option" where
  "select_vault vid db = find (live vid) (vd_vaults db)"

text \<open>A written vault row: the column types, then the checks in the order of their names.\<close>

definition write_vault :: "VaultRow \<Rightarrow> pg_error + VaultRow" where
  "write_vault r =
     bindE (numeric 48 8 (v_total_deposited r)) (\<lambda>td.
     bindE (numeric 48 8 (v_current_balance r)) (\<lambda>cb.
     bindE (numeric 48 8 (v_yield_earned r)) (\<lambda>ye.
     bindE (numeric 48 8 (v_fees_paid r)) (\<lambda>fp.
     if cb < 0 then Inl (PgError ''23514'' ''check_current_balance'')
     else if fp < 0 then Inl (PgError ''23514'' ''check_vaults_fees_paid_non_negative'')
     else if ye < 0 then Inl (PgError ''23514'' ''check_vaults_yield_earned_non_negative'')
     else if v_contract_address r = [] then Inl (PgError ''23514'' ''vaults_contract_address_check'')
     else if v_currency r = [] then Inl (PgError ''23514'' ''vaults_currency_check'')
     else if v_harvest_frequency r \<notin> {''daily'', ''weekly''} then Inl (PgError ''23514'' ''vaults_harvest_frequency_check'')
     else if v_status r \<notin> {''active'', ''paused'', ''closed''} then Inl (PgError ''23514'' ''vaults_status_check'')
     else if td < 0 then Inl (PgError ''23514'' ''vaults_total_deposited_check'')
     else Inr (r\<lparr>v_total_deposited := td, v_current_balance := cb, v_yield_earned := ye, v_fees_paid := fp\<rparr>)))))"

text \<open>\<open>UPDATE vaults SET ... WHERE id = $1 AND deleted_at IS NULL\<close>; the flag tells whether a row matched.\<close>

definition update_vault :: "uuid \<Rightarrow> (VaultRow \<Rightarrow> VaultRow) \<Rightarrow> VaultDB \<Rightarrow> pg_error + bool \<times> VaultDB" where
  "update_vault vid f db =
     (case select_vault vid db of
        None \<Rightarrow> Inr (False, db)
      | Some r \<Rightarrow> bindE (write_vault (f r)) (\<lambda>r'.
          Inr (True, db\<lparr>vd_vaults := update_where (live vid) (\<lambda>_. r') (vd_vaults db)\<rparr>)))"

definition credit :: "time \<Rightarrow> rat \<Rightarrow> VaultRow \<Rightarrow> VaultRow" where
  "credit now x r = r\<lparr>v_total_deposited := v_total_deposited r + x, v_current_balance := v_current_balance r + x,
     v_updated_at := now\<rparr>"

definition debit :: "time \<Rightarrow> rat \<Rightarrow> VaultRow \<Rightarrow> VaultRow" where
  "debit now x r = r\<lparr>v_current_balance := v_current_balance r - x, v_updated_at := now\<rparr>"

definition harvest_update :: "time \<Rightarrow> bool \<Rightarrow> rat \<Rightarrow> rat \<Rightarrow> VaultRow \<Rightarrow> VaultRow" where
  "harvest_update now compounded net fee r =
     (let r = (if compounded then credit now net r else debit now net r) in
      r\<lparr>v_yield_earned := max (v_yield_earned r - (net + fee)) 0, v_fees_paid := v_fees_paid r + fee,
        v_last_harvested_at := Some now\<rparr>)"

fun numeric_opt :: "nat \<Rightarrow> nat \<Rightarrow> rat option \<Rightarrow> pg_error + rat option" where
  "numeric_opt p s None = Inr None"
| "numeric_opt p s (Some q) = bindE (numeric p s q) (\<lambda>r. Inr (Some r))"

text \<open>
  \<open>INSERT INTO vault_transactions\<close>; with \<open>skip\<close> the conflict clause turns a taken hash into an
  insert of no row, which the flag reports.
\<close>

definition insert_vault_tx :: "bool \<Rightarrow> VaultTxRow \<Rightarrow> VaultDB \<Rightarrow> pg_error + bool \<times> VaultDB" where
  "insert_vault_tx skip row db =
     bindE (numeric 48 8 (vt_amount row)) (\<lambda>amount.
     bindE (numeric_opt 28 8 (vt_shares row)) (\<lambda>shares.
     bindE (numeric_opt 28 8 (vt_share_price row)) (\<lambda>price.
     bindE (numeric_opt 48 8 (vt_fee row)) (\<lambda>fee.
     if (case price of None \<Rightarrow> False | Some p \<Rightarrow> p \<le> 0) then Inl (PgError ''23514'' ''check_vault_tx_share_price_positive'')
     else if (case shares of None \<Rightarrow> False | Some x \<Rightarrow> x < 0) then Inl (PgError ''23514'' ''check_vault_tx_shares_non_negative'')
     else if amount \<le> 0 then Inl (PgError ''23514'' ''vault_transactions_amount_check'')
     else if vt_type row \<notin> {''deposit'', ''withdrawal'', ''harvest'', ''rebalance''} then
       Inl (PgError ''23514'' ''vault_transactions_type_check'')
     else if list_ex (\<lambda>t. sql_eq (vt_hash t) (vt_hash row)) (vd_txs db) then
       (if skip then Inr (False, db) else Inl (PgError ''23505'' ''idx_vault_transactions_transaction_hash_unique''))
     else if vt_vault_id row \<notin> set (map v_id (vd_vaults db)) then Inl (PgError ''23503'' ''vault_transactions_vault_id_fkey'')
     else if \<not> fk_ok (map u_id (vd_users db)) (vt_user_id row) then Inl (PgError ''23503'' ''vault_transactions_user_id_fkey'')
     else Inr (True, db\<lparr>vd_txs := vd_txs db @
       [row\<lparr>vt_amount := amount, vt_shares := shares, vt_share_price := price, vt_fee := fee\<rparr>]\<rparr>)))))"

text \<open>The two sums of the launch caps.\<close>

definition sum_balances :: "(VaultRow \<Rightarrow> bool) \<Rightarrow> VaultDB \<Rightarrow> rat" where
  "sum_balances P db = sum_list (map v_current_balance (filter (\<lambda>r. P r \<and> v_deleted_at r = None) (vd_vaults db)))"

section \<open>The environment of a call\<close>

text \<open>
  Faults by statement, what the commit reports, the server's clock, the identifier drawn for
  an audit entry, and the environment of the ledger statements.
\<close>

record vault_env =
  ve_flt :: sql_fault
  ve_commit :: commit_outcome
  ve_now :: time
  ve_auditID :: uuid
  ve_ledger :: ledger_env

definition exec :: "vault_env \<Rightarrow> nat \<Rightarrow> pg_error + 'a \<Rightarrow> 'd vault_error + 'a" where
  "exec env n r = (if ve_flt env n then Inl VaultFault else (case r of Inl pg \<Rightarrow> Inl (mapRepositoryError pg) | Inr x \<Rightarrow> Inr x))"

definition affected :: "bool \<times> VaultDB \<Rightarrow> 'd vault_error + VaultDB" where
  "affected r = (if fst r then Inr (snd r) else Inl ErrVaultNotFound)"

text \<open>\<open>SELECT ... FOR UPDATE\<close> of the live row.\<close>

definition lock_vault :: "vault_env \<Rightarrow> nat \<Rightarrow> uuid \<Rightarrow> VaultDB \<Rightarrow> 'd vault_error + VaultRow" where
  "lock_vault env n vid db =
     (if ve_flt env n then Inl VaultFault
      else (case select_vault vid db of None \<Rightarrow> Inl ErrVaultNotFound | Some r \<Rightarrow> Inr r))"

definition append_audit ::
  "('d, 'z) money_ops_scheme \<Rightarrow> vault_env \<Rightarrow> nat \<Rightarrow> 'd BalanceEntry \<Rightarrow> VaultDB \<Rightarrow> 'd vault_error + 'd BalanceEntry \<times> VaultDB" where
  "append_audit D env n e db =
     (case appendBalanceAuditEntry D (ve_flt env n) (ve_auditID env) (ve_now env)
             (map v_id (vd_vaults db)) (map u_id (vd_users db)) e (vd_audit db) of
        Inl err \<Rightarrow> Inl (AuditFailed err)
      | Inr (e', tab) \<Rightarrow> Inr (e', db\<lparr>vd_audit := tab\<rparr>))"

text \<open>The migrations create the ledger tables, so the branch for missing ones is never taken.\<close>

definition post_ledger :: "(LedgerDB \<Rightarrow> ledger_error + LedgerDB) \<Rightarrow> VaultDB \<Rightarrow> 'd vault_error + VaultDB" where
  "post_ledger f db =
     (case f (vd_ledger db) of Inl err \<Rightarrow> Inl (LedgerPosting err) | Inr l \<Rightarrow> Inr (db\<lparr>vd_ledger := l\<rparr>))"

text \<open>Begin, the body with its early returns, commit; whatever is not committed is rolled back.\<close>

definition vault_tx ::
  "vault_env \<Rightarrow> VaultDB \<Rightarrow> (VaultDB \<Rightarrow> 'd vault_error + 'a \<times> VaultDB) \<Rightarrow> ('d vault_error + 'a) \<times> VaultDB" where
  "vault_tx env db body =
     (if ve_flt env 0 then (Inl VaultFault, db)
      else (case body db of
          Inl err \<Rightarrow> (Inl err, db)
        | Inr (x, db') \<Rightarrow>
          (case ve_commit env of
             Committed \<Rightarrow> (Inr x, db')
           | NotCommitted \<Rightarrow> (Inl VaultFault, db)
           | CommitUnacked \<Rightarrow> (Inl VaultFault, db'))))"

section \<open>Vault rows\<close>

record 'd Vault =
  va_ID :: uuid
  va_UserID :: uuid
  va_ContractAddress :: string
  va_TotalDeposited :: 'd
  va_CurrentBalance :: 'd
  va_Currency :: string
  va_Status :: string
  va_YieldEarned :: 'd
  va_FeesPaid :: 'd
  va_HarvestFrequency :: string
  va_CreatedAt :: time
  va_UpdatedAt :: time

definition new_vault :: "('d, 'z) money_ops_scheme \<Rightarrow> time \<Rightarrow> 'd Vault \<Rightarrow> VaultRow" where
  "new_vault D now m =
     \<lparr>v_id = va_ID m, v_user_id = va_UserID m, v_contract_address = va_ContractAddress m,
      v_total_deposited = d_Num D (va_TotalDeposited m), v_current_balance = d_Num D (va_CurrentBalance m),
      v_currency = va_Currency m, v_status = va_Status m, v_yield_earned = d_Num D (va_YieldEarned m),
      v_fees_paid = d_Num D (va_FeesPaid m), v_soft_capacity = None, v_harvest_frequency = va_HarvestFrequency m,
      v_last_harvested_at = None, v_deleted_at = None, v_created_at = now, v_updated_at = now\<rparr>"

definition insert_vault :: "VaultRow \<Rightarrow> VaultDB \<Rightarrow> pg_error + VaultDB" where
  "insert_vault r db =
     bindE (write_vault r) (\<lambda>r.
     if v_id r \<in> v_id ` set (vd_vaults db) then Inl (PgError ''23505'' ''vaults_pkey'')
     else if list_ex (\<lambda>q. v_deleted_at q = None \<and> v_contract_address q = v_contract_address r) (vd_vaults db) then
       Inl (PgError ''23505'' ''uq_vaults_contract_address_live'')
     else if v_user_id r \<notin> u_id ` set (vd_users db) then Inl (PgError ''23503'' ''vaults_user_id_fkey'')
     else Inr (db\<lparr>vd_vaults := vd_vaults db @ [r],
                  vd_ledger := (vd_ledger db)\<lparr>db_vaults := db_vaults (vd_ledger db) @ [v_id r]\<rparr>\<rparr>))"

definition VaultRepository_CreateVault ::
  "('d, 'z) money_ops_scheme \<Rightarrow> vault_env \<Rightarrow> 'd Vault \<Rightarrow> VaultDB \<Rightarrow> ('d vault_error + 'd Vault) \<times> VaultDB" where
  "VaultRepository_CreateVault D env model db =
     (let model = model\<lparr>va_HarvestFrequency := if va_HarvestFrequency model = [] then ''daily'' else va_HarvestFrequency model\<rparr> in
      case exec env 1 (insert_vault (new_vault D (ve_now env) model) db) of
        Inl err \<Rightarrow> (Inl err, db)
      | Inr db' \<Rightarrow> (Inr (model\<lparr>va_CreatedAt := ve_now env, va_UpdatedAt := ve_now env\<rparr>), db'))"

definition single_update :: "vault_env \<Rightarrow> uuid \<Rightarrow> (VaultRow \<Rightarrow> VaultRow) \<Rightarrow> VaultDB \<Rightarrow> 'd vault_error option \<times> VaultDB" where
  "single_update env vid f db =
     (case bindE (exec env 1 (update_vault vid f db)) affected of
        Inl err \<Rightarrow> (Some err, db)
      | Inr db' \<Rightarrow> (None, db'))"

definition VaultRepository_UpdateVaultBalances ::
  "('d, 'z) money_ops_scheme \<Rightarrow> vault_env \<Rightarrow> uuid \<Rightarrow> 'd \<Rightarrow> 'd \<Rightarrow> VaultDB \<Rightarrow> 'd vault_error option \<times> VaultDB" where
  "VaultRepository_UpdateVaultBalances D env vid totalDeposited currentBalance db =
     single_update env vid (\<lambda>r. r\<lparr>v_total_deposited := d_Num D totalDeposited, v_current_balance := d_Num D currentBalance,
       v_updated_at := ve_now env\<rparr>) db"

definition VaultRepository_UpdateHarvestFrequency ::
  "vault_env \<Rightarrow> uuid \<Rightarrow> string \<Rightarrow> VaultDB \<Rightarrow> 'd vault_error option \<times> VaultDB" where
  "VaultRepository_UpdateHarvestFrequency env vid frequency db =
     single_update env vid (\<lambda>r. r\<lparr>v_harvest_frequency := frequency, v_updated_at := ve_now env\<rparr>) db"

definition VaultRepository_SoftDeleteVault :: "vault_env \<Rightarrow> uuid \<Rightarrow> VaultDB \<Rightarrow> 'd vault_error option \<times> VaultDB" where
  "VaultRepository_SoftDeleteVault env vid db = single_update env vid (\<lambda>r. r\<lparr>v_deleted_at := Some (ve_now env)\<rparr>) db"

definition VaultRepository_UserDepositTotal ::
  "('d, 'z) money_ops_scheme \<Rightarrow> bool \<Rightarrow> VaultDB \<Rightarrow> uuid \<Rightarrow> 'd vault_error + 'd" where
  "VaultRepository_UserDepositTotal D fault db userID =
     (if fault then Inl VaultFault else Inr (d_Scan D (sum_balances (\<lambda>r. v_user_id r = userID) db)))"

definition VaultRepository_GlobalDepositTotal ::
  "('d, 'z) money_ops_scheme \<Rightarrow> bool \<Rightarrow> VaultDB \<Rightarrow> 'd vault_error + 'd" where
  "VaultRepository_GlobalDepositTotal D fault db =
     (if fault then Inl VaultFault else Inr (d_Scan D (sum_balances (\<lambda>_. True) db)))"

section \<open>Inputs\<close>

record 'd TransactionRecord =
  tr_UserID :: uuid
  tr_Amount :: 'd
  tr_TransactionHash :: string
  tr_SharesMintedOrBurned :: 'd
  tr_SharePriceAtTime :: 'd
  tr_FeeCharged :: 'd

record 'd HarvestRecordInput =
  hi_VaultID :: uuid
  hi_UserID :: uuid
  hi_NetYield :: 'd
  hi_PerformanceFee :: 'd
  hi_Compounded :: bool
  hi_NewSharesMinted :: "'d option"
  hi_TransactionHash :: string

record 'd RebalanceRecordInput =
  rb_VaultID :: uuid
  rb_UserID :: uuid
  rb_FromProtocol :: string
  rb_ToProtocol :: string
  rb_Amount :: 'd
  rb_TransactionHash :: string

definition nullif_empty :: "string \<Rightarrow> string option" where
  "nullif_empty s = (if s = [] then None else Some s)"

definition tx_row :: "('d, 'z) money_ops_scheme \<Rightarrow> time \<Rightarrow> uuid \<Rightarrow> string \<Rightarrow> 'd TransactionRecord \<Rightarrow> VaultTxRow" where
  "tx_row D now vid ty rec =
     \<lparr>vt_vault_id = vid, vt_user_id = Some (tr_UserID rec), vt_type = ty, vt_amount = d_Num D (tr_Amount rec),
      vt_hash = nullif_empty (tr_TransactionHash rec), vt_shares = Some (d_Num D (tr_SharesMintedOrBurned rec)),
      vt_share_price = Some (d_Num D (tr_SharePriceAtTime rec)), vt_fee = Some (d_Num D (tr_FeeCharged rec)),
      vt_created_at = now\<rparr>"

definition harvest_row :: "('d, 'z) money_ops_scheme \<Rightarrow> time \<Rightarrow> 'd HarvestRecordInput \<Rightarrow> VaultTxRow" where
  "harvest_row D now i =
     \<lparr>vt_vault_id = hi_VaultID i, vt_user_id = Some (hi_UserID i), vt_type = ''harvest'', vt_amount = d_Num D (hi_NetYield i),
      vt_hash = nullif_empty (hi_TransactionHash i), vt_shares = map_option (d_Num D) (hi_NewSharesMinted i),
      vt_share_price = None, vt_fee = Some (d_Num D (hi_PerformanceFee i)), vt_created_at = now\<rparr>"

section \<open>Deposits, withdrawals and harvests with their audit entry\<close>

text \<open>
  \<open>capCheck\<close> under the advisory locks: user lock, global lock, the two sums, the decision. The
  locks are held to the end of the transaction, so the sums stay those of the snapshot.
\<close>

type_synonym 'd cap_check = "'d \<Rightarrow> 'd \<Rightarrow> 'd CapExceededError option"

definition read_totals ::
  "('d, 'z) money_ops_scheme \<Rightarrow> vault_env \<Rightarrow> uuid \<Rightarrow> VaultDB \<Rightarrow> 'd vault_error + 'd \<times> 'd" where
  "read_totals D env userID db =
     (if ve_flt env 2 \<or> ve_flt env 3 then Inl VaultFault
      else bindE (VaultRepository_UserDepositTotal D (ve_flt env 4) db userID) (\<lambda>userTotal.
        bindE (VaultRepository_GlobalDepositTotal D (ve_flt env 5) db) (\<lambda>globalTotal.
        Inr (userTotal, globalTotal))))"

definition launch_caps ::
  "('d, 'z) money_ops_scheme \<Rightarrow> vault_env \<Rightarrow> 'd cap_check option \<Rightarrow> uuid \<Rightarrow> VaultDB \<Rightarrow> 'd vault_error + unit" where
  "launch_caps D env capCheck userID db =
     (case capCheck of None \<Rightarrow> Inr () | Some check \<Rightarrow>
      bindE (read_totals D env userID db) (\<lambda>(userTotal, globalTotal).
      case check userTotal globalTotal of None \<Rightarrow> Inr () | Some e \<Rightarrow> Inl (LaunchCap e)))"

definition VaultRepository_RecordDepositWithAudit ::
  "('d, 'z) money_ops_scheme \<Rightarrow> vault_env \<Rightarrow> uuid \<Rightarrow> 'd TransactionRecord \<Rightarrow> 'd cap_check option \<Rightarrow> 'd BalanceEntry
   \<Rightarrow> VaultDB \<Rightarrow> ('d vault_error + 'd BalanceEntry) \<times> VaultDB" where
  "VaultRepository_RecordDepositWithAudit D env vaultID rec capCheck auditTemplate db =
     (if d_Cmp D (tr_Amount rec) (d_Zero D) \<le> 0 then (Inl ErrInvalidAmount, db)
      else vault_tx env db (\<lambda>tx.
        bindE (lock_vault env 1 vaultID tx) (\<lambda>r.
        let before = d_Scan D (v_current_balance r) in
        bindE (launch_caps D env capCheck (tr_UserID rec) tx) (\<lambda>_.
        bindE (bindE (exec env 6 (update_vault vaultID (credit (ve_now env) (d_Num D (tr_Amount rec))) tx)) affected) (\<lambda>tx.
        bindE (exec env 7 (insert_vault_tx False (tx_row D (ve_now env) vaultID ''deposit'' rec) tx)) (\<lambda>(_, tx).
        bindE (append_audit D env 8 (auditTemplate\<lparr>ba_VaultID := vaultID, ba_BalanceBefore := before,
            ba_BalanceAfter := d_Add D before (tr_Amount rec)\<rparr>) tx) (\<lambda>(inserted, tx).
        bindE (post_ledger (postDepositLedgerTx D (ve_ledger env) vaultID (tr_UserID rec) (tr_Amount rec)
            (tr_TransactionHash rec)) tx) (\<lambda>tx.
        Inr (inserted, tx)))))))))"

definition VaultRepository_RecordWithdrawalWithAudit ::
  "('d, 'z) money_ops_scheme \<Rightarrow> vault_env \<Rightarrow> uuid \<Rightarrow> 'd TransactionRecord \<Rightarrow> 'd BalanceEntry
   \<Rightarrow> VaultDB \<Rightarrow> ('d vault_error + 'd BalanceEntry) \<times> VaultDB" where
  "VaultRepository_RecordWithdrawalWithAudit D env vaultID rec auditTemplate db =
     (if d_Cmp D (tr_Amount rec) (d_Zero D) \<le> 0 then (Inl ErrInvalidAmount, db)
      else vault_tx env db (\<lambda>tx.
        bindE (lock_vault env 1 vaultID tx) (\<lambda>r.
        let before = d_Scan D (v_current_balance r) in
        bindE (failIf (d_LessThan D before (tr_Amount rec)) ErrWithdrawalExceedsPosition) (\<lambda>_.
        bindE (bindE (exec env 6 (update_vault vaultID (debit (ve_now env) (d_Num D (tr_Amount rec))) tx)) affected) (\<lambda>tx.
        bindE (exec env 7 (insert_vault_tx False (tx_row D (ve_now env) vaultID ''withdrawal'' rec) tx)) (\<lambda>(_, tx).
        bindE (append_audit D env 8 (auditTemplate\<lparr>ba_VaultID := vaultID, ba_BalanceBefore := before,
            ba_BalanceAfter := d_Sub D before (tr_Amount rec)\<rparr>) tx) (\<lambda>(inserted, tx).
        bindE (post_ledger (postWithdrawalLedgerTx D (ve_ledger env) vaultID (tr_UserID rec) (tr_Amount rec)
            (tr_TransactionHash rec)) tx) (\<lambda>tx.
        Inr (inserted, tx)))))))))"

definition harvest_invalid :: "('d, 'z) money_ops_scheme \<Rightarrow> 'd HarvestRecordInput \<Rightarrow> bool" where
  "harvest_invalid D i \<longleftrightarrow> d_Cmp D (hi_NetYield i) (d_Zero D) < 0 \<or> d_Cmp D (hi_PerformanceFee i) (d_Zero D) < 0"

definition VaultRepository_RecordHarvestWithAudit ::
  "('d, 'z) money_ops_scheme \<Rightarrow> vault_env \<Rightarrow> 'd HarvestRecordInput \<Rightarrow> 'd BalanceEntry
   \<Rightarrow> VaultDB \<Rightarrow> ('d vault_error + 'd BalanceEntry) \<times> VaultDB" where
  "VaultRepository_RecordHarvestWithAudit D env i auditTemplate db =
     (if harvest_invalid D i then (Inl ErrInvalidAmount, db)
      else vault_tx env db (\<lambda>tx.
        bindE (lock_vault env 1 (hi_VaultID i) tx) (\<lambda>r.
        let before = d_Scan D (v_current_balance r);
            after = (if hi_Compounded i then d_Add D before (hi_NetYield i) else d_Sub D before (hi_NetYield i)) in
        bindE (bindE (exec env 6 (update_vault (hi_VaultID i)
            (harvest_update (ve_now env) (hi_Compounded i) (d_Num D (hi_NetYield i)) (d_Num D (hi_PerformanceFee i))) tx)) affected) (\<lambda>tx.
        bindE (exec env 7 (insert_vault_tx False (harvest_row D (ve_now env) i) tx)) (\<lambda>(_, tx).
        bindE (append_audit D env 8 (auditTemplate\<lparr>ba_VaultID := hi_VaultID i, ba_BalanceBefore := before,
            ba_BalanceAfter := after\<rparr>) tx) (\<lambda>(inserted, tx).
        bindE (post_ledger (postHarvestLedgerTx D (ve_ledger env) (hi_VaultID i) (hi_UserID i) (hi_NetYield i)
            (hi_PerformanceFee i) ''blend'' (hi_TransactionHash i)) tx) (\<lambda>tx.
        Inr (inserted, tx))))))))"

section \<open>Confirmed chain movements\<close>

text \<open>
  \<open>applyConfirmedBalanceChange\<close> answers with the cap warning and the error; the commit at the
  end decides only the latter.
\<close>

definition confirmed_row :: "('d, 'z) money_ops_scheme \<Rightarrow> time \<Rightarrow> uuid \<Rightarrow> uuid \<Rightarrow> string \<Rightarrow> 'd \<Rightarrow> string \<Rightarrow> VaultTxRow" where
  "confirmed_row D now vid userID ty amount txHash =
     \<lparr>vt_vault_id = vid, vt_user_id = (if userID = uuid_Nil then None else Some userID), vt_type = ty,
      vt_amount = d_Num D amount, vt_hash = Some txHash, vt_shares = None, vt_share_price = None, vt_fee = None,
      vt_created_at = now\<rparr>"

definition confirmed_entry ::
  "(uuid \<Rightarrow> string) \<Rightarrow> uuid \<Rightarrow> uuid \<Rightarrow> bool \<Rightarrow> 'd \<Rightarrow> 'd \<Rightarrow> 'd \<Rightarrow> string \<Rightarrow> 'd BalanceEntry" where
  "confirmed_entry uuid_text vid userID deposit amount before after txHash =
     \<lparr>ba_ID = uuid_Nil, ba_Seq = 0, ba_VaultID = vid, ba_UserID = userID,
      ba_Actor = (if userID = uuid_Nil then SystemActor ''chain_confirmation'' else uuid_text userID),
      ba_Operation = (if deposit then OperationDeposit else OperationWithdrawal),
      ba_Amount = amount, ba_BalanceBefore = before, ba_BalanceAfter = after, ba_ChainReference = txHash,
      ba_Metadata = [], ba_CreatedAt = 0\<rparr>"

text \<open>The cap is evaluated for the caller to report; it never refuses a movement that has happened.\<close>

definition confirmed_cap ::
  "('d, 'z) money_ops_scheme \<Rightarrow> vault_env \<Rightarrow> bool \<Rightarrow> 'd cap_check option \<Rightarrow> uuid \<Rightarrow> VaultDB
   \<Rightarrow> 'd vault_error + 'd CapExceededError option" where
  "confirmed_cap D env deposit capCheck userID db =
     (case capCheck of None \<Rightarrow> Inr None | Some check \<Rightarrow>
      if deposit \<and> userID \<noteq> uuid_Nil
      then bindE (read_totals D env userID db) (\<lambda>(userTotal, globalTotal). Inr (check userTotal globalTotal))
      else Inr None)"

definition confirmed_body ::
  "('d, 'z) money_ops_scheme \<Rightarrow> (uuid \<Rightarrow> string) \<Rightarrow> vault_env \<Rightarrow> uuid \<Rightarrow> uuid \<Rightarrow> 'd \<Rightarrow> string \<Rightarrow> bool \<Rightarrow> 'd cap_check option
   \<Rightarrow> VaultDB \<Rightarrow> 'd vault_error + 'd CapExceededError option \<times> VaultDB" where
  "confirmed_body D uuid_text env vid userID amount txHash deposit capCheck tx =
     bindE (exec env 6 (insert_vault_tx True
         (confirmed_row D (ve_now env) vid userID (if deposit then ''deposit'' else ''withdrawal'') amount txHash) tx)) (\<lambda>(inserted, tx).
     if \<not> inserted then Inr (None, tx)
     else bindE (lock_vault env 1 vid tx) (\<lambda>r.
     let before = d_Scan D (v_current_balance r);
         after = (if deposit then d_Add D before amount else d_Sub D before amount) in
     bindE (confirmed_cap D env deposit capCheck userID tx) (\<lambda>capWarning.
     bindE (bindE (exec env 7 (update_vault vid
         (if deposit then credit (ve_now env) (d_Num D amount) else debit (ve_now env) (d_Num D amount)) tx)) affected) (\<lambda>tx.
     bindE (append_audit D env 8 (confirmed_entry uuid_text vid userID deposit amount before after txHash) tx) (\<lambda>(_, tx).
     bindE (if userID = uuid_Nil then Inr tx
            else if deposit then post_ledger (postDepositLedgerTx D (ve_ledger env) vid userID amount txHash) tx
            else post_ledger (postWithdrawalLedgerTx D (ve_ledger env) vid userID amount txHash) tx) (\<lambda>tx.
     Inr (capWarning, tx)))))))"

definition applyConfirmedBalanceChange ::
  "('d, 'z) money_ops_scheme \<Rightarrow> (uuid \<Rightarrow> string) \<Rightarrow> vault_env \<Rightarrow> uuid \<Rightarrow> uuid \<Rightarrow> 'd \<Rightarrow> string \<Rightarrow> bool \<Rightarrow> 'd cap_check option
   \<Rightarrow> VaultDB \<Rightarrow> ('d CapExceededError option \<times> 'd vault_error option) \<times> VaultDB" where
  "applyConfirmedBalanceChange D uuid_text env vid userID amount txHash deposit capCheck db =
     (if d_Cmp D amount (d_Zero D) \<le> 0 then ((None, Some ErrInvalidAmount), db)
      else if trim_space txHash = [] then ((None, Some ErrInvalidVault), db)
      else if ve_flt env 0 then ((None, Some VaultFault), db)
      else (case confirmed_body D uuid_text env vid userID amount txHash deposit capCheck db of
          Inl err \<Rightarrow> ((None, Some err), db)
        | Inr (w, db') \<Rightarrow>
          (case ve_commit env of
             Committed \<Rightarrow> ((w, None), db')
           | NotCommitted \<Rightarrow> ((w, Some VaultFault), db)
           | CommitUnacked \<Rightarrow> ((w, Some VaultFault), db'))))"

definition VaultRepository_ApplyConfirmedDeposit ::
  "('d, 'z) money_ops_scheme \<Rightarrow> (uuid \<Rightarrow> string) \<Rightarrow> vault_env \<Rightarrow> uuid \<Rightarrow> uuid \<Rightarrow> 'd \<Rightarrow> string \<Rightarrow> 'd cap_check option
   \<Rightarrow> VaultDB \<Rightarrow> ('d CapExceededError option \<times> 'd vault_error option) \<times> VaultDB" where
  "VaultRepository_ApplyConfirmedDeposit D uuid_text env vid userID amount txHash capCheck db =
     applyConfirmedBalanceChange D uuid_text env vid userID amount txHash True capCheck db"

definition VaultRepository_ApplyConfirmedWithdrawal ::
  "('d, 'z) money_ops_scheme \<Rightarrow> (uuid \<Rightarrow> string) \<Rightarrow> vault_env \<Rightarrow> uuid \<Rightarrow> uuid \<Rightarrow> 'd \<Rightarrow> string
   \<Rightarrow> VaultDB \<Rightarrow> 'd vault_error option \<times> VaultDB" where
  "VaultRepository_ApplyConfirmedWithdrawal D uuid_text env vid userID amount txHash db =
     (case applyConfirmedBalanceChange D uuid_text env vid userID amount txHash False None db of
        ((_, err), db') \<Rightarrow> (err, db'))"

section \<open>The operations without an audit entry\<close>

definition rolling_total :: "time \<Rightarrow> uuid \<Rightarrow> VaultDB \<Rightarrow> rat" where
  "rolling_total now userID db =
     sum_list (map vt_amount (filter (\<lambda>t. vt_user_id t = Some userID \<and> vt_type t = ''deposit'' \<and>
       now - 86400 * 10 ^ 9 \<le> vt_created_at t) (vd_txs db)))"

definition daily_cap ::
  "('d, 'z) money_ops_scheme \<Rightarrow> vault_env \<Rightarrow> 'd TransactionRecord \<Rightarrow> VaultDB \<Rightarrow> 'd vault_error + unit" where
  "daily_cap D env rec db =
     (if tr_UserID rec = uuid_Nil then Inr ()
      else if ve_flt env 2 then Inl VaultFault
      else (case find (\<lambda>u. u_id u = tr_UserID rec) (vd_users db) of None \<Rightarrow> Inr () | Some u \<Rightarrow>
        (case u_daily_deposit_cap u of None \<Rightarrow> Inr () | Some cp \<Rightarrow>
         if ve_flt env 3 then Inl VaultFault
         else (case CheckUserDailyCap D (d_Scan D (rolling_total (ve_now env) (tr_UserID rec) db)) (Some (d_Scan D cp)) (tr_Amount rec) of
             None \<Rightarrow> Inr () | Some e \<Rightarrow> Inl (DepositCap e)))))"

definition VaultRepository_RecordDeposit ::
  "('d, 'z) money_ops_scheme \<Rightarrow> vault_env \<Rightarrow> uuid \<Rightarrow> 'd TransactionRecord \<Rightarrow> VaultDB \<Rightarrow> ('d vault_error + unit) \<times> VaultDB" where
  "VaultRepository_RecordDeposit D env vaultID rec db =
     (if d_Cmp D (tr_Amount rec) (d_Zero D) \<le> 0 then (Inl ErrInvalidAmount, db)
      else vault_tx env db (\<lambda>tx.
        bindE (lock_vault env 1 vaultID tx) (\<lambda>r.
        bindE (case CheckVaultCap D (d_Scan D (v_current_balance r)) (map_option (d_Scan D) (v_soft_capacity r)) (tr_Amount rec) of
                 None \<Rightarrow> Inr () | Some e \<Rightarrow> Inl (DepositCap e)) (\<lambda>_.
        bindE (daily_cap D env rec tx) (\<lambda>_.
        bindE (bindE (exec env 6 (update_vault vaultID (credit (ve_now env) (d_Num D (tr_Amount rec))) tx)) affected) (\<lambda>tx.
        bindE (exec env 7 (insert_vault_tx True (tx_row D (ve_now env) vaultID ''deposit'' rec) tx)) (\<lambda>(inserted, tx).
        if \<not> inserted then Inl ErrDuplicateTransaction
        else bindE (post_ledger (postDepositLedgerTx D (ve_ledger env) vaultID (tr_UserID rec) (tr_Amount rec)
            (tr_TransactionHash rec)) tx) (\<lambda>tx.
        Inr ((), tx)))))))))"

definition VaultRepository_RecordWithdrawal ::
  "('d, 'z) money_ops_scheme \<Rightarrow> vault_env \<Rightarrow> uuid \<Rightarrow> 'd TransactionRecord \<Rightarrow> VaultDB \<Rightarrow> ('d vault_error + unit) \<times> VaultDB" where
  "VaultRepository_RecordWithdrawal D env vaultID rec db =
     (if d_Cmp D (tr_Amount rec) (d_Zero D) \<le> 0 then (Inl ErrInvalidAmount, db)
      else vault_tx env db (\<lambda>tx.
        bindE (lock_vault env 1 vaultID tx) (\<lambda>r.
        bindE (failIf (d_LessThan D (d_Scan D (v_current_balance r)) (tr_Amount rec)) ErrWithdrawalExceedsPosition) (\<lambda>_.
        bindE (exec env 6 (update_vault vaultID (debit (ve_now env) (d_Num D (tr_Amount rec))) tx)) (\<lambda>(_, tx).
        bindE (exec env 7 (insert_vault_tx False (tx_row D (ve_now env) vaultID ''withdrawal'' rec) tx)) (\<lambda>(_, tx).
        bindE (post_ledger (postWithdrawalLedgerTx D (ve_ledger env) vaultID (tr_UserID rec) (tr_Amount rec)
            (tr_TransactionHash rec)) tx) (\<lambda>tx.
        Inr ((), tx))))))))"

definition VaultRepository_RecordHarvest ::
  "('d, 'z) money_ops_scheme \<Rightarrow> vault_env \<Rightarrow> 'd HarvestRecordInput \<Rightarrow> VaultDB \<Rightarrow> ('d vault_error + unit) \<times> VaultDB" where
  "VaultRepository_RecordHarvest D env i db =
     (if harvest_invalid D i then (Inl ErrInvalidAmount, db)
      else vault_tx env db (\<lambda>tx.
        bindE (bindE (exec env 6 (update_vault (hi_VaultID i)
            (harvest_update (ve_now env) (hi_Compounded i) (d_Num D (hi_NetYield i)) (d_Num D (hi_PerformanceFee i))) tx)) affected) (\<lambda>tx.
        bindE (exec env 7 (insert_vault_tx False (harvest_row D (ve_now env) i) tx)) (\<lambda>(_, tx).
        bindE (post_ledger (postHarvestLedgerTx D (ve_ledger env) (hi_VaultID i) (hi_UserID i) (hi_NetYield i)
            (hi_PerformanceFee i) ''blend'' (hi_TransactionHash i)) tx) (\<lambda>tx.
        Inr ((), tx))))))"

text \<open>A rebalance leaves three transaction rows: the two legs and the movement itself.\<close>

definition rebalance_row :: "('d, 'z) money_ops_scheme \<Rightarrow> time \<Rightarrow> 'd RebalanceRecordInput \<Rightarrow> VaultTxRow" where
  "rebalance_row D now i =
     \<lparr>vt_vault_id = rb_VaultID i, vt_user_id = Some (rb_UserID i), vt_type = ''rebalance'', vt_amount = d_Num D (rb_Amount i),
      vt_hash = nullif_empty (rb_TransactionHash i), vt_shares = None, vt_share_price = None, vt_fee = None,
      vt_created_at = now\<rparr>"

definition VaultRepository_RecordRebalance ::
  "('d, 'z) money_ops_scheme \<Rightarrow> vault_env \<Rightarrow> 'd RebalanceRecordInput \<Rightarrow> 'd TransactionRecord \<Rightarrow> 'd TransactionRecord
   \<Rightarrow> VaultDB \<Rightarrow> ('d vault_error + unit) \<times> VaultDB" where
  "VaultRepository_RecordRebalance D env i withdrawRecord depositRecord db =
     vault_tx env db (\<lambda>tx.
       bindE (exec env 1 (update_vault (rb_VaultID i) (debit (ve_now env) (d_Num D (tr_Amount withdrawRecord))) tx)) (\<lambda>(_, tx).
       bindE (exec env 2 (insert_vault_tx False (tx_row D (ve_now env) (rb_VaultID i) ''withdrawal'' withdrawRecord) tx)) (\<lambda>(_, tx).
       bindE (exec env 3 (update_vault (rb_VaultID i) (credit (ve_now env) (d_Num D (tr_Amount depositRecord))) tx)) (\<lambda>(_, tx).
       bindE (exec env 4 (insert_vault_tx False (tx_row D (ve_now env) (rb_VaultID i) ''deposit'' depositRecord) tx)) (\<lambda>(_, tx).
       bindE (exec env 5 (insert_vault_tx False (rebalance_row D (ve_now env) i) tx)) (\<lambda>(_, tx).
       bindE (post_ledger (postRebalanceLedgerTx D (ve_ledger env) (rb_FromProtocol i) (rb_ToProtocol i) (rb_Amount i)
           (rb_TransactionHash i)) tx) (\<lambda>tx.
       Inr ((), tx))))))))"

end
