(* ===== verification/Vault_Correct.thy ===== *)
theory Vault_Correct
  imports Vault_Repository
begin

text \<open>
  What the statements of the vault repository keep: balances of scale 8 that are never
  negative, an audit trail that leads from zero to each balance, and distinct transaction
  hashes.
\<close>

section \<open>Statements\<close>

lemma exec_Inr: "exec env n r = Inr x \<longleftrightarrow> \<not> ve_flt env n \<and> r = Inr x"
  by (cases r) (auto simp: exec_def)

lemma affected_Inr: "affected p = Inr db \<longleftrightarrow> p = (True, db)"
  by (cases p) (simp add: affected_def)

lemma lock_vault_Inr: "lock_vault env n vid db = Inr r \<longleftrightarrow> \<not> ve_flt env n \<and> select_vault vid db = Some r"
  by (auto simp: lock_vault_def split: option.splits)

lemma post_ledger_Inr: "post_ledger f db = Inr db' \<longleftrightarrow> (\<exists>l. f (vd_ledger db) = Inr l \<and> db' = db\<lparr>vd_ledger := l\<rparr>)"
  by (auto simp: post_ledger_def split: sum.splits)

lemmas step_Inr = bindE_Inr exec_Inr affected_Inr lock_vault_Inr post_ledger_Inr

lemma select_vault_Some:
  assumes "select_vault vid db = Some r"
  shows "r \<in> set (vd_vaults db)" and "v_id r = vid" and "v_deleted_at r = None"
  using assms by (auto simp: select_vault_def find_Some_iff live_def)

lemma write_vault_Inr:
  assumes "write_vault r = Inr r'"
  shows "v_current_balance r' = numeric_round 8 (v_current_balance r)" and "0 \<le> v_current_balance r'"
    and "v_id r' = v_id r" and "v_user_id r' = v_user_id r" and "v_deleted_at r' = v_deleted_at r"
    and "v_contract_address r' = v_contract_address r"
  using assms by (auto simp: write_vault_def bindE_Inr numeric_Inr split: if_splits)

lemma update_vault_True:
  assumes "update_vault vid f db = Inr (True, db')"
  obtains r r' where "select_vault vid db = Some r" "write_vault (f r) = Inr r'"
    "db' = db\<lparr>vd_vaults := update_where (live vid) (\<lambda>_. r') (vd_vaults db)\<rparr>"
  using assms by (auto simp: update_vault_def bindE_Inr split: option.splits)

lemma insert_vault_tx_Inr:
  assumes "insert_vault_tx skip row db = Inr (b, db')"
  shows "\<exists>ts. db' = db\<lparr>vd_txs := vd_txs db @ ts\<rparr> \<and> (if b then \<exists>t. ts = [t] \<and> vt_hash t = vt_hash row else ts = [])"
    and "b \<Longrightarrow> vt_hash row \<noteq> None \<Longrightarrow> vt_hash row \<notin> vt_hash ` set (vd_txs db)"
    and "\<not> skip \<Longrightarrow> b"
  using assms by (auto simp: insert_vault_tx_def bindE_Inr list_ex_iff sql_eq_iff split: if_splits)

lemma insert_vault_tx_taken:
  assumes "h \<noteq> None" and "vt_hash row = h" and "h \<in> vt_hash ` set (vd_txs db)"
  shows "insert_vault_tx skip row db = Inr (b, db') \<Longrightarrow> skip \<and> \<not> b \<and> db' = db"
  using assms by (auto simp: insert_vault_tx_def bindE_Inr list_ex_iff sql_eq_iff split: if_splits)

lemma insert_vault_tx_False:
  assumes "insert_vault_tx skip row db = Inr (False, db')"
  shows "vt_hash row \<in> vt_hash ` set (vd_txs db)"
proof -
  have "list_ex (\<lambda>t. sql_eq (vt_hash t) (vt_hash row)) (vd_txs db)"
    using assms by (auto simp: insert_vault_tx_def bindE_Inr split: if_splits)
  then obtain t where "t \<in> set (vd_txs db)" "vt_hash t = vt_hash row" by (auto simp: list_ex_iff sql_eq_iff)
  then show ?thesis by (metis image_eqI)
qed

section \<open>Balances and their trail\<close>

definition vault_ok :: "AuditTable \<Rightarrow> VaultRow \<Rightarrow> bool" where
  "vault_ok tab r \<longleftrightarrow> 0 \<le> v_current_balance r \<and> has_scale 8 (v_current_balance r) \<and>
     audit_chain 0 (vault_rows (v_id r) tab) (v_current_balance r)"

definition trail_inv :: "VaultDB \<Rightarrow> bool" where
  "trail_inv db \<longleftrightarrow> distinct (map v_id (vd_vaults db)) \<and> audit_ok (vd_audit db) \<and>
     list_all (vault_ok (vd_audit db)) (vd_vaults db) \<and>
     list_all (\<lambda>a. ar_vault_id a \<in> v_id ` set (vd_vaults db)) (at_rows (vd_audit db))"

lemma trail_inv_cong:
  "vd_vaults db' = vd_vaults db \<Longrightarrow> vd_audit db' = vd_audit db \<Longrightarrow> trail_inv db' \<longleftrightarrow> trail_inv db"
  by (simp add: trail_inv_def)

lemma distinct_id_unique:
  "distinct (map v_id rs) \<Longrightarrow> r \<in> set rs \<Longrightarrow> q \<in> set rs \<Longrightarrow> v_id r = v_id q \<Longrightarrow> r = q"
  by (metis distinct_map inj_on_def)

text \<open>The row of a locked vault, replaced by one with the same identifier.\<close>

lemma replace_row:
  assumes "distinct (map v_id (vd_vaults db))" and "select_vault vid db = Some r" and "v_id r' = vid"
  shows "map v_id (update_where (live vid) (\<lambda>_. r') (vd_vaults db)) = map v_id (vd_vaults db)"
    and "set (update_where (live vid) (\<lambda>_. r') (vd_vaults db)) = insert r' (set (vd_vaults db) - {r})"
proof -
  note sel = select_vault_Some [OF assms(2)]
  have only: "live vid q \<longleftrightarrow> q = r" if "q \<in> set (vd_vaults db)" for q
    using distinct_id_unique [OF assms(1) that sel(1)] sel by (auto simp: live_def)
  show "map v_id (update_where (live vid) (\<lambda>_. r') (vd_vaults db)) = map v_id (vd_vaults db)"
    using assms(3) by (auto simp: update_where_def live_def)
  show "set (update_where (live vid) (\<lambda>_. r') (vd_vaults db)) = insert r' (set (vd_vaults db) - {r})"
    using only sel(1) by (auto simp: set_update_where image_iff)
qed

text \<open>An audited change of one balance keeps the trails.\<close>

lemma audited_change:
  assumes D: "money_laws D" and inv: "trail_inv db" and upd: "update_vault vid f db = Inr (True, db1)"
    and f: "\<And>r. v_id (f r) = v_id r" "\<And>r. v_current_balance (f r) = v_current_balance r + x"
    and same: "vd_vaults db2 = vd_vaults db1" "vd_audit db2 = vd_audit db"
    and app: "append_audit D env n e db2 = Inr (e', db3)" and row: "select_vault vid db = Some r"
    and e: "ba_VaultID e = vid" "d_Num D (ba_BalanceBefore e) = v_current_balance r"
      "d_Num D (ba_BalanceAfter e) = v_current_balance r + x"
  shows "trail_inv db3"
proof -
  obtain r' where w: "write_vault (f r) = Inr r'" and db1: "db1 = db\<lparr>vd_vaults := update_where (live vid) (\<lambda>_. r') (vd_vaults db)\<rparr>"
    using upd row by (auto elim!: update_vault_True)
  note sel = select_vault_Some [OF row]
  note w = write_vault_Inr [OF w]
  have r': "v_id r' = vid" "v_current_balance r' = numeric_round 8 (v_current_balance r + x)" using w f sel by simp_all
  obtain tab where db3: "db3 = db2\<lparr>vd_audit := tab\<rparr>" and
      app': "appendBalanceAuditEntry D (ve_flt env n) (ve_auditID env) (ve_now env) (map v_id (vd_vaults db2)) (map u_id (vd_users db2)) e (vd_audit db) = Inr (e', tab)"
    using app same by (auto simp: append_audit_def split: sum.splits)
  obtain a where a: "at_rows tab = at_rows (vd_audit db) @ [a]" "at_next tab = at_next (vd_audit db) + 1"
      "ar_seq a = at_next (vd_audit db)" "ar_vault_id a = vid"
      "ar_balance_before a = numeric_round 8 (v_current_balance r)"
      "ar_balance_after a = numeric_round 8 (v_current_balance r + x)"
    using appendBalanceAuditEntry_Inr [OF app'] e by metis
  have ok: "vault_ok (vd_audit db) q" if "q \<in> set (vd_vaults db)" for q
    using inv that by (simp add: trail_inv_def list_all_iff)
  have before: "ar_balance_before a = v_current_balance r"
    using a(5) ok [OF sel(1)] by (simp add: vault_ok_def numeric_round_id)
  have dist: "distinct (map v_id (vd_vaults db))" using inv by (simp add: trail_inv_def)
  note rep = replace_row [OF dist row r'(1)]
  have tab: "audit_ok tab"
    using inv a by (intro audit_ok_append [OF _ a(1-3)]) (simp_all add: trail_inv_def)
  have new: "vault_ok tab r'"
    using ok [OF sel(1)] w(2) r' a before sel(2)
    by (auto simp: vault_ok_def vault_rows_append [OF a(1)] audit_chain_append)
  have old: "vault_ok tab q" if "q \<in> set (vd_vaults db)" "q \<noteq> r" for q
    using ok [OF that(1)] distinct_id_unique [OF dist that(1) sel(1)] that(2) sel(2) a(4)
    by (auto simp: vault_ok_def vault_rows_append [OF a(1)])
  have ids: "v_id ` set (update_where (live vid) (\<lambda>_. r') (vd_vaults db)) = v_id ` set (vd_vaults db)"
    using rep(1) by (metis list.set_map)
  have "list_all (vault_ok tab) (update_where (live vid) (\<lambda>_. r') (vd_vaults db))"
    using new old by (auto simp: list_all_iff rep(2))
  moreover have "list_all (\<lambda>c. ar_vault_id c \<in> v_id ` set (vd_vaults db)) (at_rows tab)"
    using inv sel a(1,4) by (auto simp: trail_inv_def list_all_iff)
  ultimately show ?thesis
    using tab dist by (simp add: trail_inv_def db3 same(1) db1 rep(1) ids)
qed

section \<open>Operations\<close>

text \<open>A transaction leaves the database as it was or as its body left it.\<close>

lemma vault_tx_cases:
  "snd (vault_tx env db body) = db \<or> (\<exists>x db'. body db = Inr (x, db') \<and> snd (vault_tx env db body) = db')"
  by (auto simp: vault_tx_def split: sum.splits commit_outcome.splits)

lemma vault_tx_Inr:
  "vault_tx env db body = (Inr x, db') \<Longrightarrow> body db = Inr (x, db')"
  by (auto simp: vault_tx_def split: if_splits sum.splits commit_outcome.splits)

lemma vault_tx_fails:
  "(\<And>x. body db \<noteq> Inr x) \<Longrightarrow> (\<exists>err. fst (vault_tx env db body) = Inl err) \<and> snd (vault_tx env db body) = db"
  by (cases "body db") (auto simp: vault_tx_def)

lemma vault_tx_keeps: "P db \<Longrightarrow> (\<And>x db'. body db = Inr (x, db') \<Longrightarrow> P db') \<Longrightarrow> P (snd (vault_tx env db body))"
  using vault_tx_cases [of env db body] by auto

lemma balance_changes [simp]:
  "v_id (credit now x r) = v_id r" "v_id (debit now x r) = v_id r"
  "v_current_balance (credit now x r) = v_current_balance r + x"
  "v_current_balance (debit now x r) = v_current_balance r - x"
  "v_id (harvest_update now c net fee r) = v_id r"
  "v_current_balance (harvest_update now c net fee r) = v_current_balance r + (if c then net else - net)"
  by (simp_all add: credit_def debit_def harvest_update_def Let_def)

text \<open>
  The common body: lock, update, transaction row, audit entry, ledger. The order of the
  transaction row and the update does not matter for the trail.
\<close>

lemma audited_body:
  assumes D: "money_laws D" and inv: "trail_inv db" and row: "select_vault vid db = Some r"
    and upd: "update_vault vid f db = Inr (True, db1)"
    and f: "\<And>r. v_id (f r) = v_id r" "\<And>r. v_current_balance (f r) = v_current_balance r + x"
    and ins: "insert_vault_tx skip t db1 = Inr (b, db2)"
    and app: "append_audit D env n e db2 = Inr (e', db3)"
    and e: "ba_VaultID e = vid" "ba_BalanceBefore e = d_Scan D (v_current_balance r)"
      "d_Num D (ba_BalanceAfter e) = d_Num D (d_Scan D (v_current_balance r)) + x"
  shows "trail_inv (db3\<lparr>vd_ledger := l\<rparr>)"
proof -
  have scale: "has_scale 8 (v_current_balance r)"
    using inv select_vault_Some(1) [OF row] by (simp add: trail_inv_def list_all_iff vault_ok_def)
  have same: "vd_vaults db2 = vd_vaults db1" "vd_audit db2 = vd_audit db"
    using insert_vault_tx_Inr(1) [OF ins] upd by (auto elim!: update_vault_True)
  have "trail_inv db3"
    using audited_change [OF D inv upd f same app row e(1)] e(2,3) money_lawsD(8) [OF D scale] by simp
  then show ?thesis by (simp add: trail_inv_def)
qed

lemma deposit_trail:
  assumes "money_laws D" and "trail_inv db"
  shows "trail_inv (snd (VaultRepository_RecordDepositWithAudit D env vid rec cc tmpl db))"
  unfolding VaultRepository_RecordDepositWithAudit_def using assms money_lawsD(1) [OF assms(1)]
  by (auto simp: step_Inr Let_def intro!: vault_tx_keeps [where P = trail_inv] elim!: audited_body [OF assms])

lemma withdrawal_trail:
  assumes "money_laws D" and "trail_inv db"
  shows "trail_inv (snd (VaultRepository_RecordWithdrawalWithAudit D env vid rec tmpl db))"
  unfolding VaultRepository_RecordWithdrawalWithAudit_def using assms money_lawsD(2) [OF assms(1)]
  by (auto simp: step_Inr Let_def intro!: vault_tx_keeps [where P = trail_inv] elim!: audited_body [OF assms, where x = "- d_Num D (tr_Amount rec)"])

lemma harvest_trail:
  assumes "money_laws D" and "trail_inv db"
  shows "trail_inv (snd (VaultRepository_RecordHarvestWithAudit D env i tmpl db))"
  unfolding VaultRepository_RecordHarvestWithAudit_def using assms money_lawsD(1,2) [OF assms(1)]
  by (auto simp: step_Inr Let_def intro!: vault_tx_keeps [where P = trail_inv]
      elim!: audited_body [OF assms, where x = "if hi_Compounded i then d_Num D (hi_NetYield i) else - d_Num D (hi_NetYield i)"])

lemma confirmed_trail:
  assumes D: "money_laws D" and "trail_inv db"
    and "confirmed_body D ut env vid u amount h dep cc db = Inr (w, db')"
  shows "trail_inv db'"
proof -
  let ?x = "if dep then d_Num D amount else - d_Num D amount"
  let ?f = "if dep then credit (ve_now env) (d_Num D amount) else debit (ve_now env) (d_Num D amount)"
  obtain b db0 where ins: "insert_vault_tx True (confirmed_row D (ve_now env) vid u (if dep then ''deposit'' else ''withdrawal'') amount h) db = Inr (b, db0)"
    using assms(3) by (auto simp: confirmed_body_def step_Inr)
  have inv: "trail_inv db0"
    using insert_vault_tx_Inr(1) [OF ins] assms(2) by (auto simp: trail_inv_def)
  show ?thesis
  proof (cases b)
    case True
    then obtain r db1 e' db3 where row: "select_vault vid db0 = Some r" and upd: "update_vault vid ?f db0 = Inr (True, db1)"
      and app: "append_audit D env 8 (confirmed_entry ut vid u dep amount (d_Scan D (v_current_balance r))
          (if dep then d_Add D (d_Scan D (v_current_balance r)) amount else d_Sub D (d_Scan D (v_current_balance r)) amount) h) db1 = Inr (e', db3)"
      and db': "vd_vaults db' = vd_vaults db3" "vd_audit db' = vd_audit db3"
      using assms(3) ins by (auto simp: confirmed_body_def step_Inr Let_def split: if_splits)
    have "has_scale 8 (v_current_balance r)"
      using inv select_vault_Some(1) [OF row] by (simp add: trail_inv_def list_all_iff vault_ok_def)
    then have num: "d_Num D (d_Scan D (v_current_balance r)) = v_current_balance r" using money_lawsD(8) [OF D] by simp
    have same: "vd_vaults db1 = vd_vaults db1" "vd_audit db1 = vd_audit db0" using upd by (auto elim!: update_vault_True)
    have "trail_inv db3"
      by (rule audited_change [OF D inv upd _ _ same app row, where x = ?x])
        (use num money_lawsD(1,2) [OF D] in \<open>auto simp: confirmed_entry_def\<close>)
    then show ?thesis using db' trail_inv_cong by metis
  next
    case False
    then show ?thesis using assms(3) ins inv by (auto simp: confirmed_body_def step_Inr)
  qed
qed

lemma apply_confirmed_cases:
  "snd (applyConfirmedBalanceChange D ut env vid u amount h dep cc db) = db \<or>
   trim_space h \<noteq> [] \<and> (\<exists>w db'. confirmed_body D ut env vid u amount h dep cc db = Inr (w, db') \<and>
     snd (applyConfirmedBalanceChange D ut env vid u amount h dep cc db) = db')"
  by (auto simp: applyConfirmedBalanceChange_def split: sum.splits commit_outcome.splits)

lemma confirm_trail:
  assumes "money_laws D" and "trail_inv db"
  shows "trail_inv (snd (applyConfirmedBalanceChange D ut env vid u amount h dep cc db))"
  using apply_confirmed_cases [of D ut env vid u amount h dep cc db] confirmed_trail [OF assms] assms(2)
  by auto

text \<open>An update that leaves balances alone, and a new vault without one.\<close>

lemma quiet_update:
  assumes "trail_inv db" and "\<And>r. v_id (f r) = v_id r" and "\<And>r. v_current_balance (f r) = v_current_balance r"
  shows "trail_inv (snd (single_update env vid f db :: 'd vault_error option \<times> VaultDB))"
proof (cases "bindE (exec env 1 (update_vault vid f db)) affected :: 'd vault_error + VaultDB")
  case (Inl err)
  then show ?thesis using assms(1) by (simp add: single_update_def)
next
  case (Inr db')
  then obtain r r' where row: "select_vault vid db = Some r" and w: "write_vault (f r) = Inr r'"
      and db': "db' = db\<lparr>vd_vaults := update_where (live vid) (\<lambda>_. r') (vd_vaults db)\<rparr>"
    by (auto simp: step_Inr elim!: update_vault_True)
  note sel = select_vault_Some [OF row]
  have dist: "distinct (map v_id (vd_vaults db))" using assms(1) by (simp add: trail_inv_def)
  have ok: "vault_ok (vd_audit db) r" using assms(1) sel(1) by (simp add: trail_inv_def list_all_iff)
  have r': "v_id r' = vid" "v_current_balance r' = v_current_balance r"
    using write_vault_Inr [OF w] assms(2,3) sel(2) ok by (simp_all add: vault_ok_def numeric_round_id)
  note rep = replace_row [OF dist row r'(1)]
  have "vault_ok (vd_audit db) r'" using ok r' sel(2) by (simp add: vault_ok_def)
  then have "list_all (vault_ok (vd_audit db)) (update_where (live vid) (\<lambda>_. r') (vd_vaults db))"
    using assms(1) by (auto simp: list_all_iff rep(2) trail_inv_def)
  moreover have "v_id ` set (update_where (live vid) (\<lambda>_. r') (vd_vaults db)) = v_id ` set (vd_vaults db)"
    using rep(1) by (metis list.set_map)
  ultimately have "trail_inv db'" using assms(1) by (simp add: trail_inv_def db' rep(1))
  moreover have "snd (single_update env vid f db :: 'd vault_error option \<times> VaultDB) = db'" using Inr by (simp add: single_update_def)
  ultimately show ?thesis by metis
qed

lemma create_trail:
  assumes "money_laws D" and "trail_inv db" and "d_Num D (va_CurrentBalance m) = 0"
  shows "trail_inv (snd (VaultRepository_CreateVault D env m db))"
proof -
  have fresh: "vault_rows i (vd_audit db) = []" if "i \<notin> v_id ` set (vd_vaults db)" for i
    using assms(2) that by (auto simp: vault_rows_def trail_inv_def list_all_iff filter_empty_conv)
  have "trail_inv db'" if ins: "insert_vault r db = Inr db'" "v_current_balance r = 0" for r db'
  proof -
    obtain r' where r': "write_vault r = Inr r'" and new: "v_id r' \<notin> v_id ` set (vd_vaults db)"
      and db': "vd_vaults db' = vd_vaults db @ [r']" "vd_audit db' = vd_audit db"
      using ins(1) by (auto simp: insert_vault_def bindE_Inr split: if_splits)
    have "v_current_balance r' = 0" using write_vault_Inr(1) [OF r'] ins(2) by (simp add: numeric_round_id)
    then have "vault_ok (vd_audit db) r'" using fresh [OF new] by (simp add: vault_ok_def)
    then show ?thesis using assms(2) new db' by (auto simp: trail_inv_def list_all_iff)
  qed
  then show ?thesis
    using assms(2,3) by (auto simp: VaultRepository_CreateVault_def exec_def new_vault_def Let_def split: sum.splits)
qed

end
