(* ===== verification/Vault_Properties.thy ===== *)
theory Vault_Properties
  imports Vault_Correct Ledger_Properties
begin

text \<open>
  The vault repository as a system of operations: the audit trail accounts for every balance,
  a transaction hash moves money once whichever operation carries it, launch caps hold after
  every deposit they let through, and vault and ledger move together.
\<close>

section \<open>Operations as steps\<close>

datatype 'd vault_op =
    DoCreate vault_env "'d Vault"
  | DoFrequency vault_env uuid string
  | DoSoftDelete vault_env uuid
  | DoDeposit vault_env uuid "'d TransactionRecord" "'d cap_check option" "'d BalanceEntry"
  | DoWithdraw vault_env uuid "'d TransactionRecord" "'d BalanceEntry"
  | DoHarvest vault_env "'d HarvestRecordInput" "'d BalanceEntry"
  | DoConfirm vault_env uuid uuid 'd string bool "'d cap_check option"
  | DoPlainDeposit vault_env uuid "'d TransactionRecord"
  | DoPlainWithdraw vault_env uuid "'d TransactionRecord"
  | DoPlainHarvest vault_env "'d HarvestRecordInput"
  | DoRebalance vault_env "'d RebalanceRecordInput" "'d TransactionRecord" "'d TransactionRecord"

fun run_op :: "('d, 'z) money_ops_scheme \<Rightarrow> (uuid \<Rightarrow> string) \<Rightarrow> 'd vault_op \<Rightarrow> VaultDB \<Rightarrow> VaultDB" where
  "run_op D ut (DoCreate env m) db = snd (VaultRepository_CreateVault D env m db)"
| "run_op D ut (DoFrequency env vid fr) db =
     snd (VaultRepository_UpdateHarvestFrequency env vid fr db :: 'd vault_error option \<times> VaultDB)"
| "run_op D ut (DoSoftDelete env vid) db =
     snd (VaultRepository_SoftDeleteVault env vid db :: 'd vault_error option \<times> VaultDB)"
| "run_op D ut (DoDeposit env vid rec cc tmpl) db = snd (VaultRepository_RecordDepositWithAudit D env vid rec cc tmpl db)"
| "run_op D ut (DoWithdraw env vid rec tmpl) db = snd (VaultRepository_RecordWithdrawalWithAudit D env vid rec tmpl db)"
| "run_op D ut (DoHarvest env i tmpl) db = snd (VaultRepository_RecordHarvestWithAudit D env i tmpl db)"
| "run_op D ut (DoConfirm env vid u amount h dep cc) db = snd (applyConfirmedBalanceChange D ut env vid u amount h dep cc db)"
| "run_op D ut (DoPlainDeposit env vid rec) db = snd (VaultRepository_RecordDeposit D env vid rec db)"
| "run_op D ut (DoPlainWithdraw env vid rec) db = snd (VaultRepository_RecordWithdrawal D env vid rec db)"
| "run_op D ut (DoPlainHarvest env i) db = snd (VaultRepository_RecordHarvest D env i db)"
| "run_op D ut (DoRebalance env i w d) db = snd (VaultRepository_RecordRebalance D env i w d db)"

text \<open>The operations that write an audit entry with the balance, and those that leave balances alone.\<close>

fun audited :: "('d, 'z) money_ops_scheme \<Rightarrow> 'd vault_op \<Rightarrow> bool" where
  "audited D (DoCreate env m) \<longleftrightarrow> d_Num D (va_CurrentBalance m) = 0"
| "audited D (DoPlainDeposit env vid rec) \<longleftrightarrow> False"
| "audited D (DoPlainWithdraw env vid rec) \<longleftrightarrow> False"
| "audited D (DoPlainHarvest env i) \<longleftrightarrow> False"
| "audited D (DoRebalance env i w d) \<longleftrightarrow> False"
| "audited D op \<longleftrightarrow> True"

definition vault_init :: "VaultDB \<Rightarrow> bool" where
  "vault_init db \<longleftrightarrow> vd_vaults db = [] \<and> vd_txs db = [] \<and> at_rows (vd_audit db) = []"

definition vault_step :: "('d, 'z) money_ops_scheme \<Rightarrow> (uuid \<Rightarrow> string) \<Rightarrow> VaultDB \<Rightarrow> VaultDB \<Rightarrow> bool" where
  "vault_step D ut db db' \<longleftrightarrow> (\<exists>op. audited D op \<and> db' = run_op D ut op db)"

text \<open>The hash an operation records, empty for none.\<close>

fun op_hash :: "'d vault_op \<Rightarrow> string" where
  "op_hash (DoCreate env m) = []"
| "op_hash (DoFrequency env vid fr) = []"
| "op_hash (DoSoftDelete env vid) = []"
| "op_hash (DoDeposit env vid rec cc tmpl) = tr_TransactionHash rec"
| "op_hash (DoWithdraw env vid rec tmpl) = tr_TransactionHash rec"
| "op_hash (DoHarvest env i tmpl) = hi_TransactionHash i"
| "op_hash (DoConfirm env vid u amount h dep cc) = h"
| "op_hash (DoPlainDeposit env vid rec) = tr_TransactionHash rec"
| "op_hash (DoPlainWithdraw env vid rec) = tr_TransactionHash rec"
| "op_hash (DoPlainHarvest env i) = hi_TransactionHash i"
| "op_hash (DoRebalance env i w d) = rb_TransactionHash i"

section \<open>The audit trail\<close>

lemma run_op_trail:
  assumes "money_laws D" and "trail_inv db" and "audited D op"
  shows "trail_inv (run_op D ut op db)"
  using assms
  by (cases op) (auto simp: VaultRepository_UpdateHarvestFrequency_def VaultRepository_SoftDeleteVault_def
      intro!: deposit_trail withdrawal_trail harvest_trail confirm_trail create_trail quiet_update)

interpretation vault_trail: invariant_system
  "\<lambda>db. money_laws D \<and> vault_init db" "vault_step D ut" "\<lambda>db. money_laws D \<and> trail_inv db" for D ut
proof (unfold_locales, goal_cases)
  case (1 s)
  then show ?case by (simp add: vault_init_def trail_inv_def audit_ok_def)
next
  case (2 s t)
  then obtain op where "audited D op" "t = run_op D ut op s" unfolding vault_step_def by blast
  then show ?case using 2(1) run_op_trail [of D s op ut] by simp
qed

lemma reach_weaken: "reach init step s \<Longrightarrow> (\<And>s. init s \<Longrightarrow> init' s) \<Longrightarrow> reach init' step s"
  by (induction rule: reach.induct) (auto intro: reach.intros)

lemma reachable_trail:
  assumes "money_laws D" and "reach vault_init (vault_step D ut) db"
  shows "trail_inv db"
proof -
  have "reach (\<lambda>db. money_laws D \<and> vault_init db) (vault_step D ut) db"
    using assms by (auto intro: reach_weaken)
  then show ?thesis using vault_trail.reachable_inv [of D ut db] by simp
qed

section \<open>Hashes\<close>

definition hashes :: "VaultDB \<Rightarrow> string option set" where
  "hashes db = vt_hash ` set (vd_txs db)"

text \<open>From \<open>db\<close> to \<open>db'\<close> no transaction row is lost, and \<open>h\<close> is recorded unless it was already and nothing happened.\<close>

definition claims :: "string \<Rightarrow> VaultDB \<Rightarrow> VaultDB \<Rightarrow> bool" where
  "claims h db db' \<longleftrightarrow> hashes db \<subseteq> hashes db' \<and> (h \<noteq> [] \<longrightarrow> Some h \<in> hashes db' \<and> (Some h \<in> hashes db \<longrightarrow> db' = db))"

lemma keeps_txs:
  "update_vault vid f db = Inr (b, db') \<Longrightarrow> vd_txs db' = vd_txs db"
  "append_audit D env n e db = Inr (e', db') \<Longrightarrow> vd_txs db' = vd_txs db"
  "insert_vault r db = Inr db' \<Longrightarrow> vd_txs db' = vd_txs db"
  by (auto simp: update_vault_def append_audit_def insert_vault_def bindE_Inr split: option.splits sum.splits if_splits)

lemma insert_claims:
  assumes "insert_vault_tx skip row db1 = Inr (b, db2)" and "b \<or> \<not> skip" and "vt_hash row = nullif_empty h"
    and "hashes db \<subseteq> vt_hash ` set (vd_txs db1)" and "vd_txs db' = vd_txs db2"
  shows "claims h db db'"
proof -
  have b: b using insert_vault_tx_Inr(3) [OF assms(1)] assms(2) by blast
  obtain t where "vd_txs db2 = vd_txs db1 @ [t]" "vt_hash t = vt_hash row"
    using insert_vault_tx_Inr(1) [OF assms(1)] b by auto
  moreover have "h \<noteq> [] \<Longrightarrow> Some h \<notin> vt_hash ` set (vd_txs db1)"
    using insert_vault_tx_Inr(2) [OF assms(1) b] assms(3) by (simp add: nullif_empty_def)
  ultimately show ?thesis using assms(3-5) by (auto simp: claims_def hashes_def nullif_empty_def)
qed

lemma vault_tx_claims:
  "(\<And>x db'. body db = Inr (x, db') \<Longrightarrow> claims h db db') \<Longrightarrow>
   snd (vault_tx env db body) = db \<or> claims h db (snd (vault_tx env db body))"
  using vault_tx_cases [of env db body] by auto

lemma row_hashes [simp]:
  "vt_hash (tx_row D now vid ty rec) = nullif_empty (tr_TransactionHash rec)"
  "vt_hash (harvest_row D now i) = nullif_empty (hi_TransactionHash i)"
  "vt_hash (rebalance_row D now i2) = nullif_empty (rb_TransactionHash i2)"
  "vt_hash (confirmed_row D now vid u ty amount h) = Some h"
  by (simp_all add: tx_row_def harvest_row_def rebalance_row_def confirmed_row_def)

lemma deposit_claims:
  "snd (VaultRepository_RecordDepositWithAudit D env vid rec cc tmpl db) = db \<or>
   claims (tr_TransactionHash rec) db (snd (VaultRepository_RecordDepositWithAudit D env vid rec cc tmpl db))"
  unfolding VaultRepository_RecordDepositWithAudit_def
  by (auto simp: step_Inr Let_def hashes_def intro!: vault_tx_claims elim!: insert_claims dest!: keeps_txs)

lemma withdrawal_claims:
  "snd (VaultRepository_RecordWithdrawalWithAudit D env vid rec tmpl db) = db \<or>
   claims (tr_TransactionHash rec) db (snd (VaultRepository_RecordWithdrawalWithAudit D env vid rec tmpl db))"
  unfolding VaultRepository_RecordWithdrawalWithAudit_def
  by (auto simp: step_Inr Let_def hashes_def intro!: vault_tx_claims elim!: insert_claims dest!: keeps_txs)

lemma harvest_claims:
  "snd (VaultRepository_RecordHarvestWithAudit D env i tmpl db) = db \<or>
   claims (hi_TransactionHash i) db (snd (VaultRepository_RecordHarvestWithAudit D env i tmpl db))"
  unfolding VaultRepository_RecordHarvestWithAudit_def
  by (auto simp: step_Inr Let_def hashes_def intro!: vault_tx_claims elim!: insert_claims dest!: keeps_txs)

lemma plain_claims:
  "snd (VaultRepository_RecordDeposit D env vid rec db) = db \<or>
   claims (tr_TransactionHash rec) db (snd (VaultRepository_RecordDeposit D env vid rec db))"
  "snd (VaultRepository_RecordWithdrawal D env vid rec db) = db \<or>
   claims (tr_TransactionHash rec) db (snd (VaultRepository_RecordWithdrawal D env vid rec db))"
  "snd (VaultRepository_RecordHarvest D env i db) = db \<or>
   claims (hi_TransactionHash i) db (snd (VaultRepository_RecordHarvest D env i db))"
  unfolding VaultRepository_RecordDeposit_def VaultRepository_RecordWithdrawal_def VaultRepository_RecordHarvest_def
  by (auto simp: step_Inr hashes_def intro!: vault_tx_claims elim!: insert_claims dest!: keeps_txs split: if_splits)

lemma insert_grows: "insert_vault_tx skip row db = Inr (b, db') \<Longrightarrow> vt_hash ` set (vd_txs db) \<subseteq> vt_hash ` set (vd_txs db')"
  by (auto dest!: insert_vault_tx_Inr(1))

lemma rebalance_claims:
  "snd (VaultRepository_RecordRebalance D env i w d db) = db \<or>
   claims (rb_TransactionHash i) db (snd (VaultRepository_RecordRebalance D env i w d db))"
  unfolding VaultRepository_RecordRebalance_def
proof (rule vault_tx_claims, clarsimp simp: step_Inr)
  fix b1 t1 b2 t2 b3 t3 b4 t4 b5 t5 l
  assume st: "update_vault (rb_VaultID i) (debit (ve_now env) (d_Num D (tr_Amount w))) db = Inr (b1, t1)"
    "insert_vault_tx False (tx_row D (ve_now env) (rb_VaultID i) ''withdrawal'' w) t1 = Inr (b2, t2)"
    "update_vault (rb_VaultID i) (credit (ve_now env) (d_Num D (tr_Amount d))) t2 = Inr (b3, t3)"
    "insert_vault_tx False (tx_row D (ve_now env) (rb_VaultID i) ''deposit'' d) t3 = Inr (b4, t4)"
    "insert_vault_tx False (rebalance_row D (ve_now env) i) t4 = Inr (b5, t5)"
  have "hashes db \<subseteq> vt_hash ` set (vd_txs t4)"
    using keeps_txs(1) [OF st(1)] insert_grows [OF st(2)] keeps_txs(1) [OF st(3)] insert_grows [OF st(4)]
    by (auto simp: hashes_def)
  then show "claims (rb_TransactionHash i) db (t5\<lparr>vd_ledger := l\<rparr>)" using insert_claims [OF st(5)] by simp
qed

lemma confirm_claims:
  "snd (applyConfirmedBalanceChange D ut env vid u amount h dep cc db) = db \<or>
   claims h db (snd (applyConfirmedBalanceChange D ut env vid u amount h dep cc db))"
proof -
  have "claims h db db' \<or> db' = db" if body: "confirmed_body D ut env vid u amount h dep cc db = Inr (w, db')" "h \<noteq> []" for w db'
  proof -
    let ?row = "confirmed_row D (ve_now env) vid u (if dep then ''deposit'' else ''withdrawal'') amount h"
    obtain b db0 where ins: "insert_vault_tx True ?row db = Inr (b, db0)"
      and rest: "if b then vd_txs db' = vd_txs db0 else db' = db0"
      using body by (auto simp: confirmed_body_def step_Inr Let_def split: if_splits dest!: keeps_txs)
    show ?thesis
    proof (cases b)
      case True
      then show ?thesis
        using insert_claims [OF ins, of h db db'] rest body(2) by (simp add: hashes_def nullif_empty_def)
    next
      case False
      then show ?thesis using insert_vault_tx_Inr(1) [OF ins] rest by auto
    qed
  qed
  moreover have "h \<noteq> []" if "trim_space h \<noteq> []" using that by (auto simp: trim_space_def)
  ultimately show ?thesis
    using apply_confirmed_cases [of D ut env vid u amount h dep cc db] by metis
qed

lemma quiet_claims: "claims [] db (snd (single_update env vid f db :: 'd vault_error option \<times> VaultDB))"
  by (auto simp: single_update_def step_Inr claims_def hashes_def split: sum.splits dest!: keeps_txs)

lemma create_claims: "claims [] db (snd (VaultRepository_CreateVault D env m db))"
  by (auto simp: VaultRepository_CreateVault_def exec_def Let_def claims_def hashes_def split: sum.splits dest!: keeps_txs)

lemma run_op_claims: "run_op D ut op db = db \<or> claims (op_hash op) db (run_op D ut op db)"
  using deposit_claims withdrawal_claims harvest_claims plain_claims rebalance_claims confirm_claims
  by (cases op) (simp_all add: VaultRepository_UpdateHarvestFrequency_def VaultRepository_SoftDeleteVault_def quiet_claims create_claims)

lemma run_op_grows: "hashes db \<subseteq> hashes (run_op D ut op db)"
  using run_op_claims [of D ut op db] by (auto simp: claims_def)

lemma hashes_stay: "reach (\<lambda>s. s = db) (\<lambda>s t. \<exists>op. t = run_op D ut op s) db2 \<Longrightarrow> hashes db \<subseteq> hashes db2"
proof (induction rule: reach.induct)
  case (reach_step s t)
  then show ?case using run_op_grows by fastforce
qed simp

section \<open>Totals\<close>

lemma sum_replace:
  assumes "distinct (map v_id rs)" and "r \<in> set rs" and "live vid r" and "v_id r' = vid"
    and "v_deleted_at r' = None" and "P r' \<longleftrightarrow> P r"
  shows "sum_list (map v_current_balance (filter (\<lambda>q. P q \<and> v_deleted_at q = None) (update_where (live vid) (\<lambda>_. r') rs)))
    = sum_list (map v_current_balance (filter (\<lambda>q. P q \<and> v_deleted_at q = None) rs))
      + (if P r then v_current_balance r' - v_current_balance r else 0)"
  using assms(1,2)
proof (induction rs)
  case (Cons q rs)
  have others: "update_where (live vid) (\<lambda>_. r') rs = rs" if "v_id q = vid"
    using Cons.prems(1) that by (induction rs) (auto simp: update_where_def live_def)
  show ?case
  proof (cases "q = r")
    case True
    moreover have "v_id r = vid" "v_deleted_at r = None" using assms(3) by (simp_all add: live_def)
    ultimately show ?thesis using others assms(3,5,6) by (simp add: update_where_Cons)
  next
    case False
    then have r: "r \<in> set rs" using Cons.prems(2) by simp
    then have "v_id q \<noteq> vid" using Cons.prems(1) assms(3) by (auto simp: live_def)
    then have "\<not> live vid q" by (simp add: live_def)
    moreover have "distinct (map v_id rs)" using Cons.prems(1) by simp
    ultimately show ?thesis using Cons.IH r by (simp add: update_where_Cons)
  qed
qed simp

text \<open>Rounding a non-negative sum leaves the part that is already rounded.\<close>

lemma numeric_round_shift:
  assumes "has_scale s k" and "0 \<le> k" and "0 \<le> x"
  shows "numeric_round s (k + x) = k + numeric_round s x"
proof -
  obtain n where n: "k = of_int n / 10 ^ s" using assms(1) by (auto simp: has_scale_def)
  have "\<bar>k + x\<bar> * 10 ^ s + 1 / 2 = of_int n + (\<bar>x\<bar> * 10 ^ s + 1 / 2)" using assms(2,3) n by (simp add: algebra_simps)
  then have "\<lfloor>\<bar>k + x\<bar> * 10 ^ s + 1 / 2\<rfloor> = n + \<lfloor>\<bar>x\<bar> * 10 ^ s + 1 / 2\<rfloor>" by (metis floor_add_int add.commute)
  then show ?thesis using assms(2,3) n by (simp add: numeric_round_def Let_def add_divide_distrib)
qed

text \<open>What a credit of \<open>x\<close> does to a total that counts the vault: it becomes the rounded sum.\<close>

lemma credited_total:
  assumes "trail_inv db" and "update_vault vid (credit now x) db = Inr (True, db1)" and "0 < x"
    and "select_vault vid db = Some r" and "P r" and "\<And>q. v_user_id q = v_user_id r \<Longrightarrow> P q"
  shows "sum_balances P db1 = numeric_round 8 (sum_balances P db + x)"
proof -
  obtain r' where w: "write_vault (credit now x r) = Inr r'"
      and db1: "db1 = db\<lparr>vd_vaults := update_where (live vid) (\<lambda>_. r') (vd_vaults db)\<rparr>"
    using assms(2,4) by (auto elim!: update_vault_True)
  note w = write_vault_Inr [OF w]
  note sel = select_vault_Some [OF assms(4)]
  have r': "v_id r' = vid" "v_deleted_at r' = None" "P r'" "v_current_balance r' = numeric_round 8 (v_current_balance r + x)"
    using w sel assms(6) [of r'] by (simp_all add: credit_def)
  have dist: "distinct (map v_id (vd_vaults db))" using assms(1) by (simp add: trail_inv_def)
  have ok: "0 \<le> v_current_balance q \<and> has_scale 8 (v_current_balance q)" if "q \<in> set (vd_vaults db)" for q
    using assms(1) that by (simp add: trail_inv_def list_all_iff vault_ok_def)
  let ?live = "filter (\<lambda>q. P q \<and> v_deleted_at q = None) (vd_vaults db)"
  have mem: "r \<in> set ?live" using sel assms(5) by simp
  let ?rest = "sum_list (map v_current_balance (remove1 r ?live))"
  have split: "sum_balances P db = v_current_balance r + ?rest"
    unfolding sum_balances_def using sum_list_map_remove1 [OF mem, of v_current_balance] by simp
  have "set (remove1 r ?live) \<subseteq> set (vd_vaults db)" using set_remove1_subset [of r ?live] by auto
  then have "q \<in> set (remove1 r ?live) \<Longrightarrow> 0 \<le> v_current_balance q \<and> has_scale 8 (v_current_balance q)" for q
    using ok by blast
  then have rest: "0 \<le> ?rest" "has_scale 8 ?rest"
    by (auto intro!: sum_list_nonneg has_scale_sum_list)
  have "sum_balances P db1 = ?rest + numeric_round 8 (v_current_balance r + x)"
    using sum_replace [OF dist sel(1) _ r'(1,2), of P] r' sel split assms(5)
    by (simp add: sum_balances_def db1 live_def)
  also have "\<dots> = numeric_round 8 (?rest + (v_current_balance r + x))"
    using numeric_round_shift [OF rest(2,1), of "v_current_balance r + x"] ok [OF sel(1)] assms(3) by simp
  finally show ?thesis using split by (simp add: ac_simps)
qed

section \<open>What a successful deposit has done\<close>

lemma keeps_rows:
  "update_vault vid f db = Inr (b, db') \<Longrightarrow> vd_ledger db' = vd_ledger db"
  "append_audit D env n e db = Inr (e', db') \<Longrightarrow> vd_ledger db' = vd_ledger db \<and> vd_vaults db' = vd_vaults db"
  "insert_vault_tx skip row db = Inr (b, db') \<Longrightarrow> vd_ledger db' = vd_ledger db \<and> vd_vaults db' = vd_vaults db"
  by (auto simp: update_vault_def append_audit_def bindE_Inr split: option.splits sum.splits dest!: insert_vault_tx_Inr(1))

lemma deposit_success:
  assumes "VaultRepository_RecordDepositWithAudit D env vid rec cc tmpl db = (Inr e, db')"
  obtains r db1 where "select_vault vid db = Some r" "d_Cmp D (tr_Amount rec) (d_Zero D) > 0"
    "launch_caps D env cc (tr_UserID rec) db = Inr ()"
    "update_vault vid (credit (ve_now env) (d_Num D (tr_Amount rec))) db = Inr (True, db1)"
    "vd_vaults db' = vd_vaults db1"
    "postDepositLedgerTx D (ve_ledger env) vid (tr_UserID rec) (tr_Amount rec) (tr_TransactionHash rec) (vd_ledger db)
       = Inr (vd_ledger db')"
proof -
  have pos: "d_Cmp D (tr_Amount rec) (d_Zero D) > 0"
    using assms by (auto simp: VaultRepository_RecordDepositWithAudit_def split: if_splits)
  then obtain r db1 b db2 e' db3 l where st: "select_vault vid db = Some r" "launch_caps D env cc (tr_UserID rec) db = Inr ()"
      "update_vault vid (credit (ve_now env) (d_Num D (tr_Amount rec))) db = Inr (True, db1)"
      "insert_vault_tx False (tx_row D (ve_now env) vid ''deposit'' rec) db1 = Inr (b, db2)"
      "append_audit D env 8 (tmpl\<lparr>ba_VaultID := vid, ba_BalanceBefore := d_Scan D (v_current_balance r),
         ba_BalanceAfter := d_Add D (d_Scan D (v_current_balance r)) (tr_Amount rec)\<rparr>) db2 = Inr (e', db3)"
      "postDepositLedgerTx D (ve_ledger env) vid (tr_UserID rec) (tr_Amount rec) (tr_TransactionHash rec) (vd_ledger db3) = Inr l"
      "db' = db3\<lparr>vd_ledger := l\<rparr>"
    using assms by (auto simp: VaultRepository_RecordDepositWithAudit_def step_Inr Let_def dest!: vault_tx_Inr)
  show ?thesis
    using that [OF st(1) pos st(2,3)] keeps_rows(1) [OF st(3)] keeps_rows(3) [OF st(4)] keeps_rows(2) [OF st(5)] st(6,7) by simp
qed

lemma confirmed_success:
  assumes "applyConfirmedBalanceChange D ut env vid u amount h dep cc db = ((w, None), db')" and "db' \<noteq> db" and "u \<noteq> uuid_Nil"
  obtains r db0 db1 where "select_vault vid db = Some r" "d_Cmp D amount (d_Zero D) > 0" "vd_vaults db0 = vd_vaults db"
    "update_vault vid (if dep then credit (ve_now env) (d_Num D amount) else debit (ve_now env) (d_Num D amount)) db0 = Inr (True, db1)"
    "vd_vaults db' = vd_vaults db1"
    "(if dep then postDepositLedgerTx D (ve_ledger env) vid u amount h (vd_ledger db)
      else postWithdrawalLedgerTx D (ve_ledger env) vid u amount h (vd_ledger db)) = Inr (vd_ledger db')"
proof -
  have pos: "d_Cmp D amount (d_Zero D) > 0" and body: "confirmed_body D ut env vid u amount h dep cc db = Inr (w, db')"
    using assms(1) by (auto simp: applyConfirmedBalanceChange_def split: if_splits sum.splits commit_outcome.splits)
  obtain b db0 where ins: "insert_vault_tx True (confirmed_row D (ve_now env) vid u (if dep then ''deposit'' else ''withdrawal'') amount h) db = Inr (b, db0)"
    using body by (auto simp: confirmed_body_def step_Inr)
  have "db' = db" if "\<not> b" using that body ins insert_vault_tx_Inr(1) [OF ins] by (auto simp: confirmed_body_def step_Inr)
  with assms(2) have b by blast
  then obtain r db1 en e' db3 where st: "select_vault vid db0 = Some r"
      "update_vault vid (if dep then credit (ve_now env) (d_Num D amount) else debit (ve_now env) (d_Num D amount)) db0 = Inr (True, db1)"
      "append_audit D env 8 en db1 = Inr (e', db3)"
      "(if dep then postDepositLedgerTx D (ve_ledger env) vid u amount h (vd_ledger db3)
        else postWithdrawalLedgerTx D (ve_ledger env) vid u amount h (vd_ledger db3)) = Inr (vd_ledger db')"
      "vd_vaults db' = vd_vaults db3"
    using body ins assms(3) by (auto simp: confirmed_body_def step_Inr Let_def split: if_splits)
  note k = keeps_rows(3) [OF ins] keeps_rows(1) [OF st(2)] keeps_rows(2) [OF st(3)]
  have "select_vault vid db = Some r" using st(1) k(1) by (simp add: select_vault_def)
  then show ?thesis using that [of r db0 db1] pos k st(2,4,5) by (cases dep) simp_all
qed

text \<open>The balance after an update, as a reader finds it.\<close>

lemma find_update_where: "find P xs = Some r \<Longrightarrow> P r' \<Longrightarrow> find P (update_where P (\<lambda>_. r') xs) = Some r'"
  by (induction xs) (auto simp: update_where_Cons)

lemma balance_after:
  assumes "trail_inv db" and "update_vault vid f db0 = Inr (True, db1)" and "vd_vaults db0 = vd_vaults db"
    and "select_vault vid db = Some r" and "\<And>q. v_id (f q) = v_id q \<and> v_deleted_at (f q) = v_deleted_at q"
    and "v_current_balance (f r) = v_current_balance r + x" and "has_scale 8 x"
  shows "\<exists>r'. select_vault vid db1 = Some r' \<and> v_current_balance r' = v_current_balance r + x"
proof -
  have sel0: "select_vault vid db0 = Some r" using assms(3,4) by (simp add: select_vault_def)
  obtain r' where w: "write_vault (f r) = Inr r'" and db1: "db1 = db0\<lparr>vd_vaults := update_where (live vid) (\<lambda>_. r') (vd_vaults db0)\<rparr>"
    using assms(2) sel0 by (auto elim!: update_vault_True)
  have "has_scale 8 (v_current_balance r)"
    using assms(1) select_vault_Some(1) [OF assms(4)] by (simp add: trail_inv_def list_all_iff vault_ok_def)
  then have "v_current_balance r' = v_current_balance r + x"
    using write_vault_Inr(1) [OF w] assms(6,7) by (simp add: numeric_round_id has_scale_add)
  moreover have "live vid r'"
    using write_vault_Inr(3,5) [OF w] assms(5) select_vault_Some [OF assms(4)] by (simp add: live_def)
  ultimately show ?thesis
    using find_update_where [OF sel0 [unfolded select_vault_def], of r'] unfolding db1 select_vault_def by simp
qed

lemma scale_7_8: "has_scale 8 (of_int n / 10000000)" "has_scale 8 (- (of_int n / 10000000))"
  unfolding has_scale_def by (rule exI [of _ "n * 10"], simp) (rule exI [of _ "- n * 10"], simp)

text \<open>The posting of \<open>n\<close> stroops moves the two position accounts, as the ledger's readers report them.\<close>

lemma ledger_deposit_moves:
  assumes "ledger_inv l" and "fresh_env env l" and "aborts (env_flt env)" and "vault_decimalToStroops D amount = n"
    and "0 < n" and "n \<le> 2 ^ 62" and "postDepositLedgerTx D env v u amount ev l = Inr l'"
  shows "key_balance l' (user_key v u) = key_balance l (user_key v u) + n"
    and "key_balance l' (pool_key v) = key_balance l (pool_key v) + n"
    and "ledger_inv l'" and "entries_total (db_entries l') = entries_total (db_entries l)"
proof -
  let ?x = "(decimal_ops.truncate D, env, CallerTx, v, u, amount, ev)"
  have st: "decimalToStroops (decimal_ops.truncate D) amount = n"
    using assms(4) by (simp add: decimalToStroops_def vault_decimalToStroops_def decimal_ops.truncate_def stroopsPerUSDC_def)
  then have post: "LedgerService_PostDeposit (decimal_ops.truncate D) env CallerTx l v u amount ev = (None, l')"
    using postDepositLedgerTx_agrees [OF assms(2,3), where D = D] assms(4,5,7)
    by (simp add: LedgerService_PostDeposit_def dispatch_tx_def Let_def)
  show "key_balance l' (user_key v u) = key_balance l (user_key v u) + n"
      "key_balance l' (pool_key v) = key_balance l (pool_key v) + n"
    using deposit.effect [of ?x l l' 0] deposit.effect [of ?x l l' 1] post st assms(1,6)
    by (simp_all add: position_keys_def key_defs)
  show "ledger_inv l'" "entries_total (db_entries l') = entries_total (db_entries l)"
    using deposit.keeps_inv [of ?x l None l'] deposit.books [of ?x l None l'] post st assms(1,6) by simp_all
qed

lemma ledger_withdrawal_moves:
  assumes "ledger_inv l" and "fresh_env env l" and "aborts (env_flt env)" and "vault_decimalToStroops D amount = n"
    and "0 < n" and "n < 2 ^ 62" and "postWithdrawalLedgerTx D env v u amount ev l = Inr l'"
  shows "key_balance l' (user_key v u) = key_balance l (user_key v u) - n"
    and "key_balance l' (pool_key v) = key_balance l (pool_key v) - n"
    and "ledger_inv l'" and "entries_total (db_entries l') = entries_total (db_entries l)"
proof -
  let ?x = "(decimal_ops.truncate D, env, CallerTx, v, u, amount, ev)"
  have st: "decimalToStroops (decimal_ops.truncate D) amount = n"
    using assms(4) by (simp add: decimalToStroops_def vault_decimalToStroops_def decimal_ops.truncate_def stroopsPerUSDC_def)
  then have post: "LedgerService_PostWithdrawal (decimal_ops.truncate D) env CallerTx l v u amount ev = (None, l')"
    using postWithdrawalLedgerTx_agrees [OF assms(2,3), where D = D] assms(4,5,7)
    by (simp add: LedgerService_PostWithdrawal_def dispatch_tx_def Let_def)
  show "key_balance l' (user_key v u) = key_balance l (user_key v u) - n"
      "key_balance l' (pool_key v) = key_balance l (pool_key v) - n"
    using withdrawal.effect [of ?x l l' 0] withdrawal.effect [of ?x l l' 1] post st assms(1,6)
    by (simp_all add: position_keys_def key_defs)
  show "ledger_inv l'" "entries_total (db_entries l') = entries_total (db_entries l)"
    using withdrawal.keeps_inv [of ?x l None l'] withdrawal.books [of ?x l None l'] post st assms(1,6) by simp_all
qed

section \<open>A concrete instance\<close>

text \<open>Exact rationals satisfy the laws.\<close>

definition rat_cmp :: "rat \<Rightarrow> rat \<Rightarrow> int" where
  "rat_cmp a b = (if a < b then - 1 else if a = b then 0 else 1)"

definition rat_money :: "rat money_ops" where
  "rat_money = \<lparr>d_Mul = (*), d_Div = (/), d_Round = rat_round,
     d_IntPart = (\<lambda>d. if d < 0 then - \<lfloor>- d\<rfloor> else \<lfloor>d\<rfloor>), d_NewFromInt = of_int,
     d_Add = (+), d_Sub = (-), d_Cmp = rat_cmp, d_Sign = (\<lambda>a. rat_cmp a 0), d_Zero = 0,
     d_NewFromString = (\<lambda>s. map_option of_int (parse_int64 s)), d_Num = (\<lambda>a. a), d_Scan = (\<lambda>a. a)\<rparr>"

lemma rat_round_int: "rat_round (of_int n) 0 = of_int n"
proof -
  have "\<lfloor>\<bar>of_int n\<bar> + 1 / 2 :: rat\<rfloor> = \<bar>n\<bar>" by (rule floor_unique) simp_all
  then show ?thesis by (cases "n < 0") (simp_all add: rat_round_def Let_def)
qed

lemma rat_money_laws: "money_laws rat_money"
  unfolding money_laws_def rat_money_def by (auto simp: rat_cmp_def rat_round_int)

definition demo_uuid_text :: "uuid \<Rightarrow> string" where "demo_uuid_text u = ''user''"

definition demo_vault_env :: "nat \<Rightarrow> vault_env" where
  "demo_vault_env base = \<lparr>ve_flt = no_fault, ve_commit = Committed, ve_now = 5, ve_auditID = of_nat (base + 900),
     ve_ledger = demo_env base\<rparr>"

definition demo_empty :: VaultDB where
  "demo_empty = \<lparr>vd_users = [\<lparr>u_id = 8, u_daily_deposit_cap = None\<rparr>], vd_vaults = [], vd_txs = [],
     vd_audit = \<lparr>at_rows = [], at_next = 1\<rparr>, vd_ledger = empty_ledger\<lparr>db_vaults := []\<rparr>\<rparr>"

definition demo_vault :: "rat Vault" where
  "demo_vault = \<lparr>va_ID = 7, va_UserID = 8, va_ContractAddress = ''CA'', va_TotalDeposited = 0, va_CurrentBalance = 0,
     va_Currency = ''USDC'', va_Status = ''active'', va_YieldEarned = 0, va_FeesPaid = 0, va_HarvestFrequency = [],
     va_CreatedAt = 0, va_UpdatedAt = 0\<rparr>"

definition demo_record :: "rat \<Rightarrow> string \<Rightarrow> rat TransactionRecord" where
  "demo_record amount h = \<lparr>tr_UserID = 8, tr_Amount = amount, tr_TransactionHash = h,
     tr_SharesMintedOrBurned = amount, tr_SharePriceAtTime = 1, tr_FeeCharged = 0\<rparr>"

definition demo_entry :: "rat \<Rightarrow> rat BalanceEntry" where
  "demo_entry amount = \<lparr>ba_ID = uuid_Nil, ba_Seq = 0, ba_VaultID = uuid_Nil, ba_UserID = 8, ba_Actor = ''user'',
     ba_Operation = OperationDeposit, ba_Amount = amount, ba_BalanceBefore = 0, ba_BalanceAfter = 0, ba_ChainReference = [],
     ba_Metadata = [], ba_CreatedAt = 0\<rparr>"

definition demo_created :: VaultDB where
  "demo_created = run_op rat_money demo_uuid_text (DoCreate (demo_vault_env 0) demo_vault) demo_empty"

definition demo_deposit :: "rat vault_op" where
  "demo_deposit = DoDeposit (demo_vault_env 1000) 7 (demo_record (5 / 2) ''h1'') None (demo_entry (5 / 2))"

definition demo_deposited :: VaultDB where
  "demo_deposited = run_op rat_money demo_uuid_text demo_deposit demo_created"

text \<open>Their values, by which later evaluations start from here.\<close>

lemma demo_created_eval [code]: "demo_created =
    \<lparr>vd_users = [\<lparr>u_id = 8, u_daily_deposit_cap = None\<rparr>], vd_vaults = [\<lparr>v_id = 7, v_user_id = 8,
      v_contract_address = ''CA'', v_total_deposited = 0, v_current_balance = 0, v_currency = ''USDC'', v_status = ''active'',
      v_yield_earned = 0, v_fees_paid = 0, v_soft_capacity = None, v_harvest_frequency = ''daily'', v_last_harvested_at = None,
      v_deleted_at = None, v_created_at = 5, v_updated_at = 5\<rparr>], vd_txs = [], vd_audit = \<lparr>at_rows = [], at_next =
      1\<rparr>, vd_ledger = \<lparr>db_vaults = [7], db_users = [8], db_accounts = [], db_entries = [], db_balances = [], db_recon =
      []\<rparr>\<rparr>"
  by code_simp

lemma demo_deposited_eval [code]: "demo_deposited =
    \<lparr>vd_users = [\<lparr>u_id = 8, u_daily_deposit_cap = None\<rparr>], vd_vaults = [\<lparr>v_id = 7, v_user_id = 8,
      v_contract_address = ''CA'', v_total_deposited = 5 / 2, v_current_balance = 5 / 2, v_currency = ''USDC'', v_status = ''active'',
      v_yield_earned = 0, v_fees_paid = 0, v_soft_capacity = None, v_harvest_frequency = ''daily'', v_last_harvested_at = None,
      v_deleted_at = None, v_created_at = 5, v_updated_at = 5\<rparr>], vd_txs = [\<lparr>vt_vault_id = 7, vt_user_id = Some 8, vt_type
      = ''deposit'', vt_amount = 5 / 2, vt_hash = Some ''h1'', vt_shares = Some (5 / 2), vt_share_price = Some 1, vt_fee = Some 0,
      vt_created_at = 5\<rparr>], vd_audit = \<lparr>at_rows = [\<lparr>ar_id = 1900, ar_seq = 1, ar_vault_id = 7, ar_user_id = 8,
      ar_actor = ''user'', ar_operation = ''deposit'', ar_amount = 5 / 2, ar_balance_before = 0, ar_balance_after = 5 / 2,
      ar_chain_reference = None, ar_metadata = None, ar_created_at = 5\<rparr>], at_next = 2\<rparr>, vd_ledger = \<lparr>db_vaults =
      [7], db_users = [8], db_accounts = [\<lparr>acc_ID = 1000, acc_AccountType = ''user_vault_position'', acc_VaultID = Some 7,
      acc_UserID = Some 8, acc_AdapterName = None, acc_AssetCode = ''USDC'', acc_AssetUnit = ''stroops'', acc_Description = [],
      acc_CreatedAt = 5, acc_UpdatedAt = 5\<rparr>, \<lparr>acc_ID = 1003, acc_AccountType = ''vault_asset_pool'', acc_VaultID = Some
      7, acc_UserID = None, acc_AdapterName = None, acc_AssetCode = ''USDC'', acc_AssetUnit = ''stroops'', acc_Description = [],
      acc_CreatedAt = 5, acc_UpdatedAt = 5\<rparr>, \<lparr>acc_ID = 1006, acc_AccountType = ''system_suspense'', acc_VaultID = None,
      acc_UserID = None, acc_AdapterName = None, acc_AssetCode = ''USDC'', acc_AssetUnit = ''stroops'', acc_Description = [],
      acc_CreatedAt = 5, acc_UpdatedAt = 5\<rparr>], db_entries = [\<lparr>e_ID = 1100, e_TransactionID = 1000, e_AccountID = 1000,
      e_Amount = 25000000, e_Direction = ''debit'', e_CreatedAt = 5, e_DomainEventType = ''deposit'', e_DomainEventID = ''h1'',
      e_AssetCode = ''USDC'', e_AssetUnit = ''stroops''\<rparr>, \<lparr>e_ID = 1102, e_TransactionID = 1000, e_AccountID = 1003,
      e_Amount = 25000000, e_Direction = ''debit'', e_CreatedAt = 5, e_DomainEventType = ''deposit'', e_DomainEventID = ''h1'',
      e_AssetCode = ''USDC'', e_AssetUnit = ''stroops''\<rparr>, \<lparr>e_ID = 1104, e_TransactionID = 1000, e_AccountID = 1006,
      e_Amount = - 50000000, e_Direction = ''credit'', e_CreatedAt = 5, e_DomainEventType = ''deposit'', e_DomainEventID = ''h1'',
      e_AssetCode = ''USDC'', e_AssetUnit = ''stroops''\<rparr>], db_balances = [\<lparr>b_AccountID = 1000, b_Balance = 25000000,
      b_AssetCode = ''USDC'', b_AssetUnit = ''stroops'', b_UpdatedAt = 5, b_Version = 1\<rparr>, \<lparr>b_AccountID = 1003, b_Balance
      = 25000000, b_AssetCode = ''USDC'', b_AssetUnit = ''stroops'', b_UpdatedAt = 5, b_Version = 1\<rparr>, \<lparr>b_AccountID =
      1006, b_Balance = - 50000000, b_AssetCode = ''USDC'', b_AssetUnit = ''stroops'', b_UpdatedAt = 5, b_Version = 1\<rparr>],
      db_recon = []\<rparr>\<rparr>"
  by code_simp

lemma demo_reach:
  "reach vault_init (vault_step rat_money demo_uuid_text) demo_created"
  "reach vault_init (vault_step rat_money demo_uuid_text) demo_deposited"
proof -
  have "reach vault_init (vault_step rat_money demo_uuid_text) demo_empty"
    by (rule reach_init) (simp add: vault_init_def demo_empty_def)
  moreover have "vault_step rat_money demo_uuid_text demo_empty demo_created"
    unfolding vault_step_def demo_created_def
    by (rule exI [of _ "DoCreate (demo_vault_env 0) demo_vault"]) (simp add: demo_vault_def rat_money_def)
  ultimately show created: "reach vault_init (vault_step rat_money demo_uuid_text) demo_created" by (rule reach_step)
  have "vault_step rat_money demo_uuid_text demo_created demo_deposited"
    unfolding vault_step_def demo_deposited_def by (rule exI [of _ demo_deposit]) (simp add: demo_deposit_def)
  with created show "reach vault_init (vault_step rat_money demo_uuid_text) demo_deposited" by (rule reach_step)
qed

lemma demo_balance: "map v_current_balance (vd_vaults demo_deposited) = [5 / 2]"
  by (simp add: demo_deposited_eval)

lemma demo_newIDs: "env_newID (ve_ledger (demo_vault_env base)) n = of_nat (base + n)"
    "env_flt (ve_ledger (demo_vault_env base)) = no_fault" "env_txID (ve_ledger (demo_vault_env base)) = of_nat base"
  by (simp_all add: demo_vault_env_def demo_env_def)

lemma demo_fresh:
  assumes "db_accounts l = []" and "0 < base" and "base \<le> 1000000"
  shows "fresh_env (ve_ledger (demo_vault_env base)) l" and "aborts (env_flt (ve_ledger (demo_vault_env base)))"
proof -
  have small: "unat (of_nat (base + n) :: uuid) = base + n" if "n < 200" for n
    using that assms(3) by (simp add: unat_of_nat del: of_nat_add)
  have "inj_on (\<lambda>n. of_nat (base + n) :: uuid) {..<200}"
    using small by (intro inj_onI) (metis add_left_cancel lessThan_iff)
  moreover have "(of_nat (base + n) :: uuid) \<noteq> uuid_Nil" if "n < 200" for n
    using small [OF that] assms(2) by (auto simp: uuid_Nil_def simp del: of_nat_add)
  moreover have "(of_nat base :: uuid) \<noteq> uuid_Nil" using calculation(2) [of 0] by simp
  moreover have "env_newID (ve_ledger (demo_vault_env base)) = (\<lambda>n. of_nat (base + n))"
    by (rule ext) (simp add: demo_newIDs)
  ultimately show "fresh_env (ve_ledger (demo_vault_env base)) l"
    using assms(1) unfolding fresh_env_def by (simp add: demo_newIDs del: of_nat_add)
  show "aborts (env_flt (ve_ledger (demo_vault_env base)))" by (simp add: aborts_def demo_newIDs)
qed

lemma demo_ledger: "vd_ledger demo_created = empty_ledger"
  by (simp add: demo_created_eval empty_ledger_def)

lemma demo_ledger_inv: "ledger_inv (vd_ledger demo_created)"
  by (simp add: demo_ledger empty_ledger_inv)

section \<open>Properties\<close>

text \<open>
  C22: In every state reached by creating vaults (with no balance, as the service does) and by the
  audited deposits, withdrawals, harvests and confirmations, with deletions in between and any
  statement or commit failing, a complete listing of a vault's audit entries replays without a
  gap to exactly its balance, a vault without entries has balance zero, and no balance is
  negative.
\<close>

theorem audit_trail_reconciles:
  assumes "money_laws D" and "reach vault_init (vault_step D ut) db" and "r \<in> set (vd_vaults db)"
  shows "(case BalanceAuditRepository_ListByVault D no_fault (v_id r) limit 0 (vd_audit db) of
       Inl err \<Rightarrow> err = ErrAuditNotFound \<and> v_current_balance r = 0
     | Inr (es, n) \<Rightarrow> n \<le> limit \<longrightarrow> (\<exists>y. Reconcile D es = Inr y \<and> d_Num D y = v_current_balance r))
    \<and> 0 \<le> v_current_balance r"
proof -
  have inv: "trail_inv db" by (rule reachable_trail [OF assms(1,2)])
  then have ok: "audit_ok (vd_audit db)" "vault_ok (vd_audit db) r" using assms(3) by (auto simp: trail_inv_def list_all_iff)
  show ?thesis
  proof (cases "BalanceAuditRepository_ListByVault D no_fault (v_id r) limit 0 (vd_audit db)")
    case (Inl err)
    then have "err = ErrAuditNotFound" "vault_rows (v_id r) (vd_audit db) = []"
      by (auto simp: BalanceAuditRepository_ListByVault_def list_audit_def scanBalanceAuditEntries_def vault_rows_def
          Let_def split: if_splits sum.splits prod.splits)
    then show ?thesis using Inl ok(2) by (simp add: vault_ok_def)
  next
    case (Inr p)
    obtain es n where p: "p = (es, n)" by (cases p) auto
    show ?thesis
      using ListByVault_reconciles [OF assms(1) ok(1), of "v_id r" "v_current_balance r" no_fault limit es n] Inr p ok(2)
      by (auto simp: vault_ok_def)
  qed
qed

theorem audit_trail_reconciles_witness:
  "\<exists>r es y. vd_vaults demo_deposited = [r] \<and>
     BalanceAuditRepository_ListByVault rat_money no_fault (v_id r) 10 0 (vd_audit demo_deposited) = Inr (es, 1) \<and>
     Reconcile rat_money es = Inr y \<and> d_Num rat_money y = v_current_balance r \<and> v_current_balance r = 5 / 2"
proof -
  obtain r where r: "vd_vaults demo_deposited = [r]" "v_current_balance r = 5 / 2" using demo_balance by auto
  have "map_sum id snd (BalanceAuditRepository_ListByVault rat_money no_fault (v_id (hd (vd_vaults demo_deposited))) 10 0
      (vd_audit demo_deposited)) = Inr 1" by code_simp
  then obtain es where es: "BalanceAuditRepository_ListByVault rat_money no_fault (v_id r) 10 0 (vd_audit demo_deposited) = Inr (es, 1)"
    using r by (auto simp: map_sum_def split: sum.splits)
  then show ?thesis
    using audit_trail_reconciles [OF rat_money_laws demo_reach(2), of r 10] r by auto
qed

text \<open>
  Once an operation carrying a transaction hash has changed the database, no operation with
  that hash changes it again, whatever happens in between: deposits, withdrawals, harvests,
  rebalances and chain confirmations, audited or not, all share the one claim.
\<close>

theorem hash_moves_money_once:
  assumes "op_hash op = h" and "h \<noteq> []" and "run_op D ut op db \<noteq> db"
    and "reach (\<lambda>s. s = run_op D ut op db) (\<lambda>s t. \<exists>q. t = run_op D ut q s) db2" and "op_hash op2 = h"
  shows "run_op D ut op2 db2 = db2"
proof -
  have "Some h \<in> hashes (run_op D ut op db)" using run_op_claims [of D ut op db] assms(1-3) by (auto simp: claims_def)
  then have "Some h \<in> hashes db2" using hashes_stay [OF assms(4)] by blast
  then show ?thesis using run_op_claims [of D ut op2 db2] assms(2,5) by (auto simp: claims_def)
qed

theorem hash_moves_money_once_witness:
  "run_op rat_money demo_uuid_text (DoConfirm (demo_vault_env 2000) 7 8 (5 / 2) ''h1'' True None) demo_deposited = demo_deposited"
proof -
  have "op_hash demo_deposit = ''h1''" by (simp add: demo_deposit_def demo_record_def)
  moreover have "length (vd_txs demo_created) = 0" "length (vd_txs (run_op rat_money demo_uuid_text demo_deposit demo_created)) = 1"
    unfolding demo_deposited_def [symmetric] by (simp_all add: demo_created_eval demo_deposited_eval)
  then have "run_op rat_money demo_uuid_text demo_deposit demo_created \<noteq> demo_created" by (metis zero_neq_one)
  moreover have "op_hash (DoConfirm (demo_vault_env 2000) 7 8 (5 / 2) ''h1'' True None) = ''h1''" by simp
  ultimately show ?thesis
    using hash_moves_money_once [of demo_deposit "''h1''" rat_money demo_uuid_text demo_created demo_deposited
        "DoConfirm (demo_vault_env 2000) 7 8 (5 / 2) ''h1'' True None"]
    by (simp add: demo_deposited_def reach_init del: run_op.simps)
qed

text \<open>
  C23: A deposit that the launch caps let through, decided on totals read under the locks inside
  the transaction that credits it, leaves the protocol's total, and the owner's total when the
  depositor owns the vault, at or below its cap as a column stores it.
\<close>

theorem launch_caps_hold:
  assumes "money_laws D" and "reach vault_init (vault_step D ut) db" and "select_vault vid db = Some r"
    and "VaultRepository_RecordDepositWithAudit D env vid rec
           (Some (\<lambda>u g. fst (EvaluateTotals D (Some cfg) (tr_UserID rec) (tr_Amount rec) u g))) tmpl db = (Inr e, db')"
  shows "(0 < d_Num D (GlobalCap cfg) \<longrightarrow> sum_balances (\<lambda>_. True) db' \<le> numeric_round 8 (d_Num D (GlobalCap cfg)))
    \<and> (0 < d_Num D (PerUserCap cfg) \<and> v_user_id r = tr_UserID rec \<longrightarrow>
         sum_balances (\<lambda>q. v_user_id q = tr_UserID rec) db' \<le> numeric_round 8 (d_Num D (PerUserCap cfg)))"
proof -
  have inv: "trail_inv db" by (rule reachable_trail [OF assms(1,2)])
  have pos: "0 < d_Num D (tr_Amount rec)"
    using assms(4) money_lawsD(3,7) [OF assms(1)] by (auto simp: VaultRepository_RecordDepositWithAudit_def split: if_splits)
  let ?ut = "sum_balances (\<lambda>q. v_user_id q = tr_UserID rec) db" and ?gt = "sum_balances (\<lambda>_. True) db"
  from deposit_success [OF assms(4)] obtain db1 where
      upd: "update_vault vid (credit (ve_now env) (d_Num D (tr_Amount rec))) db = Inr (True, db1)"
    and same: "vd_vaults db' = vd_vaults db1"
    and caps: "launch_caps D env (Some (\<lambda>u g. fst (EvaluateTotals D (Some cfg) (tr_UserID rec) (tr_Amount rec) u g)))
      (tr_UserID rec) db = Inr ()"
    by metis
  have check: "fst (EvaluateTotals D (Some cfg) (tr_UserID rec) (tr_Amount rec) (d_Scan D ?ut) (d_Scan D ?gt)) = None"
    using caps by (simp add: launch_caps_def read_totals_def VaultRepository_UserDepositTotal_def
        VaultRepository_GlobalDepositTotal_def bindE_Inr split: if_splits option.splits)
  have scale: "has_scale 8 (sum_balances P db)" for P
    using inv by (auto simp: sum_balances_def trail_inv_def list_all_iff vault_ok_def intro!: has_scale_sum_list)
  have totals: "d_Num D (d_Scan D ?ut) = ?ut" "d_Num D (d_Scan D ?gt) = ?gt" using money_lawsD(8) [OF assms(1)] scale by simp_all
  note within = EvaluateTotals_None [OF assms(1) check pos, unfolded totals]
  have same': "sum_balances P db' = sum_balances P db1" for P by (simp add: sum_balances_def same)
  have "sum_balances (\<lambda>_. True) db' = numeric_round 8 (?gt + d_Num D (tr_Amount rec))"
    unfolding same' by (rule credited_total [OF inv upd pos assms(3)]) simp_all
  moreover have "sum_balances (\<lambda>q. v_user_id q = tr_UserID rec) db' = numeric_round 8 (?ut + d_Num D (tr_Amount rec))"
    if owner: "v_user_id r = tr_UserID rec"
    unfolding same' by (rule credited_total [OF inv upd pos assms(3)]) (simp_all only: owner)
  ultimately show ?thesis using within by (auto intro: numeric_round_mono)
qed

definition demo_caps :: "rat CapConfig" where
  "demo_caps = \<lparr>PerUserCap = 3, GlobalCap = 100, WarnThresholdsPct = [80, 90]\<rparr>"

theorem launch_caps_hold_witness:
  "sum_balances (\<lambda>q. v_user_id q = 8)
     (snd (VaultRepository_RecordDepositWithAudit rat_money (demo_vault_env 3000) 7 (demo_record (1 / 2) ''h2'')
        (Some (\<lambda>u g. fst (EvaluateTotals rat_money (Some demo_caps) 8 (1 / 2) u g))) (demo_entry (1 / 2)) demo_deposited)) \<le> 3"
proof -
  let ?call = "VaultRepository_RecordDepositWithAudit rat_money (demo_vault_env 3000) 7 (demo_record (1 / 2) ''h2'')
        (Some (\<lambda>u g. fst (EvaluateTotals rat_money (Some demo_caps) 8 (1 / 2) u g))) (demo_entry (1 / 2)) demo_deposited"
  have "map_sum (\<lambda>_. ()) ba_Seq (fst ?call) = Inr 2" by code_simp
  then obtain e where e: "?call = (Inr e, snd ?call)" by (cases ?call) (auto simp: map_sum_def split: sum.splits)
  have "map_option v_user_id (select_vault 7 demo_deposited) = Some 8" by code_simp
  then obtain r where r: "select_vault 7 demo_deposited = Some r" "v_user_id r = 8" by auto
  have "numeric_round 8 (3 :: rat) = 3" by code_simp
  then show ?thesis
    using launch_caps_hold [OF rat_money_laws demo_reach(2) r(1), of "demo_vault_env 3000" "demo_record (1 / 2) ''h2''" demo_caps
        "demo_entry (1 / 2)" e "snd ?call"] e r(2)
    by (simp add: demo_record_def demo_caps_def rat_money_def)
qed

text \<open>
  C24: A recorded deposit of an amount the service accepts, with at most eight decimals, raises
  the vault's balance by exactly that amount and, in the same transaction, the vault's pool and
  the user's position in the ledger by the nearest whole number of stroops, and keeps the books.
  For a whole number of stroops, which is every amount of seven decimals, all three move by the
  same amount; otherwise they part by up to half a stroop (\<open>sub_stroop_deposit_diverges\<close>).
\<close>

theorem deposit_moves_vault_and_ledger:
  assumes "money_laws D" and "rounds_to_nearest D" and "reach vault_init (vault_step D ut) db" and "select_vault vid db = Some r"
    and "ledger_inv (vd_ledger db)" and "fresh_env (ve_ledger env) (vd_ledger db)" and "aborts (env_flt (ve_ledger env))"
    and "has_scale 8 (d_Num D (tr_Amount rec))" and "d_Num D (tr_Amount rec) \<le> 2 ^ 62 / 10 ^ 7"
    and "VaultRepository_RecordDepositWithAudit D env vid rec cc tmpl db = (Inr e, db')"
  shows "(\<exists>r'. select_vault vid db' = Some r' \<and> v_current_balance r' = v_current_balance r + d_Num D (tr_Amount rec))
    \<and> (\<exists>n. \<bar>of_int n - d_Num D (tr_Amount rec) * 10 ^ 7\<bar> \<le> 1 / 2
        \<and> (has_scale 7 (d_Num D (tr_Amount rec)) \<longrightarrow> d_Num D (tr_Amount rec) = of_int n / 10 ^ 7)
        \<and> LedgerRepository_GetVaultPoolBalance no_fault (vd_ledger db') vid
           = map_sum id (\<lambda>b. b + n) (LedgerRepository_GetVaultPoolBalance no_fault (vd_ledger db) vid)
        \<and> LedgerRepository_GetUserVaultBalance no_fault (vd_ledger db') (tr_UserID rec) vid
           = map_sum id (\<lambda>b. b + n) (LedgerRepository_GetUserVaultBalance no_fault (vd_ledger db) (tr_UserID rec) vid))
    \<and> ledger_inv (vd_ledger db') \<and> entries_total (db_entries (vd_ledger db')) = entries_total (db_entries (vd_ledger db))"
proof -
  let ?a = "d_Num D (tr_Amount rec)" and ?n = "vault_decimalToStroops D (tr_Amount rec)"
  have inv: "trail_inv db" by (rule reachable_trail [OF assms(1,3)])
  from deposit_success [OF assms(10)] obtain db1 where
      pos: "d_Cmp D (tr_Amount rec) (d_Zero D) > 0"
    and upd: "update_vault vid (credit (ve_now env) ?a) db = Inr (True, db1)"
    and same: "vd_vaults db' = vd_vaults db1"
    and post: "postDepositLedgerTx D (ve_ledger env) vid (tr_UserID rec) (tr_Amount rec) (tr_TransactionHash rec) (vd_ledger db)
      = Inr (vd_ledger db')" by metis
  have a: "0 < ?a" using pos money_lawsD(3) [OF assms(1), of "tr_Amount rec" "d_Zero D"] money_lawsD(7) [OF assms(1)] by simp
  then have near: "0 \<le> ?n" "?n \<le> 2 ^ 62" "\<bar>of_int ?n - ?a * 10 ^ 7\<bar> \<le> 1 / 2"
    using vault_decimalToStroops_nearest [OF assms(1,2) _ assms(9)] by simp_all
  have whole: "?a = of_int ?n / 10 ^ 7" if scale: "has_scale 7 ?a"
  proof -
    obtain k where k: "?a = of_int k / 10 ^ 7" using scale by (auto simp: has_scale_def)
    then have "\<bar>of_int (?n - k) :: rat\<bar> \<le> 1 / 2" using near(3) by simp
    then have "?n = k" by linarith
    then show ?thesis using k by simp
  qed
  have "\<exists>r'. select_vault vid db1 = Some r' \<and> v_current_balance r' = v_current_balance r + ?a"
    by (rule balance_after [OF inv upd refl assms(4)]) (simp_all add: credit_def assms(8))
  moreover have "key_balance (vd_ledger db') (user_key vid (tr_UserID rec)) = key_balance (vd_ledger db) (user_key vid (tr_UserID rec)) + ?n
      \<and> key_balance (vd_ledger db') (pool_key vid) = key_balance (vd_ledger db) (pool_key vid) + ?n
      \<and> ledger_inv (vd_ledger db') \<and> entries_total (db_entries (vd_ledger db')) = entries_total (db_entries (vd_ledger db))"
  proof (cases "?n = 0")
    case True
    then show ?thesis using post assms(5) by (simp add: postDepositLedgerTx_def)
  next
    case False
    then have n: "0 < ?n" using near(1) by simp
    show ?thesis using ledger_deposit_moves [OF assms(5-7) refl n near(2) post] by blast
  qed
  ultimately show ?thesis
    using same near(3) whole by (auto simp: user_read pool_read select_vault_def intro!: exI [of _ ?n])
qed

lemma rat_money_rounds: "rounds_to_nearest rat_money"
proof -
  have "\<exists>n. rat_round a 0 = of_int n \<and> \<bar>of_int n - a\<bar> \<le> 1 / 2" for a
  proof -
    have "\<bar>(of_int \<lfloor>x + 1 / 2\<rfloor> :: rat) - x\<bar> \<le> 1 / 2" for x :: rat
      using floor_correct [of "x + 1 / 2"] unfolding abs_le_iff by linarith
    from this [of "\<bar>a\<bar>"] have "\<bar>rat_round a 0 - a\<bar> \<le> 1 / 2" by (auto simp: rat_round_def Let_def abs_if split: if_splits)
    moreover have "\<exists>n. rat_round a 0 = of_int n"
      by (auto simp: rat_round_def Let_def) (metis of_int_minus)
    ultimately show ?thesis by auto
  qed
  then show ?thesis by (simp add: rounds_to_nearest_def rat_money_def)
qed

theorem deposit_moves_vault_and_ledger_witness:
  "LedgerRepository_GetVaultPoolBalance no_fault
     (vd_ledger (snd (VaultRepository_RecordDepositWithAudit rat_money (demo_vault_env 1000) 7 (demo_record (5 / 2) ''h1'') None
        (demo_entry (5 / 2)) demo_created))) 7
   = map_sum id (\<lambda>b. b + 25000000) (LedgerRepository_GetVaultPoolBalance no_fault (vd_ledger demo_created) 7)"
proof -
  let ?call = "VaultRepository_RecordDepositWithAudit rat_money (demo_vault_env 1000) 7 (demo_record (5 / 2) ''h1'') None
        (demo_entry (5 / 2)) demo_created"
  have "map_sum (\<lambda>_. ()) ba_Seq (fst ?call) = Inr 1" by code_simp
  then obtain e where e: "?call = (Inr e, snd ?call)" by (cases ?call) (auto simp: map_sum_def split: sum.splits)
  have "map_option v_current_balance (select_vault 7 demo_created) = Some 0" by code_simp
  then obtain r where r: "select_vault 7 demo_created = Some r" by auto
  have acc: "db_accounts (vd_ledger demo_created) = []" by (simp add: demo_ledger empty_ledger_def)
  have num: "d_Num rat_money (tr_Amount (demo_record (5 / 2) ''h1'')) = 5 / 2"
    by (simp add: rat_money_def demo_record_def)
  have scale: "has_scale 8 (5 / 2)" "has_scale 7 (5 / 2)"
    unfolding has_scale_def by (rule exI [of _ 250000000], simp, rule exI [of _ 25000000], simp)
  obtain n where n: "5 / 2 = (of_int n :: rat) / 10 ^ 7"
      "LedgerRepository_GetVaultPoolBalance no_fault (vd_ledger (snd ?call)) 7
       = map_sum id (\<lambda>b. b + n) (LedgerRepository_GetVaultPoolBalance no_fault (vd_ledger demo_created) 7)"
    using deposit_moves_vault_and_ledger [OF rat_money_laws rat_money_rounds demo_reach(1) r demo_ledger_inv demo_fresh [OF acc, of 1000] _ _ e] scale
    by (auto simp: num)
  have "of_int n = (of_int 25000000 :: rat)" using n(1) by simp
  then have "n = 25000000" by (simp only: of_int_eq_iff)
  then show ?thesis using n(2) by simp
qed

text \<open>A deposit of 0.00000004, which the service accepts, raises the vault's balance and leaves the ledger as it was.\<close>

theorem sub_stroop_deposit_diverges:
  "let call = VaultRepository_RecordDepositWithAudit rat_money (demo_vault_env 1000) 7 (demo_record (4 / 10 ^ 8) ''h1'') None
        (demo_entry (4 / 10 ^ 8)) demo_created
   in \<not> isl (fst call) \<and> map_option v_current_balance (select_vault 7 (snd call)) = Some (4 / 10 ^ 8)
     \<and> db_entries (vd_ledger (snd call)) = db_entries (vd_ledger demo_created)"
  by code_simp

text \<open>
  A chain movement confirmed for a known user that takes effect moves the vault's balance and
  the ledger together, up for a deposit and down for a withdrawal, by the confirmed number of
  stroops; a confirmation that changes nothing reported no error only because its hash was
  already recorded.
\<close>

theorem confirmation_moves_vault_and_ledger:
  assumes "money_laws D" and "reach vault_init (vault_step D ut) db" and "select_vault vid db = Some r"
    and "ledger_inv (vd_ledger db)" and "fresh_env (ve_ledger env) (vd_ledger db)" and "aborts (env_flt (ve_ledger env))"
    and "d_Num D amount = of_int n / 10 ^ 7" and "n < 2 ^ 62" and "u \<noteq> uuid_Nil"
    and "applyConfirmedBalanceChange D ut env vid u amount h dep cc db = ((w, None), db')"
    and "s = (if dep then n else - n)"
  shows "(if Some h \<in> hashes db then db' = db
      else (\<exists>r'. select_vault vid db' = Some r' \<and> v_current_balance r' = v_current_balance r + of_int s / 10 ^ 7)
        \<and> LedgerRepository_GetVaultPoolBalance no_fault (vd_ledger db') vid
           = map_sum id (\<lambda>b. b + s) (LedgerRepository_GetVaultPoolBalance no_fault (vd_ledger db) vid)
        \<and> LedgerRepository_GetUserVaultBalance no_fault (vd_ledger db') u vid
           = map_sum id (\<lambda>b. b + s) (LedgerRepository_GetUserVaultBalance no_fault (vd_ledger db) u vid)
        \<and> ledger_inv (vd_ledger db') \<and> entries_total (db_entries (vd_ledger db')) = entries_total (db_entries (vd_ledger db)))"
proof (cases "Some h \<in> hashes db")
  case True
  have "h \<noteq> []" using assms(10) by (auto simp: applyConfirmedBalanceChange_def trim_space_def split: if_splits)
  then show ?thesis
    using True confirm_claims [of D ut env vid u amount h dep cc db] assms(10) by (auto simp: claims_def)
next
  case False
  have inv: "trail_inv db" by (rule reachable_trail [OF assms(1,2)])
  have changed: "db' \<noteq> db"
  proof -
    have body: "confirmed_body D ut env vid u amount h dep cc db = Inr (w, db')"
      using assms(10) by (auto simp: applyConfirmedBalanceChange_def split: if_splits sum.splits commit_outcome.splits)
    then obtain b db0 where ins: "insert_vault_tx True (confirmed_row D (ve_now env) vid u (if dep then ''deposit'' else ''withdrawal'') amount h) db = Inr (b, db0)"
      by (auto simp: confirmed_body_def step_Inr)
    have b
    proof (rule ccontr)
      assume "\<not> b"
      with ins have "insert_vault_tx True (confirmed_row D (ve_now env) vid u (if dep then ''deposit'' else ''withdrawal'') amount h) db = Inr (False, db0)"
        by simp
      from insert_vault_tx_False [OF this] show False using False by (simp add: hashes_def)
    qed
    then have "vd_txs db' = vd_txs db0" using body ins by (auto simp: confirmed_body_def step_Inr Let_def split: if_splits dest!: keeps_txs)
    then show ?thesis using insert_vault_tx_Inr(1) [OF ins] \<open>b\<close> by auto
  qed
  from confirmed_success [OF assms(10) changed assms(9)] obtain db0 db1 where
      pos: "d_Cmp D amount (d_Zero D) > 0" and same0: "vd_vaults db0 = vd_vaults db"
    and upd: "update_vault vid (if dep then credit (ve_now env) (d_Num D amount) else debit (ve_now env) (d_Num D amount)) db0 = Inr (True, db1)"
    and same: "vd_vaults db' = vd_vaults db1"
    and post: "(if dep then postDepositLedgerTx D (ve_ledger env) vid u amount h (vd_ledger db)
      else postWithdrawalLedgerTx D (ve_ledger env) vid u amount h (vd_ledger db)) = Inr (vd_ledger db')" by metis
  have n: "0 < n" using pos money_lawsD(3) [OF assms(1), of amount "d_Zero D"] money_lawsD(7) [OF assms(1)] assms(7) by simp
  have st: "vault_decimalToStroops D amount = n"
    using n assms(8) by (intro vault_decimalToStroops_exact [OF assms(1,7)]) (simp add: int64_defs)
  have "\<exists>r'. select_vault vid db1 = Some r' \<and> v_current_balance r' = v_current_balance r + of_int s / 10 ^ 7"
    by (rule balance_after [OF inv upd same0 assms(3)]) (simp_all add: credit_def debit_def assms(7,11) scale_7_8)
  then have balance: "\<exists>r'. select_vault vid db' = Some r' \<and> v_current_balance r' = v_current_balance r + of_int s / 10 ^ 7"
    using same by (simp add: select_vault_def)
  show ?thesis
  proof (cases dep)
    case True
    then have "postDepositLedgerTx D (ve_ledger env) vid u amount h (vd_ledger db) = Inr (vd_ledger db')" using post by simp
    from ledger_deposit_moves [OF assms(4-6) st n _ this] show ?thesis
      using False True balance assms(8,11) by (simp add: user_read pool_read)
  next
    case wd: False
    then have "postWithdrawalLedgerTx D (ve_ledger env) vid u amount h (vd_ledger db) = Inr (vd_ledger db')" using post by simp
    from ledger_withdrawal_moves [OF assms(4-6) st n assms(8) this] show ?thesis
      using False wd balance assms(11) by (simp add: user_read pool_read)
  qed
qed

theorem confirmation_moves_vault_and_ledger_witness:
  "LedgerRepository_GetUserVaultBalance no_fault
     (vd_ledger (snd (applyConfirmedBalanceChange rat_money demo_uuid_text (demo_vault_env 1000) 7 8 2 ''h1'' True None demo_created))) 8 7
   = map_sum id (\<lambda>b. b + 20000000) (LedgerRepository_GetUserVaultBalance no_fault (vd_ledger demo_created) 8 7)"
proof -
  let ?call = "applyConfirmedBalanceChange rat_money demo_uuid_text (demo_vault_env 1000) 7 8 2 ''h1'' True None demo_created"
  have "fst ?call = (None, None)" by code_simp
  then have e: "?call = ((None, None), snd ?call)" by (metis prod.collapse)
  have "map_option v_current_balance (select_vault 7 demo_created) = Some 0" by code_simp
  then obtain r where r: "select_vault 7 demo_created = Some r" by auto
  have acc: "db_accounts (vd_ledger demo_created) = []" by (simp add: demo_ledger empty_ledger_def)
  have "vd_txs demo_created = []" by code_simp
  then have new: "Some ''h1'' \<notin> hashes demo_created" by (simp add: hashes_def)
  have num: "d_Num rat_money 2 = of_int 20000000 / 10 ^ 7" by (simp add: rat_money_def)
  have u: "(8 :: uuid) \<noteq> uuid_Nil" by (simp add: uuid_Nil_def)
  show ?thesis
    using confirmation_moves_vault_and_ledger [OF rat_money_laws demo_reach(1) r demo_ledger_inv demo_fresh [OF acc, of 1000] num _ u e refl]
      new by simp
qed

section \<open>Where the code does not do what it means to\<close>

text \<open>
  A rebalance writes three transaction rows with the caller's hash, and the column is unique:
  with a hash it always fails, and nothing of it remains.
\<close>

theorem rebalance_with_hash_fails:
  assumes "tr_TransactionHash w = h" and "tr_TransactionHash d = h" and "h \<noteq> []"
  shows "(\<exists>err. fst (VaultRepository_RecordRebalance D env i w d db) = Inl err)
    \<and> snd (VaultRepository_RecordRebalance D env i w d db) = db"
proof -
  have False if ins: "insert_vault_tx False (tx_row D (ve_now env) v ''withdrawal'' w) t1 = Inr (b2, t2)"
    "update_vault v f t2 = Inr (b3, t3)" "insert_vault_tx False (tx_row D (ve_now env) v ''deposit'' d) t3 = Inr (b4, t4)"
    for v f t1 b2 t2 b3 t3 b4 t4
  proof -
    have "Some h \<in> vt_hash ` set (vd_txs t2)"
      using insert_vault_tx_Inr(1,3) [OF ins(1)] assms by (auto simp: nullif_empty_def split: if_splits)
    then have "Some h \<in> vt_hash ` set (vd_txs t3)" using keeps_txs(1) [OF ins(2)] by simp
    then show False
      using insert_vault_tx_taken [of "Some h" _ t3, OF _ _ _ ins(3)] assms by (simp add: nullif_empty_def)
  qed
  then show ?thesis unfolding VaultRepository_RecordRebalance_def by (intro vault_tx_fails) (auto simp: step_Inr)
qed

text \<open>
  A confirmation for no known user can never be recorded: its audit entry refers to the nil
  user, which does not exist.
\<close>

theorem confirmation_without_user_fails:
  assumes "uuid_Nil \<notin> u_id ` set (vd_users db)" and "Some h \<notin> hashes db"
  shows "snd (fst (applyConfirmedBalanceChange D ut env vid uuid_Nil amount h dep cc db)) \<noteq> None
    \<and> snd (applyConfirmedBalanceChange D ut env vid uuid_Nil amount h dep cc db) = db"
proof -
  have False if body: "confirmed_body D ut env vid uuid_Nil amount h dep cc db = Inr (w, db')" for w db'
  proof -
    let ?row = "confirmed_row D (ve_now env) vid uuid_Nil (if dep then ''deposit'' else ''withdrawal'') amount h"
    obtain b db0 where ins: "insert_vault_tx True ?row db = Inr (b, db0)"
      using body by (auto simp: confirmed_body_def step_Inr)
    have b
    proof (rule ccontr)
      assume "\<not> b"
      with ins have "insert_vault_tx True ?row db = Inr (False, db0)" by simp
      from insert_vault_tx_False [OF this] show False using assms(2) by (simp add: hashes_def)
    qed
    have users: "vd_users db0 = vd_users db" using insert_vault_tx_Inr(1) [OF ins] by auto
    obtain f en e' db1 db3 where upd: "update_vault vid f db0 = Inr (True, db1)"
      and app: "append_audit D env 8 en db1 = Inr (e', db3)" and en: "ba_UserID en = uuid_Nil"
      using body ins \<open>b\<close> by (auto simp: confirmed_body_def step_Inr Let_def confirmed_entry_def)
    have "vd_users db1 = vd_users db" using upd users by (auto elim!: update_vault_True)
    then show False
      using app en assms(1) by (auto simp: append_audit_def split: sum.splits elim!: appendBalanceAuditEntry_Inr)
  qed
  then show ?thesis
    by (auto simp: applyConfirmedBalanceChange_def split: sum.splits commit_outcome.splits)
qed

text \<open>A harvest whose net yield is zero passes the check on its input and is then refused by the database.\<close>

theorem zero_net_harvest_fails:
  assumes "d_Num D (hi_NetYield i) = 0"
  shows "\<exists>err. fst (VaultRepository_RecordHarvestWithAudit D env i tmpl db) = Inl err"
proof -
  have amount: "vt_amount (harvest_row D now i) = 0" for now using assms by (simp add: harvest_row_def)
  have "numeric 48 8 0 = Inr 0" by (simp add: numeric_def numeric_round_id)
  then have no_row: "insert_vault_tx False (harvest_row D now i) tx \<noteq> Inr x" for now tx x
    by (simp add: insert_vault_tx_def bindE_Inr amount split: if_splits)
  show ?thesis
  proof (cases "harvest_invalid D i")
    case True
    then show ?thesis by (simp add: VaultRepository_RecordHarvestWithAudit_def)
  next
    case False
    then show ?thesis
      unfolding VaultRepository_RecordHarvestWithAudit_def
      by (simp only: if_False, intro vault_tx_fails [THEN conjunct1]) (auto simp: step_Inr Let_def no_row)
  qed
qed

text \<open>
  A harvest paid out to its owner lowers the vault's balance by the net yield, while the ledger
  is posted as for a compounded one: the legs depend on neither case, and the one on the
  vault's pool carries \<open>+ net\<close>.
\<close>

theorem payout_harvest_diverges:
  assumes "money_laws D" and "trail_inv db" and "select_vault (hi_VaultID i) db = Some r" and "\<not> hi_Compounded i"
    and "d_Num D (hi_NetYield i) = of_int n / 10 ^ 7"
    and "VaultRepository_RecordHarvestWithAudit D env i tmpl db = (Inr e, db')"
  shows "(\<exists>r'. select_vault (hi_VaultID i) db' = Some r' \<and> v_current_balance r' = v_current_balance r - of_int n / 10 ^ 7)
    \<and> postHarvestLedgerTx D (ve_ledger env) (hi_VaultID i) (hi_UserID i) (hi_NetYield i) (hi_PerformanceFee i) ''blend''
        (hi_TransactionHash i) (vd_ledger db) = Inr (vd_ledger db')
    \<and> harvest_keys (hi_VaultID i) (hi_UserID i) ''blend'' ! 0 = pool_key (hi_VaultID i)
    \<and> (n \<noteq> 0 \<longrightarrow> (ids ! 0, n, ''harvest'', hi_TransactionHash i) \<in> set (harvest_ledger_legs n fee gross (hi_TransactionHash i) ids))"
proof -
  let ?f = "harvest_update (ve_now env) (hi_Compounded i) (d_Num D (hi_NetYield i)) (d_Num D (hi_PerformanceFee i))"
  have "\<not> harvest_invalid D i" using assms(6) by (auto simp: VaultRepository_RecordHarvestWithAudit_def)
  then obtain db1 b db2 en e' db3 l where st: "update_vault (hi_VaultID i) ?f db = Inr (True, db1)"
      "insert_vault_tx False (harvest_row D (ve_now env) i) db1 = Inr (b, db2)" "append_audit D env 8 en db2 = Inr (e', db3)"
      "postHarvestLedgerTx D (ve_ledger env) (hi_VaultID i) (hi_UserID i) (hi_NetYield i) (hi_PerformanceFee i) ''blend''
         (hi_TransactionHash i) (vd_ledger db3) = Inr l"
      "db' = db3\<lparr>vd_ledger := l\<rparr>"
    using assms(6) by (auto simp: VaultRepository_RecordHarvestWithAudit_def step_Inr Let_def dest!: vault_tx_Inr)
  have "\<exists>r'. select_vault (hi_VaultID i) db1 = Some r' \<and> v_current_balance r' = v_current_balance r + - (of_int n / 10 ^ 7)"
    using assms(4,5) scale_7_8(2) [of n]
    by (intro balance_after [OF assms(2) st(1) refl assms(3)]) (simp_all add: harvest_update_def debit_def Let_def)
  then show ?thesis
    using keeps_rows(1) [OF st(1)] keeps_rows(3) [OF st(2)] keeps_rows(2) [OF st(3)] st(4,5)
    by (simp add: select_vault_def harvest_keys_def key_defs harvest_ledger_legs_def event_legs_def)
qed

end
