(* ===== verification/Indexer.thy ===== *)
theory Indexer
  imports Vault_Repository Float64
begin

text \<open>
  The chain indexer's write side: \<open>stellar/indexer.go\<close>, \<open>stellar/balance_ownership.go\<close> and
  \<open>stellar/stroops.go\<close>. An event is what the RPC delivered; its data is the decoded JSON
  object. \<open>applyEventMutation\<close> turns one event into statements on the vault tables and the
  event tables of migrations 062 to 065 (widened by 111), inside a transaction that also
  records the event in \<open>processed_events\<close>.
\<close>

section \<open>Event data\<close>

text \<open>
  What \<open>map[string]any\<close> holds. A decoder with \<open>UseNumber\<close> produces \<open>JNumber\<close>; the Go number
  types are the ones the extractors accept besides. The fields of an object are in the order
  a range over the map visits them.
\<close>

datatype json =
    JNull
  | JBool bool
  | JString string
  | JNumber string
  | JFloat float64
  | JInt int
  | JArray "json list"
  | JObject "(string \<times> json) list"

record indexedEvent =
  ev_ID :: string
  ev_ContractID :: string
  ev_EventType :: string
  ev_Ledger :: int
  ev_Data :: "(string \<times> json) list option"
  ev_TxHash :: string
  ev_LedgerClosedAt :: time

text \<open>Event types and enum variants are Soroban symbols, which are ASCII.\<close>

definition lower_char :: "char \<Rightarrow> char" where
  "lower_char c = (if 65 \<le> (of_char c :: nat) \<and> (of_char c :: nat) \<le> 90 then char_of ((of_char c :: nat) + 32) else c)"

definition to_lower :: "string \<Rightarrow> string" where
  "to_lower s = map lower_char s"

definition normalizeEventTypeString :: "string \<Rightarrow> string" where
  "normalizeEventTypeString t = to_lower (trim_space t)"

definition event_field :: "indexedEvent \<Rightarrow> string \<Rightarrow> json option" where
  "event_field e key = (case ev_Data e of None \<Rightarrow> None | Some m \<Rightarrow> map_of m key)"

text \<open>
  The type switch of the number extractors: \<open>None\<close> when no case applies, \<open>Some None\<close> when one
  applies and refuses the value.
\<close>

definition event_number :: "('d, 'z) money_ops_scheme \<Rightarrow> json \<Rightarrow> 'd option option" where
  "event_number D raw =
     (case raw of
        JString s \<Rightarrow> Some (d_NewFromString D (trim_space s))
      | JNumber s \<Rightarrow> Some (d_NewFromString D s)
      | JInt n \<Rightarrow> Some (Some (d_NewFromInt D n))
      | JFloat (FNum q) \<Rightarrow>
          Some (if of_int \<lfloor>q\<rfloor> \<noteq> q \<or> 2 ^ 53 < \<bar>q\<bar> then None else Some (d_NewFromInt D \<lfloor>q\<rfloor>))
      | JFloat _ \<Rightarrow> Some None
      | _ \<Rightarrow> None)"

fun first_number :: "('d, 'z) money_ops_scheme \<Rightarrow> indexedEvent \<Rightarrow> string list \<Rightarrow> 'd option" where
  "first_number D e [] = None"
| "first_number D e (key # keys) =
     (case event_field e key of
        None \<Rightarrow> first_number D e keys
      | Some raw \<Rightarrow> (case event_number D raw of None \<Rightarrow> first_number D e keys | Some r \<Rightarrow> r))"

definition extractEventAmountStroops :: "('d, 'z) money_ops_scheme \<Rightarrow> indexedEvent \<Rightarrow> 'd option" where
  "extractEventAmountStroops D e = first_number D e [''amount'', ''value'']"

definition StroopsPerUnit :: int where "StroopsPerUnit = 10000000"

definition StroopsToAssetUnits :: "('d, 'z) money_ops_scheme \<Rightarrow> 'd \<Rightarrow> 'd" where
  "StroopsToAssetUnits D stroops = d_Div D stroops (d_NewFromInt D StroopsPerUnit)"

definition AssetUnitsToStroops :: "('d, 'z) money_ops_scheme \<Rightarrow> 'd \<Rightarrow> 'd" where
  "AssetUnitsToStroops D units = d_Round D (d_Mul D units (d_NewFromInt D StroopsPerUnit)) 0"

definition extractEventAmountUnits :: "('d, 'z) money_ops_scheme \<Rightarrow> indexedEvent \<Rightarrow> 'd option" where
  "extractEventAmountUnits D e = map_option (StroopsToAssetUnits D) (extractEventAmountStroops D e)"

definition extractEventField :: "('d, 'z) money_ops_scheme \<Rightarrow> indexedEvent \<Rightarrow> string \<Rightarrow> 'd option" where
  "extractEventField D e key =
     (case event_field e key of None \<Rightarrow> None
      | Some raw \<Rightarrow> (case event_number D raw of None \<Rightarrow> None | Some r \<Rightarrow> r))"

text \<open>A caller that ignores the flag of the extractor goes on with the zero decimal.\<close>

definition field_or_zero :: "('d, 'z) money_ops_scheme \<Rightarrow> indexedEvent \<Rightarrow> string \<Rightarrow> 'd" where
  "field_or_zero D e key = (case extractEventField D e key of None \<Rightarrow> d_Zero D | Some d \<Rightarrow> d)"

definition extractEventStringField :: "indexedEvent \<Rightarrow> string \<Rightarrow> string option" where
  "extractEventStringField e key =
     (case event_field e key of Some (JString s) \<Rightarrow> if trim_space s = [] then None else Some s | _ \<Rightarrow> None)"

definition extractEventBoolField :: "indexedEvent \<Rightarrow> string \<Rightarrow> bool option" where
  "extractEventBoolField e key = (case event_field e key of Some (JBool b) \<Rightarrow> Some b | _ \<Rightarrow> None)"

definition extractEventEnumVariant :: "indexedEvent \<Rightarrow> string \<Rightarrow> string option" where
  "extractEventEnumVariant e key =
     (case event_field e key of
        Some (JString s) \<Rightarrow> Some s
      | Some (JArray (JString s # _)) \<Rightarrow> Some s
      | Some (JObject ((k, _) # _)) \<Rightarrow> Some k
      | _ \<Rightarrow> None)"

definition penaltyReasonToDB :: "string \<Rightarrow> string" where
  "penaltyReasonToDB v =
     (let t = to_lower (trim_space v) in
      if t = ''earlywithdrawal'' then ''early_withdrawal''
      else if t = ''lockbreak'' then ''lock_break''
      else if t = ''emergencyexit'' then ''emergency_exit''
      else if t = ''weightdeviation'' then ''weight_deviation''
      else ''early_withdrawal'')"

section \<open>Tables\<close>

record EmergencyRow =
  eq_contract :: string
  eq_user :: string
  eq_seq :: int
  eq_requested :: rat
  eq_filled :: rat
  eq_status :: string
  eq_updated_at :: time

record PenaltyRow =
  pe_contract :: string
  pe_user :: string
  pe_amount :: rat
  pe_shares_burned :: rat
  pe_reason :: string
  pe_ledger :: int

record DistributionRow =
  pd_contract :: string
  pd_depositor :: rat
  pd_treasury :: rat
  pd_dust :: rat
  pd_ledger :: int

record LegRow =
  rl_contract :: string
  rl_source :: string
  rl_delta :: rat
  rl_amount_out :: rat
  rl_min_out :: rat
  rl_ledger :: int

text \<open>The text of the plan hash is a decimal; the row keeps the number it denotes.\<close>

record CompletionRow =
  rc_contract :: string
  rc_plan_hash :: rat
  rc_value_moved :: rat
  rc_slippage_bps :: int
  rc_ledger :: int

record IndexDB =
  ix_vault :: VaultDB
  ix_processed :: "(string \<times> int) list"
  ix_state :: "(string \<times> string) list"
  ix_queue :: "EmergencyRow list"
  ix_penalties :: "PenaltyRow list"
  ix_distributions :: "DistributionRow list"
  ix_legs :: "LegRow list"
  ix_completions :: "CompletionRow list"

datatype index_error =
    EventIdRequired
  | EventMissing string
  | IndexServer pg_error
  | IndexFault

text \<open>Faults by statement (0 is the begin), what the commit reports, the server's clock.\<close>

record index_env =
  ie_flt :: sql_fault
  ie_commit :: commit_outcome
  ie_now :: time

definition ix_exec :: "index_env \<Rightarrow> nat \<Rightarrow> pg_error + 'a \<Rightarrow> index_error + 'a" where
  "ix_exec env n r = (if ie_flt env n then Inl IndexFault else (case r of Inl pg \<Rightarrow> Inl (IndexServer pg) | Inr x \<Rightarrow> Inr x))"

text \<open>A uint64 bound to a BIGINT: the driver refuses a value with the high bit set.\<close>

definition bind_ledger :: "int \<Rightarrow> index_error + int" where
  "bind_ledger n = (if n \<le> max64 then Inr n else Inl (IndexServer (PgError ''22003'' [])))"

text \<open>A decimal sent as text to a BIGINT.\<close>

definition bigint_of :: "('d, 'z) money_ops_scheme \<Rightarrow> 'd \<Rightarrow> pg_error + int" where
  "bigint_of D d =
     (let q = d_Num D d in
      if of_int \<lfloor>q\<rfloor> \<noteq> q then Inl (PgError ''22P02'' [])
      else if in64 \<lfloor>q\<rfloor> then Inr \<lfloor>q\<rfloor> else Inl (PgError ''22003'' []))"

definition check_row :: "bool \<Rightarrow> string \<Rightarrow> 'a \<Rightarrow> pg_error + 'a" where
  "check_row ok name r = (if ok then Inr r else Inl (PgError ''23514'' name))"

section \<open>Vault rows by contract address\<close>

definition live_contract :: "string \<Rightarrow> VaultRow \<Rightarrow> bool" where
  "live_contract c r \<longleftrightarrow> v_contract_address r = c \<and> v_deleted_at r = None"

fun write_rows :: "(VaultRow \<Rightarrow> bool) \<Rightarrow> (VaultRow \<Rightarrow> VaultRow) \<Rightarrow> VaultRow list \<Rightarrow> pg_error + VaultRow list" where
  "write_rows P f [] = Inr []"
| "write_rows P f (r # rs) =
     bindE (if P r then write_vault (f r) else Inr r) (\<lambda>r'. bindE (write_rows P f rs) (\<lambda>rs'. Inr (r' # rs')))"

text \<open>\<open>UPDATE vaults SET ... WHERE contract_address = $1 AND deleted_at IS NULL\<close>\<close>

definition update_contract :: "string \<Rightarrow> (VaultRow \<Rightarrow> VaultRow) \<Rightarrow> IndexDB \<Rightarrow> pg_error + IndexDB" where
  "update_contract c f db =
     bindE (write_rows (live_contract c) f (vd_vaults (ix_vault db))) (\<lambda>rows.
     Inr (db\<lparr>ix_vault := (ix_vault db)\<lparr>vd_vaults := rows\<rparr>\<rparr>))"

definition claim_row :: "('d, 'z) money_ops_scheme \<Rightarrow> time \<Rightarrow> string \<Rightarrow> 'd \<Rightarrow> string \<Rightarrow> uuid \<Rightarrow> VaultTxRow" where
  "claim_row D now ty amount txHash vid =
     \<lparr>vt_vault_id = vid, vt_user_id = None, vt_type = ty, vt_amount = d_Num D amount, vt_hash = Some txHash,
      vt_shares = None, vt_share_price = None, vt_fee = None, vt_created_at = now\<rparr>"

text \<open>\<open>INSERT ... SELECT ... ON CONFLICT DO NOTHING\<close>: one row per selected vault, the number inserted.\<close>

fun insert_claims :: "VaultTxRow list \<Rightarrow> VaultDB \<Rightarrow> pg_error + nat \<times> VaultDB" where
  "insert_claims [] db = Inr (0, db)"
| "insert_claims (row # rows) db =
     bindE (insert_vault_tx True row db) (\<lambda>(inserted, db').
     bindE (insert_claims rows db') (\<lambda>(n, db''). Inr ((if inserted then Suc n else n), db'')))"

definition claimBalanceTxHash ::
  "('d, 'z) money_ops_scheme \<Rightarrow> index_env \<Rightarrow> indexedEvent \<Rightarrow> string \<Rightarrow> 'd \<Rightarrow> IndexDB \<Rightarrow> index_error + bool \<times> IndexDB" where
  "claimBalanceTxHash D env e ty amount db =
     (let txHash = trim_space (ev_TxHash e) in
      if txHash = [] then Inr (True, db)
      else bindE (ix_exec env 2 (insert_claims
          (map (\<lambda>r. claim_row D (ie_now env) ty amount txHash (v_id r))
             (filter (live_contract (ev_ContractID e)) (vd_vaults (ix_vault db)))) (ix_vault db))) (\<lambda>(n, v).
        Inr (0 < n, db\<lparr>ix_vault := v\<rparr>)))"

definition set_status :: "time \<Rightarrow> string \<Rightarrow> VaultRow \<Rightarrow> VaultRow" where
  "set_status now st r = r\<lparr>v_status := st, v_updated_at := now\<rparr>"

definition indexed_harvest :: "time \<Rightarrow> rat \<Rightarrow> VaultRow \<Rightarrow> VaultRow" where
  "indexed_harvest now x r =
     r\<lparr>v_yield_earned := v_yield_earned r + x, v_current_balance := v_current_balance r + x,
       v_last_harvested_at := Some now, v_updated_at := now\<rparr>"

section \<open>The event tables\<close>

definition emergency_checks :: "EmergencyRow \<Rightarrow> pg_error + EmergencyRow" where
  "emergency_checks r =
     bindE (check_row (0 < eq_seq r) ''emergency_withdrawal_queue_seq_check'' r) (\<lambda>r.
     bindE (check_row (0 \<le> eq_filled r) ''emergency_withdrawal_queue_shares_filled_check'' r) (\<lambda>r.
     bindE (check_row (0 < eq_requested r) ''emergency_withdrawal_queue_shares_requested_check'' r) (\<lambda>r.
     bindE (check_row (eq_status r \<in> {''open'', ''filled'', ''cancelled''}) ''emergency_withdrawal_queue_status_check'' r) (\<lambda>r.
     bindE (check_row (eq_user r \<noteq> []) ''emergency_withdrawal_queue_user_address_check'' r) (\<lambda>r.
     check_row (eq_contract r \<noteq> []) ''emergency_withdrawal_queue_vault_contract_address_check'' r)))))"

definition queue_entry :: "string \<Rightarrow> int \<Rightarrow> EmergencyRow \<Rightarrow> bool" where
  "queue_entry c seq r \<longleftrightarrow> eq_contract r = c \<and> eq_seq r = seq"

fun write_queue ::
  "(EmergencyRow \<Rightarrow> bool) \<Rightarrow> (EmergencyRow \<Rightarrow> pg_error + EmergencyRow) \<Rightarrow> EmergencyRow list \<Rightarrow> pg_error + EmergencyRow list" where
  "write_queue P f [] = Inr []"
| "write_queue P f (r # rs) =
     bindE (if P r then bindE (f r) emergency_checks else Inr r) (\<lambda>r'. bindE (write_queue P f rs) (\<lambda>rs'. Inr (r' # rs')))"

text \<open>The upsert on \<open>(vault_contract_address, seq)\<close>.\<close>

definition upsert_emergency :: "time \<Rightarrow> EmergencyRow \<Rightarrow> EmergencyRow list \<Rightarrow> pg_error + EmergencyRow list" where
  "upsert_emergency now row rows =
     bindE (numeric 48 0 (eq_requested row)) (\<lambda>requested.
     bindE (emergency_checks (row\<lparr>eq_requested := requested\<rparr>)) (\<lambda>row.
     if list_ex (queue_entry (eq_contract row) (eq_seq row)) rows
     then write_queue (queue_entry (eq_contract row) (eq_seq row)) (\<lambda>r. Inr (r\<lparr>eq_requested := requested, eq_updated_at := now\<rparr>)) rows
     else Inr (rows @ [row])))"

text \<open>
  A required field that is missing is an error of the handler before any statement; the rest
  of a handler is its one statement.
\<close>

definition require :: "'a option \<Rightarrow> string \<Rightarrow> index_error + 'a" where
  "require x name = (case x of None \<Rightarrow> Inl (EventMissing name) | Some v \<Rightarrow> Inr v)"

definition applyEmergencyQueueRequested ::
  "('d, 'z) money_ops_scheme \<Rightarrow> index_env \<Rightarrow> indexedEvent \<Rightarrow> IndexDB \<Rightarrow> index_error + IndexDB" where
  "applyEmergencyQueueRequested D env e db =
     bindE (require (extractEventStringField e ''user'') ''user'') (\<lambda>user.
     bindE (require (extractEventField D e ''seq'') ''seq'') (\<lambda>seq.
     bindE (require (extractEventField D e ''shares_requested'') ''shares_requested'') (\<lambda>requested.
     ix_exec env 3 (bindE (bigint_of D seq) (\<lambda>seq.
       bindE (upsert_emergency (ie_now env)
         \<lparr>eq_contract = ev_ContractID e, eq_user = user, eq_seq = seq, eq_requested = d_Num D requested, eq_filled = 0,
          eq_status = ''open'', eq_updated_at = ie_now env\<rparr> (ix_queue db)) (\<lambda>rows.
       Inr (db\<lparr>ix_queue := rows\<rparr>)))))))"

definition applyEmergencyQueueFilled ::
  "('d, 'z) money_ops_scheme \<Rightarrow> index_env \<Rightarrow> indexedEvent \<Rightarrow> IndexDB \<Rightarrow> index_error + IndexDB" where
  "applyEmergencyQueueFilled D env e db =
     bindE (require (extractEventField D e ''seq'') ''seq'') (\<lambda>seq.
     bindE (require (extractEventField D e ''fill_shares'') ''fill_shares'') (\<lambda>fill.
     let status = (if extractEventBoolField e ''fully_filled'' = Some True then ''filled'' else ''open'') in
     ix_exec env 3 (bindE (bigint_of D seq) (\<lambda>seq.
       bindE (write_queue (queue_entry (ev_ContractID e) seq)
         (\<lambda>r. bindE (numeric 48 0 (eq_filled r + d_Num D fill)) (\<lambda>filled.
            Inr (r\<lparr>eq_filled := filled, eq_status := status, eq_updated_at := ie_now env\<rparr>))) (ix_queue db)) (\<lambda>rows.
       Inr (db\<lparr>ix_queue := rows\<rparr>))))))"

definition applyEmergencyQueueCancelled ::
  "('d, 'z) money_ops_scheme \<Rightarrow> index_env \<Rightarrow> indexedEvent \<Rightarrow> IndexDB \<Rightarrow> index_error + IndexDB" where
  "applyEmergencyQueueCancelled D env e db =
     bindE (require (extractEventField D e ''seq'') ''seq'') (\<lambda>seq.
     ix_exec env 3 (bindE (bigint_of D seq) (\<lambda>seq.
       bindE (write_queue (queue_entry (ev_ContractID e) seq)
         (\<lambda>r. Inr (r\<lparr>eq_status := ''cancelled'', eq_updated_at := ie_now env\<rparr>)) (ix_queue db)) (\<lambda>rows.
       Inr (db\<lparr>ix_queue := rows\<rparr>)))))"

definition applyPenaltyCharged ::
  "('d, 'z) money_ops_scheme \<Rightarrow> index_env \<Rightarrow> indexedEvent \<Rightarrow> IndexDB \<Rightarrow> index_error + IndexDB" where
  "applyPenaltyCharged D env e db =
     bindE (require (extractEventStringField e ''user'') ''user'') (\<lambda>user.
     bindE (require (extractEventField D e ''amount'') ''amount'') (\<lambda>amount.
     let reason = penaltyReasonToDB (case extractEventEnumVariant e ''reason'' of None \<Rightarrow> [] | Some v \<Rightarrow> v) in
     bindE (bind_ledger (ev_Ledger e)) (\<lambda>ledger.
     ix_exec env 3 (bindE (numeric 48 0 (d_Num D amount)) (\<lambda>amount.
       bindE (numeric 48 0 (d_Num D (field_or_zero D e ''shares_burned''))) (\<lambda>burned.
       bindE (check_row (0 < amount) ''penalty_events_amount_check'' ()) (\<lambda>_.
       bindE (check_row (0 \<le> burned) ''penalty_events_shares_burned_check'' ()) (\<lambda>_.
       bindE (check_row (ev_ContractID e \<noteq> []) ''penalty_events_vault_contract_address_check'' ()) (\<lambda>_.
       Inr (db\<lparr>ix_penalties := ix_penalties db @
         [\<lparr>pe_contract = ev_ContractID e, pe_user = user, pe_amount = amount, pe_shares_burned = burned,
           pe_reason = reason, pe_ledger = ledger\<rparr>]\<rparr>))))))))))"

definition applyPenaltyDistributed ::
  "('d, 'z) money_ops_scheme \<Rightarrow> index_env \<Rightarrow> indexedEvent \<Rightarrow> IndexDB \<Rightarrow> index_error + IndexDB" where
  "applyPenaltyDistributed D env e db =
     bindE (bind_ledger (ev_Ledger e)) (\<lambda>ledger.
     ix_exec env 3 (bindE (numeric 48 0 (d_Num D (field_or_zero D e ''depositor_amount''))) (\<lambda>dep.
       bindE (numeric 48 0 (d_Num D (field_or_zero D e ''treasury_amount''))) (\<lambda>tre.
       bindE (numeric 48 0 (d_Num D (field_or_zero D e ''retained_dust''))) (\<lambda>dust.
       bindE (check_row (0 \<le> dep) ''penalty_distributions_depositor_amount_check'' ()) (\<lambda>_.
       bindE (check_row (0 \<le> dust) ''penalty_distributions_retained_dust_check'' ()) (\<lambda>_.
       bindE (check_row (0 \<le> tre) ''penalty_distributions_treasury_amount_check'' ()) (\<lambda>_.
       bindE (check_row (ev_ContractID e \<noteq> []) ''penalty_distributions_vault_contract_address_check'' ()) (\<lambda>_.
       Inr (db\<lparr>ix_distributions := ix_distributions db @
         [\<lparr>pd_contract = ev_ContractID e, pd_depositor = dep, pd_treasury = tre, pd_dust = dust, pd_ledger = ledger\<rparr>]\<rparr>))))))))))"

definition applyRebalanceLegExecuted ::
  "('d, 'z) money_ops_scheme \<Rightarrow> index_env \<Rightarrow> indexedEvent \<Rightarrow> IndexDB \<Rightarrow> index_error + IndexDB" where
  "applyRebalanceLegExecuted D env e db =
     bindE (require (extractEventStringField e ''source_id'') ''source_id'') (\<lambda>source.
     bindE (require (extractEventField D e ''delta'') ''delta'') (\<lambda>delta.
     bindE (bind_ledger (ev_Ledger e)) (\<lambda>ledger.
     ix_exec env 3 (bindE (numeric 48 0 (d_Num D delta)) (\<lambda>delta.
       bindE (numeric 48 0 (d_Num D (field_or_zero D e ''amount_out''))) (\<lambda>out.
       bindE (numeric 48 0 (d_Num D (field_or_zero D e ''min_out''))) (\<lambda>minOut.
       bindE (check_row (ev_ContractID e \<noteq> []) ''vault_rebalance_legs_vault_contract_address_check'' ()) (\<lambda>_.
       Inr (db\<lparr>ix_legs := ix_legs db @
         [\<lparr>rl_contract = ev_ContractID e, rl_source = source, rl_delta = delta, rl_amount_out = out, rl_min_out = minOut,
           rl_ledger = ledger\<rparr>]\<rparr>)))))))))"

definition applyRebalanceCompleted ::
  "('d, 'z) money_ops_scheme \<Rightarrow> index_env \<Rightarrow> indexedEvent \<Rightarrow> IndexDB \<Rightarrow> index_error + IndexDB" where
  "applyRebalanceCompleted D env e db =
     bindE (require (extractEventField D e ''plan_hash'') ''plan_hash'') (\<lambda>planHash.
     bindE (bind_ledger (ev_Ledger e)) (\<lambda>ledger.
     ix_exec env 3 (
       let bps = d_IntPart D (field_or_zero D e ''realized_slippage_bps'') in
       bindE (numeric 38 0 (d_Num D (field_or_zero D e ''total_value_moved''))) (\<lambda>moved.
       if bps < - (2 ^ 31) \<or> 2 ^ 31 \<le> bps then Inl (PgError ''22003'' [])
       else
       bindE (check_row (0 \<le> bps) ''vault_rebalance_completions_realized_slippage_bps_check'' ()) (\<lambda>_.
       bindE (check_row (0 \<le> moved) ''vault_rebalance_completions_total_value_moved_check'' ()) (\<lambda>_.
       bindE (check_row (ev_ContractID e \<noteq> []) ''vault_rebalance_completions_vault_contract_address_check'' ()) (\<lambda>_.
       Inr (db\<lparr>ix_completions := ix_completions db @
         [\<lparr>rc_contract = ev_ContractID e, rc_plan_hash = d_Num D planHash, rc_value_moved = moved, rc_slippage_bps = bps,
           rc_ledger = ledger\<rparr>]\<rparr>))))))))"

section \<open>One event\<close>

text \<open>The two branches that share the claim of the transaction hash.\<close>

definition balance_event ::
  "('d, 'z) money_ops_scheme \<Rightarrow> index_env \<Rightarrow> indexedEvent \<Rightarrow> string \<Rightarrow> (rat \<Rightarrow> VaultRow \<Rightarrow> VaultRow) \<Rightarrow> IndexDB \<Rightarrow> index_error + IndexDB" where
  "balance_event D env e ty f db =
     bindE (require (extractEventAmountUnits D e) ''amount'') (\<lambda>amount.
     bindE (claimBalanceTxHash D env e ty amount db) (\<lambda>(claimed, db).
     if \<not> claimed then Inr db
     else ix_exec env 3 (update_contract (ev_ContractID e) (f (d_Num D amount)) db)))"

definition applyEventMutation ::
  "('d, 'z) money_ops_scheme \<Rightarrow> index_env \<Rightarrow> indexedEvent \<Rightarrow> IndexDB \<Rightarrow> index_error + IndexDB" where
  "applyEventMutation D env e db =
     (let t = normalizeEventTypeString (ev_EventType e); now = ie_now env in
      if t = ''pause'' then ix_exec env 3 (update_contract (ev_ContractID e) (set_status now ''paused'') db)
      else if t = ''unpause'' then ix_exec env 3 (update_contract (ev_ContractID e) (set_status now ''active'') db)
      else if t = ''deposit'' then balance_event D env e ''deposit'' (credit now) db
      else if t = ''withdraw'' \<or> t = ''withdrawal'' then balance_event D env e ''withdrawal'' (debit now) db
      else if t = ''harvest'' \<or> t = ''harvested'' \<or> t = ''yield_harvest'' then
        bindE (require (extractEventAmountUnits D e) ''amount'') (\<lambda>amount.
        ix_exec env 3 (update_contract (ev_ContractID e) (indexed_harvest now (d_Num D amount)) db))
      else if t = ''emrg_reqd'' then applyEmergencyQueueRequested D env e db
      else if t = ''emrg_fill'' then applyEmergencyQueueFilled D env e db
      else if t = ''emrg_canc'' then applyEmergencyQueueCancelled D env e db
      else if t = ''pnlty_chg'' then applyPenaltyCharged D env e db
      else if t = ''pnlty_dst'' then applyPenaltyDistributed D env e db
      else if t = ''rebal_leg'' then applyRebalanceLegExecuted D env e db
      else if t = ''rebal_cmp'' then applyRebalanceCompleted D env e db
      else Inr db)"

definition markEventProcessed :: "index_env \<Rightarrow> indexedEvent \<Rightarrow> IndexDB \<Rightarrow> index_error + bool \<times> IndexDB" where
  "markEventProcessed env e db =
     bindE (bind_ledger (ev_Ledger e)) (\<lambda>ledger.
     ix_exec env 1 (if ev_ID e \<in> set (map fst (ix_processed db)) then Inr (False, db)
       else Inr (True, db\<lparr>ix_processed := ix_processed db @ [(ev_ID e, ledger)]\<rparr>)))"

text \<open>Begin, the body, commit; what is not committed is rolled back.\<close>

definition ix_tx :: "index_env \<Rightarrow> IndexDB \<Rightarrow> (IndexDB \<Rightarrow> index_error + 'a \<times> IndexDB) \<Rightarrow> (index_error + 'a) \<times> IndexDB" where
  "ix_tx env db body =
     (if ie_flt env 0 then (Inl IndexFault, db)
      else (case body db of
          Inl err \<Rightarrow> (Inl err, db)
        | Inr (x, db') \<Rightarrow>
          (case ie_commit env of
             Committed \<Rightarrow> (Inr x, db')
           | NotCommitted \<Rightarrow> (Inl IndexFault, db)
           | CommitUnacked \<Rightarrow> (Inl IndexFault, db'))))"

definition applyIndexedEvent ::
  "('d, 'z) money_ops_scheme \<Rightarrow> index_env \<Rightarrow> indexedEvent \<Rightarrow> IndexDB \<Rightarrow> (index_error + bool) \<times> IndexDB" where
  "applyIndexedEvent D env e db =
     (if trim_space (ev_ID e) = [] then (Inl EventIdRequired, db)
      else ix_tx env db (\<lambda>tx.
        bindE (markEventProcessed env e tx) (\<lambda>(inserted, tx).
        if \<not> inserted then Inr (False, tx)
        else bindE (applyEventMutation D env e tx) (\<lambda>tx. Inr (True, tx)))))"

end
