(* ===== verification/Poller.thy ===== *)
theory Poller
  imports Indexer "HOL-Library.AList" "HOL-Library.Char_ord" "HOL-Library.List_Lexorder" "HOL-Library.Product_Lexorder"
begin

text \<open>
  The indexer's read side and its cursor: \<open>stellar/poller.go\<close>, \<open>stellar/fetcher.go\<close>,
  \<open>stellar/deposit_observer.go\<close>, the cursor functions and the one-shot \<open>SyncEvents\<close> of
  \<open>stellar/indexer.go\<close>, and \<open>repository/postgres/system_state_repository.go\<close>. What the RPC
  answers is an argument. A poll is a sequence of transactions, one for each event.
\<close>

section \<open>Decimal text\<close>

fun format_nat :: "nat \<Rightarrow> string" where
  "format_nat n = (if n < 10 then [char_of (48 + n)] else format_nat (n div 10) @ [char_of (48 + n mod 10)])"

declare format_nat.simps [simp del]

definition FormatUint :: "int \<Rightarrow> string" where
  "FormatUint n = format_nat (nat n)"

definition max_uint64 :: int where "max_uint64 = 2 ^ 64 - 1"

definition ParseUint :: "string \<Rightarrow> int option" where
  "ParseUint s = (if s \<noteq> [] \<and> list_all is_digit s \<and> digits_value s \<le> max_uint64 then Some (digits_value s) else None)"

text \<open>The casts \<open>text::bigint\<close> and \<open>bigint::text\<close>.\<close>

definition text_bigint :: "string \<Rightarrow> pg_error + int" where
  "text_bigint s = (case parse_int64 (trim_space s) of None \<Rightarrow> Inl (PgError ''22P02'' []) | Some n \<Rightarrow> Inr n)"

definition bigint_text :: "int \<Rightarrow> string" where
  "bigint_text n = (if n < 0 then CHR ''-'' # FormatUint (- n) else FormatUint n)"

section \<open>The cursor\<close>

definition KeyLastLedger :: string where "KeyLastLedger = ''event_indexer.last_ledger''"

datatype poll_error =
    PollFault
  | KeyNotFound
  | BadCursor string
  | CursorUninitialised
  | RpcFailed
  | ZeroTip
  | ApplyFailed string int index_error
  | DependencyMissing

definition SystemStateRepository_Get :: "bool \<Rightarrow> string \<Rightarrow> IndexDB \<Rightarrow> poll_error + string" where
  "SystemStateRepository_Get fault key db =
     (if fault then Inl PollFault else (case map_of (ix_state db) key of None \<Rightarrow> Inl KeyNotFound | Some v \<Rightarrow> Inr v))"

definition SystemStateRepository_Set :: "bool \<Rightarrow> string \<Rightarrow> string \<Rightarrow> IndexDB \<Rightarrow> poll_error option \<times> IndexDB" where
  "SystemStateRepository_Set fault key v db =
     (if fault then (Some PollFault, db) else (None, db\<lparr>ix_state := AList.update key v (ix_state db)\<rparr>))"

definition getLastIndexedLedger :: "bool \<Rightarrow> IndexDB \<Rightarrow> poll_error + int" where
  "getLastIndexedLedger fault db =
     (case SystemStateRepository_Get fault KeyLastLedger db of
        Inl KeyNotFound \<Rightarrow> Inr 0
      | Inl err \<Rightarrow> Inl err
      | Inr raw \<Rightarrow> (case ParseUint raw of None \<Rightarrow> Inl (BadCursor raw) | Some ledger \<Rightarrow> Inr ledger))"

text \<open>Read, compare, write: two statements, so two faults.\<close>

definition setLastIndexedLedger :: "bool \<Rightarrow> bool \<Rightarrow> int \<Rightarrow> IndexDB \<Rightarrow> poll_error option \<times> IndexDB" where
  "setLastIndexedLedger getFault setFault ledger db =
     (case getLastIndexedLedger getFault db of
        Inl err \<Rightarrow> (Some err, db)
      | Inr current \<Rightarrow>
          if ledger \<le> current then (None, db)
          else SystemStateRepository_Set setFault KeyLastLedger (FormatUint ledger) db)"

definition advanceCursorTx :: "index_env \<Rightarrow> int \<Rightarrow> IndexDB \<Rightarrow> index_error + IndexDB" where
  "advanceCursorTx env ledger db =
     ix_exec env 4 (case map_of (ix_state db) KeyLastLedger of
        None \<Rightarrow> Inr (db\<lparr>ix_state := AList.update KeyLastLedger (FormatUint ledger) (ix_state db)\<rparr>)
      | Some v \<Rightarrow>
          bindE (text_bigint v) (\<lambda>old. bindE (text_bigint (FormatUint ledger)) (\<lambda>new.
          Inr (db\<lparr>ix_state := AList.update KeyLastLedger (bigint_text (max old new)) (ix_state db)\<rparr>))))"

section \<open>Fetching\<close>

record raw_event =
  rw_ID :: string
  rw_ContractID :: string
  rw_Ledger :: int
  rw_TxHash :: string
  rw_Topic :: "json list"
  rw_Value :: "(string \<times> json) list option"
  rw_LedgerClosedAt :: string

datatype rpc_result = RpcError | RpcResult (rpc_latest: int) (rpc_events: "raw_event list")

definition sorobanEventPageLimit :: nat where "sorobanEventPageLimit = 200"

definition raw_event_type :: "raw_event \<Rightarrow> string" where
  "raw_event_type w = (case rw_Topic w of JString t # _ \<Rightarrow> t | _ \<Rightarrow> [])"

definition to_indexed :: "(string \<Rightarrow> time option) \<Rightarrow> raw_event \<Rightarrow> indexedEvent" where
  "to_indexed parseTime w =
     \<lparr>ev_ID = rw_ID w, ev_ContractID = rw_ContractID w, ev_EventType = raw_event_type w, ev_Ledger = rw_Ledger w,
      ev_Data = rw_Value w, ev_TxHash = rw_TxHash w,
      ev_LedgerClosedAt = (if rw_LedgerClosedAt w = [] then 0 else (case parseTime (rw_LedgerClosedAt w) of None \<Rightarrow> 0 | Some t \<Rightarrow> t))\<rparr>"

text \<open>
  \<open>getEvents\<close> with a start ledger and the page limit; an event without a type is skipped.
  \<open>None\<close> is a failed call, whatever its cause.
\<close>

definition fetchSorobanEvents ::
  "(string list \<Rightarrow> int \<Rightarrow> rpc_result) \<Rightarrow> (string \<Rightarrow> time option) \<Rightarrow> string list \<Rightarrow> int \<Rightarrow> (indexedEvent list \<times> int) option" where
  "fetchSorobanEvents getEvents parseTime contractIDs startLedger =
     (case getEvents contractIDs startLedger of
        RpcError \<Rightarrow> None
      | RpcResult latest raws \<Rightarrow>
          Some (map (to_indexed parseTime) (filter (\<lambda>w. raw_event_type w \<noteq> []) raws), latest))"

record fetcher =
  FetchEvents :: "string list \<Rightarrow> int \<Rightarrow> (indexedEvent list \<times> int) option"
  LatestLedger :: "int option"

definition rpcEventFetcher ::
  "(string list \<Rightarrow> int \<Rightarrow> rpc_result) \<Rightarrow> int option \<Rightarrow> (string \<Rightarrow> time option) \<Rightarrow> fetcher" where
  "rpcEventFetcher getEvents getLatestLedger parseTime =
     \<lparr>FetchEvents = fetchSorobanEvents getEvents parseTime,
      LatestLedger = getLatestLedger\<rparr>"

definition loadVaultContractIDs :: "bool \<Rightarrow> IndexDB \<Rightarrow> poll_error + string list" where
  "loadVaultContractIDs fault db =
     (if fault then Inl PollFault
      else Inr (remdups (map v_contract_address
        (filter (\<lambda>r. v_deleted_at r = None \<and> v_contract_address r \<noteq> []) (vd_vaults (ix_vault db))))))"

section \<open>The deposit observer\<close>

record 'd ConfirmedDeposit =
  cd_VaultUserID :: uuid
  cd_EventID :: string
  cd_AmountUnits :: 'd
  cd_OccurredAt :: time

definition eventOccurredAt :: "time \<Rightarrow> indexedEvent \<Rightarrow> time" where
  "eventOccurredAt now e = (if ev_LedgerClosedAt e \<noteq> 0 then ev_LedgerClosedAt e else now)"

text \<open>The calls of the observer: none, or one. Its own failures and panics are contained.\<close>

definition notifyDepositObserver ::
  "('d, 'z) money_ops_scheme \<Rightarrow> bool \<Rightarrow> bool \<Rightarrow> time \<Rightarrow> indexedEvent \<Rightarrow> IndexDB \<Rightarrow> 'd ConfirmedDeposit list" where
  "notifyDepositObserver D observer fault now e db =
     (if \<not> observer then []
      else if normalizeEventTypeString (ev_EventType e) \<noteq> ''deposit'' then []
      else (case extractEventAmountUnits D e of None \<Rightarrow> []
        | Some amount \<Rightarrow>
          if fault then []
          else (case find (live_contract (ev_ContractID e)) (vd_vaults (ix_vault db)) of
              None \<Rightarrow> []
            | Some r \<Rightarrow> [\<lparr>cd_VaultUserID = v_user_id r, cd_EventID = ev_ID e, cd_AmountUnits = amount,
                          cd_OccurredAt = eventOccurredAt now e\<rparr>])))"

section \<open>One poll\<close>

definition DefaultColdStartOffset :: int where "DefaultColdStartOffset = 12"

record EventPoller =
  ep_DB :: bool
  ep_SysRepo :: bool
  ep_Fetcher :: "fetcher option"
  ep_ColdStartOffset :: int
  ep_DepositObserver :: bool

text \<open>
  The environment of one poll: faults of the statements outside the event transactions (0 the
  read of the cursor, 1 and 2 persisting the cold start, 3 the contracts, 4 and 5 advancing
  to the tip), one environment and one lookup fault for each event, and the clock.
\<close>

record poll_env =
  pv_flt :: sql_fault
  pv_event :: "nat \<Rightarrow> index_env"
  pv_lookup :: "nat \<Rightarrow> bool"
  pv_now :: time

definition sortEventsForApply :: "indexedEvent list \<Rightarrow> indexedEvent list" where
  "sortEventsForApply es = sort_key (\<lambda>e. (ev_Ledger e, ev_ID e)) es"

definition applyIndexedEventWithCursor ::
  "('d, 'z) money_ops_scheme \<Rightarrow> index_env \<Rightarrow> indexedEvent \<Rightarrow> IndexDB \<Rightarrow> (index_error + bool) \<times> IndexDB" where
  "applyIndexedEventWithCursor D env e db =
     (if trim_space (ev_ID e) = [] then (Inl EventIdRequired, db)
      else ix_tx env db (\<lambda>tx.
        bindE (markEventProcessed env e tx) (\<lambda>(inserted, tx).
        bindE (if inserted then applyEventMutation D env e tx else Inr tx) (\<lambda>tx.
        bindE (advanceCursorTx env (ev_Ledger e) tx) (\<lambda>tx.
        Inr (inserted, tx))))))"

definition resolveStartLedger :: "EventPoller \<Rightarrow> fetcher \<Rightarrow> poll_env \<Rightarrow> IndexDB \<Rightarrow> (poll_error + int) \<times> IndexDB" where
  "resolveStartLedger p fetch env db =
     (case getLastIndexedLedger (pv_flt env 0) db of
        Inl err \<Rightarrow> (Inl err, db)
      | Inr cursor \<Rightarrow>
        if 0 < cursor then (Inr cursor, db)
        else (case LatestLedger fetch of
            None \<Rightarrow> (Inl RpcFailed, db)
          | Some tip \<Rightarrow>
            if tip = 0 then (Inl ZeroTip, db)
            else (let offset = (if ep_ColdStartOffset p = 0 then DefaultColdStartOffset else ep_ColdStartOffset p);
                      start = (if offset < tip then tip - offset else 1)
                  in case setLastIndexedLedger (pv_flt env 1) (pv_flt env 2) start db of
                    (Some err, db') \<Rightarrow> (Inl err, db')
                  | (None, db') \<Rightarrow> (Inr start, db'))))"

text \<open>The loop over the batch stops at the first failure.\<close>

fun apply_batch ::
  "('d, 'z) money_ops_scheme \<Rightarrow> bool \<Rightarrow> poll_env \<Rightarrow> nat \<Rightarrow> indexedEvent list \<Rightarrow> IndexDB
   \<Rightarrow> (nat \<times> poll_error option) \<times> 'd ConfirmedDeposit list \<times> IndexDB" where
  "apply_batch D observer env i [] db = ((0, None), [], db)"
| "apply_batch D observer env i (e # es) db =
     (case applyIndexedEventWithCursor D (pv_event env i) e db of
        (Inl err, db') \<Rightarrow> ((0, Some (ApplyFailed (ev_ID e) (ev_Ledger e) err)), [], db')
      | (Inr processed, db') \<Rightarrow>
        (let calls = (if processed then notifyDepositObserver D observer (pv_lookup env i) (pv_now env) e db' else []);
             ((n, err), more, db'') = apply_batch D observer env (Suc i) es db'
         in ((if processed then Suc n else n, err), calls @ more, db'')))"

definition PollEvents ::
  "('d, 'z) money_ops_scheme \<Rightarrow> EventPoller \<Rightarrow> poll_env \<Rightarrow> IndexDB
   \<Rightarrow> (nat \<times> poll_error option) \<times> 'd ConfirmedDeposit list \<times> IndexDB" where
  "PollEvents D p env db =
     (if \<not> ep_DB p then ((0, Some DependencyMissing), [], db)
      else if \<not> ep_SysRepo p then ((0, Some DependencyMissing), [], db)
      else (case ep_Fetcher p of None \<Rightarrow> ((0, Some DependencyMissing), [], db) | Some fetch \<Rightarrow>
        case resolveStartLedger p fetch env db of
          (Inl err, db) \<Rightarrow> ((0, Some err), [], db)
        | (Inr startLedger, db) \<Rightarrow>
          (case loadVaultContractIDs (pv_flt env 3) db of
             Inl err \<Rightarrow> ((0, Some err), [], db)
           | Inr contractIDs \<Rightarrow>
             if contractIDs = [] then ((0, None), [], db)
             else (case FetchEvents fetch contractIDs startLedger of
                 None \<Rightarrow> ((0, Some RpcFailed), [], db)
               | Some (events, latestLedger) \<Rightarrow>
                 if events \<noteq> [] then apply_batch D (ep_DepositObserver p) env 0 (sortEventsForApply events) db
                 else if latestLedger \<le> 0 then ((0, None), [], db)
                 else (case setLastIndexedLedger (pv_flt env 4) (pv_flt env 5) latestLedger db of
                     (err, db) \<Rightarrow> ((0, err), [], db))))))"

section \<open>The one-shot sync\<close>

text \<open>Here a failed event is logged and skipped, and the cursor is set to the tip at the end.\<close>

fun sync_batch ::
  "('d, 'z) money_ops_scheme \<Rightarrow> bool \<Rightarrow> poll_env \<Rightarrow> nat \<Rightarrow> indexedEvent list \<Rightarrow> IndexDB
   \<Rightarrow> nat \<times> 'd ConfirmedDeposit list \<times> IndexDB" where
  "sync_batch D observer env i [] db = (0, [], db)"
| "sync_batch D observer env i (e # es) db =
     (case applyIndexedEvent D (pv_event env i) e db of
        (Inr True, db') \<Rightarrow>
          (let calls = notifyDepositObserver D observer (pv_lookup env i) (pv_now env) e db';
               (n, more, db'') = sync_batch D observer env (Suc i) es db'
           in (Suc n, calls @ more, db''))
      | (_, db') \<Rightarrow> sync_batch D observer env (Suc i) es db')"

definition SyncEvents ::
  "('d, 'z) money_ops_scheme \<Rightarrow> bool \<Rightarrow> (string list \<Rightarrow> int \<Rightarrow> rpc_result) \<Rightarrow> (string \<Rightarrow> time option) \<Rightarrow> poll_env \<Rightarrow> IndexDB
   \<Rightarrow> (poll_error + nat) \<times> 'd ConfirmedDeposit list \<times> IndexDB" where
  "SyncEvents D observer getEvents parseTime env db =
     (case getLastIndexedLedger (pv_flt env 0) db of
        Inl err \<Rightarrow> (Inl err, [], db)
      | Inr startLedger \<Rightarrow>
        (case loadVaultContractIDs (pv_flt env 3) db of
           Inl err \<Rightarrow> (Inl err, [], db)
         | Inr contractIDs \<Rightarrow>
           if contractIDs = [] then (Inr 0, [], db)
           else (case fetchSorobanEvents getEvents parseTime contractIDs startLedger of
               None \<Rightarrow> (Inl RpcFailed, [], db)
             | Some (events, latestLedger) \<Rightarrow>
               (let (n, calls, db') = sync_batch D observer env 0 events db
                in (Inr n, calls, snd (setLastIndexedLedger (pv_flt env 4) (pv_flt env 5) latestLedger db'))))))"

section \<open>Freshness\<close>

datatype freshness_sample = NoSample | Observe int int | ObserveFailure

definition readIndexerPosition :: "bool \<Rightarrow> fetcher \<Rightarrow> IndexDB \<Rightarrow> poll_error + int \<times> int" where
  "readIndexerPosition fault fetch db =
     bindE (getLastIndexedLedger fault db) (\<lambda>indexed.
     if indexed = 0 then Inl CursorUninitialised
     else (case LatestLedger fetch of None \<Rightarrow> Inl RpcFailed | Some tip \<Rightarrow> if tip = 0 then Inl ZeroTip else Inr (indexed, tip)))"

definition sampleFreshness :: "bool \<Rightarrow> bool \<Rightarrow> fetcher \<Rightarrow> IndexDB \<Rightarrow> freshness_sample" where
  "sampleFreshness recorder fault fetch db =
     (if \<not> recorder then NoSample
      else (case readIndexerPosition fault fetch db of Inl _ \<Rightarrow> ObserveFailure | Inr (indexed, tip) \<Rightarrow> Observe indexed tip))"

end
