(* ===== verification/Backfill.thy ===== *)
theory Backfill
  imports Poller
begin

text \<open>
  Backfill and rebuild runs over a range of ledgers: \<open>stellar/backfill.go\<close>,
  \<open>domain/backfill/model.go\<close> and \<open>repository/postgres/backfill_repository.go\<close>. A run applies
  events through \<open>applyIndexedEvent\<close> and keeps its progress in a row of its own. Ledgers are
  uint64; the loops may depend on the RPC for progress, so they are partial functions and
  that they return is a theorem.
\<close>

definition wrapU64 :: "int \<Rightarrow> int" where "wrapU64 n = n mod 2 ^ 64"

section \<open>Runs\<close>

record Run =
  run_ID :: uuid
  run_FromLedger :: int
  run_ToLedger :: int
  run_ContractIDs :: "string list"
  run_Mode :: string
  run_DryRun :: bool
  run_Status :: string
  run_LastLedgerDone :: "int option"
  run_EventsProcessed :: int
  run_EventsSkippedDuplicate :: int
  run_LastError :: bool
  run_InitiatedBy :: string

definition StatusRunning :: string where "StatusRunning = ''running''"
definition StatusCompleted :: string where "StatusCompleted = ''completed''"
definition StatusFailed :: string where "StatusFailed = ''failed''"
definition StatusCancelled :: string where "StatusCancelled = ''cancelled''"

definition ModeBackfill :: string where "ModeBackfill = ''backfill''"
definition ModeRebuild :: string where "ModeRebuild = ''rebuild''"

definition ResumeFrom :: "Run \<Rightarrow> int" where
  "ResumeFrom r = (case run_LastLedgerDone r of None \<Rightarrow> run_FromLedger r | Some l \<Rightarrow> wrapU64 (l + 1))"

datatype backfill_error =
    InvalidRange
  | InitiatorRequired
  | UnknownMode
  | ContractsFailed poll_error
  | RebuildRefused "string list"
  | RunNotFound
  | NotResumable
  | TooCloseToHead
  | FetchRangeFailed
  | EventFailed string int index_error
  | ResetFailed index_error
  | RepoFailed pg_error
  | RepoFault

section \<open>The run table\<close>

record BackfillDB =
  bf_index :: IndexDB
  bf_runs :: "Run list"

definition run_checks :: "Run \<Rightarrow> pg_error + Run" where
  "run_checks r =
     (if max64 < run_FromLedger r \<or> max64 < run_ToLedger r then Inl (PgError ''22003'' [])
      else if (case run_LastLedgerDone r of None \<Rightarrow> False | Some l \<Rightarrow> max64 < l) then Inl (PgError ''22003'' [])
      else bindE (check_row (run_FromLedger r \<le> run_ToLedger r) ''backfill_runs_check'' r) (\<lambda>r.
      bindE (check_row (case run_LastLedgerDone r of None \<Rightarrow> True | Some l \<Rightarrow> run_FromLedger r \<le> l \<and> l \<le> run_ToLedger r)
        ''backfill_runs_check1'' r) (\<lambda>r.
      bindE (check_row (0 \<le> run_FromLedger r) ''backfill_runs_from_ledger_check'' r) (\<lambda>r.
      bindE (check_row (run_Mode r \<in> {ModeBackfill, ModeRebuild}) ''backfill_runs_mode_check'' r) (\<lambda>r.
      check_row (run_Status r \<in> {StatusRunning, StatusCompleted, StatusFailed, StatusCancelled}) ''backfill_runs_status_check'' r)))))"

definition BackfillRepository_Create :: "bool \<Rightarrow> uuid \<Rightarrow> Run \<Rightarrow> BackfillDB \<Rightarrow> (backfill_error + Run) \<times> BackfillDB" where
  "BackfillRepository_Create fault newID run db =
     (let run = run\<lparr>run_ID := if run_ID run = uuid_Nil then newID else run_ID run,
                    run_Status := if run_Status run = [] then StatusRunning else run_Status run,
                    run_Mode := if run_Mode run = [] then ModeBackfill else run_Mode run\<rparr>
      in if fault then (Inl RepoFault, db)
         else (case run_checks (run\<lparr>run_LastLedgerDone := None, run_EventsProcessed := 0, run_EventsSkippedDuplicate := 0,
                                   run_LastError := False\<rparr>) of
             Inl pg \<Rightarrow> (Inl (RepoFailed pg), db)
           | Inr row \<Rightarrow>
             if run_ID row \<in> run_ID ` set (bf_runs db) then (Inl (RepoFailed (PgError ''23505'' ''backfill_runs_pkey'')), db)
             else (Inr run, db\<lparr>bf_runs := bf_runs db @ [row]\<rparr>)))"

definition BackfillRepository_GetByID :: "bool \<Rightarrow> uuid \<Rightarrow> BackfillDB \<Rightarrow> backfill_error + Run" where
  "BackfillRepository_GetByID fault runID db =
     (if fault then Inl RepoFault
      else (case find (\<lambda>r. run_ID r = runID) (bf_runs db) of None \<Rightarrow> Inl RunNotFound | Some r \<Rightarrow> Inr r))"

fun write_runs :: "(Run \<Rightarrow> bool) \<Rightarrow> (Run \<Rightarrow> Run) \<Rightarrow> Run list \<Rightarrow> pg_error + Run list" where
  "write_runs P f [] = Inr []"
| "write_runs P f (r # rs) =
     bindE (if P r then run_checks (f r) else Inr r) (\<lambda>r'. bindE (write_runs P f rs) (\<lambda>rs'. Inr (r' # rs')))"

definition update_run :: "bool \<Rightarrow> uuid \<Rightarrow> (Run \<Rightarrow> Run) \<Rightarrow> BackfillDB \<Rightarrow> backfill_error option \<times> BackfillDB" where
  "update_run fault runID f db =
     (if fault then (Some RepoFault, db)
      else (case write_runs (\<lambda>r. run_ID r = runID) f (bf_runs db) of
          Inl pg \<Rightarrow> (Some (RepoFailed pg), db)
        | Inr rows \<Rightarrow> (None, db\<lparr>bf_runs := rows\<rparr>)))"

definition BackfillRepository_UpdateProgress :: "bool \<Rightarrow> uuid \<Rightarrow> int \<Rightarrow> int \<Rightarrow> int \<Rightarrow> BackfillDB \<Rightarrow> backfill_error option \<times> BackfillDB" where
  "BackfillRepository_UpdateProgress fault runID lastLedgerDone processed skipped db =
     update_run fault runID (\<lambda>r. r\<lparr>run_LastLedgerDone := Some lastLedgerDone, run_EventsProcessed := processed,
       run_EventsSkippedDuplicate := skipped\<rparr>) db"

definition BackfillRepository_Complete :: "bool \<Rightarrow> uuid \<Rightarrow> BackfillDB \<Rightarrow> backfill_error option \<times> BackfillDB" where
  "BackfillRepository_Complete fault runID db = update_run fault runID (\<lambda>r. r\<lparr>run_Status := StatusCompleted\<rparr>) db"

definition BackfillRepository_Fail :: "bool \<Rightarrow> uuid \<Rightarrow> BackfillDB \<Rightarrow> backfill_error option \<times> BackfillDB" where
  "BackfillRepository_Fail fault runID db =
     update_run fault runID (\<lambda>r. r\<lparr>run_Status := StatusFailed, run_LastError := True\<rparr>) db"

section \<open>Fetching a range\<close>

record eventsPage =
  pg_Events :: "indexedEvent list"
  pg_LatestLedger :: int
  pg_NextLedger :: int
  pg_HasMore :: bool

text \<open>
  \<open>getEvents\<close> has no upper bound, so events beyond \<open>toLedger\<close> are dropped here. The close time
  is not read on this path.
\<close>

definition fetchSorobanEventsRange ::
  "(string list \<Rightarrow> int \<Rightarrow> rpc_result) \<Rightarrow> string list \<Rightarrow> int \<Rightarrow> int \<Rightarrow> backfill_error + eventsPage" where
  "fetchSorobanEventsRange getEvents contractIDs fromLedger toLedger =
     (if contractIDs = [] then Inr \<lparr>pg_Events = [], pg_LatestLedger = 0, pg_NextLedger = 0, pg_HasMore = False\<rparr>
      else (case getEvents contractIDs fromLedger of
          RpcError \<Rightarrow> Inl FetchRangeFailed
        | RpcResult latest raws \<Rightarrow>
          (let kept = filter (\<lambda>w. rw_Ledger w \<le> toLedger \<and> raw_event_type w \<noteq> []) raws;
               beyond = list_ex (\<lambda>w. toLedger < rw_Ledger w) raws
           in Inr \<lparr>pg_Events = map (to_indexed (\<lambda>_. None)) kept, pg_LatestLedger = latest,
                   pg_NextLedger = wrapU64 (fold max (map rw_Ledger kept) fromLedger + 1),
                   pg_HasMore = (beyond \<or> length raws = 200)\<rparr>)))"

section \<open>Resettable event types\<close>

definition resettableEventTypes :: "string list" where
  "resettableEventTypes = [''pnlty_chg'', ''pnlty_dst'', ''rebal_leg'', ''rebal_cmp'']"

text \<open>The pre-flight scan; the \<open>k\<close>-th call of the RPC has its own answer.\<close>

partial_function (option) scan_types ::
  "(nat \<Rightarrow> string list \<Rightarrow> int \<Rightarrow> rpc_result) \<Rightarrow> string list \<Rightarrow> nat \<Rightarrow> int \<Rightarrow> int \<Rightarrow> string list
   \<Rightarrow> (backfill_error + string list) option" where
  "scan_types rpc contractIDs k cursor to found =
     (if to < cursor then Some (Inr found)
      else (case fetchSorobanEventsRange (rpc k) contractIDs cursor to of
          Inl err \<Rightarrow> Some (Inl err)
        | Inr page \<Rightarrow>
          (let found = found @ filter (\<lambda>t. t \<notin> set resettableEventTypes \<and> t \<noteq> [])
                         (map (\<lambda>e. to_lower (trim_space (ev_EventType e))) (pg_Events page))
           in if \<not> pg_HasMore page then Some (Inr found)
              else scan_types rpc contractIDs (Suc k) (pg_NextLedger page) to found)))"

definition NonResettableEventTypesInRange ::
  "(nat \<Rightarrow> string list \<Rightarrow> int \<Rightarrow> rpc_result) \<Rightarrow> string list \<Rightarrow> int \<Rightarrow> int \<Rightarrow> (backfill_error + string list) option" where
  "NonResettableEventTypesInRange rpc contractIDs from to =
     map_option (map_sum id remdups) (scan_types rpc contractIDs 0 from to [])"

section \<open>Executing a run\<close>

definition backfillSafetyMargin :: int where "backfillSafetyMargin = 100"
definition backfillBatchLedgers :: int where "backfillBatchLedgers = 50"

definition in_scope :: "Run \<Rightarrow> string \<Rightarrow> int \<Rightarrow> bool" where
  "in_scope run c ledger \<longleftrightarrow> c \<in> set (run_ContractIDs run) \<and> run_FromLedger run \<le> ledger \<and> ledger \<le> run_ToLedger run"

text \<open>The four deletes and that of the processed events, which have no contract to filter on.\<close>

definition resetScope :: "index_env \<Rightarrow> Run \<Rightarrow> IndexDB \<Rightarrow> (index_error + unit) \<times> IndexDB" where
  "resetScope env run db =
     ix_tx env db (\<lambda>tx.
       bindE (ix_exec env 1 (Inr (tx\<lparr>ix_penalties := filter (\<lambda>r. \<not> in_scope run (pe_contract r) (pe_ledger r)) (ix_penalties tx)\<rparr>))) (\<lambda>tx.
       bindE (ix_exec env 2 (Inr (tx\<lparr>ix_distributions := filter (\<lambda>r. \<not> in_scope run (pd_contract r) (pd_ledger r)) (ix_distributions tx)\<rparr>))) (\<lambda>tx.
       bindE (ix_exec env 3 (Inr (tx\<lparr>ix_legs := filter (\<lambda>r. \<not> in_scope run (rl_contract r) (rl_ledger r)) (ix_legs tx)\<rparr>))) (\<lambda>tx.
       bindE (ix_exec env 4 (Inr (tx\<lparr>ix_completions := filter (\<lambda>r. \<not> in_scope run (rc_contract r) (rc_ledger r)) (ix_completions tx)\<rparr>))) (\<lambda>tx.
       bindE (ix_exec env 5 (Inr (tx\<lparr>ix_processed :=
         filter (\<lambda>(_, l). \<not> (run_FromLedger run \<le> l \<and> l \<le> run_ToLedger run)) (ix_processed tx)\<rparr>))) (\<lambda>tx.
       Inr ((), tx)))))))"

definition headLedgerMinusMargin :: "(string list \<Rightarrow> int \<Rightarrow> rpc_result) \<Rightarrow> string list \<Rightarrow> backfill_error + int" where
  "headLedgerMinusMargin getEvents contractIDs =
     bindE (fetchSorobanEventsRange getEvents contractIDs 0 0) (\<lambda>page.
     Inr (if pg_LatestLedger page < backfillSafetyMargin then 0 else pg_LatestLedger page - backfillSafetyMargin))"

fun run_batch ::
  "('d, 'z) money_ops_scheme \<Rightarrow> bool \<Rightarrow> (nat \<Rightarrow> index_env) \<Rightarrow> nat \<Rightarrow> indexedEvent list \<Rightarrow> int \<Rightarrow> int \<Rightarrow> IndexDB
   \<Rightarrow> (backfill_error option \<times> int \<times> int) \<times> IndexDB" where
  "run_batch D dry envs i [] processed skipped db = ((None, processed, skipped), db)"
| "run_batch D dry envs i (e # es) processed skipped db =
     (if dry then run_batch D dry envs (Suc i) es (processed + 1) skipped db
      else (case applyIndexedEvent D (envs i) e db of
          (Inl err, db') \<Rightarrow> ((Some (EventFailed (ev_ID e) (ev_Ledger e) err), processed, skipped), db')
        | (Inr applied, db') \<Rightarrow>
          if applied then run_batch D dry envs (Suc i) es (processed + 1) skipped db'
          else run_batch D dry envs (Suc i) es processed (skipped + 1) db'))"

text \<open>
  One pass of the loop: the head is read (call \<open>2 k\<close>), a batch fetched (call \<open>2 k + 1\<close>), applied
  and checkpointed. \<open>Inl\<close> leaves the loop.
\<close>

record run_env =
  rv_rpc :: "nat \<Rightarrow> string list \<Rightarrow> int \<Rightarrow> rpc_result"
  rv_event :: "nat \<Rightarrow> nat \<Rightarrow> index_env"
  rv_progress :: "nat \<Rightarrow> bool"
  rv_complete :: bool
  rv_fail :: bool
  rv_reset :: index_env
  rv_create :: bool
  rv_newID :: uuid
  rv_contracts :: bool

definition run_pass ::
  "('d, 'z) money_ops_scheme \<Rightarrow> run_env \<Rightarrow> nat \<Rightarrow> int \<Rightarrow> Run \<Rightarrow> BackfillDB
   \<Rightarrow> (backfill_error + int \<times> Run) \<times> BackfillDB" where
  "run_pass D env k cursor run db =
     (case headLedgerMinusMargin (rv_rpc env (2 * k)) (run_ContractIDs run) of
        Inl err \<Rightarrow> (Inl err, db)
      | Inr headroom \<Rightarrow>
        (let batchEnd = min (wrapU64 (cursor + backfillBatchLedgers - 1)) (min (run_ToLedger run) headroom) in
         if batchEnd < cursor then (Inl TooCloseToHead, db)
         else (case fetchSorobanEventsRange (rv_rpc env (2 * k + 1)) (run_ContractIDs run) cursor batchEnd of
             Inl err \<Rightarrow> (Inl err, db)
           | Inr page \<Rightarrow>
             (case run_batch D (run_DryRun run) (rv_event env k) 0 (pg_Events page) (run_EventsProcessed run)
                     (run_EventsSkippedDuplicate run) (bf_index db) of
                ((Some err, _, _), ix) \<Rightarrow> (Inl err, db\<lparr>bf_index := ix\<rparr>)
              | ((None, processed, skipped), ix) \<Rightarrow>
                (let run' = run\<lparr>run_LastLedgerDone := Some batchEnd, run_EventsProcessed := processed,
                                run_EventsSkippedDuplicate := skipped\<rparr>;
                     db = db\<lparr>bf_index := ix\<rparr>
                 in if run_DryRun run then (Inr (wrapU64 (batchEnd + 1), run'), db)
                    else (case BackfillRepository_UpdateProgress (rv_progress env k) (run_ID run) batchEnd processed skipped db of
                        (Some err, db) \<Rightarrow> (Inl err, db)
                      | (None, db) \<Rightarrow> (Inr (wrapU64 (batchEnd + 1), run'), db)))))))"

partial_function (option) run_loop ::
  "('d, 'z) money_ops_scheme \<Rightarrow> run_env \<Rightarrow> nat \<Rightarrow> int \<Rightarrow> Run \<Rightarrow> BackfillDB \<Rightarrow> ((backfill_error option \<times> Run) \<times> BackfillDB) option" where
  "run_loop D env k cursor run db =
     (if run_ToLedger run < cursor then Some ((None, run), db)
      else (case run_pass D env k cursor run db of
          (Inl err, db) \<Rightarrow> Some ((Some err, run), db)
        | (Inr (cursor, run), db) \<Rightarrow> run_loop D env (Suc k) cursor run db))"

definition Runner_execute ::
  "('d, 'z) money_ops_scheme \<Rightarrow> run_env \<Rightarrow> Run \<Rightarrow> BackfillDB \<Rightarrow> ((backfill_error option \<times> Run) \<times> BackfillDB) option" where
  "Runner_execute D env run db =
     (let reset = (if run_Mode run = ModeRebuild \<and> ResumeFrom run = run_FromLedger run \<and> \<not> run_DryRun run
                   then resetScope (rv_reset env) run (bf_index db) else (Inr (), bf_index db))
      in case reset of
           (Inl err, ix) \<Rightarrow> Some ((Some (ResetFailed err), run), db\<lparr>bf_index := ix\<rparr>)
         | (Inr _, ix) \<Rightarrow>
           (case run_loop D env 0 (ResumeFrom run) run (db\<lparr>bf_index := ix\<rparr>) of
              None \<Rightarrow> None
            | Some ((Some err, run), db) \<Rightarrow> Some ((Some err, run), db)
            | Some ((None, run), db) \<Rightarrow>
              (case BackfillRepository_Complete (rv_complete env) (run_ID run) db of
                 (Some err, db) \<Rightarrow> Some ((Some err, run), db)
               | (None, db) \<Rightarrow> Some ((None, run\<lparr>run_Status := StatusCompleted\<rparr>), db))))"

text \<open>The failure is persisted, and the caller sees the run and the error.\<close>

definition finish_run ::
  "run_env \<Rightarrow> ((backfill_error option \<times> Run) \<times> BackfillDB) option \<Rightarrow> ((backfill_error option \<times> Run option) \<times> BackfillDB) option" where
  "finish_run env r =
     (case r of None \<Rightarrow> None
      | Some ((None, run), db) \<Rightarrow> Some ((None, Some run), db)
      | Some ((Some err, run), db) \<Rightarrow>
          Some ((Some err, Some (run\<lparr>run_Status := StatusFailed, run_LastError := True\<rparr>)),
                snd (BackfillRepository_Fail (rv_fail env) (run_ID run) db)))"

record StartInput =
  si_FromLedger :: int
  si_ToLedger :: int
  si_ContractIDs :: "string list"
  si_Mode :: string
  si_DryRun :: bool
  si_InitiatedBy :: string

definition Runner_Start ::
  "('d, 'z) money_ops_scheme \<Rightarrow> run_env \<Rightarrow> (nat \<Rightarrow> string list \<Rightarrow> int \<Rightarrow> rpc_result) \<Rightarrow> StartInput \<Rightarrow> BackfillDB
   \<Rightarrow> ((backfill_error option \<times> Run option) \<times> BackfillDB) option" where
  "Runner_Start D env preflight i db =
     (if si_ToLedger i < si_FromLedger i then Some ((Some InvalidRange, None), db)
      else if trim_space (si_InitiatedBy i) = [] then Some ((Some InitiatorRequired, None), db)
      else (let mode = (if si_Mode i = [] then ModeBackfill else si_Mode i) in
        if mode \<noteq> ModeBackfill \<and> mode \<noteq> ModeRebuild then Some ((Some UnknownMode, None), db)
        else (case (if si_ContractIDs i = [] then loadVaultContractIDs (rv_contracts env) (bf_index db) else Inr (si_ContractIDs i)) of
            Inl err \<Rightarrow> Some ((Some (ContractsFailed err), None), db)
          | Inr contractIDs \<Rightarrow>
            (case (if mode = ModeRebuild
                   then NonResettableEventTypesInRange preflight contractIDs (si_FromLedger i) (si_ToLedger i)
                   else Some (Inr [])) of
               None \<Rightarrow> None
             | Some (Inl err) \<Rightarrow> Some ((Some err, None), db)
             | Some (Inr bad) \<Rightarrow>
               if bad \<noteq> [] then Some ((Some (RebuildRefused bad), None), db)
               else (case BackfillRepository_Create (rv_create env) (rv_newID env)
                       \<lparr>run_ID = uuid_Nil, run_FromLedger = si_FromLedger i, run_ToLedger = si_ToLedger i,
                        run_ContractIDs = contractIDs, run_Mode = mode, run_DryRun = si_DryRun i, run_Status = [],
                        run_LastLedgerDone = None, run_EventsProcessed = 0, run_EventsSkippedDuplicate = 0,
                        run_LastError = False, run_InitiatedBy = si_InitiatedBy i\<rparr> db of
                   (Inl err, db) \<Rightarrow> Some ((Some err, None), db)
                 | (Inr run, db) \<Rightarrow> finish_run env (Runner_execute D env run db))))))"

definition Runner_Resume ::
  "('d, 'z) money_ops_scheme \<Rightarrow> run_env \<Rightarrow> bool \<Rightarrow> uuid \<Rightarrow> BackfillDB \<Rightarrow> ((backfill_error option \<times> Run option) \<times> BackfillDB) option" where
  "Runner_Resume D env fault runID db =
     (case BackfillRepository_GetByID fault runID db of
        Inl err \<Rightarrow> Some ((Some err, None), db)
      | Inr run \<Rightarrow>
        if run_Status run \<noteq> StatusRunning then Some ((Some NotResumable, Some run), db)
        else finish_run env (Runner_execute D env run db))"

end
