(* ===== verification/Indexer_Correct.thy ===== *)
theory Indexer_Correct
  imports Backfill Vault_Properties
begin

text \<open>
  What the statements of the indexer keep and read: an event's mutation neither reads nor
  writes the processed events and the cursor, never changes a contract address, and moves a
  balance only with a claim on the transaction hash; an event transaction is all or nothing.
\<close>

section \<open>Statements\<close>

lemma ix_exec_Inr: "ix_exec env n r = Inr x \<longleftrightarrow> \<not> ie_flt env n \<and> r = Inr x"
  by (cases r) (auto simp: ix_exec_def)

lemma require_Inr: "require x name = Inr v \<longleftrightarrow> x = Some v"
  by (cases x) (simp_all add: require_def)

lemma bind_ledger_Inr: "bind_ledger n = Inr m \<longleftrightarrow> m = n \<and> n \<le> max64"
  by (auto simp: bind_ledger_def)

lemma check_row_Inr: "check_row ok name r = Inr x \<longleftrightarrow> ok \<and> x = r"
  by (auto simp: check_row_def)

lemmas ix_Inr = bindE_Inr ix_exec_Inr require_Inr bind_ledger_Inr check_row_Inr

lemma map_bindE: "map_sum id g (bindE m f) = bindE m (\<lambda>x. map_sum id g (f x))"
  by (cases m) simp_all

lemma map_ix_exec: "map_sum id g (ix_exec env n r) = ix_exec env n (map_sum id g r)"
  by (cases r) (simp_all add: ix_exec_def)

text \<open>The part of the database an event's mutation works on.\<close>

definition tag :: "(string \<times> int) list \<Rightarrow> (string \<times> string) list \<Rightarrow> IndexDB \<Rightarrow> IndexDB" where
  "tag p s db = db\<lparr>ix_processed := p, ix_state := s\<rparr>"

lemma tag_simps [simp]:
  "ix_vault (tag p s db) = ix_vault db" "ix_processed (tag p s db) = p" "ix_state (tag p s db) = s"
  "ix_queue (tag p s db) = ix_queue db" "ix_penalties (tag p s db) = ix_penalties db"
  "ix_distributions (tag p s db) = ix_distributions db" "ix_legs (tag p s db) = ix_legs db"
  "ix_completions (tag p s db) = ix_completions db"
  "(tag p s db)\<lparr>ix_vault := v\<rparr> = tag p s (db\<lparr>ix_vault := v\<rparr>)" "(tag p s db)\<lparr>ix_queue := q\<rparr> = tag p s (db\<lparr>ix_queue := q\<rparr>)"
  "(tag p s db)\<lparr>ix_penalties := x\<rparr> = tag p s (db\<lparr>ix_penalties := x\<rparr>)"
  "(tag p s db)\<lparr>ix_distributions := y\<rparr> = tag p s (db\<lparr>ix_distributions := y\<rparr>)"
  "(tag p s db)\<lparr>ix_legs := z\<rparr> = tag p s (db\<lparr>ix_legs := z\<rparr>)"
  "(tag p s db)\<lparr>ix_completions := w\<rparr> = tag p s (db\<lparr>ix_completions := w\<rparr>)"
  "tag p s (tag p' s' db) = tag p s db" "tag (ix_processed db) (ix_state db) db = db"
  by (simp_all add: tag_def)

lemma update_contract_tag: "update_contract c f (tag p s db) = map_sum id (tag p s) (update_contract c f db)"
  by (simp add: update_contract_def map_bindE)

lemma claim_tag: "claimBalanceTxHash D env e ty amount (tag p s db)
    = map_sum id (map_prod id (tag p s)) (claimBalanceTxHash D env e ty amount db)"
  by (simp add: claimBalanceTxHash_def Let_def map_bindE case_prod_unfold)

lemma balance_event_tag: "balance_event D env e ty f (tag p s db) = map_sum id (tag p s) (balance_event D env e ty f db)"
proof (cases "extractEventAmountUnits D e")
  case (Some amount)
  then show ?thesis
    by (cases "claimBalanceTxHash D env e ty amount db")
      (auto simp: balance_event_def require_def claim_tag update_contract_tag map_ix_exec split: prod.splits)
qed (simp add: balance_event_def require_def)

lemmas handler_defs = applyEmergencyQueueRequested_def applyEmergencyQueueFilled_def applyEmergencyQueueCancelled_def
  applyPenaltyCharged_def applyPenaltyDistributed_def applyRebalanceLegExecuted_def applyRebalanceCompleted_def

lemma handlers_tag:
  "applyEmergencyQueueRequested D env e (tag p s db) = map_sum id (tag p s) (applyEmergencyQueueRequested D env e db)"
  "applyEmergencyQueueFilled D env e (tag p s db) = map_sum id (tag p s) (applyEmergencyQueueFilled D env e db)"
  "applyEmergencyQueueCancelled D env e (tag p s db) = map_sum id (tag p s) (applyEmergencyQueueCancelled D env e db)"
  "applyPenaltyCharged D env e (tag p s db) = map_sum id (tag p s) (applyPenaltyCharged D env e db)"
  "applyPenaltyDistributed D env e (tag p s db) = map_sum id (tag p s) (applyPenaltyDistributed D env e db)"
  "applyRebalanceLegExecuted D env e (tag p s db) = map_sum id (tag p s) (applyRebalanceLegExecuted D env e db)"
  "applyRebalanceCompleted D env e (tag p s db) = map_sum id (tag p s) (applyRebalanceCompleted D env e db)"
  by (simp_all add: handler_defs map_bindE map_ix_exec Let_def if_distrib [of "map_sum id (tag p s)"] cong: if_cong)

lemma mutation_tag:
  "applyEventMutation D env e (tag p s db) = map_sum id (tag p s) (applyEventMutation D env e db)"
  by (simp add: applyEventMutation_def Let_def handlers_tag balance_event_tag update_contract_tag map_ix_exec map_bindE
      if_distrib [of "map_sum id (tag p s)"] cong: if_cong)

lemma mutation_frame:
  assumes "applyEventMutation D env e db = Inr db'"
  shows "ix_processed db' = ix_processed db" and "ix_state db' = ix_state db"
proof -
  have "applyEventMutation D env e (tag (ix_processed db) (ix_state db) db) = Inr db'" using assms by simp
  then obtain x where "db' = tag (ix_processed db) (ix_state db) x"
    unfolding mutation_tag by (cases "applyEventMutation D env e db") auto
  then show "ix_processed db' = ix_processed db" "ix_state db' = ix_state db" by simp_all
qed

section \<open>Event transactions\<close>

definition ids :: "IndexDB \<Rightarrow> string set" where
  "ids db = fst ` set (ix_processed db)"

text \<open>A committed event transaction: a known event leaves the tables alone, a new one has its mutation and is recorded.\<close>

definition event_effect :: "('d, 'z) money_ops_scheme \<Rightarrow> index_env \<Rightarrow> indexedEvent \<Rightarrow> IndexDB \<Rightarrow> IndexDB \<Rightarrow> bool" where
  "event_effect D env e db db' \<longleftrightarrow>
     (if ev_ID e \<in> ids db then db' = tag (ix_processed db) (ix_state db') db
      else \<exists>x. ev_Ledger e \<le> max64 \<and> applyEventMutation D env e db = Inr x \<and> db' = tag (ix_processed db @ [(ev_ID e, ev_Ledger e)]) (ix_state db') x)"

lemma ix_tx_cases:
  "snd (ix_tx env db body) = db \<and> (\<exists>err. fst (ix_tx env db body) = Inl err) \<or>
   (\<exists>x. body db = Inr (x, snd (ix_tx env db body)) \<and> (fst (ix_tx env db body) = Inr x \<or> fst (ix_tx env db body) = Inl IndexFault))"
  by (auto simp: ix_tx_def split: sum.splits prod.splits commit_outcome.splits)

lemma markEventProcessed_Inr:
  "markEventProcessed env e db = Inr (b, db') \<longleftrightarrow>
   \<not> ie_flt env 1 \<and> ev_Ledger e \<le> max64 \<and> (b \<longleftrightarrow> ev_ID e \<notin> ids db) \<and>
   db' = (if b then db\<lparr>ix_processed := ix_processed db @ [(ev_ID e, ev_Ledger e)]\<rparr> else db)"
  by (auto simp: markEventProcessed_def ix_Inr ids_def)

lemma marked_mutation:
  "applyEventMutation D env e (db\<lparr>ix_processed := p\<rparr>) = Inr db' \<longleftrightarrow>
   (\<exists>x. applyEventMutation D env e db = Inr x \<and> db' = tag p (ix_state db) x)"
proof -
  have eq: "db\<lparr>ix_processed := p\<rparr> = tag p (ix_state db) db" by (simp add: tag_def)
  show ?thesis unfolding eq mutation_tag by (cases "applyEventMutation D env e db") auto
qed

lemma advanceCursorTx_Inr:
  assumes "advanceCursorTx env l db = Inr db'"
  shows "db' = tag (ix_processed db) (ix_state db') db"
  using assms by (auto simp: advanceCursorTx_def ix_Inr tag_def split: option.splits)

lemma event_tx:
  assumes "r = applyIndexedEvent D env e db"
  shows "snd r = db \<and> (\<exists>err. fst r = Inl err)
    \<or> event_effect D env e db (snd r) \<and> ix_state (snd r) = ix_state db
        \<and> (fst r = Inr (ev_ID e \<notin> ids db) \<or> fst r = Inl IndexFault)"
  using assms ix_tx_cases [of env db "\<lambda>tx. bindE (markEventProcessed env e tx) (\<lambda>(inserted, tx).
        if \<not> inserted then Inr (False, tx) else bindE (applyEventMutation D env e tx) (\<lambda>tx. Inr (True, tx)))"]
  by (auto simp: applyIndexedEvent_def bindE_Inr markEventProcessed_Inr marked_mutation event_effect_def
      split: if_splits dest: mutation_frame)

text \<open>The cursor transaction differs in the state table only.\<close>

lemma event_cursor_tx:
  assumes "r = applyIndexedEventWithCursor D env e db"
  shows "snd r = db \<and> (\<exists>err. fst r = Inl err)
    \<or> event_effect D env e db (snd r) \<and> advanceCursorTx env (ev_Ledger e) db = Inr (db\<lparr>ix_state := ix_state (snd r)\<rparr>)
        \<and> ev_Ledger e \<le> max64 \<and> (fst r = Inr (ev_ID e \<notin> ids db) \<or> fst r = Inl IndexFault)"
proof -
  define body where "body = (\<lambda>tx. bindE (markEventProcessed env e tx) (\<lambda>(inserted, tx).
        bindE (if inserted then applyEventMutation D env e tx else Inr tx) (\<lambda>tx.
        bindE (advanceCursorTx env (ev_Ledger e) tx) (\<lambda>tx. Inr (inserted, tx)))))"
  have cursor: "advanceCursorTx env l db = Inr (db\<lparr>ix_state := ix_state y\<rparr>)"
    if "advanceCursorTx env l x = Inr y" "ix_state x = ix_state db" for l x y
    using that by (auto simp: advanceCursorTx_def ix_Inr split: option.splits)
  have eff: "event_effect D env e db y \<and> advanceCursorTx env (ev_Ledger e) db = Inr (db\<lparr>ix_state := ix_state y\<rparr>)
      \<and> ev_Ledger e \<le> max64 \<and> b = (ev_ID e \<notin> ids db)" if body: "body db = Inr (b, y)" for b y
  proof -
    obtain tx where tx: "(if b then applyEventMutation D env e (db\<lparr>ix_processed := ix_processed db @ [(ev_ID e, ev_Ledger e)]\<rparr>) else Inr db) = Inr tx"
      and adv: "advanceCursorTx env (ev_Ledger e) tx = Inr y" and b: "b = (ev_ID e \<notin> ids db)" "ev_Ledger e \<le> max64"
      using body by (auto simp: body_def bindE_Inr markEventProcessed_Inr split: if_splits)
    have same: "ix_state tx = ix_state db" using tx by (auto split: if_splits dest: mutation_frame)
    have "y = tag (ix_processed tx) (ix_state y) tx" by (rule advanceCursorTx_Inr [OF adv])
    then have "event_effect D env e db y"
      using tx b by (auto simp: event_effect_def marked_mutation split: if_splits)
    then show ?thesis using cursor [OF adv same] b by simp
  qed
  show ?thesis
  proof (cases "trim_space (ev_ID e) = []")
    case True
    then show ?thesis using assms by (simp add: applyIndexedEventWithCursor_def)
  next
    case False
    then have r: "r = ix_tx env db body" using assms by (simp add: applyIndexedEventWithCursor_def body_def)
    show ?thesis using ix_tx_cases [of env db body] eff unfolding r [symmetric] by blast
  qed
qed

lemma event_effect_processed:
  "event_effect D env e db db' \<Longrightarrow>
   ix_processed db' = (if ev_ID e \<in> ids db then ix_processed db else ix_processed db @ [(ev_ID e, ev_Ledger e)])"
  unfolding event_effect_def by (metis tag_simps(2))

lemma event_effect_ids: "event_effect D env e db db' \<Longrightarrow> ids db' = insert (ev_ID e) (ids db)"
  using event_effect_processed [of D env e db db'] by (auto simp: ids_def)

section \<open>Contract addresses\<close>

definition addresses :: "IndexDB \<Rightarrow> (string \<times> time option) list" where
  "addresses db = map (\<lambda>r. (v_contract_address r, v_deleted_at r)) (vd_vaults (ix_vault db))"

definition keeps_address :: "(VaultRow \<Rightarrow> VaultRow) \<Rightarrow> bool" where
  "keeps_address f \<longleftrightarrow> (\<forall>r. v_contract_address (f r) = v_contract_address r \<and> v_deleted_at (f r) = v_deleted_at r \<and> v_id (f r) = v_id r)"

lemma keeps_address_updates [simp]:
  "keeps_address (credit now x)" "keeps_address (debit now x)" "keeps_address (set_status now st)" "keeps_address (indexed_harvest now x)"
  by (simp_all add: keeps_address_def credit_def debit_def set_status_def indexed_harvest_def)

lemma write_rows_keeps:
  "write_rows P f rs = Inr rs' \<Longrightarrow> keeps_address f \<Longrightarrow>
   map (\<lambda>r. (v_contract_address r, v_deleted_at r)) rs' = map (\<lambda>r. (v_contract_address r, v_deleted_at r)) rs \<and> map v_id rs' = map v_id rs"
proof (induction rs arbitrary: rs')
  case (Cons r rs)
  obtain r' rs1 where "(if P r then write_vault (f r) else Inr r) = Inr r'" and rest: "write_rows P f rs = Inr rs1" and "rs' = r' # rs1"
    using Cons.prems(1) by (auto simp: bindE_Inr)
  moreover from this have "v_contract_address r' = v_contract_address r" "v_deleted_at r' = v_deleted_at r" "v_id r' = v_id r"
    using Cons.prems(2) by (auto simp: keeps_address_def dest: write_vault_Inr split: if_splits)
  ultimately show ?case using Cons.IH [OF rest Cons.prems(2)] by simp
qed simp

lemma update_contract_keeps:
  "update_contract c f db = Inr db' \<Longrightarrow> keeps_address f \<Longrightarrow>
   addresses db' = addresses db \<and> vd_txs (ix_vault db') = vd_txs (ix_vault db)"
  by (auto simp: update_contract_def bindE_Inr addresses_def dest: write_rows_keeps)

lemma insert_claims_keeps:
  "insert_claims rows v = Inr (n, v') \<Longrightarrow> \<exists>ts. v' = v\<lparr>vd_txs := vd_txs v @ ts\<rparr>"
proof (induction rows arbitrary: v n)
  case (Cons row rows)
  then obtain b v1 m where ins: "insert_vault_tx True row v = Inr (b, v1)" and rest: "insert_claims rows v1 = Inr (m, v')"
    by (auto simp: bindE_Inr)
  obtain ts where "v1 = v\<lparr>vd_txs := vd_txs v @ ts\<rparr>" using insert_vault_tx_Inr(1) [OF ins] by blast
  with Cons.IH [OF rest] show ?case by auto
next
  case Nil
  then show ?case by (intro exI [of _ "[]"]) simp
qed

lemma claim_keeps:
  assumes "claimBalanceTxHash D env e ty amount db = Inr (b, db')"
  shows "\<exists>ts. ix_vault db' = (ix_vault db)\<lparr>vd_txs := vd_txs (ix_vault db) @ ts\<rparr>"
proof (cases "trim_space (ev_TxHash e) = []")
  case True
  with assms have "db' = db" by (simp add: claimBalanceTxHash_def)
  then show ?thesis by (intro exI [of _ "[]"]) simp
next
  case False
  with assms show ?thesis by (auto simp: claimBalanceTxHash_def ix_Inr dest!: insert_claims_keeps)
qed

lemma balance_event_addresses:
  assumes "balance_event D env e ty f db = Inr db'" and "\<And>x. keeps_address (f x)"
  shows "addresses db' = addresses db"
proof -
  obtain amount b db1 where claim: "claimBalanceTxHash D env e ty amount db = Inr (b, db1)"
    and rest: "if b then update_contract (ev_ContractID e) (f (d_Num D amount)) db1 = Inr db' else db' = db1"
    using assms(1) by (auto simp: balance_event_def ix_Inr split: if_splits)
  have "addresses db1 = addresses db" using claim_keeps [OF claim] by (auto simp: addresses_def)
  then show ?thesis using rest update_contract_keeps [of _ _ db1 db'] assms(2) by (auto split: if_splits)
qed

text \<open>The events that move a balance with a claim on the transaction hash.\<close>

definition claiming :: "indexedEvent \<Rightarrow> bool" where
  "claiming e \<longleftrightarrow> normalizeEventTypeString (ev_EventType e) \<in> {''deposit'', ''withdraw'', ''withdrawal''}"

lemma mutation_cases:
  assumes "applyEventMutation D env e db = Inr db'"
  obtains (balance) ty f where "claiming e" "balance_event D env e ty f db = Inr db'" "\<And>x. keeps_address (f x)"
  | (update) f where "\<not> claiming e" "update_contract (ev_ContractID e) f db = Inr db'" "keeps_address f"
  | (other) "\<not> claiming e" "ix_vault db' = ix_vault db"
proof -
  let ?t = "normalizeEventTypeString (ev_EventType e)"
  consider "?t = ''deposit''" | "?t = ''withdraw'' \<or> ?t = ''withdrawal''" | "?t = ''pause''" | "?t = ''unpause''"
    | "?t = ''harvest'' \<or> ?t = ''harvested'' \<or> ?t = ''yield_harvest''"
    | "?t \<notin> {''deposit'', ''withdraw'', ''withdrawal'', ''pause'', ''unpause'', ''harvest'', ''harvested'', ''yield_harvest''}"
    by blast
  then show thesis
  proof cases
    case 1
    with assms show thesis
      by (intro balance [of "''deposit''" "credit (ie_now env)"]) (auto simp: claiming_def applyEventMutation_def Let_def)
  next
    case 2
    with assms show thesis
      by (intro balance [of "''withdrawal''" "debit (ie_now env)"]) (auto simp: claiming_def applyEventMutation_def Let_def)
  next
    case 3
    with assms show thesis
      by (intro update [of "set_status (ie_now env) ''paused''"]) (auto simp: claiming_def applyEventMutation_def Let_def ix_Inr)
  next
    case 4
    with assms show thesis
      by (intro update [of "set_status (ie_now env) ''active''"]) (auto simp: claiming_def applyEventMutation_def Let_def ix_Inr)
  next
    case 5
    with assms obtain amount where "update_contract (ev_ContractID e) (indexed_harvest (ie_now env) amount) db = Inr db'" "\<not> claiming e"
      by (auto simp: claiming_def applyEventMutation_def Let_def ix_Inr)
    then show thesis by (intro update [of "indexed_harvest (ie_now env) amount"]) auto
  next
    case 6
    with assms show thesis
      by (intro other) (auto simp: claiming_def applyEventMutation_def Let_def ix_Inr handler_defs split: if_splits)
  qed
qed

lemma mutation_addresses:
  assumes "applyEventMutation D env e db = Inr db'"
  shows "addresses db' = addresses db"
  using assms
proof (cases rule: mutation_cases)
  case (balance ty f)
  then show ?thesis using balance_event_addresses by metis
next
  case (update f)
  then show ?thesis using update_contract_keeps by metis
next
  case other
  then show ?thesis by (simp add: addresses_def)
qed

lemma event_effect_addresses: "event_effect D env e db db' \<Longrightarrow> addresses db' = addresses db"
proof -
  assume eff: "event_effect D env e db db'"
  have tag: "addresses (tag p s x) = addresses x" for p s x by (simp add: addresses_def)
  show ?thesis
  proof (cases "ev_ID e \<in> ids db")
    case True
    with eff have "db' = tag (ix_processed db) (ix_state db') db" by (simp add: event_effect_def)
    then show ?thesis using tag by metis
  next
    case False
    with eff obtain x where "applyEventMutation D env e db = Inr x" "db' = tag (ix_processed db @ [(ev_ID e, ev_Ledger e)]) (ix_state db') x"
      by (auto simp: event_effect_def)
    then show ?thesis using tag mutation_addresses by metis
  qed
qed

section \<open>The text of the cursor\<close>

lemma of_char_digit: "n < 10 \<Longrightarrow> (of_char (char_of (48 + n) :: char) :: nat) = 48 + n"
  by (simp add: of_char_of take_bit_eq_mod)

lemma format_nat_digits: "list_all is_digit (format_nat n) \<and> format_nat n \<noteq> [] \<and> digits_value (format_nat n) = int n"
proof (induction n rule: format_nat.induct)
  case (1 n)
  have digit: "is_digit (char_of (48 + m))" "(of_char (char_of (48 + m) :: char) :: int) = 48 + int m" if "m < 10" for m :: nat
  proof -
    have "(of_char (char_of (48 + m) :: char) :: int) = int (of_char (char_of (48 + m) :: char))" by (metis of_char_eq_iff of_nat_of_char)
    then show "(of_char (char_of (48 + m) :: char) :: int) = 48 + int m" using of_char_digit [OF that] by simp
    show "is_digit (char_of (48 + m))" using of_char_digit [OF that] that by (simp add: is_digit_def)
  qed
  show ?case
  proof (cases "n < 10")
    case True
    then show ?thesis
      using digit [of n] by (subst (1 2 3) format_nat.simps) (simp add: digits_value_def)
  next
    case False
    have "int n = 10 * int (n div 10) + int (n mod 10)" by presburger
    then show ?thesis
      using 1 [OF False] digit [of "n mod 10"] False
      by (subst (1 2 3) format_nat.simps) (simp add: digits_value_snoc)
  qed
qed

lemma digits_value_nonneg: "list_all is_digit s \<Longrightarrow> 0 \<le> digits_value s"
proof (induction s rule: rev_induct)
  case (snoc c s)
  have "48 \<le> (of_char c :: int)" using snoc.prems by (simp add: is_digit_def) (metis of_nat_numeral of_nat_le_iff of_nat_of_char)
  then show ?case using snoc by (simp add: digits_value_snoc)
qed (simp add: digits_value_def)

lemma sign_case: "(case c # r of CHR ''-'' # t \<Rightarrow> a t | CHR ''+'' # t \<Rightarrow> b t | _ \<Rightarrow> d)
    = (if c = CHR ''-'' then a r else if c = CHR ''+'' then b r else d)"
  by (cases c) (simp split: bool.split)

lemma digits_parse_int64:
  assumes "list_all is_digit s" and "s \<noteq> []"
  shows "parse_int64 (trim_space s) = (if digits_value s \<le> max64 then Some (digits_value s) else None)"
proof -
  have sp: "\<not> is_space c" if "is_digit c" for c
  proof -
    have "c \<noteq> CHR 0x20" using that by (auto simp: is_digit_def)
    then show ?thesis using that by (auto simp: is_digit_def is_space_def)
  qed
  have trim: "dropWhile is_space t = t" if "list_all is_digit t" for t
    using that sp by (cases t) auto
  have t: "trim_space s = s" using trim [of s] trim [of "rev s"] assms(1) by (simp add: trim_space_def list_all_iff)
  obtain c r where s: "s = c # r" using assms(2) by (cases s) auto
  have "c \<noteq> CHR ''-''" "c \<noteq> CHR ''+''" using assms(1) s by (auto simp: is_digit_def)
  then have "parse_int64 s = (if in64 (digits_value s) then Some (digits_value s) else None)"
    using assms unfolding s parse_int64_def sign_case by simp
  then show ?thesis using t digits_value_nonneg [OF assms(1)] by (simp add: in64_def min64_def)
qed

lemma FormatUint_digits:
  assumes "0 \<le> n"
  shows "list_all is_digit (FormatUint n)" and "FormatUint n \<noteq> []" and "digits_value (FormatUint n) = n"
  using format_nat_digits [of "nat n"] assms by (simp_all add: FormatUint_def)

lemma ParseUint_Format: "0 \<le> n \<Longrightarrow> n \<le> max_uint64 \<Longrightarrow> ParseUint (FormatUint n) = Some n"
  by (simp add: ParseUint_def FormatUint_digits)

text \<open>The cursor as the poller reads it.\<close>

definition cursor :: "IndexDB \<Rightarrow> poll_error + int" where
  "cursor db = getLastIndexedLedger False db"

lemma cursor_simps: "cursor db = (case map_of (ix_state db) KeyLastLedger of None \<Rightarrow> Inr 0
    | Some raw \<Rightarrow> (case ParseUint raw of None \<Rightarrow> Inl (BadCursor raw) | Some l \<Rightarrow> Inr l))"
  by (simp add: cursor_def getLastIndexedLedger_def SystemStateRepository_Get_def split: option.splits)

lemma max64_uint: "max64 \<le> max_uint64"
  by (simp add: max64_def max_uint64_def)

lemma map_of_update: "map_of (AList.update k v xs) k = Some v"
  by (simp add: update_conv')

lemma cursor_nonneg: "cursor db = Inr c \<Longrightarrow> 0 \<le> c"
  by (auto simp: cursor_simps ParseUint_def digits_value_nonneg split: option.splits if_splits)

lemma advance_cursor:
  assumes "advanceCursorTx env l db = Inr (db\<lparr>ix_state := s\<rparr>)" and "cursor db = Inr c" and "0 \<le> l" and "l \<le> max64"
  shows "cursor (db\<lparr>ix_state := s\<rparr>) = Inr (max c l)"
proof (cases "map_of (ix_state db) KeyLastLedger")
  case None
  then have "s = AList.update KeyLastLedger (FormatUint l) (ix_state db)" "c = 0"
    using assms(1,2) by (auto simp: advanceCursorTx_def ix_Inr cursor_simps dest!: arg_cong [where f = ix_state])
  then show ?thesis using assms(3,4) max64_uint by (simp add: cursor_simps map_of_update ParseUint_Format)
next
  case (Some v)
  then have v: "list_all is_digit v" "v \<noteq> []" "digits_value v = c"
    using assms(2) by (auto simp: cursor_simps ParseUint_def split: if_splits)
  have new: "text_bigint (FormatUint l) = Inr l"
    using digits_parse_int64 [OF FormatUint_digits(1,2)] FormatUint_digits(3) assms(3,4) by (simp add: text_bigint_def)
  obtain old where old: "text_bigint v = Inr old" and s: "s = AList.update KeyLastLedger (bigint_text (max old l)) (ix_state db)"
    using assms(1) Some new by (auto simp: advanceCursorTx_def ix_Inr dest!: arg_cong [where f = ix_state])
  have "old = c" "c \<le> max64" using old digits_parse_int64 [OF v(1,2)] v(3) by (auto simp: text_bigint_def split: if_splits)
  moreover have "0 \<le> c" using digits_value_nonneg [OF v(1)] v(3) by simp
  ultimately show ?thesis
    using s assms(3,4) max64_uint by (simp add: cursor_simps map_of_update bigint_text_def ParseUint_Format)
qed

lemma set_cursor:
  assumes "setLastIndexedLedger f g l db = (r, db')" and "cursor db = Inr c" and "l \<le> max_uint64"
  shows "cursor db' = Inr c \<or> c < l \<and> cursor db' = Inr l"
    and "db' = tag (ix_processed db) (ix_state db') db"
proof -
  have "0 \<le> c" by (rule cursor_nonneg [OF assms(2)])
  then show "cursor db' = Inr c \<or> c < l \<and> cursor db' = Inr l"
    using assms by (auto simp: setLastIndexedLedger_def cursor_def getLastIndexedLedger_def SystemStateRepository_Get_def
        SystemStateRepository_Set_def map_of_update ParseUint_Format split: if_splits sum.splits option.splits)
  show "db' = tag (ix_processed db) (ix_state db') db"
    using assms(1) by (auto simp: setLastIndexedLedger_def SystemStateRepository_Set_def tag_def split: sum.splits if_splits)
qed

end
