(* ===== verification/Indexer_Properties.thy ===== *)
theory Indexer_Properties
  imports Indexer_Correct
begin

text \<open>
  What the indexer guarantees: every processed event has been applied exactly once, in the
  order it was recorded; the cursor never passes an event that has not been processed; the
  API and the indexer together move money once for each transaction hash; a poll that fails
  has done precisely the events before the failing one.
\<close>

section \<open>Exactly once\<close>

fun replay :: "('d, 'z) money_ops_scheme \<Rightarrow> (index_env \<times> indexedEvent) list \<Rightarrow> IndexDB \<Rightarrow> index_error + IndexDB" where
  "replay D [] db = Inr db"
| "replay D ((env, e) # xs) db = bindE (applyEventMutation D env e db) (replay D xs)"

lemma replay_append: "replay D (xs @ ys) db = bindE (replay D xs db) (replay D ys)"
  by (induction D xs db rule: replay.induct) (simp_all add: bindE_def split: sum.splits)

lemma replay_tag: "replay D xs (tag p s db) = map_sum id (tag p s) (replay D xs db)"
proof (induction D xs db rule: replay.induct)
  case (2 D env e xs db)
  then show ?case by (cases "applyEventMutation D env e db") (simp_all add: mutation_tag)
qed simp

text \<open>One transaction of the indexer, or a write of the cursor alone.\<close>

definition index_tx :: "('d, 'z) money_ops_scheme \<Rightarrow> IndexDB \<Rightarrow> IndexDB \<Rightarrow> bool" where
  "index_tx D db db' \<longleftrightarrow> db' = tag (ix_processed db) (ix_state db') db \<or> (\<exists>env e. event_effect D env e db db')"

lemma index_tx_state: "index_tx D db (db\<lparr>ix_state := s\<rparr>)"
  by (simp add: index_tx_def tag_def)

lemma index_txI: "db' = db \<or> event_effect D env e db db' \<Longrightarrow> (index_tx D)\<^sup>*\<^sup>* db db'"
  unfolding index_tx_def by blast

lemma index_tx_event:
  "(index_tx D)\<^sup>*\<^sup>* db (snd (applyIndexedEvent D env e db))"
  "(index_tx D)\<^sup>*\<^sup>* db (snd (applyIndexedEventWithCursor D env e db))"
  by (rule index_txI [where env = env and e = e], use event_tx [OF refl, of D env e db] in blast)
    (rule index_txI [where env = env and e = e], use event_cursor_tx [OF refl, of D env e db] in blast)

lemma set_cursor_tx: "(index_tx D)\<^sup>*\<^sup>* db (snd (setLastIndexedLedger f g l db))"
  using index_tx_state [of D db]
  by (auto simp: setLastIndexedLedger_def SystemStateRepository_Set_def split: sum.splits)

lemma resolve_tx: "(index_tx D)\<^sup>*\<^sup>* db (snd (resolveStartLedger p fetch env db))"
  using set_cursor_tx [of D db "pv_flt env 1" "pv_flt env 2"]
  by (auto simp: resolveStartLedger_def Let_def split: sum.splits prod.splits option.splits) (metis snd_conv)+

lemma apply_batch_tx: "(index_tx D)\<^sup>*\<^sup>* db (snd (snd (apply_batch D ob env i es db)))"
proof (induction D ob env i es db rule: apply_batch.induct)
  case (2 D ob env i e es db)
  obtain r db' where r: "applyIndexedEventWithCursor D (pv_event env i) e db = (r, db')" by (cases "applyIndexedEventWithCursor D (pv_event env i) e db")
  then have first: "(index_tx D)\<^sup>*\<^sup>* db db'" using index_tx_event(2) [of D db "pv_event env i" e] by simp
  show ?case
  proof (cases r)
    case (Inr b)
    then have "(index_tx D)\<^sup>*\<^sup>* db' (snd (snd (apply_batch D ob env (Suc i) es db')))" using 2 r by auto
    with first show ?thesis using r Inr by (auto simp: Let_def split: prod.splits)
  qed (use r first in simp)
qed simp

lemma poll_tx: "(index_tx D)\<^sup>*\<^sup>* db (snd (snd (PollEvents D p env db)))"
proof (cases "ep_Fetcher p")
  case (Some fetch)
  obtain r db1 where res: "resolveStartLedger p fetch env db = (r, db1)" by (cases "resolveStartLedger p fetch env db")
  then have db1: "(index_tx D)\<^sup>*\<^sup>* db db1" using resolve_tx [of D db p fetch env] by simp
  have "(index_tx D)\<^sup>*\<^sup>* db (snd (setLastIndexedLedger a b l db1))" "(index_tx D)\<^sup>*\<^sup>* db (snd (snd (apply_batch D ob env 0 es db1)))"
    for a b l ob es
    using db1 set_cursor_tx [of D db1] apply_batch_tx [of D db1] by (meson rtranclp_trans)+
  then show ?thesis
    using Some res db1 by (cases r) (simp_all add: PollEvents_def case_prod_beta split: sum.split option.split)
qed (simp add: PollEvents_def)

lemma sync_batch_tx: "(index_tx D)\<^sup>*\<^sup>* db (snd (snd (sync_batch D ob env i es db)))"
proof (induction es arbitrary: i db)
  case (Cons e es)
  obtain r db' where r: "applyIndexedEvent D (pv_event env i) e db = (r, db')" by (cases "applyIndexedEvent D (pv_event env i) e db")
  then have "(index_tx D)\<^sup>*\<^sup>* db db'" using index_tx_event(1) [of D db "pv_event env i" e] by simp
  with Cons.IH [of db' "Suc i"] show ?case using r by (auto simp: Let_def split: sum.splits bool.splits prod.splits)
qed simp

lemma sync_tx: "(index_tx D)\<^sup>*\<^sup>* db (snd (snd (SyncEvents D ob g pt env db)))"
proof -
  have "(index_tx D)\<^sup>*\<^sup>* db (snd (setLastIndexedLedger a b l (snd (snd (sync_batch D ob env 0 es db)))))" for a b l es
    using sync_batch_tx set_cursor_tx by (metis rtranclp_trans)
  then show ?thesis
    by (simp add: SyncEvents_def case_prod_beta split: sum.split option.split)
qed

lemma run_batch_tx: "(index_tx D)\<^sup>*\<^sup>* db (snd (run_batch D dry envs i es a b db))"
proof (induction D dry envs i es a b db rule: run_batch.induct)
  case (2 D dry envs i e es a b db)
  obtain r db' where r: "applyIndexedEvent D (envs i) e db = (r, db')" by (cases "applyIndexedEvent D (envs i) e db")
  then have first: "(index_tx D)\<^sup>*\<^sup>* db db'" using index_tx_event(1) [of D db "envs i" e] by simp
  then show ?case using 2 r by (auto split: sum.splits) (meson rtranclp_trans)+
qed simp

text \<open>Any work of the indexer: a poll, a one-shot sync, a batch of a backfill.\<close>

definition indexing_step :: "('d, 'z) money_ops_scheme \<Rightarrow> IndexDB \<Rightarrow> IndexDB \<Rightarrow> bool" where
  "indexing_step D db db' \<longleftrightarrow>
     (\<exists>p env. db' = snd (snd (PollEvents D p env db))) \<or>
     (\<exists>ob g pt env. db' = snd (snd (SyncEvents D ob g pt env db))) \<or>
     (\<exists>dry envs i es a b. db' = snd (run_batch D dry envs i es a b db))"

lemma indexing_txs: "(indexing_step D)\<^sup>*\<^sup>* db db' \<Longrightarrow> (index_tx D)\<^sup>*\<^sup>* db db'"
proof (induction rule: rtranclp_induct)
  case (step y z)
  have "(index_tx D)\<^sup>*\<^sup>* y z" using step(2) poll_tx sync_tx run_batch_tx unfolding indexing_step_def by metis
  with step(3) show ?case by (rule rtranclp_trans)
qed simp

definition recorded :: "(index_env \<times> indexedEvent) list \<Rightarrow> (string \<times> int) list" where
  "recorded xs = map (\<lambda>(_, e). (ev_ID e, ev_Ledger e)) xs"

lemma txs_replay:
  assumes "(index_tx D)\<^sup>*\<^sup>* db db'"
  shows "\<exists>xs x. distinct (map (\<lambda>(_, e). ev_ID e) xs) \<and> (\<forall>(_, e) \<in> set xs. ev_ID e \<notin> ids db)
    \<and> ix_processed db' = ix_processed db @ recorded xs \<and> replay D xs db = Inr x \<and> db' = tag (ix_processed db') (ix_state db') x"
  using assms
proof (induction rule: rtranclp_induct)
  case base
  show ?case by (rule exI [of _ "[]"], rule exI [of _ db]) (simp add: recorded_def)
next
  case (step y z)
  then obtain xs x where xs: "distinct (map (\<lambda>(_, e). ev_ID e) xs)" "\<forall>(_, e) \<in> set xs. ev_ID e \<notin> ids db"
      "ix_processed y = ix_processed db @ recorded xs" "replay D xs db = Inr x" "y = tag (ix_processed y) (ix_state y) x" by blast
  consider "z = tag (ix_processed y) (ix_state z) y"
    | env e where "ev_ID e \<notin> ids y" "event_effect D env e y z"
    using step(2) unfolding index_tx_def event_effect_def by metis
  then show ?case
  proof cases
    case 1
    then have "ix_processed z = ix_processed y" "z = tag (ix_processed z) (ix_state z) x" using xs(5) by (metis tag_simps(2,15))+
    then show ?thesis using xs by metis
  next
    case 2
    then obtain w where w: "applyEventMutation D env e y = Inr w" "z = tag (ix_processed y @ [(ev_ID e, ev_Ledger e)]) (ix_state z) w"
      by (auto simp: event_effect_def)
    have "applyEventMutation D env e (tag (ix_processed y) (ix_state y) x) = Inr w" using w(1) xs(5) by metis
    then obtain v where v: "applyEventMutation D env e x = Inr v" "w = tag (ix_processed y) (ix_state y) v"
      unfolding mutation_tag by (cases "applyEventMutation D env e x") auto
    have "ix_processed z = ix_processed y @ [(ev_ID e, ev_Ledger e)]" by (subst w(2)) simp
    moreover have "z = tag (ix_processed y @ [(ev_ID e, ev_Ledger e)]) (ix_state z) v" using w(2) v(2) by simp
    ultimately have z: "ix_processed z = ix_processed db @ recorded (xs @ [(env, e)])" "z = tag (ix_processed z) (ix_state z) v"
      using xs(3) by (simp_all add: recorded_def)
    have "ids y = ids db \<union> (\<lambda>(_, e). ev_ID e) ` set xs" using xs(3) by (force simp: ids_def recorded_def)
    then have new: "ev_ID e \<notin> ids db" "ev_ID e \<notin> (\<lambda>(_, e). ev_ID e) ` set xs" using 2(1) by auto
    have "replay D (xs @ [(env, e)]) db = Inr v" using xs(4) v(1) by (simp add: replay_append)
    moreover have "distinct (map (\<lambda>(_, e). ev_ID e) (xs @ [(env, e)]))" "\<forall>(_, f) \<in> set (xs @ [(env, e)]). ev_ID f \<notin> ids db"
      using xs(1,2) new by auto
    ultimately show ?thesis using z by metis
  qed
qed

text \<open>
  C25: Whatever polls, syncs and backfills run, with whatever batches, duplicates, faults and lost
  acknowledgements, the tables are those obtained by applying each newly recorded event once,
  in the order of the records, and no event that was recorded before is applied again.
\<close>

theorem indexer_applies_each_event_once:
  assumes "(indexing_step D)\<^sup>*\<^sup>* db db'"
  shows "\<exists>xs x. distinct (map (\<lambda>(_, e). ev_ID e) xs) \<and> (\<forall>(_, e) \<in> set xs. ev_ID e \<notin> fst ` set (ix_processed db))
    \<and> ix_processed db' = ix_processed db @ map (\<lambda>(_, e). (ev_ID e, ev_Ledger e)) xs
    \<and> replay D xs db = Inr x \<and> db' = x\<lparr>ix_processed := ix_processed db', ix_state := ix_state db'\<rparr>"
  using txs_replay [OF indexing_txs [OF assms]] by (simp add: ids_def recorded_def tag_def)

section \<open>The cursor never passes an unprocessed event\<close>

text \<open>
  One batch: the events up to some position are recorded and the cursor has followed them;
  an error names the event at that position, and only a lost acknowledgement can leave that
  event recorded too.
\<close>

lemma apply_batch_progress:
  assumes "apply_batch D ob env i es db = ((n, err), calls, db')" and "cursor db = Inr c" and "\<forall>e \<in> set es. 0 \<le> ev_Ledger e"
  shows "\<exists>k \<le> length es. cursor db' = Inr (fold max (map ev_Ledger (take k es)) c)
    \<and> ids db' = ids db \<union> ev_ID ` set (take k es) \<and> addresses db' = addresses db
    \<and> (case err of None \<Rightarrow> k = length es
       | Some x \<Rightarrow> \<exists>j < length es. \<exists>er. x = ApplyFailed (ev_ID (es ! j)) (ev_Ledger (es ! j)) er \<and> (k = j \<or> k = Suc j \<and> er = IndexFault))"
  using assms
proof (induction es arbitrary: i db c n err calls)
  case Nil
  then show ?case by simp
next
  case (Cons e es)
  obtain r db1 where r: "applyIndexedEventWithCursor D (pv_event env i) e db = (r, db1)"
    by (cases "applyIndexedEventWithCursor D (pv_event env i) e db")
  have same: "cursor (x\<lparr>ix_state := s\<rparr>) = cursor y" if "ix_state y = s" for x s y using that by (simp add: cursor_simps)
  have eff: "cursor db1 = Inr (max c (ev_Ledger e)) \<and> ids db1 = insert (ev_ID e) (ids db) \<and> addresses db1 = addresses db"
    if "event_effect D (pv_event env i) e db db1"
      "advanceCursorTx (pv_event env i) (ev_Ledger e) db = Inr (db\<lparr>ix_state := ix_state db1\<rparr>)" "ev_Ledger e \<le> max64"
    using advance_cursor [OF that(2) Cons.prems(2) _ that(3)] Cons.prems(3) event_effect_ids [OF that(1)] event_effect_addresses [OF that(1)]
      same [of db1 "ix_state db1" db] by simp
  show ?case
  proof (cases r)
    case (Inl er)
    then have res: "err = Some (ApplyFailed (ev_ID e) (ev_Ledger e) er)" "db' = db1" using Cons.prems(1) r by auto
    have "db1 = db \<or> er = IndexFault \<and> cursor db1 = Inr (max c (ev_Ledger e)) \<and> ids db1 = insert (ev_ID e) (ids db) \<and> addresses db1 = addresses db"
      using event_cursor_tx [of "(r, db1)" D "pv_event env i" e db] r Inl eff by auto
    then show ?thesis
    proof
      assume "db1 = db"
      then show ?thesis using res Cons.prems(2) by (intro exI [of _ 0]) auto
    next
      assume "er = IndexFault \<and> cursor db1 = Inr (max c (ev_Ledger e)) \<and> ids db1 = insert (ev_ID e) (ids db) \<and> addresses db1 = addresses db"
      then show ?thesis using res by (intro exI [of _ 1]) (auto simp: max.commute)
    qed
  next
    case (Inr b)
    have e: "cursor db1 = Inr (max c (ev_Ledger e))" "ids db1 = insert (ev_ID e) (ids db)" "addresses db1 = addresses db"
      using event_cursor_tx [of "(r, db1)" D "pv_event env i" e db] r Inr eff by auto
    obtain n2 calls2 where rest: "apply_batch D ob env (Suc i) es db1 = ((n2, err), calls2, db')"
      using Cons.prems(1) r Inr by (cases "apply_batch D ob env (Suc i) es db1") (auto simp: Let_def split: prod.splits)
    have "\<forall>e \<in> set es. 0 \<le> ev_Ledger e" using Cons.prems(3) by simp
    from Cons.IH [OF rest e(1) this] obtain k where k: "k \<le> length es"
        "cursor db' = Inr (fold max (map ev_Ledger (take k es)) (max c (ev_Ledger e)))"
        "ids db' = ids db1 \<union> ev_ID ` set (take k es)" "addresses db' = addresses db1"
        "case err of None \<Rightarrow> k = length es
         | Some x \<Rightarrow> \<exists>j < length es. \<exists>er. x = ApplyFailed (ev_ID (es ! j)) (ev_Ledger (es ! j)) er \<and> (k = j \<or> k = Suc j \<and> er = IndexFault)"
      by blast
    have tail: "case err of None \<Rightarrow> Suc k = length (e # es)
       | Some x \<Rightarrow> \<exists>j < length (e # es). \<exists>er. x = ApplyFailed (ev_ID ((e # es) ! j)) (ev_Ledger ((e # es) ! j)) er \<and> (Suc k = j \<or> Suc k = Suc j \<and> er = IndexFault)"
    proof (cases err)
      case (Some x)
      then obtain j er where "j < length es" "x = ApplyFailed (ev_ID (es ! j)) (ev_Ledger (es ! j)) er" "k = j \<or> k = Suc j \<and> er = IndexFault"
        using k(5) by auto
      then show ?thesis using Some by (auto intro!: exI [of _ "Suc j"])
    qed (use k(5) in simp)
    show ?thesis using k(1-4) e tail by (intro exI [of _ "Suc k"]) (auto simp: max.commute)
  qed
qed

lemma fold_max_le: "fold max xs (c :: int) \<le> m \<longleftrightarrow> c \<le> m \<and> (\<forall>x \<in> set xs. x \<le> m)"
  by (induction xs arbitrary: c) auto

lemma fold_max_ge: "(c :: int) \<le> fold max xs c"
  using fold_max_le [of xs c "fold max xs c"] by blast

lemma fold_max_mem: "fold max xs (c :: int) = c \<or> fold max xs c \<in> set xs"
  by (induction xs arbitrary: c) (auto, metis max_def)

lemma sorted_events: "sorted_wrt (\<lambda>a b. ev_Ledger a \<le> ev_Ledger b) (sortEventsForApply es)"
proof -
  have "sorted (map (\<lambda>e. (ev_Ledger e, ev_ID e)) (sortEventsForApply es))" by (simp add: sortEventsForApply_def)
  then show ?thesis unfolding sorted_wrt_map by (rule sorted_wrt_mono_rel [rotated]) (auto simp: less_eq_prod_def)
qed

lemma set_sorted_events [simp]: "set (sortEventsForApply es) = set es"
  by (simp add: sortEventsForApply_def)

text \<open>
  The network beside the database: the events it has emitted, its latest closed ledger, and
  those events the indexer owes: emitted by a contract that was watched when the ledger closed
  and that has been watched ever since.
\<close>

record chain =
  ch_db :: IndexDB
  ch_hist :: "raw_event list"
  ch_tip :: int
  ch_owed :: "raw_event list"

text \<open>
  What \<open>getEvents\<close> documents: a page holds events of the contracts from the start ledger in
  ledger order; what it leaves out comes no earlier than what it holds, and an empty page
  leaves out only what is beyond the reported ledger.
\<close>

definition rpc_pages :: "raw_event list \<Rightarrow> int \<Rightarrow> (string list \<Rightarrow> int \<Rightarrow> rpc_result) \<Rightarrow> bool" where
  "rpc_pages hist tip getEvents \<longleftrightarrow>
     (\<forall>contracts start latest ws. getEvents contracts start = RpcResult latest ws \<longrightarrow>
        latest \<le> tip \<and> (\<forall>w \<in> set ws. w \<in> set hist \<and> start \<le> rw_Ledger w) \<and>
        (\<forall>w \<in> set hist. rw_ContractID w \<in> set contracts \<and> start \<le> rw_Ledger w \<and> w \<notin> set ws \<longrightarrow>
           (if ws = [] then latest < rw_Ledger w else (\<forall>v \<in> set ws. rw_Ledger v \<le> rw_Ledger w))))"

definition watched :: "IndexDB \<Rightarrow> string set" where
  "watched db = {c. (c, None) \<in> set (addresses db) \<and> c \<noteq> []}"

text \<open>A poll through the RPC's fetcher, the network closing ledgers, or any other work on the vault tables.\<close>

inductive chain_step :: "('d, 'z) money_ops_scheme \<Rightarrow> chain \<Rightarrow> chain \<Rightarrow> bool" for D where
  poll: "ep_Fetcher p = Some (rpcEventFetcher getEvents latestLedger parseTime) \<Longrightarrow> rpc_pages (ch_hist s) (ch_tip s) getEvents \<Longrightarrow>
    chain_step D s (s\<lparr>ch_db := snd (snd (PollEvents D p env (ch_db s)))\<rparr>)"
| close: "ch_tip s \<le> tip \<Longrightarrow> tip \<le> max64 \<Longrightarrow> \<forall>w \<in> set new. ch_tip s < rw_Ledger w \<and> rw_Ledger w \<le> tip \<Longrightarrow>
    chain_step D s (s\<lparr>ch_hist := ch_hist s @ new, ch_tip := tip, ch_owed := ch_owed s @ filter (\<lambda>w. rw_ContractID w \<in> watched (ch_db s)) new\<rparr>)"
| work: "chain_step D s (s\<lparr>ch_db := (ch_db s)\<lparr>ix_vault := v\<rparr>,
    ch_owed := filter (\<lambda>w. rw_ContractID w \<in> watched ((ch_db s)\<lparr>ix_vault := v\<rparr>)) (ch_owed s)\<rparr>)"

inductive_cases chain_stepE: "chain_step D s t"

definition chain_start :: "chain \<Rightarrow> bool" where
  "chain_start s \<longleftrightarrow> (\<exists>c. cursor (ch_db s) = Inr c \<and> 0 < c \<and> c \<le> ch_tip s \<and> ch_tip s \<le> max64
     \<and> (\<forall>w \<in> set (ch_hist s). rw_Ledger w \<le> ch_tip s)
     \<and> ch_owed s = filter (\<lambda>w. rw_ContractID w \<in> watched (ch_db s) \<and> c \<le> rw_Ledger w) (ch_hist s))"

text \<open>An event whose first topic is not a string has no type and is dropped by the fetcher.\<close>

definition all_typed :: "raw_event list \<Rightarrow> bool" where
  "all_typed ws \<longleftrightarrow> list_all (\<lambda>w. raw_event_type w \<noteq> []) ws"

definition caught_up :: "chain \<Rightarrow> bool" where
  "caught_up s \<longleftrightarrow> ch_tip s \<le> max64 \<and> (\<forall>w \<in> set (ch_hist s). rw_Ledger w \<le> ch_tip s) \<and>
     (\<forall>w \<in> set (ch_owed s). w \<in> set (ch_hist s) \<and> rw_ContractID w \<in> watched (ch_db s)) \<and>
     (\<exists>c. cursor (ch_db s) = Inr c \<and> 0 < c \<and> c \<le> ch_tip s \<and>
       (\<forall>w \<in> set (ch_owed s). rw_Ledger w < c \<longrightarrow> rw_ID w \<in> ids (ch_db s)))"

lemma to_indexed_simps [simp]:
  "ev_ID (to_indexed parseTime w) = rw_ID w" "ev_Ledger (to_indexed parseTime w) = rw_Ledger w" "ev_ContractID (to_indexed parseTime w) = rw_ContractID w"
  by (simp_all add: to_indexed_def)

text \<open>Where every event has a type, the fetcher hands on the page as it is.\<close>

lemma fetch_page:
  assumes "rpc_pages hist tip getEvents" and "all_typed hist"
    and "FetchEvents (rpcEventFetcher getEvents latestLedger parseTime) contracts start = Some (es, latest)"
  obtains ws where "es = map (to_indexed parseTime) ws" "getEvents contracts start = RpcResult latest ws"
proof -
  obtain ws where ws: "getEvents contracts start = RpcResult latest ws" "es = map (to_indexed parseTime) (filter (\<lambda>w. raw_event_type w \<noteq> []) ws)"
    using assms(3) by (auto simp: rpcEventFetcher_def fetchSorobanEvents_def split: rpc_result.splits)
  then have "\<forall>w \<in> set ws. raw_event_type w \<noteq> []"
    using assms(1,2) unfolding rpc_pages_def all_typed_def list_all_iff by blast
  then show thesis using that ws by (metis (mono_tags, lifting) filter_True)
qed

lemma load_contracts: "loadVaultContractIDs f db = Inr cs \<Longrightarrow> set cs = watched db"
  by (force simp: loadVaultContractIDs_def watched_def addresses_def split: if_splits)

text \<open>A started indexer resumes at its cursor, so a poll is one batch, one write of the cursor, or nothing.\<close>

lemma poll_cases:
  assumes "ep_Fetcher p = Some fetch" and "cursor db = Inr c" and "0 < c"
  obtains (quiet) "snd (snd (PollEvents D p env db)) = db"
  | (batch) contracts es latest ob where "set contracts = watched db" "FetchEvents fetch contracts c = Some (es, latest)" "es \<noteq> []"
      "PollEvents D p env db = apply_batch D ob env 0 (sortEventsForApply es) db"
  | (tip) contracts latest where "set contracts = watched db" "FetchEvents fetch contracts c = Some ([], latest)" "0 < latest"
      "snd (snd (PollEvents D p env db)) = snd (setLastIndexedLedger (pv_flt env 4) (pv_flt env 5) latest db)"
proof (cases "pv_flt env 0")
  case True
  then have "\<exists>err. resolveStartLedger p fetch env db = (Inl err, db)"
    by (simp add: resolveStartLedger_def getLastIndexedLedger_def SystemStateRepository_Get_def)
  then show thesis using quiet assms(1) by (auto simp: PollEvents_def)
next
  case False
  then have start: "resolveStartLedger p fetch env db = (Inr c, db)"
    using assms(2,3) by (simp add: resolveStartLedger_def cursor_def)
  show thesis
  proof (cases "\<exists>cs. loadVaultContractIDs (pv_flt env 3) db = Inr cs \<and> cs \<noteq> [] \<and> ep_DB p \<and> ep_SysRepo p")
    case False
    then show thesis using start assms(1) by (intro quiet) (auto simp: PollEvents_def split: sum.splits)
  next
    case True
    then obtain cs where cs: "loadVaultContractIDs (pv_flt env 3) db = Inr cs" "cs \<noteq> []" "ep_DB p" "ep_SysRepo p" by blast
    show thesis
    proof (cases "FetchEvents fetch cs c")
      case None
      then show thesis using quiet start assms(1) cs by (simp add: PollEvents_def)
    next
      case (Some page)
      obtain es latest where page: "page = (es, latest)" by (cases page)
      show thesis
      proof (cases "es = []")
        case True
        show thesis
        proof (cases "0 < latest")
          case True
          then show thesis using tip [of cs latest] load_contracts [OF cs(1)] start assms(1) cs Some page \<open>es = []\<close>
            by (auto simp: PollEvents_def split: prod.splits)
        qed (use quiet start assms(1) cs Some page \<open>es = []\<close> in \<open>auto simp: PollEvents_def\<close>)
      next
        case False
        then show thesis using batch [of cs es latest "ep_DepositObserver p"] load_contracts [OF cs(1)] start assms(1) cs Some page
          by (simp add: PollEvents_def)
      qed
    qed
  qed
qed

lemma poll_caught_up:
  assumes "caught_up s" and "ep_Fetcher p = Some (rpcEventFetcher getEvents latestLedger parseTime)"
    and "rpc_pages (ch_hist s) (ch_tip s) getEvents" and "all_typed (ch_hist s)"
  shows "caught_up (s\<lparr>ch_db := snd (snd (PollEvents D p env (ch_db s)))\<rparr>)"
proof -
  let ?db = "ch_db s"
  obtain c where c: "cursor ?db = Inr c" "0 < c" "c \<le> ch_tip s" "ch_tip s \<le> max64" "\<forall>w \<in> set (ch_hist s). rw_Ledger w \<le> ch_tip s"
    and owed: "\<forall>w \<in> set (ch_owed s). w \<in> set (ch_hist s) \<and> rw_ContractID w \<in> watched ?db"
    and old: "\<And>w. w \<in> set (ch_owed s) \<Longrightarrow> rw_Ledger w < c \<Longrightarrow> rw_ID w \<in> ids ?db"
    using assms(1) by (auto simp: caught_up_def)
  from assms(2) c(1,2) show ?thesis
  proof (cases rule: poll_cases [where D = D and env = env])
    case quiet
    then show ?thesis using assms(1) by simp
  next
    case (batch contracts es latest ob)
    let ?es = "sortEventsForApply es"
    obtain n err calls db' where res: "apply_batch D ob env 0 ?es ?db = ((n, err), calls, db')"
      by (cases "apply_batch D ob env 0 ?es ?db") auto
    obtain ws where ws: "es = map (to_indexed parseTime) ws" "getEvents contracts c = RpcResult latest ws"
      by (rule fetch_page [OF assms(3,4) batch(2)])
    have page: "\<forall>w \<in> set ws. w \<in> set (ch_hist s) \<and> c \<le> rw_Ledger w"
      "\<And>w v. w \<in> set (ch_hist s) \<Longrightarrow> rw_ContractID w \<in> watched ?db \<Longrightarrow> c \<le> rw_Ledger w \<Longrightarrow> w \<notin> set ws \<Longrightarrow> v \<in> set ws \<Longrightarrow> rw_Ledger v \<le> rw_Ledger w"
      using assms(3) batch(1,3) ws unfolding rpc_pages_def by (metis (mono_tags, lifting) empty_iff list.set(1))+
    have "\<forall>e \<in> set ?es. 0 \<le> ev_Ledger e" using page(1) c(2) ws(1) by fastforce
    from apply_batch_progress [OF res c(1) this] obtain k where k: "cursor db' = Inr (fold max (map ev_Ledger (take k ?es)) c)"
        "ids db' = ids ?db \<union> ev_ID ` set (take k ?es)" "addresses db' = addresses ?db" by blast
    let ?c = "fold max (map ev_Ledger (take k ?es)) c"
    have w: "watched db' = watched ?db" using k(3) by (simp add: watched_def)
    have taken: "\<exists>v \<in> set ws. e = to_indexed parseTime v" if "e \<in> set (take k ?es)" for e
      using that set_take_subset [of k ?es] ws(1) by auto
    have "\<forall>e \<in> set (take k ?es). ev_Ledger e \<le> ch_tip s" using taken page(1) c(5) by fastforce
    then have le: "?c \<le> ch_tip s" using c(3) by (simp add: fold_max_le)
    have new: "rw_ID e \<in> ids db'" if e: "e \<in> set (ch_owed s)" "rw_Ledger e < ?c" for e
    proof (cases "rw_Ledger e < c")
      case True
      then show ?thesis using old e k(2) by blast
    next
      case False
      then obtain f where f: "f \<in> set (take k ?es)" "rw_Ledger e < ev_Ledger f"
        using e(2) fold_max_mem [of "map ev_Ledger (take k ?es)" c] by auto
      then obtain v where v: "v \<in> set ws" "rw_Ledger e < rw_Ledger v" using taken by fastforce
      have "e \<in> set ws" using page(2) [of e v] owed e(1) False v by force
      then have "to_indexed parseTime e \<in> set ?es" using ws(1) by simp
      moreover have "to_indexed parseTime e \<notin> set (drop k ?es)" using sorted_wrt_take_drop [OF sorted_events f(1)] f(2) by fastforce
      ultimately have "to_indexed parseTime e \<in> set (take k ?es)" by (metis Un_iff append_take_drop_id set_append)
      then show ?thesis using k(2) by (metis UnI2 image_eqI to_indexed_simps(1))
    qed
    have "caught_up (s\<lparr>ch_db := db'\<rparr>)"
      using c(2,4,5) owed k(1) le new fold_max_ge [of c "map ev_Ledger (take k ?es)"]
      by (auto simp: caught_up_def w intro!: exI [of _ ?c])
    then show ?thesis using batch(4) res by simp
  next
    case (tip contracts latest)
    obtain r db' where set: "setLastIndexedLedger (pv_flt env 4) (pv_flt env 5) latest ?db = (r, db')"
      by (cases "setLastIndexedLedger (pv_flt env 4) (pv_flt env 5) latest ?db")
    obtain ws where ws: "[] = map (to_indexed parseTime) ws" "getEvents contracts c = RpcResult latest ws"
      by (rule fetch_page [OF assms(3,4) tip(2)])
    have page: "latest \<le> ch_tip s"
      "\<And>w. w \<in> set (ch_hist s) \<Longrightarrow> rw_ContractID w \<in> watched ?db \<Longrightarrow> c \<le> rw_Ledger w \<Longrightarrow> latest < rw_Ledger w"
      using assms(3) tip(1) ws unfolding rpc_pages_def by (metis (mono_tags, lifting) empty_iff list.set(1) map_is_Nil_conv)+
    have "latest \<le> max_uint64" using page(1) c(4) max64_uint by simp
    note moved = set_cursor [OF set c(1) this]
    have same: "ids db' = ids ?db" "watched db' = watched ?db"
      by (subst moved(2), simp add: ids_def, subst moved(2), simp add: watched_def addresses_def)
    obtain c' where c': "cursor db' = Inr c'" "c \<le> c'" "c' \<le> max c latest" using moved(1) by (auto split: if_splits)
    have "rw_ID w \<in> ids ?db" if "w \<in> set (ch_owed s)" "rw_Ledger w < c'" for w
      using old [OF that(1)] page(2) [of w] owed that c'(3) by (cases "rw_Ledger w < c") fastforce+
    then have "caught_up (s\<lparr>ch_db := db'\<rparr>)"
      using c c' page(1) owed by (auto simp: caught_up_def same intro!: exI [of _ c'])
    then show ?thesis using tip(4) set by simp
  qed
qed

interpretation chain_system: invariant_system chain_start "chain_step D" "\<lambda>s. all_typed (ch_hist s) \<longrightarrow> caught_up s" for D
proof
  show "all_typed (ch_hist s) \<longrightarrow> caught_up s" if "chain_start s" for s
    using that by (auto simp: chain_start_def caught_up_def)
next
  fix s t
  assume inv: "all_typed (ch_hist s) \<longrightarrow> caught_up s" and "chain_step D s t"
  from this(2) show "all_typed (ch_hist t) \<longrightarrow> caught_up t"
  proof cases
    case (poll p getEvents latestLedger parseTime env)
    then show ?thesis using poll_caught_up inv by auto
  next
    case (close tip new)
    then show ?thesis using inv by (fastforce simp: caught_up_def all_typed_def)
  next
    case (work v)
    then show ?thesis using inv by (auto simp: caught_up_def cursor_simps ids_def)
  qed
qed


section \<open>One movement for each transaction hash\<close>

text \<open>The two writers of a vault's balance: the API's operations and the indexer's events.\<close>

datatype 'd writer = Api "'d vault_op" | Chain index_env indexedEvent

fun run_writer :: "('d, 'z) money_ops_scheme \<Rightarrow> (uuid \<Rightarrow> string) \<Rightarrow> 'd writer \<Rightarrow> IndexDB \<Rightarrow> IndexDB" where
  "run_writer D ut (Api op) db = db\<lparr>ix_vault := run_op D ut op (ix_vault db)\<rparr>"
| "run_writer D ut (Chain env e) db = snd (applyIndexedEventWithCursor D env e db)"

text \<open>Deposit and withdrawal events carry the claim; the others do not.\<close>

fun writer_hash :: "'d writer \<Rightarrow> string" where
  "writer_hash (Api op) = op_hash op"
| "writer_hash (Chain env e) = (if claiming e then trim_space (ev_TxHash e) else [])"

lemma insert_claims_hash:
  assumes "insert_claims rows v = Inr (n, v')" and "\<forall>row \<in> set rows. vt_hash row = Some h"
  shows "(n = 0 \<longrightarrow> v' = v) \<and> (Some h \<in> hashes v \<longrightarrow> n = 0) \<and> (0 < n \<longrightarrow> Some h \<in> hashes v') \<and> hashes v \<subseteq> hashes v'"
  using assms
proof (induction rows arbitrary: v n)
  case (Cons row rows)
  then obtain b v1 m where ins: "insert_vault_tx True row v = Inr (b, v1)" and rest: "insert_claims rows v1 = Inr (m, v')"
    and n: "n = (if b then Suc m else m)" by (auto simp: bindE_Inr)
  note IH = Cons.IH [OF rest]
  have grow: "hashes v \<subseteq> hashes v1" using insert_grows [OF ins] by (simp add: hashes_def)
  show ?case
  proof (cases b)
    case True
    then have "Some h \<notin> hashes v" using insert_vault_tx_Inr(2) [OF ins] Cons.prems(2) by (auto simp: hashes_def)
    moreover have "Some h \<in> hashes v1" using insert_vault_tx_Inr(1) [OF ins] True Cons.prems(2) by (auto simp: hashes_def)
    ultimately show ?thesis using IH Cons.prems(2) n True grow by auto
  next
    case False
    then have "v1 = v" using insert_vault_tx_Inr(1) [OF ins] by auto
    then show ?thesis using IH Cons.prems(2) n False by auto
  qed
qed simp

lemma balance_event_claims:
  assumes "balance_event D env e ty f db = Inr db'" and "\<And>x. keeps_address (f x)"
  shows "ix_vault db' = ix_vault db \<or> claims (trim_space (ev_TxHash e)) (ix_vault db) (ix_vault db')"
proof -
  let ?h = "trim_space (ev_TxHash e)"
  obtain amount b db1 where claim: "claimBalanceTxHash D env e ty amount db = Inr (b, db1)"
    and rest: "if b then update_contract (ev_ContractID e) (f (d_Num D amount)) db1 = Inr db' else db' = db1"
    using assms(1) by (auto simp: balance_event_def ix_Inr split: if_splits)
  have txs: "b \<Longrightarrow> hashes (ix_vault db') = hashes (ix_vault db1)"
    using rest update_contract_keeps [OF _ assms(2)] by (auto simp: hashes_def)
  show ?thesis
  proof (cases "?h = []")
    case True
    then have "b" "db1 = db" using claim by (auto simp: claimBalanceTxHash_def)
    then show ?thesis using txs True by (simp add: claims_def)
  next
    case False
    then obtain n rows where ins: "insert_claims rows (ix_vault db) = Inr (n, ix_vault db1)" "\<forall>row \<in> set rows. vt_hash row = Some ?h" "b = (0 < n)"
      using claim by (auto simp: claimBalanceTxHash_def ix_Inr claim_row_def)
    note c = insert_claims_hash [OF ins(1,2)]
    then show ?thesis using rest txs ins(3) by (auto simp: claims_def split: if_splits)
  qed
qed

lemma mutation_claims:
  assumes "applyEventMutation D env e db = Inr db'"
  shows "ix_vault db' = ix_vault db \<or> claims (if claiming e then trim_space (ev_TxHash e) else []) (ix_vault db) (ix_vault db')"
  using assms
proof (cases rule: mutation_cases)
  case (balance ty f)
  then show ?thesis using balance_event_claims [OF balance(2,3)] by simp
next
  case (update f)
  then show ?thesis using update_contract_keeps [OF update(2,3)] by (simp add: claims_def hashes_def)
qed simp

lemma writer_claims:
  "ix_vault (run_writer D ut w db) = ix_vault db \<or> claims (writer_hash w) (ix_vault db) (ix_vault (run_writer D ut w db))"
proof (cases w)
  case (Api op)
  then show ?thesis using run_op_claims [of D ut op "ix_vault db"] by simp
next
  case (Chain env e)
  let ?db' = "snd (applyIndexedEventWithCursor D env e db)"
  have "?db' = db \<or> event_effect D env e db ?db'" using event_cursor_tx [OF refl, of D env e db] by blast
  moreover have "ix_vault ?db' = ix_vault db \<or> (\<exists>x. applyEventMutation D env e db = Inr x \<and> ix_vault ?db' = ix_vault x)"
    if "event_effect D env e db ?db'" using that unfolding event_effect_def by (metis tag_simps(1))
  ultimately show ?thesis using mutation_claims [of D env e db] Chain by auto
qed

lemma writers_grow:
  assumes "reach (\<lambda>s. s = db) (\<lambda>s t. \<exists>w. t = run_writer D ut w s) db2"
  shows "hashes (ix_vault db) \<subseteq> hashes (ix_vault db2)"
  using assms
proof (induction rule: reach.induct)
  case (reach_step s t)
  then obtain w where "t = run_writer D ut w s" by blast
  then have "hashes (ix_vault s) \<subseteq> hashes (ix_vault t)" using writer_claims [of D ut w s] by (auto simp: claims_def)
  then show ?case using reach_step.IH by blast
qed simp

text \<open>
  C27: Once a writer that carries a transaction hash has changed the vault tables, whether the API
  or the indexer, no writer with that hash changes them again, whatever both do in between: a
  deposit recorded through the API and later seen on the chain is counted once, and so is one
  the indexer saw first.
\<close>

theorem writers_move_money_once:
  assumes "writer_hash w = h" and "h \<noteq> []" and "ix_vault (run_writer D ut w db) \<noteq> ix_vault db"
    and "reach (\<lambda>s. s = run_writer D ut w db) (\<lambda>s t. \<exists>q. t = run_writer D ut q s) db2" and "writer_hash w2 = h"
  shows "ix_vault (run_writer D ut w2 db2) = ix_vault db2"
proof -
  have "Some h \<in> hashes (ix_vault (run_writer D ut w db))" using writer_claims [of D ut w db] assms(1-3) by (auto simp: claims_def)
  then have "Some h \<in> hashes (ix_vault db2)" using writers_grow [OF assms(4)] by blast
  then show ?thesis using writer_claims [of D ut w2 db2] assms(2,5) by (auto simp: claims_def)
qed

section \<open>What a failed poll has done\<close>

lemma poll_error_batch:
  assumes "PollEvents D p env db = ((n, Some (ApplyFailed i l er)), calls, db')" and "ep_Fetcher p = Some fetch"
    and "cursor db = Inr c" and "0 < c"
  obtains contracts es latest ob where "FetchEvents fetch contracts c = Some (es, latest)"
    "apply_batch D ob env 0 (sortEventsForApply es) db = ((n, Some (ApplyFailed i l er)), calls, db')"
proof -
  have get: "getLastIndexedLedger f db = Inr c \<or> getLastIndexedLedger f db = Inl PollFault" for f
    using assms(3) by (cases f) (simp_all add: cursor_def getLastIndexedLedger_def SystemStateRepository_Get_def)
  have set: "fst (setLastIndexedLedger f g m db) \<noteq> Some (ApplyFailed i l er)" for f g m
    using get [of f] by (auto simp: setLastIndexedLedger_def SystemStateRepository_Set_def split: sum.splits)
  have start: "resolveStartLedger p fetch env db = (Inr c, db)" "loadVaultContractIDs (pv_flt env 3) db \<noteq> Inl (ApplyFailed i l er)"
    using get [of "pv_flt env 0"] assms(1,2,4)
    by (auto simp: PollEvents_def resolveStartLedger_def loadVaultContractIDs_def split: if_splits)
  show thesis
    using assms(1,2) start set that
    by (auto simp: PollEvents_def split: if_splits sum.splits option.splits prod.splits) (metis fst_conv)
qed

text \<open>
  C28: When a poll stops at an event, the events before it in ledger order are recorded and the
  cursor stands at the highest ledger among them; the event itself is not recorded, unless
  its transaction was committed and only the acknowledgement was lost.
\<close>

theorem failed_poll_is_a_prefix:
  assumes "PollEvents D p env db = ((n, Some (ApplyFailed i l er)), calls, db')" and "ep_Fetcher p = Some fetch"
    and "getLastIndexedLedger False db = Inr c" and "0 < c"
    and "\<forall>contracts es latest. FetchEvents fetch contracts c = Some (es, latest) \<longrightarrow> list_all (\<lambda>e. 0 \<le> ev_Ledger e) es"
  shows "\<exists>pre e post contracts latest es. FetchEvents fetch contracts c = Some (es, latest) \<and> sortEventsForApply es = pre @ e # post
    \<and> i = ev_ID e \<and> l = ev_Ledger e
    \<and> (fst ` set (ix_processed db') = fst ` set (ix_processed db) \<union> ev_ID ` set pre
        \<and> getLastIndexedLedger False db' = Inr (fold max (map ev_Ledger pre) c)
      \<or> er = IndexFault \<and> fst ` set (ix_processed db') = fst ` set (ix_processed db) \<union> ev_ID ` set (pre @ [e])
        \<and> getLastIndexedLedger False db' = Inr (fold max (map ev_Ledger (pre @ [e])) c))"
proof -
  have cur: "cursor db = Inr c" using assms(3) by (simp add: cursor_def)
  obtain contracts es latest ob where page: "FetchEvents fetch contracts c = Some (es, latest)"
    and res: "apply_batch D ob env 0 (sortEventsForApply es) db = ((n, Some (ApplyFailed i l er)), calls, db')"
    by (rule poll_error_batch [OF assms(1,2) cur assms(4)])
  let ?es = "sortEventsForApply es"
  have "\<forall>e \<in> set ?es. 0 \<le> ev_Ledger e" using assms(5) page by (auto simp: list_all_iff)
  from apply_batch_progress [OF res cur this] obtain k j where
      k: "cursor db' = Inr (fold max (map ev_Ledger (take k ?es)) c)" "ids db' = ids db \<union> ev_ID ` set (take k ?es)"
    and j: "j < length ?es" "i = ev_ID (?es ! j)" "l = ev_Ledger (?es ! j)" "k = j \<or> k = Suc j \<and> er = IndexFault" by auto
  have split: "?es = take j ?es @ ?es ! j # drop (Suc j) ?es" using j(1) by (rule id_take_nth_drop)
  have "take (Suc j) ?es = take j ?es @ [?es ! j]" using j(1) by (rule take_Suc_conv_app_nth)
  then show ?thesis
    using page split j k 
    by - (rule exI [of _ "take j ?es"], rule exI [of _ "?es ! j"], rule exI [of _ "drop (Suc j) ?es"], rule exI [of _ contracts],
      rule exI [of _ latest], rule exI [of _ es], auto simp: cursor_def ids_def)
qed

end
