(* ===== verification/Indexer_Examples.thy ===== *)
theory Indexer_Examples
  imports Indexer_Properties
begin

text \<open>
  The indexer on concrete data: an instance of each of its properties, and the behaviours
  where the code does not do what it means to.
\<close>

section \<open>A vault with a little history\<close>

definition demo_index :: IndexDB where
  "demo_index = \<lparr>ix_vault = demo_created, ix_processed = [], ix_state = [(KeyLastLedger, ''100'')], ix_queue = [], ix_penalties = [],
     ix_distributions = [], ix_legs = [], ix_completions = []\<rparr>"

definition demo_index_env :: index_env where
  "demo_index_env = \<lparr>ie_flt = no_fault, ie_commit = Committed, ie_now = 9\<rparr>"

definition demo_chain_event :: "string \<Rightarrow> int \<Rightarrow> string \<Rightarrow> string \<Rightarrow> indexedEvent" where
  "demo_chain_event i l ty h = \<lparr>ev_ID = i, ev_ContractID = ''CA'', ev_EventType = ty, ev_Ledger = l,
     ev_Data = Some [(''amount'', JNumber ''25000000'')], ev_TxHash = h, ev_LedgerClosedAt = 0\<rparr>"

definition demo_e1 :: indexedEvent where "demo_e1 = demo_chain_event ''e1'' 110 ''deposit'' ''h1''"
definition demo_e2 :: indexedEvent where "demo_e2 = demo_chain_event ''e2'' 120 ''Deposit'' ''h2''"
definition demo_bad :: indexedEvent where "demo_bad = (demo_chain_event ''e3'' 120 ''deposit'' ''h3'')\<lparr>ev_Data := None\<rparr>"

definition demo_fetch :: "indexedEvent list \<Rightarrow> fetcher" where
  "demo_fetch hist = \<lparr>FetchEvents = (\<lambda>cs start. Some (filter (\<lambda>e. ev_ContractID e \<in> set cs \<and> start \<le> ev_Ledger e) hist, 130)),
     LatestLedger = Some 130\<rparr>"

definition demo_poller :: "indexedEvent list \<Rightarrow> EventPoller" where
  "demo_poller hist = \<lparr>ep_DB = True, ep_SysRepo = True, ep_Fetcher = Some (demo_fetch hist), ep_ColdStartOffset = 0, ep_DepositObserver = False\<rparr>"

definition demo_poll_env :: poll_env where
  "demo_poll_env = \<lparr>pv_flt = no_fault, pv_event = (\<lambda>_. demo_index_env), pv_lookup = (\<lambda>_. False), pv_now = 9\<rparr>"

definition demo_polled :: IndexDB where
  "demo_polled = snd (snd (PollEvents rat_money (demo_poller [demo_e2, demo_e1]) demo_poll_env demo_index))"

lemma demo_polled_eval [code]: "demo_polled =
    \<lparr>ix_vault = \<lparr>vd_users = [\<lparr>u_id = 8, u_daily_deposit_cap = None\<rparr>], vd_vaults = [\<lparr>v_id = 7,
      v_user_id = 8, v_contract_address = ''CA'', v_total_deposited = 5, v_current_balance = 5, v_currency = ''USDC'', v_status =
      ''active'', v_yield_earned = 0, v_fees_paid = 0, v_soft_capacity = None, v_harvest_frequency = ''daily'', v_last_harvested_at =
      None, v_deleted_at = None, v_created_at = 5, v_updated_at = 9\<rparr>], vd_txs = [\<lparr>vt_vault_id = 7, vt_user_id = None,
      vt_type = ''deposit'', vt_amount = 5 / 2, vt_hash = Some ''h1'', vt_shares = None, vt_share_price = None, vt_fee = None,
      vt_created_at = 9\<rparr>, \<lparr>vt_vault_id = 7, vt_user_id = None, vt_type = ''deposit'', vt_amount = 5 / 2, vt_hash = Some
      ''h2'', vt_shares = None, vt_share_price = None, vt_fee = None, vt_created_at = 9\<rparr>], vd_audit = \<lparr>at_rows = [],
      at_next = 1\<rparr>, vd_ledger = \<lparr>db_vaults = [7], db_users = [8], db_accounts = [], db_entries = [], db_balances = [],
      db_recon = []\<rparr>\<rparr>, ix_processed = [(''e1'', 110), (''e2'', 120)], ix_state = [(''event_indexer.last_ledger'',
      ''120'')], ix_queue = [], ix_penalties = [], ix_distributions = [], ix_legs = [], ix_completions = []\<rparr>"
  by code_simp

lemma demo_polled_ids: "ix_processed demo_polled = [(''e1'', 110), (''e2'', 120)]"
  by (simp add: demo_polled_eval)
lemma demo_polled_cursor: "getLastIndexedLedger False demo_polled = Inr 120"
  by code_simp
lemma demo_polled_balance: "map v_current_balance (vd_vaults (ix_vault demo_polled)) = [5]"
  by (simp add: demo_polled_eval)

section \<open>Instances\<close>

theorem indexer_applies_each_event_once_witness:
  "\<exists>xs x. length xs = 2 \<and> replay rat_money xs demo_index = Inr x \<and> map v_current_balance (vd_vaults (ix_vault x)) = [5]"
proof -
  have "indexing_step rat_money demo_index demo_polled" unfolding indexing_step_def demo_polled_def by blast
  then have steps: "(indexing_step rat_money)\<^sup>*\<^sup>* demo_index demo_polled" by blast
  obtain xs x where xs: "ix_processed demo_polled = ix_processed demo_index @ map (\<lambda>(_, e). (ev_ID e, ev_Ledger e)) xs"
      "replay rat_money xs demo_index = Inr x" "demo_polled = x\<lparr>ix_processed := ix_processed demo_polled, ix_state := ix_state demo_polled\<rparr>"
    using indexer_applies_each_event_once [OF steps] by blast
  have "length (ix_processed demo_polled) = length xs" using xs(1) by (simp add: demo_index_def)
  then have "length xs = 2" by (simp add: demo_polled_ids)
  moreover have "ix_vault demo_polled = ix_vault x" by (subst xs(3)) simp
  ultimately show ?thesis using xs(2) demo_polled_balance by metis
qed

text \<open>An RPC server that answers as documented: the events of the contracts from the start ledger on, in ledger order, one page of them.\<close>

definition demo_raw :: "indexedEvent \<Rightarrow> raw_event" where
  "demo_raw e = \<lparr>rw_ID = ev_ID e, rw_ContractID = ev_ContractID e, rw_Ledger = ev_Ledger e, rw_TxHash = ev_TxHash e,
     rw_Topic = [JString (ev_EventType e)], rw_Value = ev_Data e, rw_LedgerClosedAt = []\<rparr>"

definition demo_rpc :: "raw_event list \<Rightarrow> string list \<Rightarrow> int \<Rightarrow> rpc_result" where
  "demo_rpc hist contracts start = RpcResult 130 (take sorobanEventPageLimit
     (sort_key rw_Ledger (filter (\<lambda>w. rw_ContractID w \<in> set contracts \<and> start \<le> rw_Ledger w) hist)))"

lemma page_of_sorted:
  assumes "w \<in> set ws" and "w \<notin> set (take n (sort_key rw_Ledger ws))" and "v \<in> set (take n (sort_key rw_Ledger ws))"
  shows "rw_Ledger v \<le> rw_Ledger w"
proof -
  have "w \<in> set (drop n (sort_key rw_Ledger ws))" using assms(1,2) by (metis Un_iff append_take_drop_id set_append set_sort)
  moreover have "sorted_wrt (\<lambda>a b. rw_Ledger a \<le> rw_Ledger b) (sort_key rw_Ledger ws)"
    using sorted_sort_key [of rw_Ledger ws] by (simp add: sorted_wrt_map)
  ultimately show ?thesis using assms(3) sorted_wrt_take_drop by fast
qed

lemma demo_pages: "rpc_pages hist 130 (demo_rpc hist)"
  unfolding rpc_pages_def
proof (intro allI impI)
  fix contracts start latest ws
  assume page: "demo_rpc hist contracts start = RpcResult latest ws"
  let ?all = "filter (\<lambda>w. rw_ContractID w \<in> set contracts \<and> start \<le> rw_Ledger w) hist"
  have ws: "ws = take sorobanEventPageLimit (sort_key rw_Ledger ?all)" "latest = 130" using page by (auto simp: demo_rpc_def)
  have "\<forall>w \<in> set ws. w \<in> set ?all" using ws(1) by (auto dest: in_set_takeD)
  moreover have "?all = []" if "ws = []"
    using arg_cong [where f = length, OF ws(1)] that by (simp add: sorobanEventPageLimit_def min_def split: if_splits)
  moreover have "\<forall>w \<in> set ?all. w \<notin> set ws \<longrightarrow> (\<forall>v \<in> set ws. rw_Ledger v \<le> rw_Ledger w)"
    using page_of_sorted ws(1) by blast
  ultimately show "latest \<le> 130 \<and> (\<forall>w \<in> set ws. w \<in> set hist \<and> start \<le> rw_Ledger w) \<and>
      (\<forall>w \<in> set hist. rw_ContractID w \<in> set contracts \<and> start \<le> rw_Ledger w \<and> w \<notin> set ws \<longrightarrow>
         (if ws = [] then latest < rw_Ledger w else (\<forall>v \<in> set ws. rw_Ledger v \<le> rw_Ledger w)))"
    using ws(2) by (auto simp: filter_empty_conv)
qed

definition demo_rpc_poller :: "raw_event list \<Rightarrow> EventPoller" where
  "demo_rpc_poller hist = (demo_poller [])\<lparr>ep_Fetcher := Some (rpcEventFetcher (demo_rpc hist) (Some 130) (\<lambda>_. None))\<rparr>"

lemma demo_rpc_polled: "snd (snd (PollEvents rat_money (demo_rpc_poller (map demo_raw [demo_e2, demo_e1])) demo_poll_env demo_index)) = demo_polled"
  by code_simp


theorem writers_move_money_once_witness:
  "ix_vault (snd (applyIndexedEventWithCursor rat_money demo_index_env demo_e1 (demo_index\<lparr>ix_vault := demo_deposited\<rparr>))) = demo_deposited"
proof -
  have "length (vd_txs demo_created) = 0" "length (vd_txs (run_op rat_money demo_uuid_text demo_deposit demo_created)) = 1"
    unfolding demo_deposited_def [symmetric] by (simp_all add: demo_created_eval demo_deposited_eval)
  then have moved: "ix_vault (run_writer rat_money demo_uuid_text (Api demo_deposit) demo_index) \<noteq> ix_vault demo_index"
    by (auto simp: demo_index_def)
  have hash: "writer_hash (Api demo_deposit) = ''h1''" by (simp add: demo_deposit_def demo_record_def)
  have "claiming demo_e1" "trim_space (ev_TxHash demo_e1) = ''h1''" by code_simp+
  then have hash2: "writer_hash (Chain demo_index_env demo_e1 :: rat writer) = ''h1''" by simp
  have db: "run_writer rat_money demo_uuid_text (Api demo_deposit) demo_index = demo_index\<lparr>ix_vault := demo_deposited\<rparr>"
    by (simp add: demo_index_def demo_deposited_def)
  have "ix_vault (run_writer rat_money demo_uuid_text (Chain demo_index_env demo_e1) (demo_index\<lparr>ix_vault := demo_deposited\<rparr>))
      = ix_vault (demo_index\<lparr>ix_vault := demo_deposited\<rparr>)"
    by (rule writers_move_money_once [OF hash _ moved _ hash2]) (simp_all only: db, simp, rule reach_init, simp)
  then show ?thesis by simp
qed

theorem failed_poll_is_a_prefix_witness:
  "\<exists>pre e post. sortEventsForApply [demo_bad, demo_e1] = pre @ e # post \<and> ev_ID e = ''e3''
    \<and> fst ` set (ix_processed (snd (snd (PollEvents rat_money (demo_poller [demo_bad, demo_e1]) demo_poll_env demo_index)))) = ev_ID ` set pre"
proof -
  let ?poll = "PollEvents rat_money (demo_poller [demo_bad, demo_e1]) demo_poll_env demo_index"
  have "fst ?poll = (1, Some (ApplyFailed ''e3'' 120 (EventMissing ''amount'')))" by code_simp
  then have poll: "?poll = ((1, Some (ApplyFailed ''e3'' 120 (EventMissing ''amount''))), fst (snd ?poll), snd (snd ?poll))"
    by (metis prod.collapse)
  have c: "getLastIndexedLedger False demo_index = Inr 100" by code_simp
  have fetch: "ep_Fetcher (demo_poller [demo_bad, demo_e1]) = Some (demo_fetch [demo_bad, demo_e1])" by (simp add: demo_poller_def)
  have ledgers: "\<forall>cs es latest. FetchEvents (demo_fetch [demo_bad, demo_e1]) cs 100 = Some (es, latest) \<longrightarrow> list_all (\<lambda>e. 0 \<le> ev_Ledger e) es"
    by (auto simp: demo_fetch_def demo_bad_def demo_e1_def demo_chain_event_def)
  obtain pre e post cs latest es where r: "FetchEvents (demo_fetch [demo_bad, demo_e1]) cs 100 = Some (es, latest)"
      "sortEventsForApply es = pre @ e # post" "''e3'' = ev_ID e"
      "fst ` set (ix_processed (snd (snd ?poll))) = fst ` set (ix_processed demo_index) \<union> ev_ID ` set pre"
    using failed_poll_is_a_prefix [OF poll fetch c _ ledgers] by auto
  have "''CA'' \<in> set cs" using r(1,2) by (auto simp: demo_fetch_def demo_bad_def demo_e1_def demo_chain_event_def sortEventsForApply_def split: if_splits)
  then have "es = [demo_bad, demo_e1]" using r(1) by (simp add: demo_fetch_def demo_bad_def demo_e1_def demo_chain_event_def)
  then show ?thesis using r by (auto simp: demo_index_def)
qed

section \<open>Where the code does not do what it means to\<close>

text \<open>
  The one-shot sync logs a failed event, goes on, and sets the cursor to the tip: the event is
  below the cursor and not recorded, and a poll from there never asks for it again.
\<close>

theorem sync_loses_failed_event:
  "let db = snd (snd (SyncEvents rat_money False (\<lambda>_ _. RpcResult 130 [demo_raw demo_bad]) (\<lambda>_. None) demo_poll_env demo_index))
   in getLastIndexedLedger False db = Inr 130 \<and> ix_processed db = [] \<and> ev_Ledger demo_bad < 130"
  by code_simp

text \<open>
  Events without a type are dropped before the page is looked at: a full page of them reads as
  an empty one, and the cursor goes to the tip past the deposits the page had no room for.
\<close>

definition untyped_page :: "raw_event list" where
  "untyped_page = replicate sorobanEventPageLimit ((demo_raw demo_e1)\<lparr>rw_Topic := []\<rparr>)"

theorem untyped_page_is_skipped:
  "let db = snd (snd (PollEvents rat_money (demo_rpc_poller (untyped_page @ [demo_raw demo_e2])) demo_poll_env demo_index))
   in getLastIndexedLedger False db = Inr 130 \<and> ix_processed db = [] \<and> ev_Ledger demo_e2 < 130"
proof -
  let ?hist = "untyped_page @ [demo_raw demo_e2]" and ?w = "(demo_raw demo_e1)\<lparr>rw_Topic := []\<rparr>"
  note events = demo_raw_def demo_e1_def demo_e2_def demo_chain_event_def
  have "filter (\<lambda>w. rw_ContractID w \<in> set [''CA''] \<and> 100 \<le> rw_Ledger w) ?hist = ?hist"
    by (simp add: untyped_page_def events)
  moreover have "sort_key rw_Ledger ?hist = ?hist"
    by (rule sort_key_id_if_sorted) (simp add: untyped_page_def events sorted_append)
  ultimately have "demo_rpc ?hist [''CA''] 100 = RpcResult 130 untyped_page"
    by (simp add: demo_rpc_def untyped_page_def)
  then have page: "FetchEvents (rpcEventFetcher (demo_rpc ?hist) (Some 130) (\<lambda>_. None)) [''CA''] 100 = Some ([], 130)"
    by (simp add: rpcEventFetcher_def fetchSorobanEvents_def untyped_page_def raw_event_type_def)
  have "PollEvents rat_money (demo_rpc_poller ?hist) demo_poll_env demo_index
      = PollEvents rat_money (demo_poller []) demo_poll_env demo_index"
  proof -
    have "resolveStartLedger p f demo_poll_env demo_index = (Inr 100, demo_index)" for p f
    proof -
      have "getLastIndexedLedger False demo_index = Inr 100" by code_simp
      then show ?thesis by (simp add: resolveStartLedger_def demo_poll_env_def)
    qed
    moreover have "loadVaultContractIDs (pv_flt demo_poll_env 3) demo_index = Inr [''CA'']" by code_simp
    ultimately show ?thesis using page by (simp add: PollEvents_def demo_rpc_poller_def demo_poller_def demo_fetch_def)
  qed
  moreover have "getLastIndexedLedger False (snd (snd (PollEvents rat_money (demo_poller []) demo_poll_env demo_index))) = Inr 130
      \<and> ix_processed (snd (snd (PollEvents rat_money (demo_poller []) demo_poll_env demo_index))) = []" by code_simp
  ultimately show ?thesis by (simp add: events)
qed

text \<open>Two deposits in one transaction share its hash; the second is recorded as processed and credited to nobody.\<close>

theorem second_deposit_of_a_transaction_is_dropped:
  "let e2 = demo_e1\<lparr>ev_ID := ''e1b''\<rparr>;
       db = snd (snd (PollEvents rat_money (demo_poller [demo_e1, e2]) demo_poll_env demo_index))
   in map fst (ix_processed db) = [''e1'', ''e1b''] \<and> map v_current_balance (vd_vaults (ix_vault db)) = [5 / 2]"
  by code_simp

text \<open>A harvest event takes no claim: with a hash the API has already recorded it still moves the balance.\<close>

theorem harvest_event_ignores_the_claim:
  "Some ''h1'' \<in> hashes demo_deposited
   \<and> map v_current_balance (vd_vaults demo_deposited) = [5 / 2]
   \<and> map v_current_balance (vd_vaults (ix_vault (snd (applyIndexedEventWithCursor rat_money demo_index_env
       (demo_chain_event ''e4'' 110 ''harvest'' ''h1'') (demo_index\<lparr>ix_vault := demo_deposited\<rparr>))))) = [5]"
proof (intro conjI)
  have "map vt_hash (vd_txs demo_deposited) = [Some ''h1'']" by (simp add: demo_deposited_eval)
  then show "Some ''h1'' \<in> hashes demo_deposited" unfolding hashes_def by (metis list.set_intros(1) list.set_map)
qed (rule demo_balance, code_simp)

lemma audit_chain_end: "audit_chain b rs x \<Longrightarrow> audit_chain b rs y \<Longrightarrow> x = y"
  by (induction b rs x rule: audit_chain.induct) auto

text \<open>The indexer writes no audit entry and no ledger entry.\<close>

lemma mutation_audit:
  assumes "applyEventMutation D env e db = Inr db'"
  shows "vd_audit (ix_vault db') = vd_audit (ix_vault db) \<and> vd_ledger (ix_vault db') = vd_ledger (ix_vault db)
    \<and> map v_id (vd_vaults (ix_vault db')) = map v_id (vd_vaults (ix_vault db))"
proof -
  have upd: "vd_audit (ix_vault x) = vd_audit (ix_vault y) \<and> vd_ledger (ix_vault x) = vd_ledger (ix_vault y)
      \<and> map v_id (vd_vaults (ix_vault x)) = map v_id (vd_vaults (ix_vault y))"
    if "update_contract c f y = Inr x" "keeps_address f" for c f x y
    using that by (auto simp: update_contract_def bindE_Inr dest: write_rows_keeps)
  from assms show ?thesis
  proof (cases rule: mutation_cases)
    case (balance ty f)
    then obtain amount b db1 where claim: "claimBalanceTxHash D env e ty amount db = Inr (b, db1)"
      and rest: "if b then update_contract (ev_ContractID e) (f (d_Num D amount)) db1 = Inr db' else db' = db1"
      by (auto simp: balance_event_def ix_Inr split: if_splits)
    then show ?thesis using claim_keeps [OF claim] upd balance(3) by (auto split: if_splits)
  next
    case (update f)
    then show ?thesis using upd by blast
  qed simp
qed

text \<open>
  An indexed movement therefore breaks the trail of the audited ones: from then on the audit
  entries of the vault do not lead to its balance.
\<close>

theorem indexed_movement_breaks_the_trail:
  assumes "trail_inv (ix_vault db)" and "applyEventMutation D env e db = Inr db'"
    and "map v_current_balance (vd_vaults (ix_vault db')) \<noteq> map v_current_balance (vd_vaults (ix_vault db))"
  shows "\<not> trail_inv (ix_vault db')"
proof
  assume trail: "trail_inv (ix_vault db')"
  let ?rs = "vd_vaults (ix_vault db)" and ?rs' = "vd_vaults (ix_vault db')"
  note same = mutation_audit [OF assms(2)]
  have len: "length ?rs' = length ?rs" using arg_cong [where f = length, OF same [THEN conjunct2, THEN conjunct2]] by simp
  have "v_current_balance (?rs' ! k) = v_current_balance (?rs ! k)" if "k < length ?rs" for k
  proof -
    have "map v_id ?rs' ! k = map v_id ?rs ! k" using same by simp
    then have "v_id (?rs' ! k) = v_id (?rs ! k)" using that len by simp
    moreover have "audit_chain 0 (vault_rows (v_id (?rs ! k)) (vd_audit (ix_vault db))) (v_current_balance (?rs ! k))"
      using assms(1) that nth_mem [of k ?rs] by (simp add: trail_inv_def list_all_iff vault_ok_def)
    moreover have "audit_chain 0 (vault_rows (v_id (?rs' ! k)) (vd_audit (ix_vault db))) (v_current_balance (?rs' ! k))"
      using trail that len same nth_mem [of k ?rs'] by (simp add: trail_inv_def list_all_iff vault_ok_def)
    ultimately show ?thesis by (auto dest: audit_chain_end)
  qed
  then have "map v_current_balance ?rs' = map v_current_balance ?rs" using len by (intro nth_equalityI) auto
  with assms(3) show False by simp
qed

text \<open>
  A page holds at most 200 events and the cursor is a ledger, so a ledger with more events
  than a page is never left: once its first page is recorded, every further poll asks for the
  same page and moves nothing.
\<close>

theorem full_ledger_stalls_the_indexer:
  assumes "ep_Fetcher p = Some fetch" and "getLastIndexedLedger False db = Inr c" and "0 < c"
    and "\<forall>contracts es latest. FetchEvents fetch contracts c = Some (es, latest) \<longrightarrow>
      es \<noteq> [] \<and> (\<forall>e \<in> set es. ev_Ledger e = c \<and> ev_ID e \<in> fst ` set (ix_processed db))"
    and "PollEvents D p env db = (r, calls, db')"
  shows "getLastIndexedLedger False db' = Inr c \<and> fst ` set (ix_processed db') = fst ` set (ix_processed db)"
proof -
  have cur: "cursor db = Inr c" using assms(2) by (simp add: cursor_def)
  from assms(1) cur assms(3) show ?thesis
  proof (cases rule: poll_cases [where D = D and env = env])
    case quiet
    then show ?thesis using assms(2,5) by simp
  next
    case (batch contracts es latest ob)
    obtain n err where r: "r = (n, err)" by (cases r)
    have page: "ev_Ledger e = c" "ev_ID e \<in> ids db" if "e \<in> set es" for e using assms(4) batch(2) that by (auto simp: ids_def)
    have res: "apply_batch D ob env 0 (sortEventsForApply es) db = ((n, err), calls, db')" using batch(4) assms(5) r by simp
    have "\<forall>e \<in> set (sortEventsForApply es). 0 \<le> ev_Ledger e" using page(1) assms(3) by auto
    from apply_batch_progress [OF res cur this] obtain k where
        k: "cursor db' = Inr (fold max (map ev_Ledger (take k (sortEventsForApply es))) c)"
           "ids db' = ids db \<union> ev_ID ` set (take k (sortEventsForApply es))" by blast
    have taken: "e \<in> set es" if "e \<in> set (take k (sortEventsForApply es))" for e using that set_take_subset by fastforce
    have "fold max (map ev_Ledger (take k (sortEventsForApply es))) c = c"
      using fold_max_mem [of "map ev_Ledger (take k (sortEventsForApply es))" c] page(1) taken by auto
    moreover have "ids db' = ids db" using k(2) page(2) taken by auto
    ultimately show ?thesis using k(1) by (simp add: cursor_def ids_def)
  next
    case (tip contracts latest)
    then show ?thesis using assms(4) by blast
  qed
qed
end
