(* ===== verification/Backfill_Properties.thy ===== *)
theory Backfill_Properties
  imports Indexer_Examples
begin

text \<open>
  A backfill returns, stays clear of the network's head and of ledgers outside its range, and
  a dry run writes no event; what it does not guarantee is at the end.
\<close>

section \<open>A pass of the loop\<close>

lemma wrapU64_id: "0 \<le> n \<Longrightarrow> n \<le> max_uint64 \<Longrightarrow> wrapU64 n = n"
  by (simp add: wrapU64_def max_uint64_def)

lemma page_events:
  assumes "fetchSorobanEventsRange g cs from to = Inr page" and "e \<in> set (pg_Events page)"
  shows "ev_Ledger e \<le> to"
  using assms by (auto simp: fetchSorobanEventsRange_def to_indexed_def Let_def split: if_splits rpc_result.splits)

lemma run_pass_Inr:
  assumes "run_pass D env k cur run db = (Inr (cur', run'), db')"
  obtains head page b processed skipped ix where "headLedgerMinusMargin (rv_rpc env (2 * k)) (run_ContractIDs run) = Inr head"
    "b = min (wrapU64 (cur + backfillBatchLedgers - 1)) (min (run_ToLedger run) head)" "cur \<le> b"
    "fetchSorobanEventsRange (rv_rpc env (2 * k + 1)) (run_ContractIDs run) cur b = Inr page"
    "run_batch D (run_DryRun run) (rv_event env k) 0 (pg_Events page) (run_EventsProcessed run) (run_EventsSkippedDuplicate run) (bf_index db)
       = ((None, processed, skipped), ix)"
    "bf_index db' = ix" "cur' = wrapU64 (b + 1)"
    "run' = run\<lparr>run_LastLedgerDone := Some b, run_EventsProcessed := processed, run_EventsSkippedDuplicate := skipped\<rparr>"
proof -
  obtain head where head: "headLedgerMinusMargin (rv_rpc env (2 * k)) (run_ContractIDs run) = Inr head"
    using assms by (cases "headLedgerMinusMargin (rv_rpc env (2 * k)) (run_ContractIDs run)") (simp_all add: run_pass_def)
  define b where "b = min (wrapU64 (cur + backfillBatchLedgers - 1)) (min (run_ToLedger run) head)"
  have b: "\<not> b < cur" using assms head by (auto simp: run_pass_def Let_def b_def)
  obtain page where page: "fetchSorobanEventsRange (rv_rpc env (2 * k + 1)) (run_ContractIDs run) cur b = Inr page"
    using assms head b by (cases "fetchSorobanEventsRange (rv_rpc env (2 * k + 1)) (run_ContractIDs run) cur b")
      (simp_all add: run_pass_def Let_def b_def [symmetric])
  obtain err processed skipped ix where batch: "run_batch D (run_DryRun run) (rv_event env k) 0 (pg_Events page) (run_EventsProcessed run)
      (run_EventsSkippedDuplicate run) (bf_index db) = ((err, processed, skipped), ix)" by (metis prod.exhaust)
  have err: "err = None" using assms head b page batch by (cases err) (simp_all add: run_pass_def Let_def b_def [symmetric])
  let ?run = "run\<lparr>run_LastLedgerDone := Some b, run_EventsProcessed := processed, run_EventsSkippedDuplicate := skipped\<rparr>"
  have "cur' = wrapU64 (b + 1) \<and> run' = ?run \<and> bf_index db' = ix"
  proof (cases "run_DryRun run")
    case True
    then show ?thesis using assms head b page batch err by (auto simp: run_pass_def Let_def b_def [symmetric])
  next
    case False
    obtain e db2 where up: "BackfillRepository_UpdateProgress (rv_progress env k) (run_ID run) b processed skipped (db\<lparr>bf_index := ix\<rparr>) = (e, db2)"
      by (metis prod.exhaust)
    then have "bf_index db2 = ix" by (auto simp: BackfillRepository_UpdateProgress_def update_run_def split: if_splits sum.splits)
    then show ?thesis using assms head b page batch err up False by (cases e) (auto simp: run_pass_def Let_def b_def [symmetric])
  qed
  then show thesis using that [OF head b_def _ page] b batch err by auto
qed

lemma run_pass_cursor:
  assumes "run_pass D env k cur run db = (Inr (cur', run'), db')"
  shows "\<exists>b. cur \<le> b \<and> b \<le> run_ToLedger run \<and> cur' = wrapU64 (b + 1) \<and> run_ToLedger run' = run_ToLedger run"
proof -
  obtain head b processed skipped where b: "b = min (wrapU64 (cur + backfillBatchLedgers - 1)) (min (run_ToLedger run) head)" "cur \<le> b"
      "cur' = wrapU64 (b + 1)"
      "run' = run\<lparr>run_LastLedgerDone := Some b, run_EventsProcessed := processed, run_EventsSkippedDuplicate := skipped\<rparr>"
    by (rule run_pass_Inr [OF assms])
  have "b \<le> run_ToLedger run" using b(1) by simp
  then show ?thesis using b(2-4) by (intro exI [of _ b]) simp
qed

section \<open>Termination\<close>

lemma run_loop_returns:
  assumes "0 \<le> cur" and "run_ToLedger run \<le> max64"
  shows "\<exists>r. run_loop D env k cur run db = Some r"
  using assms
proof (induction "nat (run_ToLedger run + 1 - cur)" arbitrary: k cur run db rule: less_induct)
  case less
  show ?case
  proof (cases "run_ToLedger run < cur")
    case False
    show ?thesis
    proof (cases "run_pass D env k cur run db")
      case (Pair res db')
      show ?thesis
      proof (cases res)
        case (Inr p)
        obtain cur' run' where p: "p = (cur', run')" by (cases p)
        from Pair Inr p obtain b where b: "cur \<le> b" "b \<le> run_ToLedger run" "cur' = wrapU64 (b + 1)" "run_ToLedger run' = run_ToLedger run"
          using run_pass_cursor by blast
        then have "cur' = b + 1" using less.prems wrapU64_id [of "b + 1"] by (simp add: max64_def max_uint64_def)
        then have "\<exists>r. run_loop D env (Suc k) cur' run' db' = Some r"
          using less.hyps [of run' cur' "Suc k" db'] b False less.prems by simp
        then show ?thesis using Pair Inr p False by (subst run_loop.simps) simp
      qed (use Pair False in \<open>subst run_loop.simps, simp\<close>)
    qed
  qed (subst run_loop.simps, simp)
qed

lemma fold_max_bound: "fold max (map f xs) (c :: int) \<le> m \<longleftrightarrow> c \<le> m \<and> (\<forall>x \<in> set xs. f x \<le> m)"
  by (simp add: fold_max_le)

lemma scan_types_returns:
  assumes "0 \<le> cur" and "to < max_uint64"
  shows "\<exists>r. scan_types rpc cs k cur to found = Some r"
  using assms(1)
proof (induction "nat (to + 1 - cur)" arbitrary: k cur found rule: less_induct)
  case less
  show ?case
  proof (cases "to < cur")
    case False
    show ?thesis
    proof (cases "fetchSorobanEventsRange (rpc k) cs cur to")
      case (Inr page)
      have "pg_NextLedger page > cur \<or> \<not> pg_HasMore page"
      proof (cases "cs = []")
        case True
        then show ?thesis using Inr by (auto simp: fetchSorobanEventsRange_def)
      next
        case ne: False
        then obtain latest raws where raws: "rpc k cs cur = RpcResult latest raws"
          using Inr by (cases "rpc k cs cur") (auto simp: fetchSorobanEventsRange_def)
        let ?kept = "filter (\<lambda>w. rw_Ledger w \<le> to \<and> raw_event_type w \<noteq> []) raws"
        let ?m = "fold max (map rw_Ledger ?kept) cur"
        have m: "cur \<le> ?m" "?m \<le> to" using fold_max_ge fold_max_bound [of rw_Ledger ?kept cur to] False by auto
        have "pg_NextLedger page = wrapU64 (?m + 1)" using Inr raws ne by (auto simp: fetchSorobanEventsRange_def Let_def)
        then show ?thesis using wrapU64_id [of "?m + 1"] m less.prems assms(2) by simp
      qed
      then show ?thesis
        using Inr False less.hyps [of "pg_NextLedger page"] less.prems
        by (subst scan_types.simps) (auto simp: Let_def)
    qed (use False in \<open>subst scan_types.simps, simp\<close>)
  qed (subst scan_types.simps, simp)
qed

lemma execute_returns:
  assumes "0 \<le> ResumeFrom run" and "run_ToLedger run \<le> max64"
  shows "\<exists>r. finish_run env (Runner_execute D env run db) = Some r"
proof -
  have "\<exists>r. run_loop D env 0 (ResumeFrom run) run db1 = Some r" for db1 by (rule run_loop_returns [OF assms])
  then have "\<exists>r. Runner_execute D env run db = Some r"
    by (auto simp: Runner_execute_def Let_def split: sum.splits prod.splits option.splits) (metis option.distinct(1))+
  then show ?thesis by (auto simp: finish_run_def split: prod.splits option.splits)
qed

lemma create_Inr:
  "BackfillRepository_Create f n run db = (Inr run', db') \<Longrightarrow>
   run_ToLedger run' = run_ToLedger run \<and> run_FromLedger run' = run_FromLedger run \<and> run_LastLedgerDone run' = run_LastLedgerDone run
   \<and> run_DryRun run' = run_DryRun run \<and> bf_index db' = bf_index db"
  by (auto simp: BackfillRepository_Create_def Let_def split: if_splits sum.splits)

text \<open>
  C29: A run over any range of ledgers the table can store returns, whatever the RPC answers,
  rebuild or backfill, fresh or resumed.
\<close>

theorem backfill_returns:
  assumes "0 \<le> si_FromLedger i" and "si_ToLedger i \<le> max64"
    and "list_all (\<lambda>r. 0 \<le> run_FromLedger r \<and> run_ToLedger r \<le> max64) (bf_runs db)"
  shows "(\<exists>r. Runner_Start D env preflight i db = Some r) \<and> (\<exists>r. Runner_Resume D env fault runID db = Some r)"
proof
  have "si_ToLedger i < max_uint64" using assms(2) by (simp add: max64_def max_uint64_def)
  then have scan: "\<exists>r. NonResettableEventTypesInRange preflight cs (si_FromLedger i) (si_ToLedger i) = Some r" for cs
    using scan_types_returns [OF assms(1), of "si_ToLedger i" preflight cs 0 "[]"] by (auto simp: NonResettableEventTypesInRange_def)
  have exec: "\<exists>r. finish_run env (Runner_execute D env run' db') = Some r"
    if "BackfillRepository_Create f n run db = (Inr run', db')" "run_FromLedger run = si_FromLedger i" "run_ToLedger run = si_ToLedger i"
      "run_LastLedgerDone run = None" for f n run run' db'
    using execute_returns [of run' env D db'] create_Inr [OF that(1)] that assms by (simp add: ResumeFrom_def)
  show "\<exists>r. Runner_Start D env preflight i db = Some r"
  proof -
    define mode where "mode = (if si_Mode i = [] then ModeBackfill else si_Mode i)"
    let ?cs = "if si_ContractIDs i = [] then loadVaultContractIDs (rv_contracts env) (bf_index db) else Inr (si_ContractIDs i)"
    let ?bad = "\<lambda>cs. if mode = ModeRebuild then NonResettableEventTypesInRange preflight cs (si_FromLedger i) (si_ToLedger i) else Some (Inr [])"
    let ?run = "\<lambda>cs. \<lparr>run_ID = uuid_Nil, run_FromLedger = si_FromLedger i, run_ToLedger = si_ToLedger i, run_ContractIDs = cs,
      run_Mode = mode, run_DryRun = si_DryRun i, run_Status = [], run_LastLedgerDone = None, run_EventsProcessed = 0,
      run_EventsSkippedDuplicate = 0, run_LastError = False, run_InitiatedBy = si_InitiatedBy i\<rparr>"
    let ?create = "\<lambda>cs. BackfillRepository_Create (rv_create env) (rv_newID env) (?run cs) db"
    show ?thesis
    proof (cases "si_ToLedger i < si_FromLedger i \<or> trim_space (si_InitiatedBy i) = [] \<or> mode \<noteq> ModeBackfill \<and> mode \<noteq> ModeRebuild")
      case True
      then show ?thesis unfolding Runner_Start_def Let_def mode_def [symmetric] by auto
    next
      case valid: False
      show ?thesis
      proof (cases ?cs)
        case (Inl err)
        then show ?thesis using valid unfolding Runner_Start_def Let_def mode_def [symmetric] by simp
      next
        case cs: (Inr cs)
        obtain bad where bad: "?bad cs = Some bad" using scan [of cs] by (cases "mode = ModeRebuild") auto
        show ?thesis
        proof (cases "bad = Inr []")
          case True
          show ?thesis
            using valid cs bad True exec [of "rv_create env" "rv_newID env" "?run cs"]
            unfolding Runner_Start_def Let_def mode_def [symmetric] by (cases "?create cs"; cases "fst (?create cs)") auto
        next
          case False
          then show ?thesis using valid cs bad unfolding Runner_Start_def Let_def mode_def [symmetric] by (cases bad) auto
        qed
      qed
    qed
  qed
  have "\<exists>r. finish_run env (Runner_execute D env run db) = Some r" if "find (\<lambda>r. run_ID r = runID) (bf_runs db) = Some run" for run
    using find_SomeD [OF that] assms(3) by (intro execute_returns) (auto simp: list_all_iff ResumeFrom_def wrapU64_def split: option.splits)
  then show "\<exists>r. Runner_Resume D env fault runID db = Some r"
    by (auto simp: Runner_Resume_def BackfillRepository_GetByID_def split: option.splits sum.splits if_splits)
qed

text \<open>Range 0 to 10 with an RPC that answers nothing useful.\<close>

definition demo_run_env :: run_env where
  "demo_run_env = \<lparr>rv_rpc = (\<lambda>_ _ _. RpcResult 500 []), rv_event = (\<lambda>_ _. demo_index_env), rv_progress = (\<lambda>_. False),
     rv_complete = False, rv_fail = False, rv_reset = demo_index_env, rv_create = False, rv_newID = 77, rv_contracts = False\<rparr>"

definition demo_start :: "string \<Rightarrow> string \<Rightarrow> StartInput" where
  "demo_start mode c = \<lparr>si_FromLedger = 100, si_ToLedger = 220, si_ContractIDs = [c], si_Mode = mode, si_DryRun = False, si_InitiatedBy = ''ops''\<rparr>"

theorem backfill_returns_witness:
  "\<exists>r. Runner_Start rat_money demo_run_env (rv_rpc demo_run_env) (demo_start ''rebuild'' ''CA'') \<lparr>bf_index = demo_index, bf_runs = []\<rparr> = Some r"
  using backfill_returns [of "demo_start ''rebuild'' ''CA''" "\<lparr>bf_index = demo_index, bf_runs = []\<rparr>" rat_money demo_run_env "rv_rpc demo_run_env"]
  by (simp add: demo_start_def max64_def)

section \<open>What a run may touch\<close>

text \<open>The loops evaluate by their equations.\<close>

declare run_loop.simps [code] scan_types.simps [code]

lemma event_processed:
  "set (ix_processed (snd (applyIndexedEvent D env e db))) \<subseteq> insert (ev_ID e, ev_Ledger e) (set (ix_processed db))"
  using event_tx [OF refl, of D env e db] event_effect_processed [of D env e db] by (auto split: if_splits)

lemma run_batch_processed:
  "set (ix_processed (snd (run_batch D dry envs i es a b db)))
     \<subseteq> set (ix_processed db) \<union> (if dry then {} else (\<lambda>e. (ev_ID e, ev_Ledger e)) ` set es)"
proof (induction es arbitrary: i a b db)
  case (Cons e es)
  obtain r db1 where r: "applyIndexedEvent D (envs i) e db = (r, db1)" by (metis prod.exhaust)
  then have one: "set (ix_processed db1) \<subseteq> insert (ev_ID e, ev_Ledger e) (set (ix_processed db))"
    using event_processed [of D "envs i" e db] by simp
  show ?case
  proof (cases dry)
    case True
    then show ?thesis using Cons.IH [of "Suc i" "a + 1" b db] by simp
  next
    case False
    show ?thesis
      using False r one Cons.IH [of "Suc i" "a + 1" b db1] Cons.IH [of "Suc i" a "b + 1" db1] by (cases r) auto
  qed
qed simp

lemma progress_index: "bf_index (snd (BackfillRepository_UpdateProgress f i l p q db)) = bf_index db"
  by (simp add: BackfillRepository_UpdateProgress_def update_run_def split: sum.splits)

lemma complete_index: "bf_index (snd (BackfillRepository_Complete f i db)) = bf_index db"
  by (simp add: BackfillRepository_Complete_def update_run_def split: sum.splits)

text \<open>
  An event a run may record: delivered to a pass of it that starts at \<open>from\<close> or later, inside
  the run's range and below the safety margin of the head the same pass read.
\<close>

definition eligible :: "run_env \<Rightarrow> string list \<Rightarrow> int \<Rightarrow> int \<Rightarrow> string \<times> int \<Rightarrow> bool" where
  "eligible env cs from to p \<longleftrightarrow> (\<exists>k cur head b page e. from \<le> cur \<and> headLedgerMinusMargin (rv_rpc env (2 * k)) cs = Inr head
     \<and> b \<le> head \<and> b \<le> to \<and> fetchSorobanEventsRange (rv_rpc env (2 * k + 1)) cs cur b = Inr page
     \<and> e \<in> set (pg_Events page) \<and> p = (ev_ID e, ev_Ledger e))"

lemma run_pass_processed:
  "set (ix_processed (bf_index (snd (run_pass D env k cur run db)))) \<subseteq> set (ix_processed (bf_index db))
     \<union> (if run_DryRun run then {} else Collect (eligible env (run_ContractIDs run) cur (run_ToLedger run)))"
proof (cases "headLedgerMinusMargin (rv_rpc env (2 * k)) (run_ContractIDs run)")
  case head: (Inr head)
  define b where "b = min (wrapU64 (cur + backfillBatchLedgers - 1)) (min (run_ToLedger run) head)"
  show ?thesis
  proof (cases "b < cur")
    case False
    show ?thesis
    proof (cases "fetchSorobanEventsRange (rv_rpc env (2 * k + 1)) (run_ContractIDs run) cur b")
      case page: (Inr page)
      obtain err p q ix where batch: "run_batch D (run_DryRun run) (rv_event env k) 0 (pg_Events page) (run_EventsProcessed run)
          (run_EventsSkippedDuplicate run) (bf_index db) = ((err, p, q), ix)" by (metis prod.exhaust)
      have "bf_index (snd (run_pass D env k cur run db)) = ix"
        using head False page batch progress_index [of "rv_progress env k" "run_ID run" b p q "db\<lparr>bf_index := ix\<rparr>"]
        by (cases err) (auto simp: run_pass_def Let_def b_def [symmetric] split: prod.splits option.splits)
      moreover
      have "eligible env (run_ContractIDs run) cur (run_ToLedger run) (ev_ID e, ev_Ledger e)" if "e \<in> set (pg_Events page)" for e
      proof -
        have "b \<le> head" "b \<le> run_ToLedger run" by (simp_all add: b_def)
        then show ?thesis unfolding eligible_def using head page that order_refl [of cur] by blast
      qed
      then have "(\<lambda>e. (ev_ID e, ev_Ledger e)) ` set (pg_Events page) \<subseteq> Collect (eligible env (run_ContractIDs run) cur (run_ToLedger run))"
        by blast
      ultimately show ?thesis
        using run_batch_processed [of D "run_DryRun run" "rv_event env k" 0 "pg_Events page" "run_EventsProcessed run"
            "run_EventsSkippedDuplicate run" "bf_index db"] batch by (cases "run_DryRun run") (simp, force)
    qed (use head False in \<open>simp add: run_pass_def Let_def b_def [symmetric]\<close>)
  qed (use head in \<open>simp add: run_pass_def Let_def b_def [symmetric]\<close>)
qed (simp add: run_pass_def)

lemma run_loop_processed:
  assumes "run_loop D env k cur run db = Some r" and "from \<le> cur" and "0 \<le> cur" and "run_ToLedger run \<le> max64"
  shows "set (ix_processed (bf_index (snd r))) \<subseteq> set (ix_processed (bf_index db))
     \<union> (if run_DryRun run then {} else Collect (eligible env (run_ContractIDs run) from (run_ToLedger run)))"
  using assms
proof (induction "nat (run_ToLedger run + 1 - cur)" arbitrary: k cur run db rule: less_induct)
  case less
  have mono: "Collect (eligible env cs cur to) \<subseteq> Collect (eligible env cs from to)" for cs to
    using less.prems(2) order_trans [of "from" cur] unfolding eligible_def by blast
  show ?case
  proof (cases "run_ToLedger run < cur")
    case True
    then show ?thesis using less.prems(1) by (subst (asm) run_loop.simps) auto
  next
    case False
    obtain res db' where pass: "run_pass D env k cur run db = (res, db')" by (metis prod.exhaust)
    have one: "set (ix_processed (bf_index db')) \<subseteq> set (ix_processed (bf_index db))
        \<union> (if run_DryRun run then {} else Collect (eligible env (run_ContractIDs run) from (run_ToLedger run)))"
      using run_pass_processed [of D env k cur run db] mono [of "run_ContractIDs run" "run_ToLedger run"]
      unfolding pass by (auto split: if_splits)
    show ?thesis
    proof (cases res)
      case (Inl err)
      then show ?thesis using less.prems(1) False pass one by (subst (asm) run_loop.simps) auto
    next
      case (Inr p)
      obtain cur' run' where p: "p = (cur', run')" by (cases p)
      obtain head b pr sk where b: "cur \<le> b" "cur' = wrapU64 (b + 1)" "b = min (wrapU64 (cur + backfillBatchLedgers - 1)) (min (run_ToLedger run) head)"
          "run' = run\<lparr>run_LastLedgerDone := Some b, run_EventsProcessed := pr, run_EventsSkippedDuplicate := sk\<rparr>"
        using run_pass_Inr [OF pass [unfolded Inr p]] by metis
      have "b \<le> run_ToLedger run" using b(3) by simp
      then have cur': "cur' = b + 1" using b(1,2) less.prems wrapU64_id [of "b + 1"] by (simp add: max64_def max_uint64_def)
      have "run_loop D env (Suc k) cur' run' db' = Some r"
        using less.prems(1) False pass Inr p by (subst (asm) run_loop.simps) simp
      from less.hyps [OF _ this]
      have "set (ix_processed (bf_index (snd r))) \<subseteq> set (ix_processed (bf_index db'))
        \<union> (if run_DryRun run then {} else Collect (eligible env (run_ContractIDs run) from (run_ToLedger run)))"
        using b(1,4) cur' less.prems(2-4) False by (cases "run_DryRun run") simp_all
      with one show ?thesis by blast
    qed
  qed
qed

lemma reset_processed: "set (ix_processed (snd (resetScope env run db))) \<subseteq> set (ix_processed db)"
  by (auto simp: resetScope_def ix_tx_def ix_Inr split: sum.splits prod.splits commit_outcome.splits)

lemma execute_processed:
  assumes "Runner_execute D env run db = Some r" and "0 \<le> ResumeFrom run" and "run_ToLedger run \<le> max64"
  shows "set (ix_processed (bf_index (snd r))) \<subseteq> set (ix_processed (bf_index db))
     \<union> (if run_DryRun run then {} else Collect (eligible env (run_ContractIDs run) (ResumeFrom run) (run_ToLedger run)))"
proof -
  let ?reset = "if run_Mode run = ModeRebuild \<and> ResumeFrom run = run_FromLedger run \<and> \<not> run_DryRun run
     then resetScope (rv_reset env) run (bf_index db) else (Inr (), bf_index db)"
  obtain res ix where reset: "?reset = (res, ix)" by (metis prod.exhaust)
  then have ix: "set (ix_processed ix) \<subseteq> set (ix_processed (bf_index db))"
    using reset_processed [of "rv_reset env" run "bf_index db"] by (auto split: if_splits)
  show ?thesis
  proof (cases res)
    case (Inl err)
    then show ?thesis using assms(1) ix unfolding Runner_execute_def Let_def reset by auto
  next
    case (Inr u)
    obtain err run' db' where loop: "run_loop D env 0 (ResumeFrom run) run (db\<lparr>bf_index := ix\<rparr>) = Some ((err, run'), db')"
      and r: "bf_index (snd r) = bf_index db'"
      using assms(1) Inr complete_index [of "rv_complete env"] unfolding Runner_execute_def Let_def reset
      by (auto split: option.splits prod.splits) (metis snd_conv)+
    show ?thesis using run_loop_processed [OF loop order_refl assms(2,3)] ix r by auto
  qed
qed

text \<open>
  C30: Whatever a run has recorded when it ends, completed or failed: the events it has added were
  delivered by the RPC to this run, lie inside its range, from where it resumed to its last
  ledger, and at least the safety margin below the head; a dry run adds none. The RPC is
  assumed to answer from the ledger it was asked for.
\<close>

theorem backfill_stays_in_range:
  assumes "Runner_execute D env run db = Some ((err, run'), db')" and "0 \<le> ResumeFrom run" and "run_ToLedger run \<le> max64"
    and "\<forall>k cs start latest raws. rv_rpc env k cs start = RpcResult latest raws \<longrightarrow> list_all (\<lambda>w. start \<le> rw_Ledger w) raws"
    and "(x, l) \<in> set (ix_processed (bf_index db'))" and "(x, l) \<notin> set (ix_processed (bf_index db))"
  shows "\<not> run_DryRun run \<and> ResumeFrom run \<le> l \<and> l \<le> run_ToLedger run
    \<and> (\<exists>k head. headLedgerMinusMargin (rv_rpc env k) (run_ContractIDs run) = Inr head \<and> l \<le> head)"
proof -
  have dry: "\<not> run_DryRun run" and el: "eligible env (run_ContractIDs run) (ResumeFrom run) (run_ToLedger run) (x, l)"
    using execute_processed [OF assms(1-3)] assms(5,6) by (auto split: if_splits)
  obtain k cur head b page e where p: "ResumeFrom run \<le> cur" "headLedgerMinusMargin (rv_rpc env (2 * k)) (run_ContractIDs run) = Inr head"
      "b \<le> head" "b \<le> run_ToLedger run" "fetchSorobanEventsRange (rv_rpc env (2 * k + 1)) (run_ContractIDs run) cur b = Inr page"
      "e \<in> set (pg_Events page)" "l = ev_Ledger e"
    using el unfolding eligible_def by blast
  have "l \<le> b" using page_events [OF p(5,6)] p(7) by simp
  moreover have "cur \<le> l"
    using p(5-7) assms(4)
    by (auto simp: fetchSorobanEventsRange_def to_indexed_def Let_def list_all_iff split: if_splits rpc_result.splits)
  ultimately have "ResumeFrom run \<le> l" "l \<le> run_ToLedger run" "l \<le> head" using p(1,3,4) by simp_all
  then show ?thesis using dry p(2) by blast
qed

text \<open>A run over ledgers 100 to 120 that finds a deposit at 110.\<close>

definition demo_fill_env :: run_env where
  "demo_fill_env = demo_run_env\<lparr>rv_rpc := (\<lambda>_ _ start. RpcResult 500 (if start \<le> 110 then [demo_raw demo_e1] else []))\<rparr>"

definition demo_run :: "string \<Rightarrow> string \<Rightarrow> Run" where
  "demo_run mode c = \<lparr>run_ID = 77, run_FromLedger = 100, run_ToLedger = 120, run_ContractIDs = [c], run_Mode = mode, run_DryRun = False,
     run_Status = StatusRunning, run_LastLedgerDone = None, run_EventsProcessed = 0, run_EventsSkippedDuplicate = 0, run_LastError = False,
     run_InitiatedBy = ''ops''\<rparr>"

definition demo_filled :: "((backfill_error option \<times> Run) \<times> BackfillDB) option" where
  "demo_filled = Runner_execute rat_money demo_fill_env (demo_run ''backfill'' ''CA'')
     \<lparr>bf_index = demo_index, bf_runs = [demo_run ''backfill'' ''CA'']\<rparr>"

lemma demo_filled_processed:
  "map_option (\<lambda>((err, run), db). (err, run_Status run, ix_processed (bf_index db))) demo_filled = Some (None, ''completed'', [(''e1'', 110)])"
  by code_simp

theorem backfill_stays_in_range_witness:
  "\<exists>k head. headLedgerMinusMargin (rv_rpc demo_fill_env k) [''CA''] = Inr head \<and> 110 \<le> head"
proof -
  obtain run' db' where r: "demo_filled = Some ((None, run'), db')" and p: "ix_processed (bf_index db') = [(''e1'', 110)]"
    using demo_filled_processed by (auto split: prod.splits)
  have start: "ResumeFrom (demo_run ''backfill'' ''CA'') = 100" "run_ToLedger (demo_run ''backfill'' ''CA'') = 120"
      "run_ContractIDs (demo_run ''backfill'' ''CA'') = [''CA'']"
    by (simp_all add: ResumeFrom_def demo_run_def)
  have rpc: "\<forall>k cs start latest raws. rv_rpc demo_fill_env k cs start = RpcResult latest raws \<longrightarrow> list_all (\<lambda>w. start \<le> rw_Ledger w) raws"
    by (auto simp: demo_fill_env_def demo_run_env_def demo_raw_def demo_e1_def demo_chain_event_def)
  show ?thesis
    using backfill_stays_in_range [OF r [unfolded demo_filled_def] _ _ rpc, of "''e1''" 110] start p
    by (auto simp: max64_def demo_index_def)
qed

section \<open>Where a run does not do what it means to\<close>

text \<open>
  A page that is full is not continued: \<open>execute\<close> does not look at \<open>HasMore\<close>, checkpoints the
  batch and completes. Here 200 events of other kinds precede a deposit in the range.
\<close>

definition demo_full_page :: "nat \<Rightarrow> string list \<Rightarrow> int \<Rightarrow> rpc_result" where
  "demo_full_page k cs start = RpcResult 500 (take 200 (filter (\<lambda>w. start \<le> rw_Ledger w)
     (replicate 200 ((demo_raw demo_e1)\<lparr>rw_Topic := []\<rparr>) @ [demo_raw demo_e1])))"

lemma demo_full_page_range:
  assumes "start \<le> 110" and "110 \<le> b"
  shows "fetchSorobanEventsRange (demo_full_page k) [''CA''] start b
    = Inr \<lparr>pg_Events = [], pg_LatestLedger = 500, pg_NextLedger = wrapU64 (start + 1), pg_HasMore = True\<rparr>"
  using assms
  by (simp add: fetchSorobanEventsRange_def demo_full_page_def demo_raw_def demo_e1_def demo_chain_event_def raw_event_type_def
      list_ex_iff Let_def)

lemma demo_full_page_head: "headLedgerMinusMargin (demo_full_page k) [''CA''] = Inr 400"
  by (simp add: headLedgerMinusMargin_def fetchSorobanEventsRange_def demo_full_page_def backfillSafetyMargin_def Let_def)

lemma demo_full_page_scan: "fetchSorobanEventsRange (demo_full_page k) [''CA''] 111 120
    = Inr \<lparr>pg_Events = [], pg_LatestLedger = 500, pg_NextLedger = 112, pg_HasMore = False\<rparr>"
  by (simp add: fetchSorobanEventsRange_def demo_full_page_def demo_raw_def demo_e1_def demo_chain_event_def wrapU64_def Let_def)

theorem backfill_skips_the_rest_of_a_page:
  "map_option (\<lambda>((err, run), db). (err, run_Status run, run_LastLedgerDone run, ix_processed (bf_index db)))
     (Runner_execute rat_money (demo_fill_env\<lparr>rv_rpc := demo_full_page\<rparr>) (demo_run ''backfill'' ''CA'')
        \<lparr>bf_index = demo_index, bf_runs = [demo_run ''backfill'' ''CA'']\<rparr>) = Some (None, ''completed'', Some 120, [])"
proof -
  let ?run = "demo_run ''backfill'' ''CA''" and ?env = "demo_fill_env\<lparr>rv_rpc := demo_full_page\<rparr>"
  let ?db = "\<lparr>bf_index = demo_index, bf_runs = [?run]\<rparr>"
  have run: "run_ContractIDs ?run = [''CA'']" "run_ToLedger ?run = 120" "run_FromLedger ?run = 100" "\<not> run_DryRun ?run"
      "run_Mode ?run \<noteq> ModeRebuild" "ResumeFrom ?run = 100" "run_EventsProcessed ?run = 0" "run_EventsSkippedDuplicate ?run = 0"
    by (simp_all add: demo_run_def ResumeFrom_def ModeRebuild_def)
  have env: "\<not> rv_progress demo_fill_env 0" "\<not> rv_complete demo_fill_env"
    by (simp_all add: demo_fill_env_def demo_run_env_def)
  let ?run' = "?run\<lparr>run_LastLedgerDone := Some 120, run_EventsProcessed := 0, run_EventsSkippedDuplicate := 0\<rparr>"
  have "BackfillRepository_UpdateProgress False (run_ID ?run) 120 0 0 ?db = (None, ?db\<lparr>bf_runs := [?run']\<rparr>)" by code_simp
  then have pass: "run_pass rat_money ?env 0 100 ?run ?db = (Inr (121, ?run'), ?db\<lparr>bf_runs := [?run']\<rparr>)"
    using wrapU64_id [of 121] demo_full_page_head [of 0] demo_full_page_range [of 100 120 1]
    by (simp add: run_pass_def run env backfillBatchLedgers_def wrapU64_def Let_def)
  have "BackfillRepository_Complete False (run_ID ?run) (?db\<lparr>bf_runs := [?run']\<rparr>) = (None, ?db\<lparr>bf_runs := [?run'\<lparr>run_Status := ''completed''\<rparr>]\<rparr>)"
    by code_simp
  moreover have "run_loop rat_money ?env 0 100 ?run ?db = Some ((None, ?run'), ?db\<lparr>bf_runs := [?run']\<rparr>)"
    by (subst run_loop.simps, simp add: run pass, subst run_loop.simps, simp add: run)
  ultimately show ?thesis by (simp add: Runner_execute_def run env StatusCompleted_def demo_index_def)
qed

text \<open>The pre-flight scan goes on at the next ledger, so the rest of a full ledger is not seen: the deposit does not refuse the rebuild.\<close>

theorem rebuild_scan_misses_a_deposit:
  "NonResettableEventTypesInRange demo_full_page [''CA''] 110 120 = Some (Inr [])"
proof -
  have "scan_types demo_full_page [''CA''] 0 110 120 [] = Some (Inr [])"
    by (subst scan_types.simps, simp add: demo_full_page_range wrapU64_def, subst scan_types.simps, simp add: demo_full_page_scan)
  then show ?thesis by (simp add: NonResettableEventTypesInRange_def)
qed

text \<open>
  The reset forgets the processed events of every contract in its range, and before the safety
  margin is looked at. A rebuild of \<open>CB\<close> is refused for being close to the head, and the next
  poll credits the harvest of \<open>CA\<close> a second time.
\<close>

definition demo_harvest :: indexedEvent where "demo_harvest = demo_chain_event ''e4'' 120 ''harvest'' ''h4''"

definition demo_harvested :: IndexDB where
  "demo_harvested = snd (snd (PollEvents rat_money (demo_poller [demo_harvest]) demo_poll_env demo_index))"

definition demo_rebuilt :: "((backfill_error option \<times> Run option) \<times> BackfillDB) option" where
  "demo_rebuilt = Runner_Start rat_money (demo_run_env\<lparr>rv_rpc := (\<lambda>_ _ _. RpcResult 130 [])\<rparr>) (\<lambda>_ _ _. RpcResult 130 [])
     (demo_start ''rebuild'' ''CB'') \<lparr>bf_index = demo_harvested, bf_runs = []\<rparr>"

theorem rebuild_forgets_other_contracts:
  "map v_current_balance (vd_vaults (ix_vault demo_harvested)) = [5 / 2]
   \<and> map_option (\<lambda>((err, _), db). (err, map v_current_balance (vd_vaults (ix_vault
        (snd (snd (PollEvents rat_money (demo_poller [demo_harvest]) demo_poll_env (bf_index db)))))))) demo_rebuilt
      = Some (Some TooCloseToHead, [5])"
  by code_simp

end
