(* ===== verification/Idempotency.thy ===== *)
theory Idempotency
  imports Nester_Prelude
begin

text \<open>
  Idempotency keys: \<open>middleware/idempotency.go\<close>, the routes of \<open>middleware/ratelimit_routes.go\<close>
  and \<open>repository/postgres/idempotency_repository.go\<close> over the table of migration 090. SHA-256
  and \<open>uuid.Parse\<close> are arguments. A request is split where other requests can run: at the
  claim, around the handler, and at the statements that follow it.
\<close>

section \<open>Routes\<close>

record RouteMatch =
  rm_Method :: string
  rm_Path :: string

fun str_split :: "char \<Rightarrow> string \<Rightarrow> string list" where
  "str_split sep [] = [[]]"
| "str_split sep (c # s) =
     (if c = sep then [] # str_split sep s
      else (case str_split sep s of [] \<Rightarrow> [[c]] | w # ws \<Rightarrow> (c # w) # ws))"

definition str_trim :: "char \<Rightarrow> string \<Rightarrow> string" where
  "str_trim c s = rev (dropWhile (\<lambda>x. x = c) (rev (dropWhile (\<lambda>x. x = c) s)))"

definition splitPath :: "string \<Rightarrow> string list" where
  "splitPath p = (let p = str_trim CHR ''/'' p in if p = [] then [] else str_split CHR ''/'' p)"

definition isPathWildcard :: "string \<Rightarrow> bool" where
  "isPathWildcard seg \<longleftrightarrow> 2 \<le> length seg \<and> hd seg = CHR ''{'' \<and> last seg = CHR ''}''"

definition matchPathPattern :: "string \<Rightarrow> string \<Rightarrow> bool" where
  "matchPathPattern pattern path \<longleftrightarrow> pattern = path \<or>
     (let pSegs = splitPath pattern; pathSegs = splitPath path
      in length pSegs = length pathSegs \<and>
         list_all2 (\<lambda>seg s. if isPathWildcard seg then s \<noteq> [] else seg = s) pSegs pathSegs)"

definition matchesRoute :: "RouteMatch list \<Rightarrow> string \<Rightarrow> string \<Rightarrow> bool" where
  "matchesRoute routes method path \<longleftrightarrow> list_ex (\<lambda>rt. method = rm_Method rt \<and> matchPathPattern (rm_Path rt) path) routes"

definition VaultMoneyPathIdempotencyRoutes :: "RouteMatch list" where
  "VaultMoneyPathIdempotencyRoutes =
     [\<lparr>rm_Method = ''POST'', rm_Path = ''/api/v1/vaults/{id}/deposit''\<rparr>,
      \<lparr>rm_Method = ''POST'', rm_Path = ''/api/v1/vaults/{id}/withdraw''\<rparr>,
      \<lparr>rm_Method = ''POST'', rm_Path = ''/api/v1/vaults/{id}/harvest''\<rparr>,
      \<lparr>rm_Method = ''POST'', rm_Path = ''/api/v1/vaults/{id}/rebalance''\<rparr>,
      \<lparr>rm_Method = ''POST'', rm_Path = ''/api/v1/vault/rebalance''\<rparr>]"

section \<open>The table\<close>

record IdempotencyRow =
  ik_user :: uuid
  ik_key :: string
  ik_fingerprint :: string
  ik_status :: string
  ik_response_status :: "int option"
  ik_response_body :: "string option"
  ik_response_content_type :: "string option"
  ik_expires_at :: time

record IdempotencyDB =
  id_users :: "uuid list"
  id_rows :: "IdempotencyRow list"

record IdempotencyRecord =
  ir_Fingerprint :: string
  ir_Status :: string
  ir_ResponseStatus :: int
  ir_ResponseBody :: string
  ir_ResponseContentType :: string

datatype idem_error = ErrIdempotencyKeyNotFound | IdemServer pg_error | IdemFault | CtxDone

text \<open>A single statement: it may fail before it takes effect, or after, with its answer lost.\<close>

definition autocommit :: "commit_outcome \<Rightarrow> idem_error + 'a \<times> IdempotencyDB \<Rightarrow> IdempotencyDB \<Rightarrow> (idem_error + 'a) \<times> IdempotencyDB" where
  "autocommit out r db =
     (case out of
        NotCommitted \<Rightarrow> (Inl IdemFault, db)
      | Committed \<Rightarrow> (case r of Inl err \<Rightarrow> (Inl err, db) | Inr (x, db') \<Rightarrow> (Inr x, db'))
      | CommitUnacked \<Rightarrow> (case r of Inl err \<Rightarrow> (Inl IdemFault, db) | Inr (x, db') \<Rightarrow> (Inl IdemFault, db')))"

definition row_is :: "uuid \<Rightarrow> string \<Rightarrow> IdempotencyRow \<Rightarrow> bool" where
  "row_is u k r \<longleftrightarrow> ik_user r = u \<and> ik_key r = k"

definition IdempotencyRepository_Get :: "bool \<Rightarrow> uuid \<Rightarrow> string \<Rightarrow> IdempotencyDB \<Rightarrow> idem_error + IdempotencyRecord" where
  "IdempotencyRepository_Get fault userID key db =
     (if fault then Inl IdemFault
      else (case find (row_is userID key) (id_rows db) of
          None \<Rightarrow> Inl ErrIdempotencyKeyNotFound
        | Some r \<Rightarrow> Inr \<lparr>ir_Fingerprint = ik_fingerprint r, ir_Status = ik_status r,
            ir_ResponseStatus = (case ik_response_status r of None \<Rightarrow> 0 | Some n \<Rightarrow> n),
            ir_ResponseBody = (case ik_response_body r of None \<Rightarrow> [] | Some b \<Rightarrow> b),
            ir_ResponseContentType = (case ik_response_content_type r of None \<Rightarrow> [] | Some c \<Rightarrow> c)\<rparr>))"

definition insert_key :: "IdempotencyRow \<Rightarrow> IdempotencyDB \<Rightarrow> idem_error + bool \<times> IdempotencyDB" where
  "insert_key row db =
     (if ik_key row = [] then Inl (IdemServer (PgError ''23514'' ''idempotency_keys_key_check''))
      else if list_ex (row_is (ik_user row) (ik_key row)) (id_rows db) then Inr (False, db)
      else if ik_user row \<notin> set (id_users db) then Inl (IdemServer (PgError ''23503'' ''idempotency_keys_user_id_fkey''))
      else Inr (True, db\<lparr>id_rows := id_rows db @ [row]\<rparr>))"

text \<open>\<open>Some\<close> is the record of whoever holds the key, \<open>None\<close> that the caller now does.\<close>

definition IdempotencyRepository_Claim ::
  "commit_outcome \<Rightarrow> bool \<Rightarrow> time \<Rightarrow> uuid \<Rightarrow> string \<Rightarrow> string \<Rightarrow> duration \<Rightarrow> IdempotencyDB
   \<Rightarrow> (idem_error + IdempotencyRecord option) \<times> IdempotencyDB" where
  "IdempotencyRepository_Claim out getFault now userID key fingerprint ttl db =
     (case autocommit out (insert_key \<lparr>ik_user = userID, ik_key = key, ik_fingerprint = fingerprint, ik_status = ''in_progress'',
             ik_response_status = None, ik_response_body = None, ik_response_content_type = None, ik_expires_at = now + ttl\<rparr> db) db of
        (Inl err, db') \<Rightarrow> (Inl err, db')
      | (Inr True, db') \<Rightarrow> (Inr None, db')
      | (Inr False, db') \<Rightarrow> (map_sum id Some (IdempotencyRepository_Get getFault userID key db'), db'))"

definition int32 :: "int \<Rightarrow> bool" where "int32 n \<longleftrightarrow> - (2 ^ 31) \<le> n \<and> n < 2 ^ 31"

definition IdempotencyRepository_Complete ::
  "commit_outcome \<Rightarrow> uuid \<Rightarrow> string \<Rightarrow> int \<Rightarrow> string \<Rightarrow> string \<Rightarrow> IdempotencyDB \<Rightarrow> (idem_error + unit) \<times> IdempotencyDB" where
  "IdempotencyRepository_Complete out userID key status body contentType db =
     autocommit out
       (if \<not> int32 status then Inl (IdemServer (PgError ''22003'' []))
        else Inr ((), db\<lparr>id_rows := update_where (row_is userID key)
          (\<lambda>r. r\<lparr>ik_status := ''completed'', ik_response_status := Some status, ik_response_body := Some body,
                 ik_response_content_type := Some contentType\<rparr>) (id_rows db)\<rparr>)) db"

definition IdempotencyRepository_Release :: "commit_outcome \<Rightarrow> uuid \<Rightarrow> string \<Rightarrow> IdempotencyDB \<Rightarrow> (idem_error + unit) \<times> IdempotencyDB" where
  "IdempotencyRepository_Release out userID key db =
     autocommit out (Inr ((), db\<lparr>id_rows := filter (\<lambda>r. \<not> (row_is userID key r \<and> ik_status r = ''in_progress'')) (id_rows db)\<rparr>)) db"

definition IdempotencyRepository_PurgeExpired :: "commit_outcome \<Rightarrow> time \<Rightarrow> IdempotencyDB \<Rightarrow> (idem_error + nat) \<times> IdempotencyDB" where
  "IdempotencyRepository_PurgeExpired out now db =
     autocommit out (Inr (rows_affected (\<lambda>r. ik_expires_at r < now) (id_rows db),
       db\<lparr>id_rows := filter (\<lambda>r. \<not> ik_expires_at r < now) (id_rows db)\<rparr>)) db"

section \<open>The recording writer\<close>

record recordingResponseWriter =
  rw_status :: int
  rw_body :: string
  rw_wroteHeader :: bool

definition newRecordingResponseWriter :: recordingResponseWriter where
  "newRecordingResponseWriter = \<lparr>rw_status = 200, rw_body = [], rw_wroteHeader = False\<rparr>"

definition rw_WriteHeader :: "int \<Rightarrow> recordingResponseWriter \<Rightarrow> recordingResponseWriter" where
  "rw_WriteHeader status w = (if rw_wroteHeader w then w else w\<lparr>rw_wroteHeader := True, rw_status := status\<rparr>)"

definition rw_Write :: "string \<Rightarrow> recordingResponseWriter \<Rightarrow> recordingResponseWriter" where
  "rw_Write p w = (let w = (if rw_wroteHeader w then w else rw_WriteHeader 200 w) in w\<lparr>rw_body := rw_body w @ p\<rparr>)"

text \<open>What a handler did with the writer it was given, and the content type it left in the headers.\<close>

datatype write_call = CallWriteHeader int | CallWrite string

fun rw_call :: "write_call \<Rightarrow> recordingResponseWriter \<Rightarrow> recordingResponseWriter" where
  "rw_call (CallWriteHeader n) w = rw_WriteHeader n w"
| "rw_call (CallWrite p) w = rw_Write p w"

datatype handler_result = Returned "write_call list" string | Panicked

section \<open>The middleware\<close>

definition scopedIdempotencyKey :: "string \<Rightarrow> string \<Rightarrow> string \<Rightarrow> string" where
  "scopedIdempotencyKey method path clientKey = method @ '' '' @ path @ [CHR 0x1F] @ clientKey"

definition fingerprintRequest :: "(string \<Rightarrow> string) \<Rightarrow> string \<Rightarrow> string \<Rightarrow> string \<Rightarrow> string" where
  "fingerprintRequest sha256hex method path body = sha256hex (method @ [CHR 0x00] @ path @ [CHR 0x00] @ body)"

definition maxIdempotencyBodyBytes :: int where "maxIdempotencyBodyBytes = 1048576"
definition defaultIdempotencyTTL :: duration where "defaultIdempotencyTTL = 24 * hour"
definition concurrentWaitTotal :: duration where "concurrentWaitTotal = 2 * second"
definition concurrentWaitPoll :: duration where "concurrentWaitPoll = 100 * millisecond"
definition completeMaxRetries :: nat where "completeMaxRetries = 3"

record HttpRequest =
  hq_Method :: string
  hq_Path :: string
  hq_User :: "string option"
  hq_IdempotencyKey :: string
  hq_Body :: "string option"

datatype HttpResponse =
    HttpError int
  | Replayed int string string
  | Handled int string string

datatype gate =
    PassThrough
  | Refused HttpResponse
  | Execute uuid string string
  | Existing uuid string string IdempotencyRecord

record idem_ops =
  io_parseUUID :: "string \<Rightarrow> uuid option"
  io_sha256hex :: "string \<Rightarrow> string"

text \<open>Everything up to and including the claim.\<close>

definition idempotency_gate ::
  "idem_ops \<Rightarrow> RouteMatch list \<Rightarrow> commit_outcome \<Rightarrow> bool \<Rightarrow> time \<Rightarrow> HttpRequest \<Rightarrow> IdempotencyDB \<Rightarrow> gate \<times> IdempotencyDB" where
  "idempotency_gate ops routes out getFault now r db =
     (if \<not> matchesRoute routes (hq_Method r) (hq_Path r) then (PassThrough, db)
      else (case hq_User r of None \<Rightarrow> (Refused (HttpError 500), db) | Some uid \<Rightarrow>
        case io_parseUUID ops uid of None \<Rightarrow> (Refused (HttpError 500), db) | Some userID \<Rightarrow>
        if hq_IdempotencyKey r = [] then (Refused (HttpError 400), db)
        else (case hq_Body r of None \<Rightarrow> (Refused (HttpError 400), db) | Some body \<Rightarrow>
          if maxIdempotencyBodyBytes < int (length body) then (Refused (HttpError 413), db)
          else (let key = scopedIdempotencyKey (hq_Method r) (hq_Path r) (hq_IdempotencyKey r);
                    fingerprint = fingerprintRequest (io_sha256hex ops) (hq_Method r) (hq_Path r) body
                in case IdempotencyRepository_Claim out getFault now userID key fingerprint defaultIdempotencyTTL db of
                     (Inl err, db') \<Rightarrow> (Refused (HttpError 500), db')
                   | (Inr None, db') \<Rightarrow> (Execute userID key fingerprint, db')
                   | (Inr (Some existing), db') \<Rightarrow> (Existing userID key fingerprint existing, db')))))"

definition writeStoredResponse :: "IdempotencyRecord \<Rightarrow> HttpResponse" where
  "writeStoredResponse rec =
     Replayed (if ir_ResponseStatus rec = 0 then 200 else ir_ResponseStatus rec) (ir_ResponseBody rec) (ir_ResponseContentType rec)"

text \<open>
  The wait for a concurrent request: \<open>clock i\<close> is what the \<open>i\<close>-th reading of the clock returns,
  \<open>get i\<close> what the store answers after the \<open>i\<close>-th sleep.
\<close>

partial_function (option) wait_existing ::
  "(nat \<Rightarrow> time) \<Rightarrow> (nat \<Rightarrow> idem_error + IdempotencyRecord) \<Rightarrow> time \<Rightarrow> nat \<Rightarrow> HttpResponse option" where
  "wait_existing clock get deadline i =
     (if \<not> clock i < deadline then Some (HttpError 425)
      else (case get i of
          Inl err \<Rightarrow> if err = ErrIdempotencyKeyNotFound then Some (HttpError 425) else wait_existing clock get deadline (Suc i)
        | Inr rec \<Rightarrow>
          if ir_Status rec = ''completed'' then Some (writeStoredResponse rec) else wait_existing clock get deadline (Suc i)))"

definition serveExisting ::
  "(nat \<Rightarrow> time) \<Rightarrow> (nat \<Rightarrow> idem_error + IdempotencyRecord) \<Rightarrow> string \<Rightarrow> IdempotencyRecord \<Rightarrow> HttpResponse option" where
  "serveExisting clock get fingerprint existing =
     (if ir_Fingerprint existing \<noteq> fingerprint then Some (HttpError 409)
      else if ir_Status existing = ''completed'' then Some (writeStoredResponse existing)
      else wait_existing clock get (clock 0 + concurrentWaitTotal) 1)"

text \<open>
  \<open>cancelled i\<close>: the request's context is done when attempt \<open>i\<close> is made. A statement on a
  done context is not sent.
\<close>

function completeWithRetry ::
  "(nat \<Rightarrow> bool) \<Rightarrow> (nat \<Rightarrow> commit_outcome) \<Rightarrow> uuid \<Rightarrow> string \<Rightarrow> int \<Rightarrow> string \<Rightarrow> string \<Rightarrow> idem_error option \<Rightarrow> nat \<Rightarrow> IdempotencyDB
   \<Rightarrow> idem_error option \<times> IdempotencyDB" where
  "completeWithRetry cancelled outs userID key status body contentType err attempt db =
     (if \<not> attempt < completeMaxRetries then (err, db)
      else if 0 < attempt \<and> cancelled attempt then (Some CtxDone, db)
      else (case (if cancelled attempt then (Inl CtxDone, db)
                  else IdempotencyRepository_Complete (outs attempt) userID key status body contentType db) of
          (Inr _, db') \<Rightarrow> (None, db')
        | (Inl e, db') \<Rightarrow> completeWithRetry cancelled outs userID key status body contentType (Some e) (Suc attempt) db'))"
  by pat_completeness auto
termination
  by (relation "measure (\<lambda>(_, _, _, _, _, _, _, _, attempt, _). completeMaxRetries - attempt)") (auto simp: completeMaxRetries_def)

text \<open>After the handler: the response is stored, or the claim is given up.\<close>

definition after_handler ::
  "(nat \<Rightarrow> bool) \<Rightarrow> (nat \<Rightarrow> commit_outcome) \<Rightarrow> commit_outcome \<Rightarrow> uuid \<Rightarrow> string \<Rightarrow> handler_result \<Rightarrow> IdempotencyDB
   \<Rightarrow> HttpResponse option \<times> IdempotencyDB" where
  "after_handler cancelled outs rel userID key result db =
     (case result of
        Panicked \<Rightarrow> (None, snd (IdempotencyRepository_Release rel userID key db))
      | Returned calls contentType \<Rightarrow>
        (let rec = fold rw_call calls newRecordingResponseWriter;
             response = Handled (rw_status rec) (rw_body rec) contentType
         in case completeWithRetry cancelled outs userID key (rw_status rec) (rw_body rec) contentType None 0 db of
              (None, db') \<Rightarrow> (Some response, db')
            | (Some _, db') \<Rightarrow> (Some response, snd (IdempotencyRepository_Release rel userID key db'))))"

end
