(* ===== verification/Idempotency_Properties.thy ===== *)
theory Idempotency_Properties
  imports Idempotency
begin

text \<open>
  A handler behind the middleware runs once per claim of its key, and a repeated request is
  answered with what the first was answered.
\<close>

section \<open>Requests side by side\<close>

text \<open>
  The table, the requests whose handler is running, and what has happened so far: handlers
  started, claims deleted, answers given.
\<close>

type_synonym claim_id = "uuid \<times> string"

record idem_state =
  is_db :: IdempotencyDB
  is_live :: "(uuid \<times> string \<times> string) list"
  is_runs :: "claim_id list"
  is_freed :: "claim_id list"
  is_sent :: "(uuid \<times> string \<times> string \<times> int \<times> string \<times> string) list"

definition row_id :: "IdempotencyRow \<Rightarrow> claim_id" where "row_id r = (ik_user r, ik_key r)"

definition row_ids :: "IdempotencyDB \<Rightarrow> claim_id list" where "row_ids db = map row_id (id_rows db)"

definition deleted :: "IdempotencyDB \<Rightarrow> IdempotencyDB \<Rightarrow> claim_id list" where
  "deleted db db' = filter (\<lambda>p. p \<notin> set (row_ids db')) (row_ids db)"

definition live_id :: "uuid \<times> string \<times> string \<Rightarrow> claim_id" where "live_id l = (fst l, fst (snd l))"

text \<open>
  Requests of any number of processes: one arrives, one whose handler has ended stores its
  answer, one dies with its process, and expired rows are purged. A handler is taken to end
  within the 24 hours its claim is kept.
\<close>

inductive idem_step :: "idem_ops \<Rightarrow> RouteMatch list \<Rightarrow> idem_state \<Rightarrow> idem_state \<Rightarrow> bool" for ops routes where
  arrive: "idempotency_gate ops routes out getFault now r (is_db s) = (g, db') \<Longrightarrow> started = (case g of Execute u k f \<Rightarrow> [(u, k, f)] | _ \<Rightarrow> []) \<Longrightarrow>
     idem_step ops routes s (s\<lparr>is_db := db', is_live := is_live s @ started, is_runs := is_runs s @ map live_id started\<rparr>)"
| finish: "(u, k, f) \<in> set (is_live s) \<Longrightarrow> after_handler cancelled outs rel u k result (is_db s) = (answer, db') \<Longrightarrow>
     idem_step ops routes s (s\<lparr>is_db := db', is_live := remove1 (u, k, f) (is_live s), is_freed := is_freed s @ deleted (is_db s) db',
       is_sent := is_sent s @ (case answer of Some (Handled st b c) \<Rightarrow> [(u, k, f, st, b, c)] | _ \<Rightarrow> [])\<rparr>)"
| crash: "idem_step ops routes s (s\<lparr>is_live := remove1 l (is_live s)\<rparr>)"
| purge: "IdempotencyRepository_PurgeExpired out now (is_db s) = (res, db') \<Longrightarrow>
     list_all (\<lambda>l. list_all (\<lambda>r. row_id r = live_id l \<longrightarrow> now \<le> ik_expires_at r) (id_rows (is_db s))) (is_live s) \<Longrightarrow>
     idem_step ops routes s (s\<lparr>is_db := db', is_freed := is_freed s @ deleted (is_db s) db'\<rparr>)"

definition idem_init :: "idem_state \<Rightarrow> bool" where
  "idem_init s \<longleftrightarrow> id_rows (is_db s) = [] \<and> is_live s = [] \<and> is_runs s = [] \<and> is_freed s = [] \<and> is_sent s = []"

section \<open>What the operations do to the table\<close>

lemma row_is_id: "row_is u k r \<longleftrightarrow> row_id r = (u, k)"
  by (auto simp: row_is_def row_id_def)

declare completeWithRetry.simps [simp del]

lemma insert_key_Inr:
  "insert_key row db = Inr (b, db') \<Longrightarrow>
   (if b then row_id row \<notin> set (row_ids db) \<and> db' = db\<lparr>id_rows := id_rows db @ [row]\<rparr> else db' = db)"
  by (auto simp: insert_key_def row_ids_def row_is_id list_ex_iff row_id_def [of row] split: if_splits)

lemma autocommit_cases:
  assumes "autocommit out r db = (res, db')"
  obtains "db' = db" "\<exists>e. res = Inl e" | x where "r = Inr (x, db')" "res = Inr x \<or> res = Inl IdemFault"
  using assms by (cases out; cases r) (auto simp: autocommit_def split: prod.splits)

lemma Key_Claim_cases:
  assumes "IdempotencyRepository_Claim out gf now u k f ttl db = (res, db')"
  obtains (same) "db' = db" "res \<noteq> Inr None"
  | (new) row where "(u, k) \<notin> set (row_ids db)" "db' = db\<lparr>id_rows := id_rows db @ [row]\<rparr>" "row_id row = (u, k)"
      "ik_fingerprint row = f" "ik_status row = ''in_progress''"
proof -
  define row where "row = \<lparr>ik_user = u, ik_key = k, ik_fingerprint = f, ik_status = ''in_progress'',
      ik_response_status = None, ik_response_body = None, ik_response_content_type = None, ik_expires_at = now + ttl\<rparr>"
  obtain ins d where ins: "autocommit out (insert_key row db) db = (ins, d)" by (metis prod.exhaust)
  have d: "db' = d" "ins \<noteq> Inr True \<Longrightarrow> res \<noteq> Inr None"
    using assms ins by (auto simp: IdempotencyRepository_Claim_def row_def map_sum_def split: sum.splits bool.splits)
  from ins show thesis
  proof (cases rule: autocommit_cases)
    case 1
    then show thesis using same d by auto
  next
    case (2 b)
    show thesis
    proof (cases b)
      case True
      then show thesis using new [of row] insert_key_Inr [OF 2(1)] d(1) by (simp add: row_def row_id_def)
    next
      case False
      then have "db' = db" "res \<noteq> Inr None" using insert_key_Inr [OF 2(1)] 2(2) d by auto
      then show thesis by (rule same)
    qed
  qed
qed

lemma gate_cases:
  assumes "idempotency_gate ops routes out gf now r db = (g, db')"
  obtains (same) "db' = db" "\<And>u k f. g \<noteq> Execute u k f"
  | (new) u k f row where "(u, k) \<notin> set (row_ids db)" "db' = db\<lparr>id_rows := id_rows db @ [row]\<rparr>" "row_id row = (u, k)"
      "ik_fingerprint row = f" "ik_status row = ''in_progress''" "\<And>u' k' f'. g = Execute u' k' f' \<Longrightarrow> (u', k', f') = (u, k, f)"
proof (cases "\<exists>u k f res. IdempotencyRepository_Claim out gf now u k f defaultIdempotencyTTL db = (res, db') \<and>
    (\<forall>u' k' f'. g = Execute u' k' f' \<longrightarrow> (u', k', f') = (u, k, f) \<and> res = Inr None)")
  case True
  then obtain u k f res where "IdempotencyRepository_Claim out gf now u k f defaultIdempotencyTTL db = (res, db')"
    "\<And>u' k' f'. g = Execute u' k' f' \<Longrightarrow> (u', k', f') = (u, k, f) \<and> res = Inr None" by blast
  then show thesis by (cases rule: Key_Claim_cases) (use same new in blast)+
next
  case False
  then have "db' = db" "g \<noteq> Execute u k f" for u k f
    using assms by (auto simp: idempotency_gate_def Let_def split: if_splits option.splits sum.splits prod.splits)
  then show thesis by (rule same)
qed

definition completed :: "uuid \<Rightarrow> string \<Rightarrow> int \<Rightarrow> string \<Rightarrow> string \<Rightarrow> IdempotencyDB \<Rightarrow> IdempotencyDB" where
  "completed u k st b c db = db\<lparr>id_rows := update_where (row_is u k)
     (\<lambda>r. r\<lparr>ik_status := ''completed'', ik_response_status := Some st, ik_response_body := Some b, ik_response_content_type := Some c\<rparr>) (id_rows db)\<rparr>"

lemma completed_twice: "completed u k st b c (completed u k st b c db) = completed u k st b c db"
  by (auto simp: completed_def update_where_def row_is_def)

lemma Complete_cases:
  "IdempotencyRepository_Complete out u k st b c db = (res, db') \<Longrightarrow> db' = db \<and> (\<exists>e. res = Inl e) \<or> db' = completed u k st b c db"
  by (auto simp: IdempotencyRepository_Complete_def autocommit_def completed_def split: commit_outcome.splits if_splits)

lemma completeWithRetry_cases:
  assumes "completeWithRetry ca outs u k st b c err a db = (e, db')" and "db = d \<or> db = completed u k st b c d"
    and "completeMaxRetries \<le> a \<Longrightarrow> err \<noteq> None"
  shows "db' = d \<and> e \<noteq> None \<or> db' = completed u k st b c d"
  using assms
proof (induction "completeMaxRetries - a" arbitrary: err a db rule: less_induct)
  case less
  obtain res d1 where res: "(if ca a then (Inl CtxDone, db) else IdempotencyRepository_Complete (outs a) u k st b c db) = (res, d1)"
    by (metis prod.exhaust)
  then have d1: "d1 = db \<and> (\<exists>e. res = Inl e) \<or> d1 = completed u k st b c db" using Complete_cases by (auto split: if_splits)
  show ?case
  proof (cases "\<not> a < completeMaxRetries \<or> 0 < a \<and> ca a")
    case True
    then show ?thesis using less.prems by (subst (asm) completeWithRetry.simps) (auto split: if_splits)
  next
    case False
    have eq: "completeWithRetry ca outs u k st b c err a db = (case res of Inr _ \<Rightarrow> (None, d1)
        | Inl e \<Rightarrow> completeWithRetry ca outs u k st b c (Some e) (Suc a) d1)"
      unfolding completeWithRetry.simps [of ca outs u k st b c err a db] res using False by (auto split: sum.splits)
    show ?thesis
    proof (cases res)
      case (Inl x)
      then have "completeWithRetry ca outs u k st b c (Some x) (Suc a) d1 = (e, db')" using less.prems(1) eq by simp
      moreover have "d1 = d \<or> d1 = completed u k st b c d" using d1 less.prems(2) completed_twice by auto
      ultimately show ?thesis using less.hyps [of "Suc a" "Some x" d1] False by (simp add: diff_less_mono2)
    next
      case (Inr x)
      then have "db' = d1" using less.prems(1) eq by simp
      then show ?thesis using d1 Inr less.prems(2) completed_twice by auto
    qed
  qed
qed

lemma Release_cases:
  assumes "db' = snd (IdempotencyRepository_Release out u k db)"
  shows "db' = db \<or> db' = db\<lparr>id_rows := filter (\<lambda>r. \<not> (row_is u k r \<and> ik_status r = ''in_progress'')) (id_rows db)\<rparr>"
  using assms by (auto simp: IdempotencyRepository_Release_def autocommit_def split: commit_outcome.splits)

lemma release_completed:
  "filter (\<lambda>r. \<not> (row_is u k r \<and> ik_status r = ''in_progress'')) (id_rows (completed u k st b c db)) = id_rows (completed u k st b c db)"
  unfolding filter_id_conv by (simp add: completed_def ball_update_where row_is_def) blast

text \<open>A request that ends leaves the table as it is, stores its answer, or removes its own claim.\<close>

lemma after_handler_cases:
  assumes "after_handler ca outs rel u k result db = (answer, db')"
  obtains (same) "db' = db"
  | (stored) st b c where "db' = completed u k st b c db" "answer = Some (Handled st b c)"
  | (released) "db' = db\<lparr>id_rows := filter (\<lambda>r. \<not> (row_is u k r \<and> ik_status r = ''in_progress'')) (id_rows db)\<rparr>"
proof (cases result)
  case Panicked
  then have "db' = snd (IdempotencyRepository_Release rel u k db)" using assms by (simp add: after_handler_def)
  from Release_cases [OF this] show thesis using same released by blast
next
  case (Returned calls c)
  define w where "w = fold rw_call calls newRecordingResponseWriter"
  obtain e d where e: "completeWithRetry ca outs u k (rw_status w) (rw_body w) c None 0 db = (e, d)" by (metis prod.exhaust)
  then have d: "d = db \<and> e \<noteq> None \<or> d = completed u k (rw_status w) (rw_body w) c db"
    by (rule completeWithRetry_cases) (simp_all add: completeMaxRetries_def)
  have ans: "answer = Some (Handled (rw_status w) (rw_body w) c)" and
       db': "db' = d \<or> e \<noteq> None \<and> db' = snd (IdempotencyRepository_Release rel u k d)"
    using assms Returned e by (auto simp: after_handler_def Let_def w_def [symmetric] split: option.splits)
  show thesis
  proof (cases "d = completed u k (rw_status w) (rw_body w) c db")
    case True
    have "id_rows db' = id_rows d \<and> id_users db' = id_users d"
      using db' Release_cases [of db' rel u k d] release_completed True by auto
    then have "db' = d" by simp
    then show thesis using stored True ans by blast
  next
    case False
    then have "d = db" using d by blast
    then show thesis using db' Release_cases [of db' rel u k d] same released by blast
  qed
qed

section \<open>The invariant\<close>

definition live_ok :: "IdempotencyDB \<Rightarrow> uuid \<times> string \<times> string \<Rightarrow> bool" where
  "live_ok db l \<longleftrightarrow> (\<exists>r \<in> set (id_rows db). row_id r = live_id l \<and> ik_fingerprint r = snd (snd l) \<and> ik_status r = ''in_progress'')"

definition answer_ok :: "(uuid \<times> string \<times> string \<times> int \<times> string \<times> string) set \<Rightarrow> IdempotencyRow \<Rightarrow> bool" where
  "answer_ok sent r \<longleftrightarrow> (ik_status r = ''completed'' \<longrightarrow> (\<exists>st b c. ik_response_status r = Some st \<and> ik_response_body r = Some b
     \<and> ik_response_content_type r = Some c \<and> (ik_user r, ik_key r, ik_fingerprint r, st, b, c) \<in> sent))"

definition claims_counted :: "idem_state \<Rightarrow> bool" where
  "claims_counted s \<longleftrightarrow> (\<forall>p. count_list (is_runs s) p \<le> count_list (is_freed s) p + (if p \<in> set (row_ids (is_db s)) then 1 else 0))"

definition idem_inv :: "idem_state \<Rightarrow> bool" where
  "idem_inv s \<longleftrightarrow> distinct (row_ids (is_db s)) \<and> distinct (map live_id (is_live s))
   \<and> list_all (live_ok (is_db s)) (is_live s) \<and> list_all (answer_ok (set (is_sent s))) (id_rows (is_db s)) \<and> claims_counted s"

lemma answer_ok_mono: "answer_ok A r \<Longrightarrow> A \<subseteq> B \<Longrightarrow> answer_ok B r"
  unfolding answer_ok_def by blast

lemma count_deleted:
  "(if p \<in> set (row_ids db) then 1 else 0) \<le> count_list (deleted db db') p + (if p \<in> set (row_ids db') then 1 else 0)"
proof (cases "p \<in> set (row_ids db) \<and> p \<notin> set (row_ids db')")
  case True
  then have "p \<in> set (deleted db db')" by (simp add: deleted_def)
  then have "0 < count_list (deleted db db') p" by (metis count_list_0_iff gr0I)
  then show ?thesis by simp
qed auto

lemma claims_counted_deleted:
  "claims_counted s \<Longrightarrow> claims_counted (s\<lparr>is_db := db', is_live := ls, is_freed := is_freed s @ deleted (is_db s) db', is_sent := ms\<rparr>)"
  unfolding claims_counted_def
proof (rule allI)
  fix p
  assume "\<forall>p. count_list (is_runs s) p \<le> count_list (is_freed s) p + (if p \<in> set (row_ids (is_db s)) then 1 else 0)"
  then have "count_list (is_runs s) p \<le> count_list (is_freed s) p + (if p \<in> set (row_ids (is_db s)) then 1 else 0)" by blast
  with count_deleted [of p "is_db s" db']
  show "count_list (is_runs (s\<lparr>is_db := db', is_live := ls, is_freed := is_freed s @ deleted (is_db s) db', is_sent := ms\<rparr>)) p
    \<le> count_list (is_freed (s\<lparr>is_db := db', is_live := ls, is_freed := is_freed s @ deleted (is_db s) db', is_sent := ms\<rparr>)) p
      + (if p \<in> set (row_ids (is_db (s\<lparr>is_db := db', is_live := ls, is_freed := is_freed s @ deleted (is_db s) db', is_sent := ms\<rparr>))) then 1 else 0)"
    by simp
qed

text \<open>Removing rows that no running request holds.\<close>

lemma inv_filter:
  assumes "idem_inv s" and "\<And>l. l \<in> set ls \<Longrightarrow> \<forall>r \<in> set (id_rows (is_db s)). row_id r = live_id l \<longrightarrow> P r"
    and "set ls \<subseteq> set (is_live s)" and "distinct (map live_id ls)" and "set (is_sent s) \<subseteq> set ms"
  shows "idem_inv (s\<lparr>is_db := (is_db s)\<lparr>id_rows := filter P (id_rows (is_db s))\<rparr>, is_live := ls,
    is_freed := is_freed s @ deleted (is_db s) ((is_db s)\<lparr>id_rows := filter P (id_rows (is_db s))\<rparr>), is_sent := ms\<rparr>)"
proof -
  have "live_ok ((is_db s)\<lparr>id_rows := filter P (id_rows (is_db s))\<rparr>) l" if "l \<in> set ls" for l
  proof -
    have "live_ok (is_db s) l" using that assms(1,3) unfolding idem_inv_def list_all_iff by blast
    then obtain r where "r \<in> set (id_rows (is_db s))" "row_id r = live_id l" "ik_fingerprint r = snd (snd l)" "ik_status r = ''in_progress''"
      unfolding live_ok_def by blast
    then show ?thesis using assms(2) [OF that] by (auto simp: live_ok_def)
  qed
  moreover have "distinct (map row_id (filter P (id_rows (is_db s))))"
    using assms(1) by (auto simp: idem_inv_def row_ids_def intro: distinct_map_filter)
  moreover have "answer_ok (set ms) r" if "r \<in> set (id_rows (is_db s))" for r
    using answer_ok_mono [OF _ assms(5)] assms(1) that by (simp add: idem_inv_def list_all_iff)
  moreover have "claims_counted s" using assms(1) by (simp add: idem_inv_def)
  ultimately show ?thesis
    using assms(4) claims_counted_deleted [of s] by (simp add: idem_inv_def list_all_iff row_ids_def)
qed

lemma inv_same:
  assumes "idem_inv s" and "set ls \<subseteq> set (is_live s)" and "distinct (map live_id ls)" and "set (is_sent s) \<subseteq> set ms"
  shows "idem_inv (s\<lparr>is_db := is_db s, is_live := ls, is_freed := is_freed s @ deleted (is_db s) (is_db s), is_sent := ms\<rparr>)"
  using inv_filter [of s ls "\<lambda>_. True" ms] assms by simp

lemma distinct_remove1: "distinct (map f xs) \<Longrightarrow> distinct (map f (remove1 x xs))"
  by (induction xs) (auto dest: notin_set_remove1 simp: image_iff) 

lemma remove1_other: "distinct (map f ls) \<Longrightarrow> l \<in> set (remove1 x ls) \<Longrightarrow> x \<in> set ls \<Longrightarrow> f l \<noteq> f x"
  by (induction ls) (auto simp: image_iff split: if_splits dest: notin_set_remove1)

lemma inv_stored:
  assumes "idem_inv s" and "(u, k, f) \<in> set (is_live s)"
  shows "idem_inv (s\<lparr>is_db := completed u k st b c (is_db s), is_live := remove1 (u, k, f) (is_live s),
    is_freed := is_freed s @ deleted (is_db s) (completed u k st b c (is_db s)), is_sent := is_sent s @ [(u, k, f, st, b, c)]\<rparr>)"
proof -
  let ?db = "completed u k st b c (is_db s)"
  have ids: "row_ids ?db = row_ids (is_db s)" by (auto simp: row_ids_def completed_def update_where_def row_id_def)
  have inv: "distinct (row_ids (is_db s))" "distinct (map live_id (is_live s))" "list_all (live_ok (is_db s)) (is_live s)"
      "list_all (answer_ok (set (is_sent s))) (id_rows (is_db s))" "claims_counted s" using assms(1) by (simp_all add: idem_inv_def)
  have fp: "ik_fingerprint r = f" if r: "r \<in> set (id_rows (is_db s))" "row_is u k r" for r
  proof -
    obtain r' where "r' \<in> set (id_rows (is_db s))" "row_id r' = (u, k)" "ik_fingerprint r' = f"
      using inv(3) assms(2) by (force simp: list_all_iff live_ok_def live_id_def)
    then show ?thesis using distinct_map_unique [of row_id "id_rows (is_db s)" r r'] r inv(1) by (simp add: row_is_id row_ids_def)
  qed
  have "live_ok ?db l" if "l \<in> set (remove1 (u, k, f) (is_live s))" for l
  proof -
    have "live_id l \<noteq> (u, k)" using remove1_other [OF inv(2) that assms(2)] by (simp add: live_id_def)
    moreover have "live_ok (is_db s) l" using inv(3) that by (meson in_set_remove1 list_all_iff notin_set_remove1)
    ultimately show ?thesis by (force simp: live_ok_def completed_def set_update_where row_is_id image_iff)
  qed
  moreover have "answer_ok (insert (u, k, f, st, b, c) (set (is_sent s))) r" if "r \<in> set (id_rows ?db)" for r
    using that inv(4) fp unfolding completed_def
    by (auto elim!: in_update_whereE simp: list_all_iff row_is_def answer_ok_def)
  ultimately show ?thesis
    using inv ids by (auto simp: idem_inv_def list_all_iff intro!: claims_counted_deleted distinct_remove1)
qed

lemma inv_arrive:
  assumes "idem_inv s" and "(u, k) \<notin> set (row_ids (is_db s))" and "row_id row = (u, k)" and "ik_fingerprint row = f"
    and "ik_status row = ''in_progress''" and "started = [] \<or> started = [(u, k, f)]"
  shows "idem_inv (s\<lparr>is_db := (is_db s)\<lparr>id_rows := id_rows (is_db s) @ [row]\<rparr>, is_live := is_live s @ started,
    is_runs := is_runs s @ map live_id started\<rparr>)"
proof -
  let ?db = "(is_db s)\<lparr>id_rows := id_rows (is_db s) @ [row]\<rparr>"
  have inv: "distinct (row_ids (is_db s))" "distinct (map live_id (is_live s))" "list_all (live_ok (is_db s)) (is_live s)"
      "list_all (answer_ok (set (is_sent s))) (id_rows (is_db s))" "claims_counted s" using assms(1) by (simp_all add: idem_inv_def)
  have ids: "row_ids ?db = row_ids (is_db s) @ [(u, k)]" using assms(3) by (simp add: row_ids_def)
  have fresh: "(u, k) \<notin> live_id ` set (is_live s)" using inv(3) assms(2) by (force simp: list_all_iff live_ok_def row_ids_def image_iff)
  have "live_ok ?db l" if "live_ok (is_db s) l" for l using that by (auto simp: live_ok_def)
  moreover have "live_ok ?db (u, k, f)" using assms(3-5) by (simp add: live_ok_def live_id_def)
  moreover have "answer_ok (set (is_sent s)) row" using assms(5) by (simp add: answer_ok_def)
  moreover have "claims_counted (s\<lparr>is_db := ?db, is_live := is_live s @ started, is_runs := is_runs s @ map live_id started\<rparr>)"
  proof (unfold claims_counted_def, rule allI)
    fix p
    have "count_list (is_runs s) p \<le> count_list (is_freed s) p + (if p \<in> set (row_ids (is_db s)) then 1 else 0)"
      using inv(5) unfolding claims_counted_def by blast
    moreover have "started = [] \<or> map live_id started = [(u, k)]" using assms(6) by (auto simp: live_id_def)
    ultimately show "count_list (is_runs (s\<lparr>is_db := ?db, is_live := is_live s @ started, is_runs := is_runs s @ map live_id started\<rparr>)) p
      \<le> count_list (is_freed (s\<lparr>is_db := ?db, is_live := is_live s @ started, is_runs := is_runs s @ map live_id started\<rparr>)) p
        + (if p \<in> set (row_ids (is_db (s\<lparr>is_db := ?db, is_live := is_live s @ started, is_runs := is_runs s @ map live_id started\<rparr>))) then 1 else 0)"
      using assms(2) ids by (cases "p = (u, k)") auto
  qed
  moreover have "distinct (map live_id (is_live s @ started))" using inv(2) fresh assms(6) by (auto simp: live_id_def [of "(u, k, f)"])
  ultimately show ?thesis using inv(1,3,4) ids assms(2,6) by (auto simp: idem_inv_def list_all_iff simp del: map_append)
qed

lemma idem_step_inv: "idem_step ops routes s t \<Longrightarrow> idem_inv s \<Longrightarrow> idem_inv t"
proof (induction rule: idem_step.induct)
  case (arrive out getFault now r s g db' started)
  from arrive(1) show ?case
  proof (cases rule: gate_cases)
    case same
    then have "started = []" using arrive(2) by (auto split: gate.splits)
    then show ?thesis using same(1) arrive(3) by simp
  next
    case (new u k f row)
    have "started = [] \<or> started = [(u, k, f)]" using arrive(2) new(6) by (auto split: gate.splits)
    then show ?thesis using inv_arrive [OF arrive(3) new(1,3,4,5)] new(2) by simp
  qed
next
  case (finish u k f s cancelled outs rel result answer db')
  have live: "distinct (map live_id (is_live s))" using finish(3) by (simp add: idem_inv_def)
  have rest: "set (remove1 (u, k, f) (is_live s)) \<subseteq> set (is_live s)" "distinct (map live_id (remove1 (u, k, f) (is_live s)))"
    by (rule set_remove1_subset, rule distinct_remove1 [OF live])
  from finish(2) show ?case
  proof (cases rule: after_handler_cases)
    case same
    then show ?thesis using inv_same [OF finish(3) rest] by simp
  next
    case (stored st b c)
    then show ?thesis using inv_stored [OF finish(3,1)] by simp
  next
    case released
    have "\<not> (row_is u k r \<and> ik_status r = ''in_progress'')" if "l \<in> set (remove1 (u, k, f) (is_live s))" "row_id r = live_id l" for l r
      using remove1_other [OF live that(1) finish(1)] that(2) by (auto simp: row_is_id live_id_def)
    then show ?thesis using inv_filter [OF finish(3) _ rest] released by simp
  qed
next
  case (crash s l)
  have "set (remove1 l (is_live s)) \<subseteq> set (is_live s)" by (rule set_remove1_subset)
  then show ?case using crash distinct_remove1 by (auto simp: idem_inv_def list_all_iff claims_counted_def)
next
  case (purge out now s res db')
  let ?P = "\<lambda>r. \<not> ik_expires_at r < now"
  have "db' = is_db s \<or> db' = (is_db s)\<lparr>id_rows := filter ?P (id_rows (is_db s))\<rparr>"
    using purge(1) by (auto simp: IdempotencyRepository_PurgeExpired_def autocommit_def split: commit_outcome.splits)
  moreover have "distinct (map live_id (is_live s))" using purge(3) by (simp add: idem_inv_def)
  moreover have "\<forall>r \<in> set (id_rows (is_db s)). row_id r = live_id l \<longrightarrow> ?P r" if "l \<in> set (is_live s)" for l
    using purge(2) that unfolding list_all_iff by (meson linorder_not_less)
  ultimately show ?case
    using inv_same [OF purge(3), of "is_live s" "is_sent s"] inv_filter [OF purge(3), of "is_live s" ?P "is_sent s"] by auto
qed

lemma idem_init_inv: "idem_init s \<Longrightarrow> idem_inv s"
  by (auto simp: idem_init_def idem_inv_def row_ids_def claims_counted_def)

interpretation idem_system: invariant_system idem_init "idem_step ops routes" idem_inv
  by unfold_locales (rule idem_init_inv, assumption, rule idem_step_inv)

section \<open>Properties\<close>

text \<open>
  C31: Whatever requests arrive, die or end, with any statement failing or unanswered: no two
  handlers run at once for the same user and key, and a handler has been started at most once
  more than claims on the key have been deleted, by a request that gave up its own claim or by
  the purge.
\<close>

theorem handler_runs_once_per_claim:
  assumes "reach idem_init (idem_step ops routes) s"
  shows "distinct (map live_id (is_live s)) \<and> count_list (is_runs s) p \<le> count_list (is_freed s) p + 1"
proof -
  have inv: "idem_inv s" by (rule idem_system.reachable_inv [OF assms])
  then have "count_list (is_runs s) p \<le> count_list (is_freed s) p + (if p \<in> set (row_ids (is_db s)) then 1 else 0)"
    by (simp only: idem_inv_def claims_counted_def)
  then have "count_list (is_runs s) p \<le> count_list (is_freed s) p + 1" by (rule order_trans) simp
  with inv show ?thesis by (simp add: idem_inv_def)
qed

text \<open>
  C32: A request whose key is completed with its own fingerprint is answered, without touching the
  table or running the handler, with the status, body and content type that a request of the
  same user, key and fingerprint was answered with.
\<close>

theorem replay_is_the_first_answer:
  assumes "reach idem_init (idem_step ops routes) s"
    and "idempotency_gate ops routes out getFault now r (is_db s) = (Existing u k f rec, db')"
    and "ir_Status rec = ''completed''" and "ir_Fingerprint rec = f"
  shows "\<exists>st b c. (u, k, f, st, b, c) \<in> set (is_sent s) \<and> db' = is_db s
    \<and> serveExisting clock get f rec = Some (Replayed (if st = 0 then 200 else st) b c)"
proof -
  have inv: "idem_inv s" by (rule idem_system.reachable_inv [OF assms(1)])
  obtain g where claim: "IdempotencyRepository_Claim out g now u k f defaultIdempotencyTTL (is_db s) = (Inr (Some rec), db')"
    using assms(2) by (auto simp: idempotency_gate_def Let_def split: if_splits option.splits sum.splits prod.splits)
  from claim obtain row where row: "find (row_is u k) (id_rows db') = Some row" "ir_Fingerprint rec = ik_fingerprint row" "ir_Status rec = ik_status row"
      "ik_response_status row = Some st \<Longrightarrow> ir_ResponseStatus rec = st" "ik_response_body row = Some b \<Longrightarrow> ir_ResponseBody rec = b"
      "ik_response_content_type row = Some c \<Longrightarrow> ir_ResponseContentType rec = c" for st b c
    by (auto simp: IdempotencyRepository_Claim_def IdempotencyRepository_Get_def map_sum_def
        split: sum.splits bool.splits if_splits option.splits prod.splits)
  have db': "db' = is_db s" using claim
  proof (cases rule: Key_Claim_cases)
    case (new row')
    have "row = row'" using row(1) new(1-3)
      by (auto simp: find_append_row row_ids_def row_is_id image_iff dest!: find_SomeD split: option.splits)
    then show ?thesis using new(5) row(3) assms(3) by simp
  qed
  have mem: "row \<in> set (id_rows (is_db s))" "row_is u k row" using find_SomeD [OF row(1)] db' by simp_all
  obtain st b c where "ik_response_status row = Some st" "ik_response_body row = Some b" "ik_response_content_type row = Some c"
      "(u, k, f, st, b, c) \<in> set (is_sent s)"
    using inv mem assms(3,4) row(2,3) by (auto simp: idem_inv_def list_all_iff answer_ok_def row_is_def)
  then show ?thesis using db' assms(3,4) row(4-6) by (auto simp: serveExisting_def writeStoredResponse_def)
qed

lemma wait_returns:
  assumes "\<forall>i \<ge> 1. clock i + concurrentWaitPoll \<le> clock (Suc i)" and "1 \<le> i"
  shows "\<exists>r. wait_existing clock get deadline i = Some r"
  using assms(2)
proof (induction "nat (deadline - clock i)" arbitrary: i rule: less_induct)
  case less
  have "nat (deadline - clock (Suc i)) < nat (deadline - clock i)" if "clock i < deadline"
    using assms(1) less.prems that by (auto simp: concurrentWaitPoll_def millisecond_def dest!: spec [of _ i])
  then show ?case
    using less.hyps [of "Suc i"] less.prems by (subst wait_existing.simps) (auto split: sum.splits)
qed

text \<open>
  The wait for a concurrent request ends: a sleep takes at least its 100 milliseconds, so at
  most 20 of them fit before the deadline.
\<close>

theorem serveExisting_returns:
  assumes "\<forall>i \<ge> 1. clock i + concurrentWaitPoll \<le> clock (Suc i)"
  shows "\<exists>r. serveExisting clock get f rec = Some r"
  using wait_returns [OF assms, of 1] by (auto simp: serveExisting_def)

section \<open>Instances\<close>

definition demo_idem_ops :: idem_ops where
  "demo_idem_ops = \<lparr>io_parseUUID = (\<lambda>s. if s = ''u8'' then Some 8 else None), io_sha256hex = (\<lambda>s. s)\<rparr>"

definition demo_request :: HttpRequest where
  "demo_request = \<lparr>hq_Method = ''POST'', hq_Path = ''/api/v1/vaults/7/deposit'', hq_User = Some ''u8'', hq_IdempotencyKey = ''k1'', hq_Body = Some ''{}''\<rparr>"

definition demo_key :: string where "demo_key = scopedIdempotencyKey ''POST'' ''/api/v1/vaults/7/deposit'' ''k1''"
definition demo_fp :: string where "demo_fp = fingerprintRequest (\<lambda>s. s) ''POST'' ''/api/v1/vaults/7/deposit'' ''{}''"

definition demo_idem0 :: idem_state where
  "demo_idem0 = \<lparr>is_db = \<lparr>id_users = [8], id_rows = []\<rparr>, is_live = [], is_runs = [], is_freed = [], is_sent = []\<rparr>"

definition demo_claimed :: IdempotencyDB where
  "demo_claimed = snd (idempotency_gate demo_idem_ops VaultMoneyPathIdempotencyRoutes Committed False 100 demo_request (is_db demo_idem0))"

definition demo_answered :: IdempotencyDB where
  "demo_answered = snd (after_handler (\<lambda>_. False) (\<lambda>_. Committed) Committed 8 demo_key (Returned [CallWriteHeader 201, CallWrite ''ok''] ''text/plain'') demo_claimed)"

definition demo_idem1 :: idem_state where
  "demo_idem1 = \<lparr>is_db = demo_answered, is_live = [], is_runs = [(8, demo_key)], is_freed = [],
     is_sent = [(8, demo_key, demo_fp, 201, ''ok'', ''text/plain'')]\<rparr>"

lemma demo_idem_reach: "reach idem_init (idem_step demo_idem_ops VaultMoneyPathIdempotencyRoutes) demo_idem1"
proof -
  let ?step = "idem_step demo_idem_ops VaultMoneyPathIdempotencyRoutes"
  let ?mid = "demo_idem0\<lparr>is_db := demo_claimed, is_live := is_live demo_idem0 @ [(8, demo_key, demo_fp)],
      is_runs := is_runs demo_idem0 @ map live_id [(8, demo_key, demo_fp)]\<rparr>"
  have "fst (idempotency_gate demo_idem_ops VaultMoneyPathIdempotencyRoutes Committed False 100 demo_request (is_db demo_idem0)) = Execute 8 demo_key demo_fp"
    by code_simp
  then have "idempotency_gate demo_idem_ops VaultMoneyPathIdempotencyRoutes Committed False 100 demo_request (is_db demo_idem0) = (Execute 8 demo_key demo_fp, demo_claimed)"
    by (simp add: demo_claimed_def prod_eq_iff)
  then have "?step demo_idem0 ?mid" by (rule idem_step.arrive) simp
  moreover have "reach idem_init ?step demo_idem0" by (rule reach_init) (simp add: idem_init_def demo_idem0_def)
  ultimately have mid: "reach idem_init ?step ?mid" by (rule reach_step [rotated])
  have "fst (after_handler (\<lambda>_. False) (\<lambda>_. Committed) Committed 8 demo_key (Returned [CallWriteHeader 201, CallWrite ''ok''] ''text/plain'') demo_claimed)
      = Some (Handled 201 ''ok'' ''text/plain'')" by code_simp
  then have "after_handler (\<lambda>_. False) (\<lambda>_. Committed) Committed 8 demo_key (Returned [CallWriteHeader 201, CallWrite ''ok''] ''text/plain'') (is_db ?mid)
      = (Some (Handled 201 ''ok'' ''text/plain''), demo_answered)"
    by (simp add: demo_answered_def prod_eq_iff)
  then have "?step ?mid (?mid\<lparr>is_db := demo_answered, is_live := remove1 (8, demo_key, demo_fp) (is_live ?mid),
      is_freed := is_freed ?mid @ deleted (is_db ?mid) demo_answered,
      is_sent := is_sent ?mid @ (case Some (Handled 201 ''ok'' ''text/plain'') of Some (Handled st b c) \<Rightarrow> [(8, demo_key, demo_fp, st, b, c)] | _ \<Rightarrow> [])\<rparr>)"
    by (intro idem_step.finish) (simp_all add: demo_idem0_def)
  moreover have "deleted demo_claimed demo_answered = []" by code_simp
  ultimately have "?step ?mid demo_idem1" by (simp add: demo_idem1_def demo_idem0_def live_id_def)
  with mid show ?thesis by (rule reach_step)
qed

theorem handler_runs_once_per_claim_witness: "count_list (is_runs demo_idem1) (8, demo_key) \<le> 1"
  using handler_runs_once_per_claim [OF demo_idem_reach, of "(8, demo_key)"] by (simp add: demo_idem1_def)

theorem replay_is_the_first_answer_witness:
  "\<exists>rec. fst (idempotency_gate demo_idem_ops VaultMoneyPathIdempotencyRoutes Committed False 200 demo_request demo_answered) = Existing 8 demo_key demo_fp rec
    \<and> serveExisting (\<lambda>_. 200) (\<lambda>_. Inl IdemFault) demo_fp rec = Some (Replayed 201 ''ok'' ''text/plain'')"
proof -
  let ?gate = "idempotency_gate demo_idem_ops VaultMoneyPathIdempotencyRoutes Committed False 200 demo_request (is_db demo_idem1)"
  obtain rec where rec: "fst ?gate = Existing 8 demo_key demo_fp rec" "ir_Status rec = ''completed''" "ir_Fingerprint rec = demo_fp"
  proof
    show "fst ?gate = Existing 8 demo_key demo_fp
        \<lparr>ir_Fingerprint = demo_fp, ir_Status = ''completed'', ir_ResponseStatus = 201, ir_ResponseBody = ''ok'', ir_ResponseContentType = ''text/plain''\<rparr>"
      by code_simp
  qed simp_all
  then have "?gate = (Existing 8 demo_key demo_fp rec, snd ?gate)" by (simp add: prod_eq_iff)
  from replay_is_the_first_answer [OF demo_idem_reach this rec(2,3), of "\<lambda>_. 200" "\<lambda>_. Inl IdemFault"] show ?thesis
    using rec by (intro exI [of _ rec]) (auto simp: demo_idem1_def)
qed

theorem serveExisting_returns_witness:
  "\<exists>r. serveExisting (\<lambda>i. int i * concurrentWaitPoll) (\<lambda>_. Inl IdemFault) ''f''
     \<lparr>ir_Fingerprint = ''f'', ir_Status = ''in_progress'', ir_ResponseStatus = 0, ir_ResponseBody = [], ir_ResponseContentType = []\<rparr> = Some r"
  by (rule serveExisting_returns) (simp add: algebra_simps)

section \<open>Where the claim is lost\<close>

text \<open>
  The answer is stored under the request's own context. When the client has gone, which is when
  it will retry, that context is done: nothing is stored, the claim is released under another
  context, and the retry runs the handler again.
\<close>

theorem retry_after_disconnect_runs_again:
  assumes "idempotency_gate ops routes Committed gf now r db = (Execute u k f, db1)"
    and "after_handler (\<lambda>_. True) outs Committed u k (Returned calls c) db1 = (answer, db2)"
  shows "\<exists>db3. idempotency_gate ops routes Committed gf now2 r db2 = (Execute u k f, db3)"
proof -
  obtain row where new: "(u, k) \<notin> set (row_ids db)" "db1 = db\<lparr>id_rows := id_rows db @ [row]\<rparr>" "row_id row = (u, k)" "ik_status row = ''in_progress''"
    using assms(1) by (cases rule: gate_cases) auto
  have "completeWithRetry (\<lambda>_. True) outs u k st b c None 0 db1 = (Some CtxDone, db1)" for st b
    by (subst completeWithRetry.simps, subst completeWithRetry.simps) (simp add: completeMaxRetries_def)
  then have "db2 = db1\<lparr>id_rows := filter (\<lambda>r. \<not> (row_is u k r \<and> ik_status r = ''in_progress'')) (id_rows db1)\<rparr>"
    using assms(2) by (auto simp: after_handler_def Let_def IdempotencyRepository_Release_def autocommit_def)
  then have rows: "id_rows db2 = id_rows db" "id_users db2 = id_users db"
    using new by (auto simp: row_is_id row_ids_def image_iff intro!: filter_True)
  then have "db2 = db" by simp
  then show ?thesis
    using assms(1) by (auto simp: idempotency_gate_def Let_def IdempotencyRepository_Claim_def autocommit_def insert_key_def map_sum_def
        split: if_splits option.splits sum.splits prod.splits bool.splits)
qed

end
