(* ===== verification/Go_Format.thy ===== *)
theory Go_Format
  imports Nester_Prelude
begin

text \<open>
  Decimal formatting of integers, as \<open>fmt\<close> prints them, and that it can be read back.
\<close>

text \<open>\<open>%d\<close> of an \<open>int64\<close>.\<close>

fun decimal_digits :: "nat \<Rightarrow> string" where
  "decimal_digits n = (if n < 10 then [char_of (48 + n)] else decimal_digits (n div 10) @ [char_of (48 + n mod 10)])"

declare decimal_digits.simps [simp del]

definition format_int :: "int \<Rightarrow> string" where
  "format_int n = (if n < 0 then CHR ''-'' # decimal_digits (nat (- n)) else decimal_digits (nat n))"

lemma digit_of_char: "k < 10 \<Longrightarrow> of_char (char_of (48 + k :: nat) :: char) = (48 + int k)"
proof -
  assume "k < 10"
  then have "(of_char (char_of (48 + k) :: char) :: nat) = 48 + k" by (simp add: of_char_of take_bit_eq_mod)
  then show ?thesis by (metis of_nat_add of_nat_numeral of_nat_of_char)
qed

lemma digits_value_decimal: "digits_value (decimal_digits n) = int n"
proof (induction n rule: decimal_digits.induct)
  case (1 n)
  show ?case
  proof (cases "n < 10")
    case True
    then show ?thesis using digit_of_char [of n] by (simp add: decimal_digits.simps [of n] digits_value_def)
  next
    case False
    then have "digits_value (decimal_digits n) = 10 * int (n div 10) + int (n mod 10)"
      using 1 digit_of_char [of "n mod 10"] by (simp add: decimal_digits.simps [of n] digits_value_snoc)
    then show ?thesis by presburger
  qed
qed

lemma decimal_digits_are: "c \<in> set (decimal_digits n) \<Longrightarrow> \<exists>k < 10. c = char_of (48 + k :: nat)"
proof (induction n rule: decimal_digits.induct)
  case (1 n)
  then show ?case by (cases "n < 10") (auto simp: decimal_digits.simps [of n] intro: exI [of _ "n mod 10"])
qed

lemma format_int_are: "c \<in> set (format_int n) \<Longrightarrow> c = CHR ''-'' \<or> (\<exists>k < 10. c = char_of (48 + k :: nat))"
  using decimal_digits_are by (auto simp: format_int_def split: if_splits)

lemma digit_neq: "k < 10 \<Longrightarrow> of_char c < (48 :: nat) \<or> 57 < (of_char c :: nat) \<Longrightarrow> char_of (48 + k :: nat) \<noteq> (c :: char)"
proof
  assume k: "k < 10" and c: "of_char c < (48 :: nat) \<or> 57 < (of_char c :: nat)" and eq: "char_of (48 + k :: nat) = c"
  have "(of_char (char_of (48 + k) :: char) :: nat) = 48 + k" using k by (simp add: of_char_of take_bit_eq_mod)
  then show False using c eq k by simp
qed

lemma minus_not_digit: "CHR ''-'' \<notin> set (decimal_digits n)"
  using decimal_digits_are digit_neq [of _ "CHR ''-''"] by fastforce

lemma format_int_inj: "format_int m = format_int n \<Longrightarrow> m = n"
proof -
  assume eq: "format_int m = format_int n"
  have neg: "k < 0 \<longleftrightarrow> CHR ''-'' \<in> set (format_int k)" for k using minus_not_digit by (auto simp: format_int_def)
  then have sign: "m < 0 \<longleftrightarrow> n < 0" using eq by simp
  then have "decimal_digits (nat \<bar>m\<bar>) = decimal_digits (nat \<bar>n\<bar>)" using eq by (auto simp: format_int_def split: if_splits)
  then have "nat \<bar>m\<bar> = nat \<bar>n\<bar>" by (metis digits_value_decimal of_nat_eq_iff)
  then show ?thesis using sign by auto
qed

end
