(* ===== verification/Audit_Log.thy ===== *)
theory Audit_Log
  imports Money Go_Format
begin

text \<open>
  The hash-chained audit log: \<open>audit/audit.go\<close> over the table of migrations 011, 097 and 123, the
  other writer of that table (\<open>repository/postgres/audit_log_repository.go\<close>) and one pass of
  \<open>scheduler/audit_chain_verifier.go\<close>. SHA-256, the printing of instants, JSON values and what a
  JSONB column gives back for a text are arguments.
\<close>

section \<open>Rows\<close>

record AuditLogRow =
  al_id :: uuid
  al_user_id :: "uuid option"
  al_action :: string
  al_entity_type :: string
  al_entity_id :: uuid
  al_old_value :: "string option"
  al_new_value :: "string option"
  al_ip_address :: "string option"
  al_created_at :: time
  al_sequence :: "int option"
  al_actor :: "string option"
  al_target :: "string option"
  al_detail :: "string option"
  al_detail_hash :: "string option"
  al_prev_hash :: "string option"
  al_entry_hash :: "string option"
  al_anchored :: bool
  al_anchor_tx_hash :: "string option"
  al_redacted :: bool
  al_correlation_id :: "string option"

record AuditDB =
  ad_users :: "uuid list"
  ad_rows :: "AuditLogRow list"

datatype audit_log_error =
    AuditFault
  | AuditServer pg_error
  | ScanNull
  | MarshalDetail
  | AuditEntryNotFound
  | NotAnObject
  | NothingToAnchor
  | AnchorFile

record 'j audit_ops =
  ao_hash :: "string \<Rightarrow> string"
  ao_format_time :: "time \<Rightarrow> string"
  ao_unmarshal :: "string \<Rightarrow> 'j option"
  ao_marshal :: "'j \<Rightarrow> string"
  ao_object :: "(string \<times> 'j) list \<Rightarrow> 'j"
  ao_members :: "'j \<Rightarrow> (string \<times> 'j) list option"
  ao_string :: "string \<Rightarrow> 'j"
  ao_jsonb :: "string \<Rightarrow> pg_error + string"
  ao_redaction :: "int \<Rightarrow> string list \<Rightarrow> 'j"

section \<open>Hashes\<close>

definition newline :: char where "newline = CHR 0x0A"

definition CanonicalSerialize :: "'j audit_ops \<Rightarrow> int \<Rightarrow> time \<Rightarrow> string \<Rightarrow> string \<Rightarrow> string \<Rightarrow> string \<Rightarrow> string \<Rightarrow> string" where
  "CanonicalSerialize J sequ ts actor action target detailHash prevHash =
     ''SEQ:'' @ format_int sequ @ newline # ''TS:'' @ ao_format_time J ts @ newline # ''ACTOR:'' @ actor @ newline # ''ACTION:'' @ action
     @ newline # ''TARGET:'' @ target @ newline # ''DETAIL_HASH:'' @ detailHash @ newline # ''PREV_HASH:'' @ prevHash"

datatype 'j detail_arg = DetailNil | DetailString string | DetailBytes string | DetailRaw string | DetailValue "'j option"

text \<open>\<open>DetailValue None\<close> is a value \<open>json.Marshal\<close> refuses.\<close>

definition canonical_json :: "'j audit_ops \<Rightarrow> string \<Rightarrow> string" where
  "canonical_json J raw =
     ao_marshal J (case ao_unmarshal J raw of Some v \<Rightarrow> v | None \<Rightarrow> ao_object J [(''raw'', ao_string J raw)])"

definition CanonicalizeDetail :: "'j audit_ops \<Rightarrow> 'j detail_arg \<Rightarrow> audit_log_error + string \<times> string" where
  "CanonicalizeDetail J detail =
     (let hashed = (\<lambda>s. Inr (s, ao_hash J s)) in
      case detail of
        DetailNil \<Rightarrow> hashed ''{}''
      | DetailString s \<Rightarrow> if s = [] then hashed ''{}'' else hashed (canonical_json J s)
      | DetailBytes s \<Rightarrow> if s = [] then hashed ''{}'' else hashed (canonical_json J s)
      | DetailRaw s \<Rightarrow> hashed (canonical_json J s)
      | DetailValue None \<Rightarrow> Inl MarshalDetail
      | DetailValue (Some v) \<Rightarrow> hashed (canonical_json J (ao_marshal J v)))"

section \<open>Writing\<close>

record audit_env =
  av_flt :: sql_fault
  av_commit :: commit_outcome
  av_now :: time
  av_newID :: uuid

text \<open>
  \<open>ORDER BY sequence DESC LIMIT 1\<close>: nulls come first, and a null does not scan into an \<open>int64\<close>
  or a string.
\<close>

definition latest_entry :: "AuditLogRow list \<Rightarrow> audit_log_error + (int \<times> string) option" where
  "latest_entry rows =
     (if rows = [] then Inr None
      else if list_ex (\<lambda>r. al_sequence r = None) rows then Inl ScanNull
      else (let r = last (sort_key (\<lambda>r. the (al_sequence r)) rows)
            in case al_entry_hash r of None \<Rightarrow> Inl ScanNull | Some h \<Rightarrow> Inr (Some (the (al_sequence r), h))))"

definition jsonb_opt :: "'j audit_ops \<Rightarrow> string option \<Rightarrow> audit_log_error + string option" where
  "jsonb_opt J v = (case v of None \<Rightarrow> Inr None | Some s \<Rightarrow> map_sum AuditServer Some (ao_jsonb J s))"

definition truncate_microsecond :: "time \<Rightarrow> time" where "truncate_microsecond t = t - t mod 1000"

text \<open>An instant is sent to a \<open>timestamptz\<close> in whole microseconds.\<close>

definition insert_audit_log :: "'j audit_ops \<Rightarrow> AuditLogRow \<Rightarrow> AuditDB \<Rightarrow> audit_log_error + AuditDB" where
  "insert_audit_log J row db =
     bindE (jsonb_opt J (al_old_value row)) (\<lambda>old.
     bindE (jsonb_opt J (al_new_value row)) (\<lambda>new.
     bindE (jsonb_opt J (al_detail row)) (\<lambda>detail.
     if al_id row \<in> al_id ` set (ad_rows db) then Inl (AuditServer (PgError ''23505'' ''audit_logs_pkey''))
     else if list_ex (\<lambda>r. sql_eq (al_sequence r) (al_sequence row)) (ad_rows db) then
       Inl (AuditServer (PgError ''23505'' ''idx_audit_logs_sequence''))
     else if (case al_user_id row of None \<Rightarrow> False | Some u \<Rightarrow> u \<notin> set (ad_users db)) then
       Inl (AuditServer (PgError ''23503'' ''audit_logs_user_id_fkey''))
     else Inr (db\<lparr>ad_rows := ad_rows db @ [row\<lparr>al_old_value := old, al_new_value := new, al_detail := detail,
       al_created_at := truncate_microsecond (al_created_at row)\<rparr>]\<rparr>))))"

record 'j log_args =
  la_userID :: "uuid option"
  la_actor :: string
  la_action :: string
  la_target :: string
  la_detail :: "'j detail_arg"
  la_old :: "string option"
  la_new :: "string option"
  la_ip :: "string option"

definition chain_row :: "'j audit_ops \<Rightarrow> uuid \<Rightarrow> time \<Rightarrow> 'j log_args \<Rightarrow> int \<Rightarrow> string \<Rightarrow> string \<Rightarrow> string \<Rightarrow> AuditLogRow" where
  "chain_row J newID now a nextSeq prevHash detailJSON detailHash =
     \<lparr>al_id = newID, al_user_id = la_userID a, al_action = la_action a, al_entity_type = ''audit'', al_entity_id = newID,
      al_old_value = la_old a, al_new_value = la_new a, al_ip_address = la_ip a, al_created_at = now, al_sequence = Some nextSeq,
      al_actor = Some (la_actor a), al_target = Some (la_target a), al_detail = Some detailJSON, al_detail_hash = Some detailHash,
      al_prev_hash = Some prevHash,
      al_entry_hash = Some (ao_hash J (CanonicalSerialize J nextSeq now (la_actor a) (la_action a) (la_target a) detailHash prevHash)),
      al_anchored = False, al_anchor_tx_hash = None, al_redacted = False, al_correlation_id = None\<rparr>"

definition audit_exec :: "audit_env \<Rightarrow> nat \<Rightarrow> audit_log_error + 'a \<Rightarrow> audit_log_error + 'a" where
  "audit_exec env n r = (if av_flt env n then Inl AuditFault else r)"

definition audit_tx :: "audit_env \<Rightarrow> AuditDB \<Rightarrow> (AuditDB \<Rightarrow> audit_log_error + 'a \<times> AuditDB) \<Rightarrow> (audit_log_error + 'a) \<times> AuditDB" where
  "audit_tx env db body =
     (if av_flt env 0 then (Inl AuditFault, db)
      else (case body db of
          Inl err \<Rightarrow> (Inl err, db)
        | Inr (x, db') \<Rightarrow>
          (case av_commit env of
             Committed \<Rightarrow> (Inr x, db')
           | NotCommitted \<Rightarrow> (Inl AuditFault, db)
           | CommitUnacked \<Rightarrow> (Inl AuditFault, db'))))"

definition LogAction :: "'j audit_ops \<Rightarrow> audit_env \<Rightarrow> 'j log_args \<Rightarrow> AuditDB \<Rightarrow> (audit_log_error + AuditLogRow) \<times> AuditDB" where
  "LogAction J env a db =
     audit_tx env db (\<lambda>tx.
       bindE (audit_exec env 1 (latest_entry (ad_rows tx))) (\<lambda>latest.
       let (nextSeq, prevHash) = (case latest of None \<Rightarrow> (1, []) | Some (s, h) \<Rightarrow> (wrap64 (s + 1), h)) in
       bindE (CanonicalizeDetail J (la_detail a)) (\<lambda>(detailJSON, detailHash).
       let row = chain_row J (av_newID env) (truncate_microsecond (av_now env)) a nextSeq prevHash detailJSON detailHash in
       bindE (audit_exec env 2 (insert_audit_log J row tx)) (\<lambda>tx. Inr (row, tx)))))"

text \<open>The session events of \<open>PostgresAuditLogger\<close> go to the same table, without a sequence.\<close>

definition PostgresAuditLogger_Log ::
  "'j audit_ops \<Rightarrow> commit_outcome \<Rightarrow> uuid \<Rightarrow> time \<Rightarrow> uuid option \<Rightarrow> string \<Rightarrow> string \<Rightarrow> uuid \<Rightarrow> string \<Rightarrow> string \<Rightarrow> string \<Rightarrow> string \<Rightarrow> AuditDB
   \<Rightarrow> (audit_log_error + unit) \<times> AuditDB" where
  "PostgresAuditLogger_Log J out newID now userID action entityType entityID oldJSON newJSON ip corr db =
     (let r = insert_audit_log J \<lparr>al_id = newID, al_user_id = userID, al_action = action, al_entity_type = entityType, al_entity_id = entityID,
            al_old_value = Some oldJSON, al_new_value = Some newJSON, al_ip_address = (if ip = [] then None else Some ip), al_created_at = now,
            al_sequence = None, al_actor = None, al_target = None, al_detail = None, al_detail_hash = None, al_prev_hash = None,
            al_entry_hash = None, al_anchored = False, al_anchor_tx_hash = None, al_redacted = False,
            al_correlation_id = (if corr = [] then None else Some corr)\<rparr> db
      in case (out, r) of
           (NotCommitted, _) \<Rightarrow> (Inl AuditFault, db)
         | (_, Inl err) \<Rightarrow> (Inl err, db)
         | (Committed, Inr db') \<Rightarrow> (Inr (), db')
         | (CommitUnacked, Inr db') \<Rightarrow> (Inl AuditFault, db'))"

section \<open>Verifying\<close>

datatype chain_verdict = ChainOK | ChainBroken int | VerifyFailed audit_log_error

fun verify_loop :: "'j audit_ops \<Rightarrow> bool \<Rightarrow> int \<Rightarrow> string \<Rightarrow> AuditLogRow list \<Rightarrow> chain_verdict" where
  "verify_loop J first expectedSeq expectedPrevHash [] = ChainOK"
| "verify_loop J first expectedSeq expectedPrevHash (r # rows) =
     (case (al_sequence r, al_actor r, al_target r, al_detail r, al_detail_hash r, al_prev_hash r, al_entry_hash r) of
        (Some sequ, Some actor, Some target, Some detail, Some detailHash, Some prevHash, Some entryHash) \<Rightarrow>
          if sequ \<noteq> expectedSeq then ChainBroken sequ
          else if \<not> first \<and> prevHash \<noteq> expectedPrevHash then ChainBroken sequ
          else if first \<and> sequ = 1 \<and> prevHash \<noteq> [] then ChainBroken sequ
          else if \<not> al_redacted r \<and> map_sum (\<lambda>_. ()) snd (CanonicalizeDetail J (DetailRaw detail)) \<noteq> Inr detailHash then ChainBroken sequ
          else if ao_hash J (CanonicalSerialize J sequ (al_created_at r) actor (al_action r) target detailHash prevHash) \<noteq> entryHash
          then ChainBroken sequ
          else verify_loop J False (wrap64 (expectedSeq + 1)) entryHash rows
      | _ \<Rightarrow> VerifyFailed ScanNull)"

definition in_range :: "int \<Rightarrow> int \<Rightarrow> AuditLogRow \<Rightarrow> bool" where
  "in_range a b r \<longleftrightarrow> (case al_sequence r of None \<Rightarrow> False | Some s \<Rightarrow> a \<le> s \<and> s \<le> b)"

definition VerifyChain :: "'j audit_ops \<Rightarrow> bool \<Rightarrow> int \<Rightarrow> int \<Rightarrow> AuditDB \<Rightarrow> chain_verdict" where
  "VerifyChain J fault fromSeq toSeq db =
     (if fault then VerifyFailed AuditFault
      else (let fromSeq = (if fromSeq \<le> 0 then 1 else fromSeq)
            in verify_loop J True fromSeq [] (sort_key (\<lambda>r. the (al_sequence r)) (filter (in_range fromSeq toSeq) (ad_rows db)))))"

text \<open>One pass of the scheduled verifier: it alerts on anything but \<open>ChainOK\<close>.\<close>

definition AuditChainVerifier_RunOnce :: "'j audit_ops \<Rightarrow> bool \<Rightarrow> int \<Rightarrow> AuditDB \<Rightarrow> chain_verdict" where
  "AuditChainVerifier_RunOnce J fault batchSize db =
     (let from = 1; to = (if 0 < batchSize then wrap64 (from + batchSize - 1) else max64) in VerifyChain J fault from to db)"

definition AuditChainVerifier_alerts :: "'j audit_ops \<Rightarrow> bool \<Rightarrow> int \<Rightarrow> AuditDB \<Rightarrow> bool" where
  "AuditChainVerifier_alerts J fault batchSize db \<longleftrightarrow> AuditChainVerifier_RunOnce J fault batchSize db \<noteq> ChainOK"

section \<open>Redacting\<close>

definition redact_members :: "'j audit_ops \<Rightarrow> string list \<Rightarrow> (string \<times> 'j) list \<Rightarrow> (string \<times> 'j) list" where
  "redact_members J keys ms = map (\<lambda>(k, v). if k \<in> set keys then (k, ao_string J ''[REDACTED]'') else (k, v)) ms"

definition redactDetail :: "'j audit_ops \<Rightarrow> audit_env \<Rightarrow> int \<Rightarrow> string list \<Rightarrow> AuditDB \<Rightarrow> (audit_log_error + bool) \<times> AuditDB" where
  "redactDetail J env sequ redactKeys db =
     audit_tx env db (\<lambda>tx.
       bindE (audit_exec env 1 (case find (\<lambda>r. al_sequence r = Some sequ) (ad_rows tx) of
           None \<Rightarrow> Inl AuditEntryNotFound
         | Some r \<Rightarrow> if al_detail_hash r = None then Inl ScanNull else Inr (al_detail r))) (\<lambda>detailJSON.
       case (case detailJSON of None \<Rightarrow> None | Some s \<Rightarrow> (case ao_unmarshal J s of None \<Rightarrow> None | Some v \<Rightarrow> ao_members J v)) of
         None \<Rightarrow> Inl NotAnObject
       | Some ms \<Rightarrow>
         if \<not> list_ex (\<lambda>(k, _). k \<in> set redactKeys) ms then Inr (False, tx)
         else bindE (audit_exec env 2 (map_sum AuditServer id (ao_jsonb J (ao_marshal J (ao_object J (redact_members J redactKeys ms)))))) (\<lambda>detail.
              Inr (True, tx\<lparr>ad_rows := update_where (\<lambda>r. al_sequence r = Some sequ)
                    (\<lambda>r. r\<lparr>al_detail := Some detail, al_redacted := True\<rparr>) (ad_rows tx)\<rparr>))))"

definition RedactEntry ::
  "'j audit_ops \<Rightarrow> audit_env \<Rightarrow> audit_env \<Rightarrow> int \<Rightarrow> string list \<Rightarrow> AuditDB \<Rightarrow> audit_log_error option \<times> AuditDB" where
  "RedactEntry J env logEnv sequ redactKeys db =
     (case redactDetail J env sequ redactKeys db of
        (Inl err, db') \<Rightarrow> (Some err, db')
      | (Inr False, db') \<Rightarrow> (None, db')
      | (Inr True, db') \<Rightarrow>
          (None, snd (LogAction J logEnv \<lparr>la_userID = None, la_actor = ''system'', la_action = ''redaction'',
             la_target = ''audit_logs:sequence:'' @ format_int sequ, la_detail = DetailValue (Some (ao_redaction J sequ redactKeys)),
             la_old = None, la_new = None, la_ip = None\<rparr> db')))"

section \<open>Anchoring\<close>

text \<open>The anchor file is the list of the sequences and hashes written to it.\<close>

definition AnchorLatestEntry ::
  "(nat \<Rightarrow> bool) \<Rightarrow> commit_outcome \<Rightarrow> string \<Rightarrow> (int \<times> string) list \<Rightarrow> AuditDB
   \<Rightarrow> (audit_log_error + string) \<times> (int \<times> string) list \<times> AuditDB" where
  "AnchorLatestEntry flt out path file db =
     (if flt 0 then (Inl AuditFault, file, db)
      else (case latest_entry (ad_rows db) of
          Inl err \<Rightarrow> (Inl err, file, db)
        | Inr None \<Rightarrow> (Inl NothingToAnchor, file, db)
        | Inr (Some (sequ, h)) \<Rightarrow>
          if flt 1 then (Inl AnchorFile, file, db)
          else (let file = file @ [(sequ, h)];
                    db' = db\<lparr>ad_rows := update_where (\<lambda>r. al_sequence r = Some sequ)
                      (\<lambda>r. r\<lparr>al_anchored := True, al_anchor_tx_hash := Some (''file:'' @ path)\<rparr>) (ad_rows db)\<rparr>
                in case out of
                     Committed \<Rightarrow> (Inr (''file:'' @ path), file, db')
                   | NotCommitted \<Rightarrow> (Inl AuditFault, file, db)
                   | CommitUnacked \<Rightarrow> (Inl AuditFault, file, db'))))"

end
