(* ===== verification/Audit_Log_Properties.thy ===== *)
theory Audit_Log_Properties
  imports Audit_Log
begin

text \<open>
  The chain the service writes always verifies, and two tables that verify and agree on one
  entry hash agree on everything hashed up to it.
\<close>

section \<open>The chain as a list\<close>

text \<open>What the code relies on of JSON and JSONB: a value written to the column reads back as one that prints the same.\<close>

definition json_laws :: "'j audit_ops \<Rightarrow> bool" where
  "json_laws J \<longleftrightarrow> (\<forall>v t. ao_jsonb J (ao_marshal J v) = Inr t \<longrightarrow> (\<exists>v'. ao_unmarshal J t = Some v' \<and> ao_marshal J v' = ao_marshal J v))
     \<and> ao_marshal J (ao_object J []) = ''{}''"

definition entry_ok :: "'j audit_ops \<Rightarrow> int \<Rightarrow> string \<Rightarrow> AuditLogRow \<Rightarrow> bool" where
  "entry_ok J n prev r \<longleftrightarrow> (\<exists>actor target detail dh. al_sequence r = Some n \<and> al_actor r = Some actor \<and> al_target r = Some target
     \<and> al_detail r = Some detail \<and> al_detail_hash r = Some dh \<and> al_prev_hash r = Some prev
     \<and> al_entry_hash r = Some (ao_hash J (CanonicalSerialize J n (al_created_at r) actor (al_action r) target dh prev))
     \<and> (al_redacted r \<or> dh = ao_hash J (canonical_json J detail)))"

fun chained :: "'j audit_ops \<Rightarrow> int \<Rightarrow> string \<Rightarrow> AuditLogRow list \<Rightarrow> bool" where
  "chained J n prev [] \<longleftrightarrow> True"
| "chained J n prev (r # rs) \<longleftrightarrow> entry_ok J n prev r \<and> chained J (n + 1) (the (al_entry_hash r)) rs"

lemma chained_append:
  "chained J n prev (xs @ ys) \<longleftrightarrow> chained J n prev xs \<and> chained J (n + int (length xs)) (if xs = [] then prev else the (al_entry_hash (last xs))) ys"
  by (induction J n prev xs rule: chained.induct) (auto simp: algebra_simps)

lemma chained_sequence: "chained J n prev xs \<Longrightarrow> i < length xs \<Longrightarrow> al_sequence (xs ! i) = Some (n + int i)"
proof (induction J n prev xs arbitrary: i rule: chained.induct)
  case (2 J n prev r rs)
  then show ?case by (cases i) (auto simp: entry_ok_def)
qed simp

lemma chained_sequences: "chained J n prev xs \<Longrightarrow> map (\<lambda>r. the (al_sequence r)) xs = map (\<lambda>i. n + int i) [0..<length xs]"
  by (rule nth_equalityI) (auto simp: chained_sequence)

lemma sorted_upto: "sorted (map (\<lambda>i. n + int i) [0..<k])"
  by (simp add: sorted_wrt_map sorted_wrt_upt)

lemma chained_sorted: "chained J n prev xs \<Longrightarrow> sorted (map (\<lambda>r. the (al_sequence r)) xs)"
  by (simp only: chained_sequences sorted_upto)

lemma chained_member: "chained J n prev xs \<Longrightarrow> r \<in> set xs \<Longrightarrow> \<exists>s. al_sequence r = Some s \<and> n \<le> s \<and> s < n + int (length xs)"
  by (metis (no_types, lifting) add.commute chained_sequence in_set_conv_nth le_add_same_cancel1 of_nat_0_le_iff of_nat_less_iff add_less_cancel_left)

lemma chained_sort: "chained J n prev xs \<Longrightarrow> sort_key (\<lambda>r. the (al_sequence r)) (filter P xs) = filter P xs"
  by (intro sort_key_id_if_sorted sorted_filter chained_sorted)

lemma chained_latest:
  assumes "chained J 1 [] xs" and "xs \<noteq> []"
  shows "latest_entry xs = Inr (Some (int (length xs), the (al_entry_hash (last xs))))"
proof -
  have "sort_key (\<lambda>r. the (al_sequence r)) xs = xs" using chained_sort [OF assms(1), of "\<lambda>_. True"] by simp
  moreover have "al_sequence (last xs) = Some (int (length xs))"
    using chained_sequence [OF assms(1), of "length xs - 1"] assms(2) by (cases xs) (auto simp: last_conv_nth)
  moreover have "\<not> list_ex (\<lambda>r. al_sequence r = None) xs" using chained_member [OF assms(1)] by (force simp: list_ex_iff)
  moreover obtain h where "al_entry_hash (last xs) = Some h"
    using assms chained_append [of J 1 "[]" "butlast xs" "[last xs]"] by (auto simp: entry_ok_def)
  ultimately show ?thesis using assms(2) by (simp add: latest_entry_def Let_def)
qed

section \<open>Writing keeps the chain\<close>

lemma canonical_is_marshal:
  assumes "json_laws J" and "CanonicalizeDetail J d = Inr (s, h)"
  shows "(\<exists>v. s = ao_marshal J v) \<and> h = ao_hash J s"
proof -
  have empty: "ao_marshal J (ao_object J []) = ''{}''" using assms(1) by (simp add: json_laws_def)
  show ?thesis
    using assms(2) empty [symmetric]
    by (auto simp: CanonicalizeDetail_def canonical_json_def Let_def split: detail_arg.splits if_splits option.splits)
      (metis empty)+
qed

lemma stored_detail:
  "json_laws J \<Longrightarrow> ao_jsonb J (ao_marshal J v) = Inr t \<Longrightarrow> canonical_json J t = ao_marshal J v"
  by (auto simp: json_laws_def canonical_json_def dest!: spec [of _ v])

lemma raw_hash: "map_sum f snd (CanonicalizeDetail J (DetailRaw d)) = Inr (ao_hash J (canonical_json J d))"
  by (simp add: CanonicalizeDetail_def)

lemma jsonb_opt_Some: "jsonb_opt J (Some s) = Inr x \<Longrightarrow> \<exists>t. x = Some t \<and> ao_jsonb J s = Inr t"
  by (auto simp: jsonb_opt_def map_sum_def split: sum.splits)

lemma audit_tx_cases:
  assumes "audit_tx env db body = (res, db')"
  obtains "db' = db" | x where "body db = Inr (x, db')"
  using assms by (auto simp: audit_tx_def split: if_splits sum.splits prod.splits commit_outcome.splits)

lemma audit_exec_Inr: "audit_exec env n r = Inr x \<longleftrightarrow> \<not> av_flt env n \<and> r = Inr x"
  by (simp add: audit_exec_def)

lemma insert_audit_log_Inr:
  assumes "insert_audit_log J row db = Inr db'"
  obtains old new detail where "jsonb_opt J (al_detail row) = Inr detail"
    "db' = db\<lparr>ad_rows := ad_rows db @ [row\<lparr>al_old_value := old, al_new_value := new, al_detail := detail, al_created_at := truncate_microsecond (al_created_at row)\<rparr>]\<rparr>"
  using assms by (auto simp: insert_audit_log_def bindE_Inr split: if_splits)

lemma LogAction_row:
  assumes "LogAction J env a db = (res, db')"
  obtains "db' = db"
  | latest n prev dj dh where "latest_entry (ad_rows db) = Inr latest"
      "(n, prev) = (case latest of None \<Rightarrow> (1, []) | Some (s, h) \<Rightarrow> (wrap64 (s + 1), h))" "CanonicalizeDetail J (la_detail a) = Inr (dj, dh)"
      "insert_audit_log J (chain_row J (av_newID env) (truncate_microsecond (av_now env)) a n prev dj dh) db = Inr db'"
  using assms unfolding LogAction_def
proof (cases rule: audit_tx_cases)
  case (2 x)
  then obtain latest dj dh where l: "latest_entry (ad_rows db) = Inr latest" "CanonicalizeDetail J (la_detail a) = Inr (dj, dh)"
      "insert_audit_log J (chain_row J (av_newID env) (truncate_microsecond (av_now env)) a
        (fst (case latest of None \<Rightarrow> (1, []) | Some (s, h) \<Rightarrow> (wrap64 (s + 1), h)))
        (snd (case latest of None \<Rightarrow> (1, []) | Some (s, h) \<Rightarrow> (wrap64 (s + 1), h))) dj dh) db = Inr db'"
    by (auto simp: bindE_Inr audit_exec_Inr Let_def case_prod_beta)
  show thesis by (rule that(2) [OF l(1) prod.collapse l(2,3)])
qed blast

lemma LogAction_chain:
  assumes laws: "json_laws J" and chain: "chained J 1 [] (ad_rows db)" and len: "int (length (ad_rows db)) < max64"
    and log: "LogAction J env a db = (res, db')"
  shows "db' = db \<or> (\<exists>row. ad_rows db' = ad_rows db @ [row] \<and> chained J 1 [] (ad_rows db @ [row]))"
  using log
proof (cases rule: LogAction_row)
  case (2 latest n prev dj dh)
  let ?row = "chain_row J (av_newID env) (truncate_microsecond (av_now env)) a n prev dj dh"
  let ?stored = "\<lambda>old new detail. ?row\<lparr>al_old_value := old, al_new_value := new, al_detail := detail, al_created_at := truncate_microsecond (al_created_at ?row)\<rparr>"
  have "wrap64 (int (length (ad_rows db)) + 1) = int (length (ad_rows db)) + 1" using len by (simp add: int64_defs)
  then have n: "n = int (length (ad_rows db)) + 1" "prev = (if ad_rows db = [] then [] else the (al_entry_hash (last (ad_rows db))))"
    using 2(1,2) chained_latest [OF chain] by (cases "ad_rows db = []"; auto simp: latest_entry_def)+
  obtain old new detail where ins: "jsonb_opt J (al_detail ?row) = Inr detail"
      "db' = db\<lparr>ad_rows := ad_rows db @ [?stored old new detail]\<rparr>"
    by (rule insert_audit_log_Inr [OF 2(4)])
  then have det: "jsonb_opt J (Some dj) = Inr detail"
      and db': "ad_rows db' = ad_rows db @ [?stored old new detail]"
    by (simp_all add: chain_row_def)
  obtain t where t: "detail = Some t" "ao_jsonb J dj = Inr t" using jsonb_opt_Some [OF det] by blast
  have "dh = ao_hash J (canonical_json J t)" using canonical_is_marshal [OF laws 2(3)] stored_detail [OF laws] t(2) by auto
  then have "entry_ok J n prev (?stored old new detail)"
    using t(1) by (simp add: entry_ok_def chain_row_def truncate_microsecond_def)
  then show ?thesis using chain db' n by (auto simp: chained_append algebra_simps)
qed simp

lemma chained_update:
  assumes "\<And>n p r. P r \<Longrightarrow> entry_ok J n p r \<Longrightarrow> entry_ok J n p (f r) \<and> al_entry_hash (f r) = al_entry_hash r"
  shows "chained J n p xs \<Longrightarrow> chained J n p (update_where P f xs)"
  using assms by (induction J n p xs rule: chained.induct) (auto simp: update_where_Cons)

lemma redactDetail_chain:
  assumes "redactDetail J env sequ keys db = (res, db')" and "chained J 1 [] (ad_rows db)"
  shows "chained J 1 [] (ad_rows db') \<and> length (ad_rows db') = length (ad_rows db)"
proof -
  have "db' = db \<or> (\<exists>d. db' = db\<lparr>ad_rows := update_where (\<lambda>r. al_sequence r = Some sequ) (\<lambda>r. r\<lparr>al_detail := Some d, al_redacted := True\<rparr>) (ad_rows db)\<rparr>)"
    using assms(1) unfolding redactDetail_def
    by (cases rule: audit_tx_cases) (auto simp: bindE_Inr audit_exec_Inr split: if_splits option.splits)
  moreover have "chained J 1 [] (update_where (\<lambda>r. al_sequence r = Some sequ) (\<lambda>r. r\<lparr>al_detail := Some d, al_redacted := True\<rparr>) (ad_rows db))" for d
    using assms(2) by (rule chained_update [rotated]) (auto simp: entry_ok_def)
  ultimately show ?thesis using assms(2) by auto
qed

lemma anchor_chain:
  assumes "AnchorLatestEntry flt out path file db = (res, file', db')" and "chained J 1 [] (ad_rows db)"
  shows "chained J 1 [] (ad_rows db') \<and> length (ad_rows db') = length (ad_rows db)"
proof -
  have "db' = db \<or> (\<exists>s. db' = db\<lparr>ad_rows := update_where (\<lambda>r. al_sequence r = Some s)
      (\<lambda>r. r\<lparr>al_anchored := True, al_anchor_tx_hash := Some (''file:'' @ path)\<rparr>) (ad_rows db)\<rparr>)"
    using assms(1) by (auto simp: AnchorLatestEntry_def Let_def split: if_splits sum.splits option.splits commit_outcome.splits)
  moreover have "chained J 1 [] (update_where (\<lambda>r. al_sequence r = Some s) (\<lambda>r. r\<lparr>al_anchored := True, al_anchor_tx_hash := Some (''file:'' @ path)\<rparr>) (ad_rows db))" for s
    using assms(2) by (rule chained_update [rotated]) (auto simp: entry_ok_def)
  ultimately show ?thesis using assms(2) by auto
qed

section \<open>Verifying\<close>

text \<open>A range of a chain verifies from wherever it starts.\<close>

lemma verify_chained:
  assumes "chained J n prev xs" and "n + int (length xs) \<le> max64" and "0 < n"
    and "if first then e = max a n \<and> (n = 1 \<longrightarrow> prev = []) else a \<le> n \<and> e = n \<and> p = prev"
  shows "verify_loop J first e p (filter (in_range a b) xs) = ChainOK"
  using assms
proof (induction J n prev xs arbitrary: first e p rule: chained.induct)
  case (2 J n prev r rs)
  obtain actor target detail dh where r: "al_sequence r = Some n" "al_actor r = Some actor" "al_target r = Some target"
      "al_detail r = Some detail" "al_detail_hash r = Some dh" "al_prev_hash r = Some prev"
      "al_entry_hash r = Some (ao_hash J (CanonicalSerialize J n (al_created_at r) actor (al_action r) target dh prev))"
      "al_redacted r \<or> dh = ao_hash J (canonical_json J detail)"
    using "2.prems"(1) by (auto simp: entry_ok_def)
  have dh: "al_redacted r \<or> map_sum (\<lambda>_. ()) snd (CanonicalizeDetail J (DetailRaw detail)) = Inr dh"
    using r(8) by (auto simp: CanonicalizeDetail_def)
  have rest: "chained J (n + 1) (the (al_entry_hash r)) rs" "n + 1 + int (length rs) \<le> max64" "0 < n + 1" using "2.prems" by auto
  have w: "wrap64 (n + 1) = n + 1" using "2.prems"(2,3) by (simp add: int64_defs)
  show ?case
  proof (cases "in_range a b r")
    case True
    then have "e = n" "first \<longrightarrow> n = 1 \<longrightarrow> prev = []" "\<not> first \<longrightarrow> p = prev" "a \<le> n"
      using "2.prems"(4) r(1) by (auto simp: in_range_def split: if_splits)
    moreover have "verify_loop J False (n + 1) (the (al_entry_hash r)) (filter (in_range a b) rs) = ChainOK"
      using rest \<open>a \<le> n\<close> by (intro "2.IH") auto
    ultimately show ?thesis using True r dh w by (auto simp del: map_sum.simps)
  next
    case False
    then consider "first" "n < a" | "b < n" using r(1) "2.prems"(4) by (auto simp: in_range_def split: if_splits)
    then show ?thesis
    proof cases
      case 1
      then have "verify_loop J first e p (filter (in_range a b) rs) = ChainOK" using rest "2.prems"(3,4) by (intro "2.IH") auto
      then show ?thesis using False by simp
    next
      case 2
      then have "\<not> in_range a b q" if "q \<in> set rs" for q using chained_member [OF rest(1) that] by (auto simp: in_range_def)
      then have "filter (in_range a b) rs = []" by (simp add: filter_empty_conv)
      then show ?thesis using False by simp
    qed
  qed
qed simp

text \<open>
  The steps that write the chain. Session events go to the same table without a sequence: the
  verification does not read them, and what they do to the log is \<open>session_event_blocks_the_log\<close>.
\<close>

inductive audit_step :: "'j audit_ops \<Rightarrow> AuditDB \<Rightarrow> AuditDB \<Rightarrow> bool" for J where
  log: "LogAction J env a db = (res, db') \<Longrightarrow> audit_step J db db'"
| redact: "RedactEntry J env logEnv sequ keys db = (res, db') \<Longrightarrow> audit_step J db db'"
| anchor: "AnchorLatestEntry flt out path anchors db = (r, anchors', db') \<Longrightarrow> audit_step J db db'"

definition audit_inv :: "'j audit_ops \<Rightarrow> AuditDB \<Rightarrow> bool" where
  "audit_inv J db \<longleftrightarrow> (json_laws J \<longrightarrow> int (length (ad_rows db)) < max64 \<longrightarrow> chained J 1 [] (ad_rows db))"

lemma LogAction_inv:
  assumes "audit_inv J db" and "LogAction J env a db = (res, db')"
  shows "audit_inv J db'"
proof (unfold audit_inv_def, intro impI)
  assume laws: "json_laws J" and len: "int (length (ad_rows db')) < max64"
  have grows: "length (ad_rows db) \<le> length (ad_rows db')"
    using assms(2) by (cases rule: LogAction_row) (auto elim: insert_audit_log_Inr)
  then have "chained J 1 [] (ad_rows db)" "int (length (ad_rows db)) < max64" using assms(1) laws len by (auto simp: audit_inv_def)
  then show "chained J 1 [] (ad_rows db')" using LogAction_chain [OF laws _ _ assms(2)] by auto
qed

lemma audit_step_inv: "audit_step J db db' \<Longrightarrow> audit_inv J db \<Longrightarrow> audit_inv J db'"
proof (induction rule: audit_step.induct)
  case (log env a db res db')
  then show ?case by (auto intro: LogAction_inv)
next
  case (redact env logEnv sequ keys db res db')
  obtain r db1 where r: "redactDetail J env sequ keys db = (r, db1)" by (metis prod.exhaust)
  have len: "length (ad_rows db1) = length (ad_rows db)"
    using r unfolding redactDetail_def by (cases rule: audit_tx_cases) (auto simp: bindE_Inr audit_exec_Inr split: if_splits option.splits)
  have "audit_inv J db1" using redact(2) redactDetail_chain [OF r] len by (simp add: audit_inv_def)
  moreover have "db' = db1 \<or> (\<exists>a. db' = snd (LogAction J logEnv a db1))"
    using redact(1) r by (auto simp: RedactEntry_def split: sum.splits bool.splits)
  ultimately show ?case using LogAction_inv [of J db1 logEnv] by (metis prod.collapse)
next
  case (anchor flt out path anchors db r anchors' db')
  have "length (ad_rows db') = length (ad_rows db)"
    using anchor(1) by (auto simp: AnchorLatestEntry_def Let_def split: if_splits sum.splits option.splits commit_outcome.splits)
  then show ?case using anchor(2) anchor_chain [OF anchor(1), of J] by (simp add: audit_inv_def)
qed

interpretation audit_system: invariant_system "\<lambda>db. ad_rows db = []" "audit_step J" "audit_inv J"
  by unfold_locales (simp add: audit_inv_def, rule audit_step_inv)

section \<open>What a hash protects\<close>

definition serial :: "'j audit_ops \<Rightarrow> AuditLogRow \<Rightarrow> string" where
  "serial J r = CanonicalSerialize J (the (al_sequence r)) (al_created_at r) (the (al_actor r)) (al_action r) (the (al_target r))
     (the (al_detail_hash r)) (the (al_prev_hash r))"

text \<open>What is hashed for a row, and what two rows share when their entry hashes are those of the same entry.\<close>

definition hashed :: "'j audit_ops \<Rightarrow> AuditLogRow \<Rightarrow> string set" where
  "hashed J r = {serial J r, canonical_json J (the (al_detail r))}"

definition same_entry :: "'j audit_ops \<Rightarrow> AuditLogRow \<Rightarrow> AuditLogRow \<Rightarrow> bool" where
  "same_entry J x y \<longleftrightarrow> al_sequence x = al_sequence y \<and> al_created_at x = al_created_at y \<and> al_actor x = al_actor y \<and> al_action x = al_action y
     \<and> al_target x = al_target y \<and> al_detail_hash x = al_detail_hash y \<and> al_prev_hash x = al_prev_hash y \<and> al_entry_hash x = al_entry_hash y
     \<and> (\<not> al_redacted x \<and> \<not> al_redacted y \<longrightarrow> canonical_json J (the (al_detail x)) = canonical_json J (the (al_detail y)))"

definition one_line :: "string \<Rightarrow> bool" where "one_line s \<longleftrightarrow> newline \<notin> set s"

definition row_one_line :: "AuditLogRow \<Rightarrow> bool" where
  "row_one_line r \<longleftrightarrow> one_line (al_action r) \<and> pred_option one_line (al_actor r) \<and> pred_option one_line (al_target r) \<and> pred_option one_line (al_detail_hash r)"

lemma one_line_simps: "one_line (a @ b) \<longleftrightarrow> one_line a \<and> one_line b" "one_line (c # b) \<longleftrightarrow> c \<noteq> newline \<and> one_line b" "one_line []"
  by (auto simp: one_line_def)

lemma one_line_int: "one_line (format_int n)"
  using format_int_are digit_neq [of _ newline] by (fastforce simp: one_line_def newline_def)

lemma split_line: "one_line a \<Longrightarrow> one_line c \<Longrightarrow> a @ newline # b = c @ newline # d \<longleftrightarrow> a = c \<and> b = d"
proof (induction a arbitrary: c)
  case (Cons x a)
  then show ?case by (cases c) (auto simp: one_line_simps)
next
  case Nil
  then show ?case by (cases c) (auto simp: one_line_simps)
qed

lemma serialize_inj:
  assumes "inj (ao_format_time J)" and "\<forall>t. one_line (ao_format_time J t)" and "one_line actor" "one_line action" "one_line target" "one_line dh"
    and "one_line actor'" "one_line action'" "one_line target'" "one_line dh'"
    and "CanonicalSerialize J n ts actor action target dh prev = CanonicalSerialize J n ts' actor' action' target' dh' prev'"
  shows "ts = ts' \<and> actor = actor' \<and> action = action' \<and> target = target' \<and> dh = dh' \<and> prev = prev'"
proof -
  have "''TS:'' @ ao_format_time J ts @ newline # ''ACTOR:'' @ actor @ newline # ''ACTION:'' @ action @ newline # ''TARGET:'' @ target
        @ newline # ''DETAIL_HASH:'' @ dh @ newline # ''PREV_HASH:'' @ prev
      = ''TS:'' @ ao_format_time J ts' @ newline # ''ACTOR:'' @ actor' @ newline # ''ACTION:'' @ action' @ newline # ''TARGET:'' @ target'
        @ newline # ''DETAIL_HASH:'' @ dh' @ newline # ''PREV_HASH:'' @ prev'"
    using assms(11) by (simp add: CanonicalSerialize_def)
  then show ?thesis
    using assms(1-10) split_line by (auto simp: one_line_simps inj_eq)
qed

lemma entry_ok_serial: "entry_ok J n prev r \<Longrightarrow> al_entry_hash r = Some (ao_hash J (serial J r))"
  by (auto simp: entry_ok_def serial_def)

lemma same_hash_same_entry:
  assumes "entry_ok J n p1 x" and "entry_ok J n p2 y" and "al_entry_hash x = al_entry_hash y"
    and inj: "inj_on (ao_hash J) S" and S: "hashed J x \<subseteq> S" "hashed J y \<subseteq> S"
    and times: "inj (ao_format_time J)" "\<forall>t. one_line (ao_format_time J t)" and lines: "row_one_line x" "row_one_line y"
  shows "same_entry J x y \<and> p1 = p2"
proof -
  obtain a1 t1 d1 h1 where x: "al_sequence x = Some n" "al_actor x = Some a1" "al_target x = Some t1" "al_detail x = Some d1"
      "al_detail_hash x = Some h1" "al_prev_hash x = Some p1" "al_redacted x \<or> h1 = ao_hash J (canonical_json J d1)"
    using assms(1) by (auto simp: entry_ok_def)
  obtain a2 t2 d2 h2 where y: "al_sequence y = Some n" "al_actor y = Some a2" "al_target y = Some t2" "al_detail y = Some d2"
      "al_detail_hash y = Some h2" "al_prev_hash y = Some p2" "al_redacted y \<or> h2 = ao_hash J (canonical_json J d2)"
    using assms(2) by (auto simp: entry_ok_def)
  have "serial J x = serial J y"
    using entry_ok_serial [OF assms(1)] entry_ok_serial [OF assms(2)] assms(3) inj S by (simp add: inj_on_def hashed_def)
  then have "CanonicalSerialize J n (al_created_at x) a1 (al_action x) t1 h1 p1 = CanonicalSerialize J n (al_created_at y) a2 (al_action y) t2 h2 p2"
    using x y by (simp add: serial_def)
  then have eq: "al_created_at x = al_created_at y \<and> a1 = a2 \<and> al_action x = al_action y \<and> t1 = t2 \<and> h1 = h2 \<and> p1 = p2"
    using lines x y by (intro serialize_inj [OF times]) (simp_all add: row_one_line_def)
  moreover have "canonical_json J d1 = canonical_json J d2" if "\<not> al_redacted x" "\<not> al_redacted y"
    using that x y eq inj S by (auto simp: hashed_def dest: inj_onD)
  ultimately show ?thesis using x y assms(3) by (simp add: same_entry_def)
qed

lemma chains_agree:
  assumes "length xs = length ys" and "chained J n p1 xs" and "chained J n p2 ys" and "xs \<noteq> []"
    and "al_entry_hash (last xs) = al_entry_hash (last ys)"
    and "inj_on (ao_hash J) S" and "\<forall>r \<in> set xs \<union> set ys. hashed J r \<subseteq> S \<and> row_one_line r"
    and "inj (ao_format_time J)" and "\<forall>t. one_line (ao_format_time J t)"
  shows "list_all2 (same_entry J) xs ys \<and> p1 = p2"
  using assms
proof (induction xs ys arbitrary: n p1 p2 rule: list_induct2)
  case (Cons x xs y ys)
  have ok: "entry_ok J n p1 x" "entry_ok J n p2 y" using Cons.prems(1,2) by simp_all
  have "al_entry_hash x = al_entry_hash y \<and> list_all2 (same_entry J) xs ys"
  proof (cases "xs = []")
    case True
    then show ?thesis using Cons.hyps Cons.prems(4) by simp
  next
    case False
    then have "list_all2 (same_entry J) xs ys \<and> the (al_entry_hash x) = the (al_entry_hash y)"
      using Cons.prems Cons.hyps by (intro Cons.IH [where n = "n + 1"]) auto
    then show ?thesis using ok by (auto simp: entry_ok_def)
  qed
  moreover from this have "same_entry J x y \<and> p1 = p2"
    using same_hash_same_entry [OF ok _ Cons.prems(5) _ _ Cons.prems(7,8)] Cons.prems(6) by simp
  ultimately show ?case by simp
qed simp

lemma verify_loop_Cons:
  assumes "verify_loop J first e p (r # rows) = ChainOK"
  obtains prev where "entry_ok J e prev r" "first \<or> prev = p" "first \<longrightarrow> e = 1 \<longrightarrow> prev = []"
    "verify_loop J False (wrap64 (e + 1)) (the (al_entry_hash r)) rows = ChainOK"
  using assms by (auto simp: entry_ok_def raw_hash split: if_splits option.splits)

lemma verified_chain:
  assumes "verify_loop J first e p rows = ChainOK" and "0 < e" and "e + int (length rows) \<le> max64"
  shows "\<exists>prev. (first \<or> prev = p) \<and> (first \<longrightarrow> e = 1 \<longrightarrow> prev = []) \<and> chained J e prev rows"
  using assms
proof (induction rows arbitrary: first e p)
  case (Cons r rows)
  obtain prev where r: "entry_ok J e prev r" "first \<or> prev = p" "first \<longrightarrow> e = 1 \<longrightarrow> prev = []"
    "verify_loop J False (wrap64 (e + 1)) (the (al_entry_hash r)) rows = ChainOK"
    by (rule verify_loop_Cons [OF Cons.prems(1)])
  have w: "wrap64 (e + 1) = e + 1" using Cons.prems(2,3) by (simp add: int64_defs)
  then have "chained J (e + 1) (the (al_entry_hash r)) rows" using Cons.IH [OF r(4)] Cons.prems(2,3) by auto
  then show ?case using r by auto
qed (cases first; auto)

definition entries :: "int \<Rightarrow> AuditDB \<Rightarrow> AuditLogRow list" where
  "entries n db = sort_key (\<lambda>r. the (al_sequence r)) (filter (in_range 1 n) (ad_rows db))"

lemma entries_of_verified:
  assumes "VerifyChain J False 1 n db = ChainOK" and "r \<in> set (ad_rows db)" and "al_sequence r = Some n" and "1 \<le> n"
    and "int (length (ad_rows db)) < max64"
  shows "chained J 1 [] (entries n db) \<and> length (entries n db) = nat n \<and> last (entries n db) = r"
proof -
  have "length (entries n db) \<le> length (ad_rows db)" by (simp add: entries_def)
  then have "1 + int (length (entries n db)) \<le> max64" using assms(5) by linarith
  moreover have "verify_loop J True 1 [] (entries n db) = ChainOK" using assms(1) by (simp add: VerifyChain_def entries_def)
  ultimately have chain: "chained J 1 [] (entries n db)" using verified_chain by fastforce
  have r: "r \<in> set (entries n db)" using assms(2-4) by (simp add: entries_def in_range_def)
  then obtain i where i: "i < length (entries n db)" "entries n db ! i = r" by (auto simp: in_set_conv_nth)
  then have n: "n = 1 + int i" using chained_sequence [OF chain i(1)] assms(3) by simp
  have "last (entries n db) \<in> set (entries n db)" using r by (intro last_in_set) auto
  then have "in_range 1 n (last (entries n db))" by (simp add: entries_def)
  moreover have "al_sequence (last (entries n db)) = Some (int (length (entries n db)))"
    using chained_sequence [OF chain, of "length (entries n db) - 1"] r by (cases "entries n db") (auto simp: last_conv_nth)
  ultimately have "int (length (entries n db)) \<le> n" by (simp add: in_range_def)
  then have "length (entries n db) = i + 1" using n i(1) by simp
  then show ?thesis using chain n i by (cases "entries n db") (auto simp: last_conv_nth)
qed

section \<open>Properties\<close>

text \<open>
  C33: Whatever is logged, redacted and anchored, with any statement or commit failing: every range
  of the log verifies, so the scheduled verifier raises no alert unless it cannot read.
\<close>

theorem written_chain_verifies:
  assumes "json_laws J" and "reach (\<lambda>db. ad_rows db = []) (audit_step J) db" and "int (length (ad_rows db)) < max64"
  shows "VerifyChain J False a b db = ChainOK \<and> \<not> AuditChainVerifier_alerts J False batch db"
proof -
  have chain: "chained J 1 [] (ad_rows db)" using audit_system.reachable_inv [OF assms(2)] assms(1,3) by (simp add: audit_inv_def)
  have "VerifyChain J False a b db = ChainOK" for a b
    using verify_chained [OF chain, of True "if a \<le> 0 then 1 else a" "if a \<le> 0 then 1 else a" "[]" b] assms(3) chained_sort [OF chain]
    by (auto simp: VerifyChain_def Let_def)
  then show ?thesis by (simp add: AuditChainVerifier_alerts_def AuditChainVerifier_RunOnce_def Let_def)
qed

text \<open>
  C34: Two tables that verify up to an entry and have the same hash there are the same log up to it:
  same instants, actors, actions, targets and, where neither is redacted, details. The
  hypotheses: SHA-256 does not collide on what the two tables hash, instants print injectively
  on one line, and no hashed text contains a newline.
\<close>

theorem chain_is_tamper_evident:
  assumes "VerifyChain J False 1 n db = ChainOK" and "VerifyChain J False 1 n db' = ChainOK" and "1 \<le> n"
    and "x \<in> set (ad_rows db)" "y \<in> set (ad_rows db')" "al_sequence x = Some n" "al_sequence y = Some n" "al_entry_hash x = al_entry_hash y"
    and "inj_on (ao_hash J) (\<Union> (hashed J ` (set (ad_rows db) \<union> set (ad_rows db'))))"
    and "inj (ao_format_time J)" "\<forall>t. one_line (ao_format_time J t)" "\<forall>r \<in> set (ad_rows db) \<union> set (ad_rows db'). row_one_line r"
    and "int (length (ad_rows db)) < max64" "int (length (ad_rows db')) < max64"
  shows "list_all2 (same_entry J) (entries n db) (entries n db') \<and> length (entries n db) = nat n"
proof -
  have x: "chained J 1 [] (entries n db) \<and> length (entries n db) = nat n \<and> last (entries n db) = x"
    by (rule entries_of_verified [OF assms(1,4,6,3,13)])
  have y: "chained J 1 [] (entries n db') \<and> length (entries n db') = nat n \<and> last (entries n db') = y"
    by (rule entries_of_verified [OF assms(2,5,7,3,14)])
  have "set (entries n db) \<subseteq> set (ad_rows db)" "set (entries n db') \<subseteq> set (ad_rows db')" by (auto simp: entries_def)
  then have "\<forall>r \<in> set (entries n db) \<union> set (entries n db'). hashed J r \<subseteq> \<Union> (hashed J ` (set (ad_rows db) \<union> set (ad_rows db'))) \<and> row_one_line r"
    using assms(12) by blast
  moreover have "entries n db \<noteq> []" using x assms(3) by auto
  ultimately show ?thesis
    using x y assms(8) chains_agree [of "entries n db" "entries n db'" J 1 "[]" "[]", OF _ _ _ _ _ assms(9) _ assms(10,11)] by simp
qed

section \<open>Witnesses\<close>

definition demo_time :: "time \<Rightarrow> string" where
  "demo_time t = (if t < 0 then replicate (nat (- t)) (CHR ''a'') else replicate (nat t) (CHR ''b''))"

definition demo_ops :: "string audit_ops" where
  "demo_ops = \<lparr>ao_hash = id, ao_format_time = demo_time, ao_unmarshal = Some, ao_marshal = id, ao_object = (\<lambda>_. ''{}''),
     ao_members = (\<lambda>_. Some [(''k'', ''v'')]), ao_string = id, ao_jsonb = Inr, ao_redaction = (\<lambda>_ _. ''r'')\<rparr>"

definition demo_audit_env :: "uuid \<Rightarrow> audit_env" where
  "demo_audit_env i = \<lparr>av_flt = (\<lambda>_. False), av_commit = Committed, av_now = 1, av_newID = i\<rparr>"

definition demo_log :: "uuid \<Rightarrow> AuditDB \<Rightarrow> AuditDB" where
  "demo_log i db = snd (LogAction demo_ops (demo_audit_env i) \<lparr>la_userID = None, la_actor = ''u'', la_action = ''w'', la_target = ''t'',
     la_detail = DetailString ''d'', la_old = None, la_new = None, la_ip = None\<rparr> db)"

definition demo_audit :: AuditDB where "demo_audit = demo_log 1 \<lparr>ad_users = [], ad_rows = []\<rparr>"

definition demo_row :: AuditLogRow where
  "demo_row = \<lparr>al_id = 1, al_user_id = None, al_action = ''w'', al_entity_type = ''audit'', al_entity_id = 1, al_old_value = None, al_new_value = None,
     al_ip_address = None, al_created_at = 0, al_sequence = Some 1, al_actor = Some ''u'', al_target = Some ''t'', al_detail = Some ''d'',
     al_detail_hash = Some ''d'', al_prev_hash = Some [], al_entry_hash = Some (CanonicalSerialize demo_ops 1 0 ''u'' ''w'' ''t'' ''d'' []),
     al_anchored = False, al_anchor_tx_hash = None, al_redacted = False, al_correlation_id = None\<rparr>"

lemma demo_audit_eval: "demo_audit = \<lparr>ad_users = [], ad_rows = [demo_row]\<rparr>"
  by (simp add: demo_audit_def demo_log_def demo_row_def LogAction_def audit_tx_def demo_audit_env_def demo_ops_def audit_exec_def latest_entry_def
      CanonicalizeDetail_def canonical_json_def insert_audit_log_def jsonb_opt_def chain_row_def truncate_microsecond_def sql_eq_def Let_def)

lemma demo_ops_laws: "json_laws demo_ops"
  by (auto simp: json_laws_def demo_ops_def)

lemma demo_time_inj: "inj demo_time"
proof (rule injI)
  fix s t assume eq: "demo_time s = demo_time t"
  have len: "length (demo_time u) = nat \<bar>u\<bar>" for u by (simp add: demo_time_def)
  have sign: "u < 0 \<longleftrightarrow> CHR ''a'' \<in> set (demo_time u)" for u by (auto simp: demo_time_def)
  show "s = t" using len [of s] len [of t] sign [of s] sign [of t] eq by auto
qed

lemma demo_time_line: "one_line (demo_time t)"
  by (auto simp: demo_time_def one_line_def newline_def)

theorem written_chain_verifies_witness:
  "VerifyChain demo_ops False 0 9 demo_audit = ChainOK \<and> \<not> AuditChainVerifier_alerts demo_ops False 0 demo_audit \<and> ad_rows demo_audit = [demo_row]"
proof -
  have "reach (\<lambda>db. ad_rows db = []) (audit_step demo_ops) \<lparr>ad_users = [], ad_rows = []\<rparr>" by (rule reach_init) simp
  then have "reach (\<lambda>db. ad_rows db = []) (audit_step demo_ops) demo_audit"
    by (rule reach_step) (simp add: demo_audit_def demo_log_def, rule audit_step.log, rule prod.collapse [symmetric])
  then show ?thesis using written_chain_verifies [OF demo_ops_laws, of demo_audit 0 9 0] by (simp add: demo_audit_eval int64_defs)
qed

definition demo_anchored :: AuditDB where
  "demo_anchored = snd (snd (AnchorLatestEntry (\<lambda>_. False) Committed ''f'' [] demo_audit))"

lemma demo_anchored_eval: "demo_anchored = \<lparr>ad_users = [], ad_rows = [demo_row\<lparr>al_anchored := True, al_anchor_tx_hash := Some ''file:f''\<rparr>]\<rparr>"
  by (simp add: demo_anchored_def demo_audit_eval AnchorLatestEntry_def latest_entry_def demo_row_def update_where_Cons)

lemma demo_verifies: "VerifyChain demo_ops False 1 1 demo_audit = ChainOK" "VerifyChain demo_ops False 1 1 demo_anchored = ChainOK"
  by (simp_all add: demo_audit_eval demo_anchored_eval demo_row_def VerifyChain_def in_range_def raw_hash canonical_json_def demo_ops_def)

theorem chain_is_tamper_evident_witness:
  "list_all2 (same_entry demo_ops) (entries 1 demo_audit) (entries 1 demo_anchored) \<and> demo_audit \<noteq> demo_anchored"
proof -
  have "inj_on (ao_hash demo_ops) S" for S by (simp add: demo_ops_def)
  moreover have "inj (ao_format_time demo_ops)" "\<forall>t. one_line (ao_format_time demo_ops t)"
    using demo_time_inj demo_time_line by (simp_all add: demo_ops_def)
  moreover have "row_one_line demo_row" "row_one_line (demo_row\<lparr>al_anchored := True, al_anchor_tx_hash := Some ''file:f''\<rparr>)"
    by (simp_all add: demo_row_def row_one_line_def one_line_def newline_def)
  ultimately show ?thesis
    using chain_is_tamper_evident [OF demo_verifies, of demo_row "demo_row\<lparr>al_anchored := True, al_anchor_tx_hash := Some ''file:f''\<rparr>"]
    by (simp add: demo_audit_eval demo_anchored_eval int64_defs demo_row_def)
qed

section \<open>Findings\<close>

text \<open>
  Dropping the newest entries is not a gap: what is left of a written log verifies.
\<close>

theorem truncated_chain_verifies:
  assumes "json_laws J" and "reach (\<lambda>db. ad_rows db = []) (audit_step J) db" and "int (length (ad_rows db)) < max64"
  shows "VerifyChain J False 1 max64 (db\<lparr>ad_rows := take k (ad_rows db)\<rparr>) = ChainOK"
proof -
  have "chained J 1 [] (take k (ad_rows db) @ drop k (ad_rows db))"
    using audit_system.reachable_inv [OF assms(2)] assms(1,3) by (simp add: audit_inv_def)
  then have chain: "chained J 1 [] (take k (ad_rows db))" by (simp only: chained_append)
  then show ?thesis
    using verify_chained [OF chain, of True 1 1 "[]" max64] assms(3) chained_sort [OF chain] by (auto simp: VerifyChain_def)
qed

text \<open>
  The \<open>redacted\<close> column is not hashed: setting it lets any detail stand in for the one logged.
\<close>

theorem redacted_flag_hides_the_detail:
  assumes "verify_loop J first e p (r # rows) = ChainOK"
  shows "verify_loop J first e p (r\<lparr>al_detail := Some forged, al_redacted := True\<rparr> # rows) = ChainOK"
  using assms by (auto split: if_splits option.splits)

text \<open>
  Fields are separated by newlines and not escaped: a newline moves text from one field to
  the next with the entry hash unchanged.
\<close>

theorem newline_moves_a_field:
  "verify_loop J first e p (r\<lparr>al_actor := Some (actor @ newline # ''ACTION:'' @ moved), al_action := action\<rparr> # rows)
   = verify_loop J first e p (r\<lparr>al_actor := Some actor, al_action := moved @ newline # ''ACTION:'' @ action\<rparr> # rows)"
  by (auto simp: CanonicalSerialize_def split: option.splits)

text \<open>
  A session event has no sequence; read back as the latest entry it does not scan, and every
  later entry of the chain is refused.
\<close>

theorem session_event_blocks_the_log:
  assumes "PostgresAuditLogger_Log J out newID now userID action entityType entityID oldJSON newJSON ip corr db = (Inr (), db')"
  shows "snd (LogAction J env a db') = db' \<and> isl (fst (LogAction J env a db'))"
proof -
  have "list_ex (\<lambda>r. al_sequence r = None) (ad_rows db')"
    using assms by (auto simp: PostgresAuditLogger_Log_def Let_def split: commit_outcome.splits sum.splits elim!: insert_audit_log_Inr)
  then have "latest_entry (ad_rows db') = Inl ScanNull" by (auto simp: latest_entry_def)
  then show ?thesis by (simp add: LogAction_def audit_tx_def audit_exec_def)
qed

text \<open>
  With a batch size, a pass reads the first entries of the log and never the later ones.
\<close>

theorem batch_never_moves_on:
  assumes "0 < batch" and "batch < max64"
  shows "AuditChainVerifier_RunOnce J False batch (db\<lparr>ad_rows := ad_rows db @ rows\<rparr>) = AuditChainVerifier_RunOnce J False batch db
    \<or> (\<exists>r \<in> set rows. in_range 1 batch r)"
proof -
  have "wrap64 batch = batch" using assms by (simp add: int64_defs)
  then show ?thesis using assms by (auto simp: AuditChainVerifier_RunOnce_def VerifyChain_def filter_empty_conv)
qed

end
