(* ===== verification/Vault_Queries.thy ===== *)
theory Vault_Queries
  imports Vault_Repository "HOL-Library.Multiset"
begin

text \<open>
  The reads of \<open>repository/postgres/vault_repository.go\<close> that other components sweep: one
  vault, the pages of \<open>ListVaults\<close> and the active vaults. The allocations of a vault are read
  by a statement of their own, which can fail, and are not part of the model.
\<close>

record 'd ScannedVault = "'d Vault" +
  va_LastHarvestedAt :: "time option"

definition scanVault :: "('d, 'z) money_ops_scheme \<Rightarrow> VaultRow \<Rightarrow> 'd ScannedVault" where
  "scanVault D r =
     \<lparr>va_ID = v_id r, va_UserID = v_user_id r, va_ContractAddress = v_contract_address r,
      va_TotalDeposited = d_Scan D (v_total_deposited r), va_CurrentBalance = d_Scan D (v_current_balance r),
      va_Currency = v_currency r, va_Status = v_status r, va_YieldEarned = d_Scan D (v_yield_earned r),
      va_FeesPaid = d_Scan D (v_fees_paid r), va_HarvestFrequency = v_harvest_frequency r, va_CreatedAt = v_created_at r,
      va_UpdatedAt = v_updated_at r, va_LastHarvestedAt = v_last_harvested_at r\<rparr>"

definition VaultRepository_GetVault ::
  "('d, 'z) money_ops_scheme \<Rightarrow> sql_fault \<Rightarrow> VaultDB \<Rightarrow> uuid \<Rightarrow> 'd vault_error + 'd ScannedVault" where
  "VaultRepository_GetVault D flt db vid =
     (if flt 0 then Inl VaultFault
      else (case select_vault vid db of
          None \<Rightarrow> Inl ErrVaultNotFound
        | Some r \<Rightarrow> if flt 1 then Inl VaultFault else Inr (scanVault D r)))"

definition listed :: "string \<Rightarrow> VaultRow \<Rightarrow> bool" where
  "listed status r \<longleftrightarrow> v_deleted_at r = None \<and> (status = [] \<or> v_status r = status)"

text \<open>
  Both lists are ordered by \<open>created_at\<close> alone. Among vaults created at the same instant the
  server may choose any order, and another one in the next query: \<open>ties\<close> is its choice.
  \<open>ListVaults\<close> counts and then reads: \<open>counted\<close> is the table the count sees, \<open>db\<close> the one the
  page is read from.
\<close>

definition by_created :: "(VaultRow \<Rightarrow> int) \<Rightarrow> (VaultRow \<Rightarrow> int) \<Rightarrow> VaultRow list \<Rightarrow> VaultRow list" where
  "by_created ties key rows = sort_key key (sort_key ties rows)"

definition VaultRepository_ListVaults ::
  "('d, 'z) money_ops_scheme \<Rightarrow> sql_fault \<Rightarrow> (VaultRow \<Rightarrow> int) \<Rightarrow> VaultDB \<Rightarrow> VaultDB \<Rightarrow> string \<Rightarrow> int \<Rightarrow> int
   \<Rightarrow> 'd vault_error + 'd ScannedVault list \<times> int" where
  "VaultRepository_ListVaults D flt ties counted db status limit offset =
     (if flt 0 \<or> flt 1 then Inl VaultFault
      else if limit < 0 then Inl (VaultServer (PgError ''2201W'' []))
      else if offset < 0 then Inl (VaultServer (PgError ''2201X'' []))
      else Inr (map (scanVault D) (take (nat limit) (drop (nat offset)
             (by_created ties (\<lambda>r. - v_created_at r) (filter (listed status) (vd_vaults db))))),
           int (length (filter (listed status) (vd_vaults counted)))))"

definition VaultRepository_ListActive ::
  "('d, 'z) money_ops_scheme \<Rightarrow> sql_fault \<Rightarrow> (VaultRow \<Rightarrow> int) \<Rightarrow> VaultDB \<Rightarrow> 'd vault_error + 'd ScannedVault list" where
  "VaultRepository_ListActive D flt ties db =
     (let rows = by_created ties v_created_at (filter (listed ''active'') (vd_vaults db))
      in if flt 0 \<or> list_ex (\<lambda>i. flt (Suc i)) [0..<length rows] then Inl VaultFault
         else Inr (map (scanVault D) rows))"

text \<open>Where no two rows were created at the same instant, the order is determined.\<close>

lemma by_created_unique:
  assumes "distinct (map key rows)"
  shows "by_created ties key rows = sort_key key rows"
proof -
  have "sort_key key rows = by_created ties key rows"
    using assms by (intro sort_key_inj_key_eq) (auto simp: by_created_def distinct_map)
  then show ?thesis by simp
qed

end
