(* ===== verification/Reconciliation.thy ===== *)
theory Reconciliation
  imports Vault_Queries
begin

text \<open>
  Reconciliation of the recorded balances with the chain (\<open>reconciliation/\<close>): the
  classification of differences, the comparators, the engine that records runs and findings,
  the audit tables of migration 085, and the scheduled runner with its dry-run mode, its
  metrics and its liveness sample. What the chain answers, the listing of pending
  transactions and the identifiers drawn are arguments.
\<close>

section \<open>Vocabulary\<close>

type_synonym Level = string
type_synonym DiscrepancyType = string
type_synonym Severity = string

definition LevelBalance :: Level where "LevelBalance = ''balance''"
definition LevelTransaction :: Level where "LevelTransaction = ''transaction''"
definition LevelInvariant :: Level where "LevelInvariant = ''invariant''"

definition TypeMissing :: DiscrepancyType where "TypeMissing = ''missing''"
definition TypeExtra :: DiscrepancyType where "TypeExtra = ''extra''"
definition TypeMismatch :: DiscrepancyType where "TypeMismatch = ''mismatch''"
definition TypeStuck :: DiscrepancyType where "TypeStuck = ''stuck''"

definition SeverityInformational :: Severity where "SeverityInformational = ''informational''"
definition SeverityWarning :: Severity where "SeverityWarning = ''warning''"
definition SeverityCritical :: Severity where "SeverityCritical = ''critical''"

definition RunStatusRunning :: string where "RunStatusRunning = ''running''"
definition RunStatusCompleted :: string where "RunStatusCompleted = ''completed''"
definition RunStatusFailed :: string where "RunStatusFailed = ''failed''"

definition ResolutionOpen :: string where "ResolutionOpen = ''open''"
definition ResolutionReviewing :: string where "ResolutionReviewing = ''reviewing''"
definition ResolutionResolved :: string where "ResolutionResolved = ''resolved''"

lemmas recon_words = LevelBalance_def LevelTransaction_def LevelInvariant_def TypeMissing_def TypeExtra_def TypeMismatch_def TypeStuck_def
  SeverityInformational_def SeverityWarning_def SeverityCritical_def RunStatusRunning_def RunStatusCompleted_def RunStatusFailed_def
  ResolutionOpen_def ResolutionReviewing_def ResolutionResolved_def

record Scope =
  sc_FullSweep :: bool
  sc_VaultID :: uuid
  sc_EventID :: string
  sc_StartedAt :: time

record 'd Finding =
  fd_ID :: uuid
  fd_RunID :: uuid
  fd_Level :: Level
  fd_Type :: DiscrepancyType
  fd_Severity :: Severity
  fd_EntityType :: string
  fd_EntityID :: string
  fd_RecordedValue :: "'d option"
  fd_OnChainValue :: "'d option"
  fd_Difference :: "'d option"
  fd_Tolerance :: 'd
  fd_ObservedAt :: time
  fd_Details :: "(string \<times> string) list"
  fd_ResolutionState :: string

record 'd FindingInput =
  fi_Level :: Level
  fi_Type :: DiscrepancyType
  fi_EntityType :: string
  fi_EntityID :: string
  fi_RecordedValue :: "'d option"
  fi_OnChainValue :: "'d option"
  fi_Age :: duration
  fi_Details :: "(string \<times> string) list"

record Stats =
  ss_Checked :: int
  ss_Findings :: int
  ss_Critical :: int

record 'd ComparisonResult =
  cr_Checked :: int
  cr_Findings :: "'d Finding list"

section \<open>Classification\<close>

record 'd recon_ops = "'d money_ops" +
  d_Abs :: "'d \<Rightarrow> 'd"
  ro_uuidString :: "uuid \<Rightarrow> string"

record 'd Classifier =
  cl_DustTolerance :: 'd
  cl_WarningThreshold :: 'd
  cl_CriticalThreshold :: 'd
  cl_StuckAfter :: duration

text \<open>\<open>RequireFromString\<close> panics on a text that is not a number; the three literals are.\<close>

definition d_Require :: "('d, 'z) money_ops_scheme \<Rightarrow> string \<Rightarrow> 'd" where
  "d_Require D s = (case d_NewFromString D s of Some x \<Rightarrow> x | None \<Rightarrow> d_Zero D)"

definition NewClassifier :: "('d, 'z) recon_ops_scheme \<Rightarrow> 'd Classifier \<Rightarrow> 'd Classifier" where
  "NewClassifier D c =
     (let orDefault = (\<lambda>x s. if d_Sign D x = 0 then d_Require D s else x)
      in \<lparr>cl_DustTolerance = orDefault (cl_DustTolerance c) ''0.000001'', cl_WarningThreshold = orDefault (cl_WarningThreshold c) ''0.01'',
          cl_CriticalThreshold = orDefault (cl_CriticalThreshold c) ''1'',
          cl_StuckAfter = (if cl_StuckAfter c \<le> 0 then 30 * minute else cl_StuckAfter c)\<rparr>)"

definition severityForDifference :: "('d, 'z) recon_ops_scheme \<Rightarrow> 'd Classifier \<Rightarrow> 'd \<Rightarrow> Severity" where
  "severityForDifference D c diff =
     (if d_Cmp D diff (cl_DustTolerance c) \<le> 0 then SeverityInformational
      else if 0 \<le> d_Cmp D diff (cl_CriticalThreshold c) then SeverityCritical
      else if 0 \<le> d_Cmp D diff (cl_WarningThreshold c) then SeverityWarning
      else SeverityInformational)"

definition Classify :: "('d, 'z) recon_ops_scheme \<Rightarrow> 'd Classifier \<Rightarrow> 'd FindingInput \<Rightarrow> time \<Rightarrow> 'd Finding" where
  "Classify D c input observedAt =
     (let c = NewClassifier D c;
          finding = \<lparr>fd_ID = uuid_Nil, fd_RunID = uuid_Nil, fd_Level = fi_Level input, fd_Type = fi_Type input, fd_Severity = [],
            fd_EntityType = fi_EntityType input, fd_EntityID = fi_EntityID input, fd_RecordedValue = fi_RecordedValue input,
            fd_OnChainValue = fi_OnChainValue input, fd_Difference = None, fd_Tolerance = cl_DustTolerance c, fd_ObservedAt = observedAt,
            fd_Details = fi_Details input, fd_ResolutionState = ResolutionOpen\<rparr>
      in case (fi_RecordedValue input, fi_OnChainValue input) of
           (Some recorded, Some onChain) \<Rightarrow>
             (let diff = d_Abs D (d_Sub D recorded onChain) in finding\<lparr>fd_Difference := Some diff, fd_Severity := severityForDifference D c diff\<rparr>)
         | _ \<Rightarrow>
             if fi_Type input = TypeStuck \<and> cl_StuckAfter c \<le> fi_Age input then finding\<lparr>fd_Severity := SeverityWarning\<rparr>
             else if fi_Type input = TypeMissing \<or> fi_Type input = TypeExtra then finding\<lparr>fd_Severity := SeverityCritical\<rparr>
             else finding\<lparr>fd_Severity := SeverityInformational\<rparr>)"

section \<open>The balance comparator\<close>

datatype 'd recon_error =
    ListFailed "'d vault_error"
  | ChainRead string
  | AllReadsFailed int "'d recon_error"
  | ReconServer pg_error
  | ReconFault

definition vaultReconcilePageSize :: int where "vaultReconcilePageSize = 500"

text \<open>
  The locals of the sweep. \<open>chain k\<close> answers the \<open>k\<close>-th read and \<open>cancelled k\<close> tells whether the
  context is done when it has failed.
\<close>

record 'd sweep =
  sw_findings :: "'d Finding list"
  sw_checked :: int
  sw_readFailures :: int
  sw_firstReadErr :: "'d recon_error option"
  sw_attemptedReads :: int

record 'd balance_env =
  be_chain :: "nat \<Rightarrow> string \<Rightarrow> 'd recon_error + 'd"
  be_cancelled :: "nat \<Rightarrow> bool"
  be_now :: time

definition mismatch_input :: "('d, 'z) recon_ops_scheme \<Rightarrow> 'd ScannedVault \<Rightarrow> 'd \<Rightarrow> 'd FindingInput" where
  "mismatch_input D v onChain =
     \<lparr>fi_Level = LevelBalance, fi_Type = TypeMismatch, fi_EntityType = ''vault'', fi_EntityID = ro_uuidString D (va_ID v),
      fi_RecordedValue = Some (va_CurrentBalance v), fi_OnChainValue = Some onChain, fi_Age = 0,
      fi_Details = [(''contract_address'', va_ContractAddress v), (''currency'', va_Currency v)]\<rparr>"

fun compare_page ::
  "('d, 'z) recon_ops_scheme \<Rightarrow> 'd Classifier \<Rightarrow> 'd balance_env \<Rightarrow> Scope \<Rightarrow> 'd ScannedVault list \<Rightarrow> 'd sweep \<Rightarrow> 'd recon_error + 'd sweep" where
  "compare_page D c env scope [] sw = Inr sw"
| "compare_page D c env scope (v # vs) sw =
     (if sc_VaultID scope \<noteq> uuid_Nil \<and> va_ID v \<noteq> sc_VaultID scope then compare_page D c env scope vs sw
      else if va_ContractAddress v = [] then compare_page D c env scope vs (sw\<lparr>sw_checked := sw_checked sw + 1\<rparr>)
      else
        (let k = nat (sw_attemptedReads sw); sw = sw\<lparr>sw_attemptedReads := sw_attemptedReads sw + 1\<rparr>
         in case be_chain env k (va_ContractAddress v) of
              Inl err \<Rightarrow>
                if be_cancelled env k then Inl err
                else compare_page D c env scope vs
                  (sw\<lparr>sw_readFailures := sw_readFailures sw + 1,
                      sw_firstReadErr := (case sw_firstReadErr sw of None \<Rightarrow> Some err | Some e \<Rightarrow> Some e)\<rparr>)
            | Inr onChain \<Rightarrow>
                compare_page D c env scope vs
                  (if d_Cmp D (va_CurrentBalance v) onChain = 0 then sw\<lparr>sw_checked := sw_checked sw + 1\<rparr>
                   else sw\<lparr>sw_checked := sw_checked sw + 1,
                           sw_findings := sw_findings sw @ [Classify D c (mismatch_input D v onChain) (be_now env)]\<rparr>)))"

text \<open>
  \<open>lister i offset\<close> is what the \<open>i\<close>-th call of \<open>ListVaults\<close> returns. The loop ends when the offset
  reaches the total reported or a page is empty.
\<close>

type_synonym 'd vault_lister = "nat \<Rightarrow> int \<Rightarrow> 'd vault_error + 'd ScannedVault list \<times> int"

partial_function (option) compare_loop ::
  "('d, 'z) recon_ops_scheme \<Rightarrow> 'd Classifier \<Rightarrow> 'd balance_env \<Rightarrow> 'd vault_lister \<Rightarrow> Scope \<Rightarrow> nat \<Rightarrow> int \<Rightarrow> 'd sweep
   \<Rightarrow> ('d recon_error + 'd sweep) option" where
  "compare_loop D c env lister scope i offset sw =
     (case lister i offset of
        Inl err \<Rightarrow> Some (Inl (ListFailed err))
      | Inr (vaults, total_count) \<Rightarrow>
        (case compare_page D c env scope vaults sw of
           Inl err \<Rightarrow> Some (Inl err)
         | Inr sw' \<Rightarrow>
           (let offset' = wrap64 (offset + int (length vaults))
            in if total_count \<le> offset' \<or> vaults = [] then Some (Inr sw')
               else compare_loop D c env lister scope (Suc i) offset' sw')))"

definition empty_sweep :: "'d sweep" where
  "empty_sweep = \<lparr>sw_findings = [], sw_checked = 0, sw_readFailures = 0, sw_firstReadErr = None, sw_attemptedReads = 0\<rparr>"

text \<open>Every attempted read having failed is the chain being unreachable, not a clean result.\<close>

definition sweep_result :: "'d sweep \<Rightarrow> 'd recon_error + 'd ComparisonResult" where
  "sweep_result sw =
     (case sw_firstReadErr sw of
        Some e \<Rightarrow>
          if 0 < sw_attemptedReads sw \<and> sw_readFailures sw = sw_attemptedReads sw then Inl (AllReadsFailed (sw_readFailures sw) e)
          else Inr \<lparr>cr_Checked = sw_checked sw, cr_Findings = sw_findings sw\<rparr>
      | None \<Rightarrow> Inr \<lparr>cr_Checked = sw_checked sw, cr_Findings = sw_findings sw\<rparr>)"

definition BalanceComparator_Reconcile ::
  "('d, 'z) recon_ops_scheme \<Rightarrow> 'd Classifier \<Rightarrow> 'd balance_env \<Rightarrow> 'd vault_lister \<Rightarrow> Scope \<Rightarrow> ('d recon_error + 'd ComparisonResult) option" where
  "BalanceComparator_Reconcile D c env lister scope =
     map_option (\<lambda>r. bindE r sweep_result) (compare_loop D (NewClassifier D c) env lister scope 0 0 empty_sweep)"

text \<open>The lister of the service: the active vaults in pages, over the table as it is at each call.\<close>

definition active_lister :: "('d, 'z) recon_ops_scheme \<Rightarrow> (nat \<Rightarrow> sql_fault) \<Rightarrow> (nat \<Rightarrow> VaultRow \<Rightarrow> int) \<Rightarrow> (nat \<Rightarrow> VaultDB) \<Rightarrow> (nat \<Rightarrow> VaultDB) \<Rightarrow> 'd vault_lister" where
  "active_lister D flt ties counted dbs i offset =
     VaultRepository_ListVaults D (flt i) (ties i) (counted i) (dbs i) ''active'' vaultReconcilePageSize offset"

section \<open>The other comparators\<close>

record PendingTx =
  pt_TxHash :: string
  pt_Status :: string
  pt_CreatedAt :: time

text \<open>\<open>status i h\<close>: what the chain answers for the \<open>i\<close>-th transaction, \<open>None\<close> when it does not know it.\<close>

fun stuck_findings ::
  "('d, 'z) recon_ops_scheme \<Rightarrow> 'd Classifier \<Rightarrow> time \<Rightarrow> (nat \<Rightarrow> string \<Rightarrow> 'd recon_error + string option) \<Rightarrow> nat \<Rightarrow> PendingTx list
   \<Rightarrow> 'd recon_error + 'd Finding list" where
  "stuck_findings D c now status i [] = Inr []"
| "stuck_findings D c now status i (t # ts) =
     bindE (status i (pt_TxHash t)) (\<lambda>r.
     bindE (stuck_findings D c now status (Suc i) ts) (\<lambda>fs.
     Inr (case r of
       Some st \<Rightarrow>
         if st \<noteq> ''pending'' then
           Classify D c \<lparr>fi_Level = LevelTransaction, fi_Type = TypeStuck, fi_EntityType = ''transaction'', fi_EntityID = pt_TxHash t,
             fi_RecordedValue = None, fi_OnChainValue = None, fi_Age = time_sub now (pt_CreatedAt t),
             fi_Details = [(''recorded_status'', pt_Status t), (''on_chain_status'', st)]\<rparr> now # fs
         else fs
     | None \<Rightarrow> fs)))"

definition TransactionComparator_Reconcile ::
  "('d, 'z) recon_ops_scheme \<Rightarrow> 'd Classifier \<Rightarrow> duration \<Rightarrow> time \<Rightarrow> (time \<Rightarrow> 'd recon_error + PendingTx list)
   \<Rightarrow> (nat \<Rightarrow> string \<Rightarrow> 'd recon_error + string option) \<Rightarrow> 'd recon_error + 'd ComparisonResult" where
  "TransactionComparator_Reconcile D c pendingAfter now listPending status =
     (let pendingAfter = (if pendingAfter \<le> 0 then 30 * minute else pendingAfter) in
      bindE (listPending (now - pendingAfter)) (\<lambda>pending.
      bindE (stuck_findings D (NewClassifier D c) now status 0 pending) (\<lambda>fs.
      Inr \<lparr>cr_Checked = int (length pending), cr_Findings = fs\<rparr>)))"

definition InvariantComparator_Reconcile ::
  "('d, 'z) recon_ops_scheme \<Rightarrow> 'd Classifier \<Rightarrow> ('d Classifier \<Rightarrow> 'd recon_error + 'd ComparisonResult) option \<Rightarrow> 'd recon_error + 'd ComparisonResult" where
  "InvariantComparator_Reconcile D c check =
     (case check of None \<Rightarrow> Inr \<lparr>cr_Checked = 0, cr_Findings = []\<rparr> | Some f \<Rightarrow> f (NewClassifier D c))"

section \<open>The audit tables\<close>

record RunRow =
  rn_id :: uuid
  rn_level :: Level
  rn_comparator :: string
  rn_status :: string
  rn_scope :: Scope
  rn_started_at :: time
  rn_completed :: bool
  rn_checked_count :: int
  rn_finding_count :: int
  rn_critical_count :: int
  rn_error :: "string option"

record FindingRow =
  fr_id :: uuid
  fr_run_id :: uuid
  fr_level :: Level
  fr_type :: DiscrepancyType
  fr_severity :: Severity
  fr_entity_type :: string
  fr_entity_id :: string
  fr_recorded_value :: "rat option"
  fr_on_chain_value :: "rat option"
  fr_difference :: "rat option"
  fr_tolerance :: rat
  fr_observed_at :: time
  fr_details :: "(string \<times> string) list"
  fr_resolution_state :: string
  fr_resolution_note :: "string option"

record ReconDB =
  rd_runs :: "RunRow list"
  rd_findings :: "FindingRow list"
  rd_checkpoints :: "(string \<times> string) list"

text \<open>A statement on its own: refused by the server, lost before it took effect, or lost after.\<close>

definition recon_stmt :: "commit_outcome \<Rightarrow> pg_error + ReconDB \<Rightarrow> ReconDB \<Rightarrow> ('d recon_error + unit) \<times> ReconDB" where
  "recon_stmt out r db =
     (case (out, r) of
        (NotCommitted, _) \<Rightarrow> (Inl ReconFault, db)
      | (_, Inl e) \<Rightarrow> (Inl (ReconServer e), db)
      | (Committed, Inr db') \<Rightarrow> (Inr (), db')
      | (CommitUnacked, Inr db') \<Rightarrow> (Inl ReconFault, db'))"

definition insert_run :: "RunRow \<Rightarrow> ReconDB \<Rightarrow> pg_error + ReconDB" where
  "insert_run r db =
     (if rn_level r \<notin> {LevelBalance, LevelTransaction, LevelInvariant} then Inl (PgError ''23514'' ''reconciliation_runs_level_check'')
      else if rn_status r \<notin> {RunStatusRunning, RunStatusCompleted, RunStatusFailed} then Inl (PgError ''23514'' ''reconciliation_runs_status_check'')
      else if rn_id r \<in> rn_id ` set (rd_runs db) then Inl (PgError ''23505'' ''reconciliation_runs_pkey'')
      else Inr (db\<lparr>rd_runs := rd_runs db @ [r]\<rparr>))"

text \<open>
  The identifier, the start and the status of a run are set by its only caller, so the
  defaults of \<open>CreateRun\<close> do not apply; the checkpoint columns stay null.
\<close>

definition PostgresRepository_CreateRun ::
  "commit_outcome \<Rightarrow> uuid \<Rightarrow> Level \<Rightarrow> string \<Rightarrow> Scope \<Rightarrow> ReconDB \<Rightarrow> ('d recon_error + unit) \<times> ReconDB" where
  "PostgresRepository_CreateRun out newID level comparator scope db =
     recon_stmt out (insert_run \<lparr>rn_id = newID, rn_level = level, rn_comparator = comparator, rn_status = RunStatusRunning, rn_scope = scope,
       rn_started_at = sc_StartedAt scope, rn_completed = False, rn_checked_count = 0, rn_finding_count = 0, rn_critical_count = 0,
       rn_error = None\<rparr> db) db"

definition finding_row :: "('d, 'z) recon_ops_scheme \<Rightarrow> 'd Finding \<Rightarrow> pg_error + FindingRow" where
  "finding_row D f =
     bindE (numeric_opt 38 18 (map_option (d_Num D) (fd_RecordedValue f))) (\<lambda>recorded.
     bindE (numeric_opt 38 18 (map_option (d_Num D) (fd_OnChainValue f))) (\<lambda>onChain.
     bindE (numeric_opt 38 18 (map_option (d_Num D) (fd_Difference f))) (\<lambda>diff.
     bindE (numeric 38 18 (d_Num D (fd_Tolerance f))) (\<lambda>tol.
     Inr \<lparr>fr_id = fd_ID f, fr_run_id = fd_RunID f, fr_level = fd_Level f, fr_type = fd_Type f, fr_severity = fd_Severity f,
       fr_entity_type = fd_EntityType f, fr_entity_id = fd_EntityID f, fr_recorded_value = recorded, fr_on_chain_value = onChain,
       fr_difference = diff, fr_tolerance = tol, fr_observed_at = fd_ObservedAt f, fr_details = fd_Details f,
       fr_resolution_state = fd_ResolutionState f, fr_resolution_note = None\<rparr>))))"

definition finding_key :: "FindingRow \<Rightarrow> uuid \<times> string \<times> string \<times> string \<times> string" where
  "finding_key r = (fr_run_id r, fr_level r, fr_type r, fr_entity_type r, fr_entity_id r)"

definition finding_checks :: "FindingRow \<Rightarrow> ReconDB \<Rightarrow> pg_error + unit" where
  "finding_checks r db =
     (if fr_level r \<notin> {LevelBalance, LevelTransaction, LevelInvariant} then Inl (PgError ''23514'' ''reconciliation_findings_level_check'')
      else if fr_resolution_state r \<notin> {ResolutionOpen, ResolutionReviewing, ResolutionResolved} then
        Inl (PgError ''23514'' ''reconciliation_findings_resolution_state_check'')
      else if fr_severity r \<notin> {SeverityInformational, SeverityWarning, SeverityCritical} then
        Inl (PgError ''23514'' ''reconciliation_findings_severity_check'')
      else if fr_type r \<notin> {TypeMissing, TypeExtra, TypeMismatch, TypeStuck} then Inl (PgError ''23514'' ''reconciliation_findings_type_check'')
      else Inr ())"

text \<open>\<open>INSERT ... ON CONFLICT (run_id, level, type, entity_type, entity_id) DO UPDATE\<close>.\<close>

definition refresh_finding :: "FindingRow \<Rightarrow> FindingRow \<Rightarrow> FindingRow" where
  "refresh_finding r q =
     q\<lparr>fr_severity := fr_severity r, fr_recorded_value := fr_recorded_value r, fr_on_chain_value := fr_on_chain_value r,
       fr_difference := fr_difference r, fr_tolerance := fr_tolerance r, fr_observed_at := fr_observed_at r, fr_details := fr_details r\<rparr>"

definition upsert_finding :: "FindingRow \<Rightarrow> ReconDB \<Rightarrow> pg_error + ReconDB" where
  "upsert_finding r db =
     bindE (finding_checks r db) (\<lambda>_.
     if finding_key r \<in> finding_key ` set (rd_findings db) then
       Inr (db\<lparr>rd_findings := update_where (\<lambda>q. finding_key q = finding_key r) (refresh_finding r) (rd_findings db)\<rparr>)
     else if fr_id r \<in> fr_id ` set (rd_findings db) then Inl (PgError ''23505'' ''reconciliation_findings_pkey'')
     else if fr_run_id r \<notin> rn_id ` set (rd_runs db) then Inl (PgError ''23503'' ''reconciliation_findings_run_id_fkey'')
     else Inr (db\<lparr>rd_findings := rd_findings db @ [r]\<rparr>))"

text \<open>An unset identifier, instant or state is filled in before the statement.\<close>

definition finding_defaults :: "uuid \<Rightarrow> time \<Rightarrow> 'd Finding \<Rightarrow> 'd Finding" where
  "finding_defaults newID now f =
     f\<lparr>fd_ID := if fd_ID f = uuid_Nil then newID else fd_ID f, fd_ObservedAt := if time_is_zero (fd_ObservedAt f) then now else fd_ObservedAt f,
       fd_ResolutionState := if fd_ResolutionState f = [] then ResolutionOpen else fd_ResolutionState f\<rparr>"

definition PostgresRepository_AddFinding ::
  "('d, 'z) recon_ops_scheme \<Rightarrow> commit_outcome \<Rightarrow> uuid \<Rightarrow> time \<Rightarrow> 'd Finding \<Rightarrow> ReconDB \<Rightarrow> ('d recon_error + 'd Finding) \<times> ReconDB" where
  "PostgresRepository_AddFinding D out newID now f db =
     (let f = finding_defaults newID now f in
      case recon_stmt out (bindE (finding_row D f) (\<lambda>r. upsert_finding r db)) db of
        (Inl e, db') \<Rightarrow> (Inl e, db')
      | (Inr _, db') \<Rightarrow> (Inr f, db'))"

definition PostgresRepository_CompleteRun :: "commit_outcome \<Rightarrow> uuid \<Rightarrow> Stats \<Rightarrow> ReconDB \<Rightarrow> ('d recon_error + unit) \<times> ReconDB" where
  "PostgresRepository_CompleteRun out runID stats db =
     recon_stmt out
       (if \<not> list_all (\<lambda>n. - (2 ^ 31) \<le> n \<and> n < 2 ^ 31) [ss_Checked stats, ss_Findings stats, ss_Critical stats] then Inl (PgError ''22003'' [])
        else Inr (db\<lparr>rd_runs := update_where (\<lambda>r. rn_id r = runID)
          (\<lambda>r. r\<lparr>rn_status := RunStatusCompleted, rn_completed := True, rn_checked_count := ss_Checked stats,
                 rn_finding_count := ss_Findings stats, rn_critical_count := ss_Critical stats\<rparr>) (rd_runs db)\<rparr>)) db"

definition PostgresRepository_FailRun :: "commit_outcome \<Rightarrow> uuid \<Rightarrow> string \<Rightarrow> ReconDB \<Rightarrow> ('d recon_error + unit) \<times> ReconDB" where
  "PostgresRepository_FailRun out runID errText db =
     recon_stmt out (Inr (db\<lparr>rd_runs := update_where (\<lambda>r. rn_id r = runID)
       (\<lambda>r. r\<lparr>rn_status := RunStatusFailed, rn_completed := True, rn_error := Some errText\<rparr>) (rd_runs db)\<rparr>)) db"

definition PostgresRepository_GetCheckpoint :: "bool \<Rightarrow> string \<Rightarrow> ReconDB \<Rightarrow> 'd recon_error + string option" where
  "PostgresRepository_GetCheckpoint fault key db = (if fault then Inl ReconFault else Inr (map_of (rd_checkpoints db) key))"

definition PostgresRepository_SetCheckpoint :: "commit_outcome \<Rightarrow> string \<Rightarrow> string \<Rightarrow> ReconDB \<Rightarrow> ('d recon_error + unit) \<times> ReconDB" where
  "PostgresRepository_SetCheckpoint out key v db =
     recon_stmt out (Inr (if key \<in> fst ` set (rd_checkpoints db)
       then db\<lparr>rd_checkpoints := update_where (\<lambda>p. fst p = key) (\<lambda>p. (fst p, v)) (rd_checkpoints db)\<rparr>
       else db\<lparr>rd_checkpoints := rd_checkpoints db @ [(key, v)]\<rparr>)) db"

definition PostgresRepository_RecordCorrection :: "commit_outcome \<Rightarrow> uuid \<Rightarrow> string \<Rightarrow> ReconDB \<Rightarrow> ('d recon_error + unit) \<times> ReconDB" where
  "PostgresRepository_RecordCorrection out findingID reason db =
     recon_stmt out (Inr (db\<lparr>rd_findings := update_where (\<lambda>r. fr_id r = findingID)
       (\<lambda>r. r\<lparr>fr_resolution_state := ResolutionResolved, fr_resolution_note := Some reason\<rparr>) (rd_findings db)\<rparr>)) db"

end
