(* ===== verification/Reconciliation_Engine.thy ===== *)
theory Reconciliation_Engine
  imports Reconciliation
begin

text \<open>
  The engine that runs the comparators and records what they find (\<open>reconciliation/engine.go\<close>),
  the correction of stuck transactions, and the scheduled runner with its repository
  decorators (\<open>reconciliation/runner.go\<close>).
\<close>

section \<open>Repository decorators and alerts\<close>

text \<open>
  What a pass changes: the audit tables, the divergence counter (the kinds it was incremented
  with), the findings alerted on, and the outcomes of passes the metrics have recorded.
\<close>

datatype ReconcileOutcome = ReconcileCompleted | ReconcileFailed

record 'd ReconState =
  rs_db :: ReconDB
  rs_divergence :: "DiscrepancyType list"
  rs_alerts :: "'d Finding list"
  rs_outcomes :: "ReconcileOutcome list"

text \<open>
  One pass draws identifiers and instants and meets faults by position: 0 is the creation of
  the run and \<open>Suc k\<close> the \<open>k\<close>-th finding; the status at the end has an outcome of its own.
\<close>

record 'd recon_env =
  re_out :: "nat \<Rightarrow> commit_outcome"
  re_final :: commit_outcome
  re_newID :: "nat \<Rightarrow> uuid"
  re_repoID :: "nat \<Rightarrow> uuid"
  re_now :: "nat \<Rightarrow> time"
  re_errText :: "'d recon_error \<Rightarrow> string"

text \<open>\<open>dryRunRepository\<close> answers without writing; \<open>meteredRepository\<close> counts a finding once it is stored.\<close>

definition repo_CreateRun ::
  "bool \<Rightarrow> 'd recon_env \<Rightarrow> Level \<Rightarrow> string \<Rightarrow> Scope \<Rightarrow> 'd ReconState \<Rightarrow> ('d recon_error + unit) \<times> 'd ReconState" where
  "repo_CreateRun dry env level comparator scope st =
     (if dry then (Inr (), st)
      else (case PostgresRepository_CreateRun (re_out env 0) (re_newID env 0) level comparator scope (rs_db st) of
          (r, db) \<Rightarrow> (r, st\<lparr>rs_db := db\<rparr>)))"

definition repo_AddFinding ::
  "('d, 'z) recon_ops_scheme \<Rightarrow> bool \<Rightarrow> 'd recon_env \<Rightarrow> nat \<Rightarrow> 'd Finding \<Rightarrow> 'd ReconState \<Rightarrow> ('d recon_error + 'd Finding) \<times> 'd ReconState" where
  "repo_AddFinding D dry env k f st =
     (if dry then (Inr f, st)
      else (case PostgresRepository_AddFinding D (re_out env (Suc k)) (re_repoID env k) (re_now env k) f (rs_db st) of
          (Inl e, db) \<Rightarrow> (Inl e, st\<lparr>rs_db := db\<rparr>)
        | (Inr stored, db) \<Rightarrow> (Inr stored, st\<lparr>rs_db := db, rs_divergence := rs_divergence st @ [fd_Type stored]\<rparr>)))"

definition repo_CompleteRun :: "bool \<Rightarrow> 'd recon_env \<Rightarrow> Stats \<Rightarrow> 'd ReconState \<Rightarrow> ('d recon_error + unit) \<times> 'd ReconState" where
  "repo_CompleteRun dry env stats st =
     (if dry then (Inr (), st)
      else (case PostgresRepository_CompleteRun (re_final env) (re_newID env 0) stats (rs_db st) of (r, db) \<Rightarrow> (r, st\<lparr>rs_db := db\<rparr>)))"

text \<open>The result of writing the failure is logged only.\<close>

definition recordFailedRun :: "bool \<Rightarrow> 'd recon_env \<Rightarrow> 'd recon_error \<Rightarrow> 'd ReconState \<Rightarrow> 'd ReconState" where
  "recordFailedRun dry env runErr st =
     (if dry then st
      else st\<lparr>rs_db := snd (PostgresRepository_FailRun (re_final env) (re_newID env 0) (re_errText env runErr) (rs_db st) :: ('d recon_error + unit) \<times> ReconDB)\<rparr>)"

definition dispatchAlert :: "bool \<Rightarrow> 'd Finding \<Rightarrow> 'd ReconState \<Rightarrow> 'd ReconState" where
  "dispatchAlert alerter f st =
     (if \<not> alerter then st
      else if fd_Severity f = SeverityCritical \<or> fd_Severity f = SeverityWarning then st\<lparr>rs_alerts := rs_alerts st @ [f]\<rparr>
      else st)"

section \<open>The engine\<close>

definition engine_finding :: "'d recon_env \<Rightarrow> Level \<Rightarrow> nat \<Rightarrow> 'd Finding \<Rightarrow> 'd Finding" where
  "engine_finding env level k f =
     f\<lparr>fd_RunID := re_newID env 0, fd_Level := level, fd_ID := if fd_ID f = uuid_Nil then re_newID env (Suc k) else fd_ID f,
       fd_ResolutionState := if fd_ResolutionState f = [] then ResolutionOpen else fd_ResolutionState f\<rparr>"

fun store_findings ::
  "('d, 'z) recon_ops_scheme \<Rightarrow> bool \<Rightarrow> 'd recon_env \<Rightarrow> Level \<Rightarrow> nat \<Rightarrow> 'd Finding list \<Rightarrow> Stats \<Rightarrow> 'd ReconState
   \<Rightarrow> (Stats \<times> 'd recon_error option) \<times> 'd ReconState" where
  "store_findings D dry env level k [] stats st = ((stats, None), st)"
| "store_findings D dry env level k (f # fs) stats st =
     (case repo_AddFinding D dry env k (engine_finding env level k f) st of
        (Inl err, st') \<Rightarrow> ((stats, Some err), recordFailedRun dry env err st')
      | (Inr stored, st') \<Rightarrow>
          store_findings D dry env level (Suc k) fs
            (if fd_Severity stored = SeverityCritical then stats\<lparr>ss_Critical := ss_Critical stats + 1\<rparr> else stats)
            (dispatchAlert (\<not> dry) stored st'))"

record 'd comparator =
  cp_Name :: string
  cp_Level :: Level
  cp_Reconcile :: "Scope \<Rightarrow> ('d recon_error + 'd ComparisonResult) option"

definition zero_stats :: Stats where "zero_stats = \<lparr>ss_Checked = 0, ss_Findings = 0, ss_Critical = 0\<rparr>"

definition runComparator ::
  "('d, 'z) recon_ops_scheme \<Rightarrow> bool \<Rightarrow> 'd recon_env \<Rightarrow> 'd comparator \<Rightarrow> Scope \<Rightarrow> 'd ReconState
   \<Rightarrow> ((Stats \<times> 'd recon_error option) \<times> 'd ReconState) option" where
  "runComparator D dry env cp scope st =
     (case repo_CreateRun dry env (cp_Level cp) (cp_Name cp) scope st of
        (Inl err, st') \<Rightarrow> Some ((zero_stats, Some err), st')
      | (Inr _, st') \<Rightarrow>
        (case cp_Reconcile cp scope of
           None \<Rightarrow> None
         | Some (Inl err) \<Rightarrow> Some ((zero_stats, Some err), recordFailedRun dry env err st')
         | Some (Inr result) \<Rightarrow>
           Some (case store_findings D dry env (cp_Level cp) 0 (cr_Findings result)
                        \<lparr>ss_Checked = cr_Checked result, ss_Findings = int (length (cr_Findings result)), ss_Critical = 0\<rparr> st' of
                   ((stats, Some err), st'') \<Rightarrow> ((stats, Some err), st'')
                 | ((stats, None), st'') \<Rightarrow>
                   (case repo_CompleteRun dry env stats st'' of
                      (Inl err, st3) \<Rightarrow> ((stats, Some err), st3)
                    | (Inr _, st3) \<Rightarrow> ((stats, None), st3)))))"

definition add_stats :: "Stats \<Rightarrow> Stats \<Rightarrow> Stats" where
  "add_stats a b = \<lparr>ss_Checked = ss_Checked a + ss_Checked b, ss_Findings = ss_Findings a + ss_Findings b, ss_Critical = ss_Critical a + ss_Critical b\<rparr>"

text \<open>Each comparator has its own position in the environments; the first error ends the pass.\<close>

fun run_comparators ::
  "('d, 'z) recon_ops_scheme \<Rightarrow> bool \<Rightarrow> (nat \<Rightarrow> 'd recon_env) \<Rightarrow> nat \<Rightarrow> 'd comparator list \<Rightarrow> Scope \<Rightarrow> Stats \<Rightarrow> 'd ReconState
   \<Rightarrow> ((Stats \<times> 'd recon_error option) \<times> 'd ReconState) option" where
  "run_comparators D dry envs i [] scope tot st = Some ((tot, None), st)"
| "run_comparators D dry envs i (cp # cps) scope tot st =
     (case runComparator D dry (envs i) cp scope st of
        None \<Rightarrow> None
      | Some ((stats, Some err), st') \<Rightarrow> Some ((add_stats tot stats, Some err), st')
      | Some ((stats, None), st') \<Rightarrow> run_comparators D dry envs (Suc i) cps scope (add_stats tot stats) st')"

definition Engine_Run ::
  "('d, 'z) recon_ops_scheme \<Rightarrow> bool \<Rightarrow> (nat \<Rightarrow> 'd recon_env) \<Rightarrow> 'd comparator list \<Rightarrow> time \<Rightarrow> Scope \<Rightarrow> 'd ReconState
   \<Rightarrow> ((Stats \<times> 'd recon_error option) \<times> 'd ReconState) option" where
  "Engine_Run D dry envs cps now scope st =
     run_comparators D dry envs 0 cps (if time_is_zero (sc_StartedAt scope) then scope\<lparr>sc_StartedAt := now\<rparr> else scope) zero_stats st"

section \<open>Corrections\<close>

datatype 'e correction_error = NotStuckTransaction | UnresolvedStatus | UpdateFailed 'e | CorrectionNotRecorded

text \<open>\<open>update hash status confirmedAt reason\<close> is the status update of the transaction store.\<close>

definition ResolveStuckTransaction ::
  "(string \<Rightarrow> string \<Rightarrow> time \<Rightarrow> string \<Rightarrow> 's \<Rightarrow> ('e + unit) \<times> 's) \<Rightarrow> commit_outcome \<Rightarrow> time \<Rightarrow> 'd Finding \<Rightarrow> string \<Rightarrow> 's \<Rightarrow> ReconDB
   \<Rightarrow> 'e correction_error option \<times> 's \<times> ReconDB" where
  "ResolveStuckTransaction update out now f onChainStatus s db =
     (if fd_Type f \<noteq> TypeStuck \<or> fd_EntityType f \<noteq> ''transaction'' then (Some NotStuckTransaction, s, db)
      else if onChainStatus = ''pending'' \<or> onChainStatus = [] then (Some UnresolvedStatus, s, db)
      else (case update (fd_EntityID f) onChainStatus now (if onChainStatus = ''failed'' then ''resolved by reconciliation'' else []) s of
          (Inl e, s') \<Rightarrow> (Some (UpdateFailed e), s', db)
        | (Inr _, s') \<Rightarrow>
          (case PostgresRepository_RecordCorrection out (fd_ID f) (trim_space (''stuck transaction advanced to '' @ onChainStatus)) db
                  :: ('d recon_error + unit) \<times> ReconDB of
             (Inl _, db') \<Rightarrow> (Some CorrectionNotRecorded, s', db')
           | (Inr _, db') \<Rightarrow> (None, s', db'))))"

section \<open>The runner\<close>

text \<open>Instants are kept as \<open>UnixNano\<close>, 0 while unset.\<close>

definition unix_epoch :: time where "unix_epoch = 62135596800 * second"
definition UnixNano :: "time \<Rightarrow> int" where "UnixNano t = t - unix_epoch"

record ReconRunner =
  rr_startedAt :: int
  rr_lastPassEnd :: int
  rr_wasLeader :: bool

definition Runner_started :: "time \<Rightarrow> ReconRunner \<Rightarrow> ReconRunner" where
  "Runner_started now r = r\<lparr>rr_startedAt := UnixNano now\<rparr>"

text \<open>\<open>None\<close> is a runner without a leadership checker.\<close>

definition observeLeadership :: "bool option \<Rightarrow> time \<Rightarrow> ReconRunner \<Rightarrow> bool \<times> ReconRunner" where
  "observeLeadership leader now r =
     (case leader of
        None \<Rightarrow> (True, r)
      | Some isLeader \<Rightarrow>
          if isLeader then
            (True, if rr_wasLeader r then r
                   else if rr_startedAt r \<noteq> 0 then r\<lparr>rr_wasLeader := True, rr_lastPassEnd := UnixNano now\<rparr>
                   else r\<lparr>rr_wasLeader := True\<rparr>)
          else (False, r\<lparr>rr_wasLeader := False\<rparr>))"

record tick_env =
  te_leader :: "bool option"
  te_observed :: time
  te_start :: time
  te_end :: time
  te_cancelled :: bool

definition Runner_Tick ::
  "('d, 'z) recon_ops_scheme \<Rightarrow> bool \<Rightarrow> (nat \<Rightarrow> 'd recon_env) \<Rightarrow> 'd comparator list \<Rightarrow> tick_env \<Rightarrow> ReconRunner \<Rightarrow> 'd ReconState
   \<Rightarrow> (ReconRunner \<times> 'd ReconState) option" where
  "Runner_Tick D dry envs cps te r st =
     (case observeLeadership (te_leader te) (te_observed te) r of
        (False, r') \<Rightarrow> Some (r', st)
      | (True, r') \<Rightarrow>
        (case Engine_Run D dry envs cps (te_start te) \<lparr>sc_FullSweep = True, sc_VaultID = uuid_Nil, sc_EventID = [], sc_StartedAt = te_start te\<rparr> st of
           None \<Rightarrow> None
         | Some ((_, Some err), st') \<Rightarrow>
             Some (r', if te_cancelled te then st' else st'\<lparr>rs_outcomes := rs_outcomes st' @ [ReconcileFailed]\<rparr>)
         | Some ((_, None), st') \<Rightarrow>
             Some (r'\<lparr>rr_lastPassEnd := UnixNano (te_end te)\<rparr>, st'\<lparr>rs_outcomes := rs_outcomes st' @ [ReconcileCompleted]\<rparr>)))"

definition AgeSample :: "bool option \<Rightarrow> time \<Rightarrow> time \<Rightarrow> ReconRunner \<Rightarrow> duration option \<times> ReconRunner" where
  "AgeSample leader observed now r =
     (case observeLeadership leader observed r of
        (False, r') \<Rightarrow> (None, r')
      | (True, r') \<Rightarrow>
          (let anchor = (if rr_lastPassEnd r' = 0 then rr_startedAt r' else rr_lastPassEnd r')
           in (if anchor = 0 then None else Some (time_sub now (anchor + unix_epoch)), r')))"

end
