(* ===== verification/Reconciliation_Properties.thy ===== *)
theory Reconciliation_Properties
  imports Reconciliation_Engine
begin

text \<open>
  A sweep in pages is one pass over the active vaults, a run that is recorded as completed
  has compared and stored everything, and a dry run writes nothing.
\<close>

section \<open>Pages\<close>

lemma compare_page_append:
  "compare_page D c env scope (xs @ ys) sw = bindE (compare_page D c env scope xs sw) (compare_page D c env scope ys)"
  by (induction D c env scope xs sw rule: compare_page.induct) (simp_all add: Let_def split: sum.splits)

lemma drop_length_take: "drop (length (take k xs)) xs = drop k xs"
  by (cases "k \<le> length xs") simp_all

lemma length_filter_all: "length (filter P xs) = length xs \<longleftrightarrow> list_all P xs"
  by (metis filter_True length_filter_less less_irrefl list_all_iff)

text \<open>
  What the comparator relies on of its lister: whatever the call, the page at an offset of one
  list, and its length.
\<close>

locale vault_pages =
  fixes lister :: "'d vault_lister" and vs :: "'d ScannedVault list"
  assumes page: "lister i (int n) = Inr (take (nat vaultReconcilePageSize) (drop n vs), int (length vs))"
begin

lemma loop_pages:
  assumes "int (length vs) + vaultReconcilePageSize \<le> max64" and "n \<le> length vs"
  shows "compare_loop D c env lister scope i (int n) sw = Some (compare_page D c env scope (drop n vs) sw)"
  using assms(2)
proof (induction "length vs - n" arbitrary: i n sw rule: less_induct)
  case less
  let ?p = "take (nat vaultReconcilePageSize) (drop n vs)"
  let ?n = "n + length ?p"
  have rest: "drop n vs = ?p @ drop ?n vs"
    using drop_length_take [of "nat vaultReconcilePageSize" "drop n vs"] by (simp only: append_take_drop_id drop_drop [symmetric] add.commute [of n])
  have bound: "?n \<le> length vs" using less.prems by auto
  then have w: "wrap64 (int n + int (length ?p)) = int ?n" using assms(1) by (subst wrap64_id) (auto simp: int64_defs vaultReconcilePageSize_def)
  have step: "compare_loop D c env lister scope i (int n) sw =
     (case compare_page D c env scope ?p sw of
        Inl err \<Rightarrow> Some (Inl err)
      | Inr sw' \<Rightarrow> if length vs \<le> ?n \<or> ?p = [] then Some (Inr sw') else compare_loop D c env lister scope (Suc i) (int ?n) sw')"
    by (subst compare_loop.simps) (simp only: page sum.case prod.case w Let_def of_nat_le_iff)
  show ?case
  proof (cases "compare_page D c env scope ?p sw")
    case (Inl err)
    then show ?thesis using step compare_page_append [of D c env scope ?p "drop ?n vs" sw] rest by simp
  next
    case (Inr sw')
    have all: "compare_page D c env scope (drop n vs) sw = compare_page D c env scope (drop ?n vs) sw'"
      using Inr compare_page_append [of D c env scope ?p "drop ?n vs" sw] rest by simp
    show ?thesis
    proof (cases "length vs \<le> ?n \<or> ?p = []")
      case True
      then have "compare_loop D c env lister scope i (int n) sw = Some (Inr sw')" using step Inr by (simp only: sum.case if_True)
      moreover have "drop ?n vs = []" using True less.prems by (auto simp: vaultReconcilePageSize_def)
      ultimately show ?thesis using all by (simp only: compare_page.simps)
    next
      case False
      then have "0 < length ?p" by blast
      then have "length vs - ?n < length vs - n" using bound by linarith
      then have "compare_loop D c env lister scope (Suc i) (int ?n) sw' = Some (compare_page D c env scope (drop ?n vs) sw')"
        by (rule less.hyps [OF _ bound])
      then show ?thesis using step Inr all False by simp
    qed
  qed
qed

lemma reconcile_pages:
  assumes "int (length vs) + vaultReconcilePageSize \<le> max64"
  shows "BalanceComparator_Reconcile D c env lister scope =
    Some (bindE (compare_page D (NewClassifier D c) env scope vs empty_sweep) sweep_result)"
  using loop_pages [OF assms, of 0 D "NewClassifier D c" env scope 0 empty_sweep] by (simp add: BalanceComparator_Reconcile_def)

end

definition active_vaults :: "VaultDB \<Rightarrow> VaultRow list" where
  "active_vaults db = sort_key (\<lambda>r. - v_created_at r) (filter (listed ''active'') (vd_vaults db))"

text \<open>With one order of ties throughout, the pages are those of one list.\<close>

interpretation active: vault_pages "active_lister D (\<lambda>_. no_fault) (\<lambda>_ _. 0) (\<lambda>_. db) (\<lambda>_. db)" "map (scanVault D) (active_vaults db)"
  by unfold_locales
    (simp add: active_lister_def VaultRepository_ListVaults_def active_vaults_def by_created_def sort_key_const vaultReconcilePageSize_def take_map drop_map)

lemma active_lister_ties:
  assumes "distinct (map v_created_at (filter (listed ''active'') (vd_vaults db)))"
  shows "active_lister D flt ties (\<lambda>_. db) (\<lambda>_. db) = active_lister D flt (\<lambda>_ _. 0) (\<lambda>_. db) (\<lambda>_. db)"
proof -
  have "distinct (map (\<lambda>r. - v_created_at r) (filter (listed ''active'') (vd_vaults db)))"
    using assms by (simp add: distinct_map inj_on_def)
  from by_created_unique [OF this] show ?thesis
    by (intro ext) (simp add: active_lister_def VaultRepository_ListVaults_def)
qed

section \<open>One pass over a list\<close>

definition in_sweep :: "Scope \<Rightarrow> VaultRow \<Rightarrow> bool" where
  "in_sweep scope r \<longleftrightarrow> sc_VaultID scope = uuid_Nil \<or> v_id r = sc_VaultID scope"

definition to_read :: "Scope \<Rightarrow> VaultRow \<Rightarrow> bool" where
  "to_read scope r \<longleftrightarrow> in_sweep scope r \<and> v_contract_address r \<noteq> []"

text \<open>The recorded balance differs from what the chain answers.\<close>

definition diverges :: "('d, 'z) recon_ops_scheme \<Rightarrow> (string \<Rightarrow> 'd recon_error + 'd) \<Rightarrow> VaultRow \<Rightarrow> bool" where
  "diverges D ch r \<longleftrightarrow> (case ch (v_contract_address r) of Inl _ \<Rightarrow> False | Inr x \<Rightarrow> v_current_balance r \<noteq> d_Num D x)"

definition unreadable :: "(string \<Rightarrow> 'd recon_error + 'd) \<Rightarrow> VaultRow \<Rightarrow> bool" where
  "unreadable ch r \<longleftrightarrow> isl (ch (v_contract_address r))"

lemma d_Cmp_scan: "money_laws D \<Longrightarrow> has_scale 8 q \<Longrightarrow> d_Cmp D (d_Scan D q) x = 0 \<longleftrightarrow> q = d_Num D x"
  by (simp add: money_lawsD)

text \<open>What a pass over some rows adds to the locals of the sweep.\<close>

definition swept ::
  "('d, 'z) recon_ops_scheme \<Rightarrow> (string \<Rightarrow> 'd recon_error + 'd) \<Rightarrow> Scope \<Rightarrow> VaultRow list \<Rightarrow> 'd sweep \<Rightarrow> 'd sweep \<Rightarrow> bool" where
  "swept D ch scope rows sw sw' \<longleftrightarrow>
     map fd_EntityID (sw_findings sw') = map fd_EntityID (sw_findings sw)
       @ map (\<lambda>r. ro_uuidString D (v_id r)) (filter (\<lambda>r. to_read scope r \<and> diverges D ch r) rows)
     \<and> sw_checked sw' = sw_checked sw + int (length (filter (\<lambda>r. in_sweep scope r \<and> \<not> (to_read scope r \<and> unreadable ch r)) rows))
     \<and> sw_readFailures sw' = sw_readFailures sw + int (length (filter (\<lambda>r. to_read scope r \<and> unreadable ch r) rows))
     \<and> sw_attemptedReads sw' = sw_attemptedReads sw + int (length (filter (to_read scope) rows))
     \<and> (sw_firstReadErr sw' = None \<longleftrightarrow> sw_firstReadErr sw = None \<and> filter (\<lambda>r. to_read scope r \<and> unreadable ch r) rows = [])"

lemma swept_Cons: "swept D ch scope [r] sw sw1 \<Longrightarrow> swept D ch scope rows sw1 sw2 \<Longrightarrow> swept D ch scope (r # rows) sw sw2"
  unfolding swept_def by (auto split: if_splits)

lemmas sweep_kinds = in_sweep_def to_read_def diverges_def unreadable_def

lemma compare_one:
  assumes "money_laws D" and "be_chain env k = ch" and "\<not> be_cancelled env k" and "has_scale 8 (v_current_balance r)" and "k = nat (sw_attemptedReads sw)"
  shows "\<exists>sw1. compare_page D c env scope (scanVault D r # vs) sw = compare_page D c env scope vs sw1 \<and> swept D ch scope [r] sw sw1"
proof -
  consider (out) "\<not> in_sweep scope r" | (none) "in_sweep scope r" "v_contract_address r = []"
    | (fails) e where "to_read scope r" "ch (v_contract_address r) = Inl e" | (reads) x where "to_read scope r" "ch (v_contract_address r) = Inr x"
    by (cases "ch (v_contract_address r)") (auto simp: to_read_def)
  then show ?thesis
  proof cases
    case out
    then show ?thesis by (intro exI [of _ sw]) (simp add: swept_def sweep_kinds scanVault_def)
  next
    case none
    then show ?thesis by (intro exI [of _ "sw\<lparr>sw_checked := sw_checked sw + 1\<rparr>"]) (auto simp: swept_def sweep_kinds scanVault_def)
  next
    case fails
    then show ?thesis using assms(2,3,5)
      by (intro exI [of _ "sw\<lparr>sw_attemptedReads := sw_attemptedReads sw + 1, sw_readFailures := sw_readFailures sw + 1,
            sw_firstReadErr := (case sw_firstReadErr sw of None \<Rightarrow> Some e | Some e \<Rightarrow> Some e)\<rparr>"])
        (auto simp: swept_def sweep_kinds scanVault_def Let_def split: option.splits)
  next
    case reads
    let ?sw = "sw\<lparr>sw_attemptedReads := sw_attemptedReads sw + 1, sw_checked := sw_checked sw + 1\<rparr>"
    show ?thesis
      using reads assms(2,3,5) d_Cmp_scan [OF assms(1,4), of x]
      by (intro exI [of _ "if v_current_balance r = d_Num D x then ?sw
            else ?sw\<lparr>sw_findings := sw_findings sw @ [Classify D c (mismatch_input D (scanVault D r) x) (be_now env)]\<rparr>"])
        (auto simp: swept_def sweep_kinds scanVault_def Let_def Classify_def mismatch_input_def)
  qed
qed

lemma compare_rows:
  assumes "money_laws D" and "\<forall>k. be_chain env k = ch" and "\<forall>k. \<not> be_cancelled env k"
    and "\<forall>r \<in> set rows. has_scale 8 (v_current_balance r)"
  shows "\<exists>sw'. compare_page D c env scope (map (scanVault D) rows) sw = Inr sw' \<and> swept D ch scope rows sw sw'"
  using assms(4)
proof (induction rows arbitrary: sw)
  case (Cons r rows)
  obtain sw1 where one: "compare_page D c env scope (map (scanVault D) (r # rows)) sw = compare_page D c env scope (map (scanVault D) rows) sw1"
      "swept D ch scope [r] sw sw1"
    using compare_one [OF assms(1) _ _ _ refl, of env sw ch r c scope "map (scanVault D) rows"] assms(2,3) Cons.prems by auto
  obtain sw2 where "compare_page D c env scope (map (scanVault D) rows) sw1 = Inr sw2" "swept D ch scope rows sw1 sw2"
    using Cons.IH [of sw1] Cons.prems by auto
  then show ?case using one swept_Cons by metis
qed (simp add: swept_def)

text \<open>Whatever the lister answers, the loop ends: the offset grows and the totals are bounded.\<close>

lemma loop_returns:
  assumes "\<forall>i off vs tot. lister i off = Inr (vs, tot) \<longrightarrow> tot \<le> N \<and> int (length vs) \<le> M" and "N + M \<le> max64" and "0 \<le> off" and "off \<le> N"
  shows "\<exists>r. compare_loop D c env lister scope i off sw = Some r"
  using assms(3,4)
proof (induction "nat (N - off)" arbitrary: i off sw rule: less_induct)
  case less
  show ?case
  proof (cases "lister i off")
    case (Inl err)
    then show ?thesis by (subst compare_loop.simps) simp
  next
    case (Inr p)
    obtain vs tot where p: "p = (vs, tot)" by fastforce
    then have b: "tot \<le> N" "int (length vs) \<le> M" using assms(1) Inr by auto
    show ?thesis
    proof (cases "compare_page D c env scope vs sw")
      case (Inl err)
      then show ?thesis using Inr p by (subst compare_loop.simps) simp
    next
      case sw: (Inr sw')
      let ?off = "off + int (length vs)"
      have w: "wrap64 ?off = ?off" using b assms(2) less.prems by (intro wrap64_id) (simp add: int64_defs)
      show ?thesis
      proof (cases "tot \<le> ?off \<or> vs = []")
        case True
        then show ?thesis using Inr p sw w by (subst compare_loop.simps) (simp add: Let_def)
      next
        case False
        have "\<exists>r. compare_loop D c env lister scope (Suc i) ?off sw' = Some r"
          using False b less.prems by (intro less.hyps) auto
        then show ?thesis using Inr p sw w False by (subst compare_loop.simps) (simp add: Let_def)
      qed
    qed
  qed
qed

section \<open>Recording a run\<close>

lemma recon_stmt_cases:
  assumes "recon_stmt out r db = (res, db')"
  obtains "db' = db" "isl res" | "r = Inr db'"
  using assms by (auto simp: recon_stmt_def split: commit_outcome.splits sum.splits)

definition recorded_keys :: "ReconDB \<Rightarrow> (uuid \<times> string \<times> string \<times> string \<times> string) set" where
  "recorded_keys db = finding_key ` set (rd_findings db)"

lemma finding_key_refresh: "finding_key (refresh_finding r q) = finding_key q"
  by (simp add: finding_key_def refresh_finding_def)

lemma upsert_finding_effect:
  assumes "upsert_finding r db = Inr db'"
  shows "rd_runs db' = rd_runs db \<and> recorded_keys db' = insert (finding_key r) (recorded_keys db)"
proof -
  have "finding_key ` set (update_where (\<lambda>q. finding_key q = finding_key r) (refresh_finding r) t) = finding_key ` set t" for t
    using arg_cong [OF map_update_where [of "\<lambda>q. finding_key q = finding_key r" finding_key "refresh_finding r" t], of set] by (simp add: finding_key_refresh)
  note keys = this
  consider "db' = db\<lparr>rd_findings := update_where (\<lambda>q. finding_key q = finding_key r) (refresh_finding r) (rd_findings db)\<rparr>" "finding_key r \<in> recorded_keys db"
    | "db' = db\<lparr>rd_findings := rd_findings db @ [r]\<rparr>"
    using assms by (auto simp: upsert_finding_def recorded_keys_def bindE_Inr simp del: ReconDB.simps split: if_splits)
  then show ?thesis by cases (simp_all add: keys recorded_keys_def insert_absorb)
qed

definition stored_key :: "'d Finding \<Rightarrow> uuid \<times> string \<times> string \<times> string \<times> string" where
  "stored_key f = (fd_RunID f, fd_Level f, fd_Type f, fd_EntityType f, fd_EntityID f)"

lemma AddFinding_effect:
  assumes "PostgresRepository_AddFinding D out newID now f db = (res, db')"
  shows "rd_runs db' = rd_runs db \<and> recorded_keys db \<subseteq> recorded_keys db'
    \<and> (\<not> isl res \<longrightarrow> stored_key f \<in> recorded_keys db' \<and> projr res = finding_defaults newID now f)"
proof -
  let ?f = "finding_defaults newID now f"
  obtain res1 where st: "recon_stmt out (bindE (finding_row D ?f) (\<lambda>r. upsert_finding r db)) db = (res1, db')"
      and res: "res = (case res1 of Inl e \<Rightarrow> Inl e | Inr _ \<Rightarrow> Inr ?f)"
    using assms by (auto simp: PostgresRepository_AddFinding_def Let_def split: prod.splits sum.splits)
  from st show ?thesis
  proof (cases rule: recon_stmt_cases)
    case 1
    then show ?thesis using res by (auto split: sum.splits)
  next
    case 2
    then obtain r where r: "finding_row D ?f = Inr r" "upsert_finding r db = Inr db'" by (auto simp: bindE_Inr)
    then have "finding_key r = stored_key f" by (auto simp: finding_row_def bindE_Inr finding_key_def stored_key_def finding_defaults_def)
    then show ?thesis using upsert_finding_effect [OF r(2)] res by (auto split: sum.splits)
  qed
qed

definition not_completed :: "uuid \<Rightarrow> ReconDB \<Rightarrow> bool" where
  "not_completed i db \<longleftrightarrow> (\<forall>r \<in> set (rd_runs db). rn_id r = i \<longrightarrow> rn_status r \<noteq> RunStatusCompleted)"

lemma FailRun_effect:
  assumes "PostgresRepository_FailRun out i t db = (res, db')"
  shows "recorded_keys db' = recorded_keys db \<and> (not_completed i db \<longrightarrow> not_completed i db')"
  using assms unfolding PostgresRepository_FailRun_def
proof (cases rule: recon_stmt_cases)
  case 2
  then have "db' = db\<lparr>rd_runs := update_where (\<lambda>r. rn_id r = i) (\<lambda>r. r\<lparr>rn_status := RunStatusFailed, rn_completed := True, rn_error := Some t\<rparr>) (rd_runs db)\<rparr>"
    by simp
  then show ?thesis by (simp add: not_completed_def recorded_keys_def ball_update_where recon_words)
qed simp

lemma store_findings_effect:
  assumes "store_findings D False env level k fs stats st = ((stats', err), st')" and "not_completed (re_newID env 0) (rs_db st)"
  shows "not_completed (re_newID env 0) (rs_db st')
    \<and> recorded_keys (rs_db st) \<subseteq> recorded_keys (rs_db st')
    \<and> ss_Checked stats' = ss_Checked stats \<and> ss_Findings stats' = ss_Findings stats
    \<and> (err = None \<longrightarrow> (\<forall>f \<in> set fs. (re_newID env 0, level, fd_Type f, fd_EntityType f, fd_EntityID f) \<in> recorded_keys (rs_db st'))
         \<and> rs_divergence st' = rs_divergence st @ map fd_Type fs)"
  using assms
proof (induction fs arbitrary: k stats st)
  case (Cons f fs)
  let ?f = "engine_finding env level k f"
  obtain res db1 where add: "PostgresRepository_AddFinding D (re_out env (Suc k)) (re_repoID env k) (re_now env k) ?f (rs_db st) = (res, db1)"
    by fastforce
  note eff = AddFinding_effect [OF add]
  have status: "not_completed i db1 = not_completed i (rs_db st)" for i using eff by (simp add: not_completed_def)
  have key: "stored_key ?f = (re_newID env 0, level, fd_Type f, fd_EntityType f, fd_EntityID f)" by (simp add: stored_key_def engine_finding_def)
  show ?case
  proof (cases res)
    case (Inl e)
    obtain r db2 where fail: "PostgresRepository_FailRun (re_final env) (re_newID env 0) (re_errText env e) db1 = (r :: 'a recon_error + unit, db2)" by fastforce
    then show ?thesis using FailRun_effect [OF fail] status Cons.prems Inl add eff by (auto simp: repo_AddFinding_def recordFailedRun_def)
  next
    case (Inr stored)
    let ?st = "dispatchAlert True stored (st\<lparr>rs_db := db1, rs_divergence := rs_divergence st @ [fd_Type stored]\<rparr>)"
    have db: "rs_db ?st = db1" "rs_divergence ?st = rs_divergence st @ [fd_Type stored]" by (simp_all add: dispatchAlert_def)
    have stored: "fd_Type stored = fd_Type f" using eff Inr by (simp add: finding_defaults_def engine_finding_def)
    have rest: "store_findings D False env level (Suc k) fs
        (if fd_Severity stored = SeverityCritical then stats\<lparr>ss_Critical := ss_Critical stats + 1\<rparr> else stats) ?st = ((stats', err), st')"
      using Cons.prems(1) add Inr by (simp add: repo_AddFinding_def)
    have IH: "not_completed (re_newID env 0) (rs_db st') \<and> recorded_keys db1 \<subseteq> recorded_keys (rs_db st')
      \<and> ss_Checked stats' = ss_Checked stats \<and> ss_Findings stats' = ss_Findings stats
      \<and> (err = None \<longrightarrow> (\<forall>f \<in> set fs. (re_newID env 0, level, fd_Type f, fd_EntityType f, fd_EntityID f) \<in> recorded_keys (rs_db st'))
           \<and> rs_divergence st' = (rs_divergence st @ [fd_Type f]) @ map fd_Type fs)"
      using Cons.IH [OF rest] db status Cons.prems(2) stored by (simp split: if_splits)
    have "recorded_keys (rs_db st) \<subseteq> recorded_keys db1" "(re_newID env 0, level, fd_Type f, fd_EntityType f, fd_EntityID f) \<in> recorded_keys db1"
      using eff key Inr by simp_all
    then show ?thesis using IH by (simp add: subset_iff)
  qed
qed simp

lemma insert_run_effect:
  "insert_run row db = Inr db' \<Longrightarrow> rn_status row \<noteq> RunStatusCompleted \<Longrightarrow> recorded_keys db' = recorded_keys db \<and> not_completed (rn_id row) db'"
  by (auto simp: insert_run_def not_completed_def recorded_keys_def image_iff split: if_splits) (metis)+

lemma CreateRun_effect:
  assumes "PostgresRepository_CreateRun out i level name scope db = (res, db')"
  shows "recorded_keys db' = recorded_keys db \<and> (\<not> isl res \<or> not_completed i db \<longrightarrow> not_completed i db')"
  using assms unfolding PostgresRepository_CreateRun_def
proof (cases rule: recon_stmt_cases)
  case 2
  then show ?thesis using insert_run_effect [OF 2] by (simp add: recon_words)
qed simp

lemma CompleteRun_effect:
  assumes "PostgresRepository_CompleteRun out i stats db = (res, db')" and "not_completed i db" and "r \<in> set (rd_runs db')"
    and "rn_id r = i" "rn_status r = RunStatusCompleted"
  shows "recorded_keys db' = recorded_keys db \<and> rn_checked_count r = ss_Checked stats \<and> rn_finding_count r = ss_Findings stats"
  using assms(1) unfolding PostgresRepository_CompleteRun_def
proof (cases rule: recon_stmt_cases)
  case 1
  then show ?thesis using assms(2-5) by (auto simp: not_completed_def)
next
  case 2
  let ?f = "\<lambda>r. r\<lparr>rn_status := RunStatusCompleted, rn_completed := True, rn_checked_count := ss_Checked stats,
      rn_finding_count := ss_Findings stats, rn_critical_count := ss_Critical stats\<rparr>"
  have db': "db' = db\<lparr>rd_runs := update_where (\<lambda>r. rn_id r = i) ?f (rd_runs db)\<rparr>" using 2 by (simp split: if_splits)
  then obtain q where q: "q \<in> set (rd_runs db)" "r = (if rn_id q = i then ?f q else q)" using assms(3) by (auto simp: set_update_where simp del: if_image_distrib)
  then have "rn_id q = i" using assms(4) by (cases "rn_id q = i") simp_all
  then show ?thesis using q(2) db' by (simp add: recorded_keys_def)
qed

section \<open>Dry runs\<close>

definition same_effects :: "'d ReconState \<Rightarrow> 'd ReconState \<Rightarrow> bool" where
  "same_effects a b \<longleftrightarrow> rs_db b = rs_db a \<and> rs_divergence b = rs_divergence a \<and> rs_alerts b = rs_alerts a"

lemma dry_store: "store_findings D True env level k fs stats st = (r, st') \<Longrightarrow> st' = st \<and> snd r = None"
  by (induction fs arbitrary: k stats) (auto simp: repo_AddFinding_def dispatchAlert_def)

lemma dry_comparator: "runComparator D True env cp scope st = Some (r, st') \<Longrightarrow> st' = st"
  by (auto simp: runComparator_def repo_CreateRun_def repo_CompleteRun_def recordFailedRun_def split: option.splits sum.splits prod.splits dest!: dry_store)

lemma dry_comparators: "run_comparators D True envs i cps scope tot st = Some (r, st') \<Longrightarrow> st' = st"
proof (induction cps arbitrary: i tot)
  case (Cons cp cps)
  show ?case
  proof (cases "runComparator D True (envs i) cp scope st")
    case (Some p)
    obtain stats err st1 where p: "p = ((stats, err), st1)" by (metis prod.exhaust)
    then have "st1 = st" using Some dry_comparator by blast
    then show ?thesis using Cons Some p by (cases err) auto
  qed (use Cons.prems in simp)
qed simp

text \<open>A pass leaves the outcomes to the runner, and one without an error has an answer of every comparator.\<close>

lemma store_outcomes: "store_findings D dry env level k fs stats st = (r, st') \<Longrightarrow> rs_outcomes st' = rs_outcomes st"
  by (induction fs arbitrary: k stats st)
    (auto simp: repo_AddFinding_def dispatchAlert_def recordFailedRun_def split: if_splits sum.splits prod.splits)

lemma comparator_answered:
  assumes "runComparator D dry env cp scope st = Some ((stats, err), st')"
  shows "rs_outcomes st' = rs_outcomes st \<and> (err = None \<longrightarrow> (\<exists>res. cp_Reconcile cp scope = Some (Inr res)))"
  using assms by (auto simp: runComparator_def repo_CreateRun_def repo_CompleteRun_def recordFailedRun_def
      split: if_splits option.splits sum.splits prod.splits dest!: store_outcomes)

definition answered :: "Scope \<Rightarrow> 'd comparator \<Rightarrow> bool" where
  "answered scope cp \<longleftrightarrow> (\<exists>res. cp_Reconcile cp scope = Some (Inr res))"

lemma comparators_answered:
  "run_comparators D dry envs i cps scope tot st = Some ((stats, err), st') \<Longrightarrow>
     rs_outcomes st' = rs_outcomes st \<and> (err = None \<longrightarrow> list_all (answered scope) cps)"
proof (induction cps arbitrary: i tot st)
  case (Cons cp cps)
  then obtain stats1 err1 st1 where one: "runComparator D dry (envs i) cp scope st = Some ((stats1, err1), st1)"
    by (auto split: option.splits)
  note first = comparator_answered [OF this]
  show ?case
  proof (cases err1)
    case None
    then have "run_comparators D dry envs (Suc i) cps scope (add_stats tot stats1) st1 = Some ((stats, err), st')"
      using Cons.prems one by simp
    from Cons.IH [OF this] first None show ?thesis by (auto simp: answered_def)
  next
    case (Some e)
    then show ?thesis using first Cons.prems one by auto
  qed
qed simp

lemma dry_answered: "runComparator D True env cp scope st = Some ((stats, err), st') \<Longrightarrow> answered scope cp \<Longrightarrow> err = None"
  by (auto simp: runComparator_def repo_CreateRun_def repo_CompleteRun_def answered_def split: prod.splits option.splits dest!: dry_store)

lemma dry_all_answered:
  "run_comparators D True envs i cps scope tot st = Some ((stats, err), st') \<Longrightarrow> list_all (answered scope) cps \<Longrightarrow> err = None"
proof (induction cps arbitrary: i tot st)
  case (Cons cp cps)
  then obtain stats1 err1 st1 where one: "runComparator D True (envs i) cp scope st = Some ((stats1, err1), st1)"
    by (auto split: option.splits)
  with Cons dry_answered [OF one] show ?case by auto
qed simp

text \<open>Where the liveness anchor stands once leadership has been observed: gaining it resets the anchor of a started runner.\<close>

definition anchor_observed :: "tick_env \<Rightarrow> ReconRunner \<Rightarrow> int" where
  "anchor_observed te r =
     (if te_leader te = Some True \<and> \<not> rr_wasLeader r \<and> rr_startedAt r \<noteq> 0 then UnixNano (te_observed te) else rr_lastPassEnd r)"

lemma observe_anchor: "observeLeadership (te_leader te) (te_observed te) r = (leads, r1) \<Longrightarrow>
    rr_lastPassEnd r1 = anchor_observed te r \<and> (leads \<longleftrightarrow> te_leader te \<noteq> Some False)"
  by (auto simp: observeLeadership_def anchor_observed_def split: option.splits if_splits)

definition tick_scope :: "tick_env \<Rightarrow> Scope" where
  "tick_scope te = \<lparr>sc_FullSweep = True, sc_VaultID = uuid_Nil, sc_EventID = [], sc_StartedAt = te_start te\<rparr>"

section \<open>Properties\<close>

text \<open>
  C35: On a table that does not change under it and in which no two active vaults were created
  at the same instant, a sweep in pages of 500 is one pass over the active vaults, whatever
  order the server gives to ties: it returns, it reports exactly the vaults in scope whose
  recorded balance differs from what the chain answers, it counts every vault it compared,
  skips those it cannot read, and fails when it could read none. With equal instants a page may
  repeat a vault and the next one miss another (\<open>pages_may_repeat_a_vault\<close>).
\<close>

theorem sweep_covers_every_vault:
  assumes "money_laws D" and "\<forall>r \<in> set (vd_vaults db). has_scale 8 (v_current_balance r)"
    and "\<forall>k. be_chain env k = ch" and "\<forall>k. \<not> be_cancelled env k" and "int (length (vd_vaults db)) + vaultReconcilePageSize \<le> max64"
    and "distinct (map v_created_at (filter (listed ''active'') (vd_vaults db)))"
  shows "\<exists>res. BalanceComparator_Reconcile D c env (active_lister D (\<lambda>_. no_fault) ties (\<lambda>_. db) (\<lambda>_. db)) scope = Some res \<and>
    (let reads = filter (to_read scope) (active_vaults db)
     in if reads \<noteq> [] \<and> list_all (unreadable ch) reads then isl res
        else \<not> isl res
          \<and> map fd_EntityID (cr_Findings (projr res)) = map (\<lambda>r. ro_uuidString D (v_id r)) (filter (diverges D ch) reads)
          \<and> cr_Checked (projr res) = int (length (filter (\<lambda>r. in_sweep scope r \<and> \<not> (to_read scope r \<and> unreadable ch r)) (active_vaults db))))"
proof -
  let ?rows = "active_vaults db"
  have "int (length (map (scanVault D) ?rows)) \<le> int (length (vd_vaults db))" by (simp add: active_vaults_def)
  then have rec: "BalanceComparator_Reconcile D c env (active_lister D (\<lambda>_. no_fault) ties (\<lambda>_. db) (\<lambda>_. db)) scope =
      Some (bindE (compare_page D (NewClassifier D c) env scope (map (scanVault D) ?rows) empty_sweep) sweep_result)"
    using assms(5) unfolding active_lister_ties [OF assms(6), of D "\<lambda>_. no_fault" ties] by (intro active.reconcile_pages) linarith
  have "\<forall>r \<in> set ?rows. has_scale 8 (v_current_balance r)" using assms(2) by (simp add: active_vaults_def)
  from compare_rows [OF assms(1,3,4) this]
  obtain sw where sw: "compare_page D (NewClassifier D c) env scope (map (scanVault D) ?rows) empty_sweep = Inr sw" "swept D ch scope ?rows empty_sweep sw"
    by blast
  have all: "length (filter (\<lambda>r. to_read scope r \<and> unreadable ch r) ?rows) = length (filter (to_read scope) ?rows)
      \<longleftrightarrow> list_all (unreadable ch) (filter (to_read scope) ?rows)"
    using length_filter_all [of "unreadable ch" "filter (to_read scope) ?rows"] by (simp add: filter_filter conj_commute)
  show ?thesis using rec sw all by (auto simp: swept_def empty_sweep_def sweep_result_def Let_def split: option.splits)
qed

text \<open>
  A sweep returns whatever its lister answers, as long as the totals it reports and the pages
  it returns stay in the range of an \<open>int\<close>.
\<close>

theorem sweep_returns:
  assumes "\<forall>i off vs tot. lister i off = Inr (vs, tot) \<longrightarrow> tot \<le> N \<and> int (length vs) \<le> M" and "0 \<le> N" and "N + M \<le> max64"
  shows "\<exists>res. BalanceComparator_Reconcile D c env lister scope = Some res"
  using loop_returns [OF assms(1,3), of 0] assms(2) by (auto simp: BalanceComparator_Reconcile_def)

text \<open>
  C36: A run row says completed only when its comparator answered, with the counts of that answer,
  and then every finding of it is in the table under the run and counted on the metric; with
  any statement of the pass failing or unanswered.
\<close>

theorem completed_run_is_whole:
  assumes "runComparator D False env cp scope st = Some (out, st')" and "not_completed (re_newID env 0) (rs_db st)"
    and "r \<in> set (rd_runs (rs_db st'))" "rn_id r = re_newID env 0" "rn_status r = RunStatusCompleted"
  shows "\<exists>res. cp_Reconcile cp scope = Some (Inr res) \<and> rn_checked_count r = cr_Checked res \<and> rn_finding_count r = int (length (cr_Findings res))
    \<and> (\<forall>f \<in> set (cr_Findings res). (rn_id r, cp_Level cp, fd_Type f, fd_EntityType f, fd_EntityID f) \<in> recorded_keys (rs_db st'))
    \<and> rs_divergence st' = rs_divergence st @ map fd_Type (cr_Findings res)"
proof -
  obtain res0 db0 where create: "PostgresRepository_CreateRun (re_out env 0) (re_newID env 0) (cp_Level cp) (cp_Name cp) scope (rs_db st) = (res0 :: 'a recon_error + unit, db0)"
    by fastforce
  note c = CreateRun_effect [OF create]
  have fin: "\<not> not_completed (re_newID env 0) (rs_db st')" using assms(3-5) by (auto simp: not_completed_def)
  then obtain u where u: "res0 = Inr u" using assms(1,2) create c by (cases res0) (auto simp: runComparator_def repo_CreateRun_def)
  let ?st = "st\<lparr>rs_db := db0\<rparr>"
  have nc: "not_completed (re_newID env 0) (rs_db ?st)" using c u by simp
  have failed: "not_completed (re_newID env 0) (rs_db (recordFailedRun False env e ?st))" for e
    using FailRun_effect [OF prod.collapse [symmetric, of "PostgresRepository_FailRun (re_final env) (re_newID env 0) (re_errText env e) db0 :: ('a recon_error + unit) \<times> ReconDB"]] nc
    by (simp add: recordFailedRun_def)
  obtain res where res: "cp_Reconcile cp scope = Some (Inr res)"
    using assms(1) create u fin failed by (auto simp: runComparator_def repo_CreateRun_def split: option.splits sum.splits)
  let ?stats = "\<lparr>ss_Checked = cr_Checked res, ss_Findings = int (length (cr_Findings res)), ss_Critical = 0\<rparr>"
  obtain stats err st1 where store: "store_findings D False env (cp_Level cp) 0 (cr_Findings res) ?stats ?st = ((stats, err), st1)" by (metis prod.exhaust)
  note s = store_findings_effect [OF store nc]
  have err: "err = None" using assms(1) create u res store s fin by (cases err) (auto simp: runComparator_def repo_CreateRun_def)
  obtain r1 db1 where complete: "PostgresRepository_CompleteRun (re_final env) (re_newID env 0) stats (rs_db st1) = (r1 :: 'a recon_error + unit, db1)" by fastforce
  have st': "st' = st1\<lparr>rs_db := db1\<rparr>"
    using assms(1) create u res store err complete by (auto simp: runComparator_def repo_CreateRun_def repo_CompleteRun_def split: sum.splits)
  show ?thesis
    using CompleteRun_effect [OF complete, of r] s err res st' assms(3-5) by auto
qed

text \<open>
  C37: A replica that does not lead changes nothing but its memory of leading. One that leads
  counts the pass exactly once: as completed, and then every comparator has answered and the
  liveness anchor is the end of the pass; or as failed, with the anchor where observing
  leadership left it; or, only when the context was cancelled, not at all, with the anchor
  likewise. Gaining leadership resets the anchor of a runner that has been started. A dry run
  writes no row, divergence or alert, and counts as completed exactly when every comparator
  answers.
\<close>

theorem tick_effects:
  assumes "Runner_Tick D dry envs cps te r st = Some (r', st')"
  shows "(if te_leader te = Some False then st' = st \<and> r' = r\<lparr>rr_wasLeader := False\<rparr>
      else rs_outcomes st' = rs_outcomes st @ [ReconcileCompleted] \<and> rr_lastPassEnd r' = UnixNano (te_end te) \<and> list_all (answered (tick_scope te)) cps
        \<or> rs_outcomes st' = rs_outcomes st @ [ReconcileFailed] \<and> rr_lastPassEnd r' = anchor_observed te r \<and> \<not> te_cancelled te
        \<or> rs_outcomes st' = rs_outcomes st \<and> rr_lastPassEnd r' = anchor_observed te r \<and> te_cancelled te)
    \<and> (dry \<longrightarrow> same_effects st st'
      \<and> (te_leader te \<noteq> Some False \<longrightarrow> (rs_outcomes st' = rs_outcomes st @ [ReconcileCompleted] \<longleftrightarrow> list_all (answered (tick_scope te)) cps)))"
proof (cases "te_leader te = Some False")
  case True
  then show ?thesis using assms by (auto simp: Runner_Tick_def observeLeadership_def same_effects_def)
next
  case False
  obtain r1 where obs: "observeLeadership (te_leader te) (te_observed te) r = (True, r1)"
    using observe_anchor [of te r] False by (metis prod.exhaust)
  note anchor = observe_anchor [OF obs]
  obtain stats err st1 where run: "Engine_Run D dry envs cps (te_start te) (tick_scope te) st = Some ((stats, err), st1)"
    using assms obs by (auto simp: Runner_Tick_def tick_scope_def split: option.splits)
  then have pass: "run_comparators D dry envs 0 cps (tick_scope te) zero_stats st = Some ((stats, err), st1)"
    by (auto simp: Engine_Run_def tick_scope_def split: if_splits)
  have dry: "st1 = st \<and> (err = None \<longleftrightarrow> list_all (answered (tick_scope te)) cps)" if dry
  proof -
    from pass that have p: "run_comparators D True envs 0 cps (tick_scope te) zero_stats st = Some ((stats, err), st1)" by simp
    show ?thesis using dry_comparators [OF p] dry_all_answered [OF p] comparators_answered [OF p] by blast
  qed
  show ?thesis
    using assms obs run False anchor dry comparators_answered [OF pass]
    by (cases err) (auto simp: Runner_Tick_def tick_scope_def same_effects_def split: if_splits)
qed

end
