(* ===== verification/Reconciliation_Examples.thy ===== *)
theory Reconciliation_Examples
  imports Reconciliation_Properties Indexer_Examples
begin

text \<open>
  The reconciler on concrete data: an instance of each of its properties, and the unit in which
  the service compares a balance with the chain.
\<close>

section \<open>Exact rationals\<close>

definition rat_recon :: "rat recon_ops" where
  "rat_recon = \<lparr>d_Mul = (*), d_Div = (/), d_Round = rat_round,
     d_IntPart = (\<lambda>d. if d < 0 then - \<lfloor>- d\<rfloor> else \<lfloor>d\<rfloor>), d_NewFromInt = of_int,
     d_Add = (+), d_Sub = (-), d_Cmp = rat_cmp, d_Sign = (\<lambda>a. rat_cmp a 0), d_Zero = 0,
     d_NewFromString = (\<lambda>s. map_option of_int (parse_int64 s)), d_Num = (\<lambda>a. a), d_Scan = (\<lambda>a. a),
     d_Abs = abs, ro_uuidString = (\<lambda>_. ''vault'')\<rparr>"

lemma rat_recon_laws: "money_laws rat_recon"
  unfolding money_laws_def rat_recon_def by (auto simp: rat_cmp_def rat_round_int)

text \<open>The thresholds \<open>cmd/api/main.go\<close> passes, in stroops.\<close>

definition service_classifier :: "rat Classifier" where
  "service_classifier = \<lparr>cl_DustTolerance = 1 / 2, cl_WarningThreshold = 1, cl_CriticalThreshold = 10000000, cl_StuckAfter = 0\<rparr>"

definition demo_sweep_scope :: Scope where
  "demo_sweep_scope = \<lparr>sc_FullSweep = True, sc_VaultID = uuid_Nil, sc_EventID = [], sc_StartedAt = 9\<rparr>"

text \<open>The chain answers \<open>q\<close> stroops for every contract.\<close>

definition demo_sweep_env :: "rat \<Rightarrow> rat balance_env" where
  "demo_sweep_env q = \<lparr>be_chain = (\<lambda>_ _. Inr q), be_cancelled = (\<lambda>_. False), be_now = 9\<rparr>"

definition demo_sweep :: "rat \<Rightarrow> (rat recon_error + rat ComparisonResult) option" where
  "demo_sweep q = BalanceComparator_Reconcile rat_recon service_classifier (demo_sweep_env q)
     (active_lister rat_recon (\<lambda>_. no_fault) (\<lambda>_ _. 0) (\<lambda>_. ix_vault demo_polled) (\<lambda>_. ix_vault demo_polled)) demo_sweep_scope"

definition demo_indexed :: VaultRow where
  "demo_indexed = \<lparr>v_id = 7, v_user_id = 8, v_contract_address = ''CA'', v_total_deposited = 5, v_current_balance = 5, v_currency = ''USDC'',
     v_status = ''active'', v_yield_earned = 0, v_fees_paid = 0, v_soft_capacity = None, v_harvest_frequency = ''daily'',
     v_last_harvested_at = None, v_deleted_at = None, v_created_at = 5, v_updated_at = 9\<rparr>"

lemma demo_table: "vd_vaults (ix_vault demo_polled) = [demo_indexed]"
  by (simp add: demo_polled_eval demo_indexed_def)

lemma demo_active: "active_vaults (ix_vault demo_polled) = [demo_indexed]"
  by (simp add: active_vaults_def demo_table listed_def demo_indexed_def)

section \<open>Instances\<close>

theorem sweep_covers_every_vault_witness:
  "\<exists>res. demo_sweep 7 = Some res \<and> \<not> isl res \<and> map fd_EntityID (cr_Findings (projr res)) = [''vault''] \<and> cr_Checked (projr res) = 1"
proof -
  let ?db = "ix_vault demo_polled"
  have scale: "\<forall>r \<in> set (vd_vaults ?db). has_scale 8 (v_current_balance r)"
    by (auto simp: demo_table demo_indexed_def has_scale_def intro: exI [of _ 500000000])
  have len: "int (length (vd_vaults ?db)) + vaultReconcilePageSize \<le> max64"
    by (simp add: demo_table vaultReconcilePageSize_def int64_defs)
  show ?thesis
    using sweep_covers_every_vault [OF rat_recon_laws scale, of "demo_sweep_env 7" "\<lambda>_. Inr 7" service_classifier "\<lambda>_ _. 0" demo_sweep_scope] len
    by (simp add: demo_sweep_def demo_active demo_table demo_sweep_env_def demo_indexed_def to_read_def in_sweep_def unreadable_def diverges_def demo_sweep_scope_def
        rat_recon_def)
qed

theorem sweep_returns_witness:
  "\<exists>res. BalanceComparator_Reconcile rat_recon service_classifier (demo_sweep_env 7) (\<lambda>i off. Inr ([], 3)) demo_sweep_scope = Some res"
  using sweep_returns [of "\<lambda>i off. Inr ([], 3)" 3 0 rat_recon service_classifier "demo_sweep_env 7" demo_sweep_scope] by (simp add: int64_defs)

definition demo_recon_env :: "rat recon_env" where
  "demo_recon_env = \<lparr>re_out = (\<lambda>_. Committed), re_final = CommitUnacked, re_newID = (\<lambda>k. of_nat (k + 40)), re_repoID = (\<lambda>_. 0), re_now = (\<lambda>_. 9),
     re_errText = (\<lambda>_. ''e'')\<rparr>"

definition demo_comparator :: "rat comparator" where
  "demo_comparator = \<lparr>cp_Name = ''vault_balance'', cp_Level = LevelBalance, cp_Reconcile = (\<lambda>_. Some (Inr \<lparr>cr_Checked = 1, cr_Findings =
     [Classify rat_recon service_classifier \<lparr>fi_Level = LevelBalance, fi_Type = TypeMismatch, fi_EntityType = ''vault'', fi_EntityID = ''v'',
        fi_RecordedValue = Some 5, fi_OnChainValue = Some 7, fi_Age = 0, fi_Details = []\<rparr> 9]\<rparr>))\<rparr>"

definition demo_recon_state :: "rat ReconState" where
  "demo_recon_state = \<lparr>rs_db = \<lparr>rd_runs = [], rd_findings = [], rd_checkpoints = []\<rparr>, rs_divergence = [], rs_alerts = [], rs_outcomes = []\<rparr>"

definition demo_run_result :: "((Stats \<times> rat recon_error option) \<times> rat ReconState) option" where
  "demo_run_result = runComparator rat_recon False demo_recon_env demo_comparator demo_sweep_scope demo_recon_state"

definition demo_run_row :: RunRow where
  "demo_run_row = \<lparr>rn_id = 40, rn_level = LevelBalance, rn_comparator = ''vault_balance'', rn_status = RunStatusCompleted, rn_scope = demo_sweep_scope,
     rn_started_at = 9, rn_completed = True, rn_checked_count = 1, rn_finding_count = 1, rn_critical_count = 0, rn_error = None\<rparr>"

lemma demo_run_rows: "map_option (\<lambda>(_, st). (rd_runs (rs_db st), map fr_severity (rd_findings (rs_db st)))) demo_run_result
    = Some ([demo_run_row], [SeverityWarning])"
  by code_simp

theorem completed_run_is_whole_witness:
  "\<exists>out st'. demo_run_result = Some (out, st') \<and> rs_divergence st' = [TypeMismatch] \<and> (40, LevelBalance, TypeMismatch, ''vault'', ''v'') \<in> recorded_keys (rs_db st')"
proof -
  obtain out st' where r: "demo_run_result = Some (out, st')" "rd_runs (rs_db st') = [demo_run_row]"
    using demo_run_rows by (cases demo_run_result) auto
  have "not_completed (re_newID demo_recon_env 0) (rs_db demo_recon_state)" by (simp add: not_completed_def demo_recon_state_def)
  moreover have "demo_run_row \<in> set (rd_runs (rs_db st'))" "rn_id demo_run_row = re_newID demo_recon_env 0" "rn_status demo_run_row = RunStatusCompleted"
    using r(2) by (simp_all add: demo_run_row_def demo_recon_env_def)
  ultimately have "\<exists>res. cp_Reconcile demo_comparator demo_sweep_scope = Some (Inr res)
      \<and> (\<forall>f \<in> set (cr_Findings res). (rn_id demo_run_row, cp_Level demo_comparator, fd_Type f, fd_EntityType f, fd_EntityID f) \<in> recorded_keys (rs_db st'))
      \<and> rs_divergence st' = rs_divergence demo_recon_state @ map fd_Type (cr_Findings res)"
    using completed_run_is_whole [OF r(1) [unfolded demo_run_result_def]] by blast
  then have "rs_divergence st' = [TypeMismatch] \<and> (40, LevelBalance, TypeMismatch, ''vault'', ''v'') \<in> recorded_keys (rs_db st')"
    by (simp add: demo_comparator_def demo_run_row_def demo_recon_state_def Classify_def Let_def)
  then show ?thesis using r(1) by blast
qed

definition demo_tick :: tick_env where
  "demo_tick = \<lparr>te_leader = Some True, te_observed = 1, te_start = 2, te_end = 3, te_cancelled = False\<rparr>"

theorem tick_effects_witness:
  "\<exists>r' st'. Runner_Tick rat_recon True (\<lambda>_. demo_recon_env) [demo_comparator] demo_tick
     \<lparr>rr_startedAt = 5, rr_lastPassEnd = 0, rr_wasLeader = False\<rparr> demo_recon_state = Some (r', st')
     \<and> same_effects demo_recon_state st' \<and> rs_outcomes st' = [ReconcileCompleted]"
proof -
  have "\<exists>p. Runner_Tick rat_recon True (\<lambda>_. demo_recon_env) [demo_comparator] demo_tick
     \<lparr>rr_startedAt = 5, rr_lastPassEnd = 0, rr_wasLeader = False\<rparr> demo_recon_state = Some p"
    by (simp add: Runner_Tick_def observeLeadership_def Engine_Run_def runComparator_def repo_CreateRun_def demo_comparator_def repo_AddFinding_def
        repo_CompleteRun_def dispatchAlert_def demo_tick_def)
  then obtain r' st' where t: "Runner_Tick rat_recon True (\<lambda>_. demo_recon_env) [demo_comparator] demo_tick
      \<lparr>rr_startedAt = 5, rr_lastPassEnd = 0, rr_wasLeader = False\<rparr> demo_recon_state = Some (r', st')"
    by (metis prod.exhaust)
  have "list_all (answered (tick_scope demo_tick)) [demo_comparator]" "te_leader demo_tick \<noteq> Some False" "rs_outcomes demo_recon_state = []"
    by (simp_all add: answered_def demo_comparator_def demo_tick_def demo_recon_state_def)
  then show ?thesis using t tick_effects [OF t] by auto
qed

section \<open>Findings\<close>

text \<open>
  Two active vaults of the same instant, read in two pages of one: nothing but \<open>created_at\<close>
  orders them, and a server that orders the tie differently in the two queries returns one vault
  twice and the other never.
\<close>

definition twin_vaults :: VaultDB where
  "twin_vaults = (ix_vault demo_index)\<lparr>vd_vaults := [demo_indexed, demo_indexed\<lparr>v_id := 9\<rparr>]\<rparr>"

theorem pages_may_repeat_a_vault:
  "map_sum (\<lambda>_. ()) (\<lambda>(vs, n). (map va_ID vs, n))
     (VaultRepository_ListVaults rat_money no_fault (\<lambda>r. if v_id r = 7 then 0 else 1) twin_vaults twin_vaults ''active'' 1 0) = Inr ([7], 2)
   \<and> map_sum (\<lambda>_. ()) (\<lambda>(vs, n). (map va_ID vs, n))
     (VaultRepository_ListVaults rat_money no_fault (\<lambda>r. if v_id r = 7 then 1 else 0) twin_vaults twin_vaults ''active'' 1 1) = Inr ([7], 2)"
  by (simp add: VaultRepository_ListVaults_def twin_vaults_def by_created_def listed_def demo_indexed_def scanVault_def)

text \<open>
  The indexer credits a deposit event in asset units; the reconciler of the service reads the
  chain in stroops. Two deposits of 25 million stroops, indexed correctly, are reported as a
  critical divergence of 49999995.
\<close>

theorem indexed_deposits_read_as_divergence:
  "\<exists>res. demo_sweep (25000000 + 25000000) = Some (Inr res)
     \<and> map (\<lambda>f. (fd_Severity f, fd_RecordedValue f, fd_OnChainValue f, fd_Difference f)) (cr_Findings res)
       = [(SeverityCritical, Some 5, Some 50000000, Some 49999995)]"
proof -
  have "demo_sweep (25000000 + 25000000) =
      Some (bindE (compare_page rat_recon (NewClassifier rat_recon service_classifier) (demo_sweep_env (25000000 + 25000000)) demo_sweep_scope
        (map (scanVault rat_recon) [demo_indexed]) empty_sweep) sweep_result)"
    unfolding demo_sweep_def demo_active [symmetric] by (rule active.reconcile_pages) (simp add: demo_active vaultReconcilePageSize_def int64_defs)
  then show ?thesis
    by (simp add: demo_indexed_def scanVault_def demo_sweep_env_def demo_sweep_scope_def rat_recon_def rat_cmp_def empty_sweep_def sweep_result_def
        Let_def Classify_def mismatch_input_def NewClassifier_def service_classifier_def severityForDifference_def)
qed

end
