(* ===== verification/Harvest.thy ===== *)
theory Harvest
  imports Vault_Queries Job_Worker Go_Format
begin

text \<open>
  The harvest engine (\<open>harvest/\<close>): the economic gate, the evaluation of vaults that submits
  idempotent jobs to the job queue, the preview and the status a user sees, and the handler
  of a harvest job. The gas oracle answers as its interface allows; what \<open>HarvestVault\<close> of the
  vault service does is an argument, as are the printing of a uuid and the JSON of a payload.
\<close>

section \<open>The gate\<close>

definition ReasonHarvest :: string where "ReasonHarvest = ''harvest''"
definition ReasonNoYield :: string where "ReasonNoYield = ''no_yield''"
definition ReasonBelowThreshold :: string where "ReasonBelowThreshold = ''below_threshold''"
definition ReasonNotDue :: string where "ReasonNotDue = ''not_due''"

definition FrequencyDuration :: "string \<Rightarrow> duration" where
  "FrequencyDuration frequency = (if frequency = ''weekly'' then 7 * 24 * hour else 24 * hour)"

definition DueForHarvest :: "time \<Rightarrow> string \<Rightarrow> time option \<Rightarrow> bool" where
  "DueForHarvest now frequency lastHarvestedAt =
     (case lastHarvestedAt of None \<Rightarrow> True | Some t \<Rightarrow> FrequencyDuration frequency \<le> time_sub now t)"

record 'd GatingInput =
  gi_AccruedYield :: 'd
  gi_GasFee :: 'd
  gi_Margin :: 'd

record 'd GatingDecision =
  gd_Harvest :: bool
  gd_Threshold :: 'd
  gd_NetGain :: 'd
  gd_Reason :: string

definition floorZero :: "('d, 'z) money_ops_scheme \<Rightarrow> 'd \<Rightarrow> 'd" where
  "floorZero D d = (if d_LessThan D d (d_Zero D) then d_Zero D else d)"

definition Evaluate :: "('d, 'z) money_ops_scheme \<Rightarrow> 'd GatingInput \<Rightarrow> 'd GatingDecision" where
  "Evaluate D i =
     (let gas = floorZero D (gi_GasFee i); margin = floorZero D (gi_Margin i); threshold = d_Add D gas margin;
          net = d_Sub D (gi_AccruedYield i) threshold
      in if d_Cmp D (gi_AccruedYield i) (d_Zero D) \<le> 0 then
           \<lparr>gd_Harvest = False, gd_Threshold = threshold, gd_NetGain = net, gd_Reason = ReasonNoYield\<rparr>
         else if d_GreaterThan D (gi_AccruedYield i) threshold then
           \<lparr>gd_Harvest = True, gd_Threshold = threshold, gd_NetGain = net, gd_Reason = ReasonHarvest\<rparr>
         else \<lparr>gd_Harvest = False, gd_Threshold = threshold, gd_NetGain = net, gd_Reason = ReasonBelowThreshold\<rparr>)"

text \<open>\<open>None\<close> is the estimate that is not defined.\<close>

definition EstimateNextHarvest :: "('d, 'z) money_ops_scheme \<Rightarrow> 'd \<Rightarrow> 'd \<Rightarrow> 'd \<Rightarrow> duration option" where
  "EstimateNextHarvest D accrued threshold ratePerHour =
     (if d_Cmp D ratePerHour (d_Zero D) \<le> 0 then None
      else (let remaining = d_Sub D threshold accrued in
        if d_Cmp D remaining (d_Zero D) \<le> 0 then Some 0
        else (let hours = d_Div D remaining ratePerHour; secs = d_Mul D hours (d_NewFromInt D (go_div hour second)) in
          if d_GreaterThan D secs (d_NewFromInt D (go_div (365 * 24 * hour) second)) then None
          else Some (wrap64 (d_IntPart D secs * second)))))"

section \<open>Vaults\<close>

record 'd VaultYield =
  vy_VaultID :: uuid
  vy_UserID :: uuid
  vy_ContractAddress :: string
  vy_Currency :: string
  vy_WalletAddress :: string
  vy_AccruedYield :: 'd
  vy_AccrualRatePerHour :: 'd
  vy_HarvestFrequency :: string
  vy_LastHarvestedAt :: "time option"

definition toVaultYield :: "('d, 'z) money_ops_scheme \<Rightarrow> 'd ScannedVault \<Rightarrow> 'd VaultYield" where
  "toVaultYield D v =
     \<lparr>vy_VaultID = va_ID v, vy_UserID = va_UserID v, vy_ContractAddress = va_ContractAddress v, vy_Currency = va_Currency v, vy_WalletAddress = [],
      vy_AccruedYield =
        (if d_GreaterThan D (va_YieldEarned v) (d_Zero D) then va_YieldEarned v
         else if d_GreaterThan D (d_Sub D (va_CurrentBalance v) (va_TotalDeposited v)) (d_Zero D) then d_Sub D (va_CurrentBalance v) (va_TotalDeposited v)
         else d_Zero D),
      vy_AccrualRatePerHour = d_Zero D, vy_HarvestFrequency = va_HarvestFrequency v, vy_LastHarvestedAt = va_LastHarvestedAt v\<rparr>"

definition RepoSource_ListHarvestable :: "('d, 'z) money_ops_scheme \<Rightarrow> sql_fault \<Rightarrow> (VaultRow \<Rightarrow> int) \<Rightarrow> VaultDB \<Rightarrow> 'd vault_error + 'd VaultYield list" where
  "RepoSource_ListHarvestable D flt ties db =
     bindE (VaultRepository_ListActive D flt ties db) (\<lambda>vs.
       Inr (filter (\<lambda>y. d_GreaterThan D (vy_AccruedYield y) (d_Zero D)) (map (toVaultYield D) vs)))"

definition RepoSource_GetVaultYield :: "('d, 'z) money_ops_scheme \<Rightarrow> sql_fault \<Rightarrow> VaultDB \<Rightarrow> uuid \<Rightarrow> 'd vault_error + 'd VaultYield" where
  "RepoSource_GetVaultYield D flt db vid = bindE (VaultRepository_GetVault D flt db vid) (\<lambda>v. Inr (toVaultYield D v))"

section \<open>The engine\<close>

definition DefaultJobType :: string where "DefaultJobType = ''harvest''"

record 'd HarvestConfig =
  hc_Margin :: 'd
  hc_Window :: duration
  hc_JobType :: string
  hc_MaxAttempts :: int

definition Config_jobType :: "'d HarvestConfig \<Rightarrow> string" where
  "Config_jobType c = (if hc_JobType c \<noteq> [] then hc_JobType c else DefaultJobType)"

definition Config_window :: "'d HarvestConfig \<Rightarrow> duration" where
  "Config_window c = (if hc_Window c \<le> 0 then hour else hc_Window c)"

record HarvestJobPayload =
  hp_VaultID :: uuid
  hp_UserID :: uuid
  hp_WalletAddress :: string
  hp_Compound :: bool

record harvest_ops =
  ho_uuidString :: "uuid \<Rightarrow> string"
  ho_marshal :: "HarvestJobPayload \<Rightarrow> string"
  ho_unmarshal :: "string \<Rightarrow> HarvestJobPayload option"

datatype 'd harvest_error =
    HarvestVaults "'d vault_error"
  | GasOracle
  | HarvestEnqueue job_error
  | ErrForbidden

text \<open>The gas oracle: the fee in a currency and whether the network is congested, \<open>None\<close> for an error.\<close>

record 'd gas_oracle =
  go_HarvestFee :: "string \<Rightarrow> 'd option"
  go_Congested :: "bool option"

definition StaticGasOracle :: "'d \<Rightarrow> bool \<Rightarrow> 'd gas_oracle" where
  "StaticGasOracle fee congested = \<lparr>go_HarvestFee = (\<lambda>_. Some fee), go_Congested = Some congested\<rparr>"

text \<open>\<open>Truncate\<close> rounds down to a multiple of the window since the zero time; \<open>Unix\<close> counts seconds from 1970.\<close>

definition time_truncate :: "time \<Rightarrow> duration \<Rightarrow> time" where
  "time_truncate t d = (if d \<le> 0 then t else t - t mod d)"

definition time_Unix :: "time \<Rightarrow> int" where "time_Unix t = (t - 62135596800 * second) div second"

definition idempotencyKey :: "harvest_ops \<Rightarrow> 'd HarvestConfig \<Rightarrow> time \<Rightarrow> uuid \<Rightarrow> string" where
  "idempotencyKey H cfg now vaultID =
     ho_uuidString H vaultID @ '':'' @ format_int (time_Unix (time_truncate now (Config_window cfg)))"

text \<open>One evaluation: its two readings of the clock and what its enqueue meets.\<close>

record eval_env =
  he_due :: time
  he_key :: time
  he_jsonb :: "string \<Rightarrow> string option"
  he_flt :: sql_fault
  he_newID :: uuid
  he_dbnow :: time
  he_now :: time
  he_others :: "JobDB \<Rightarrow> JobDB"
  he_requestID :: string

definition harvest_input :: "harvest_ops \<Rightarrow> 'd HarvestConfig \<Rightarrow> time \<Rightarrow> 'd VaultYield \<Rightarrow> EnqueueInput" where
  "harvest_input H cfg now v =
     \<lparr>in_Type = Config_jobType cfg,
      in_Payload = ho_marshal H \<lparr>hp_VaultID = vy_VaultID v, hp_UserID = vy_UserID v, hp_WalletAddress = vy_WalletAddress v, hp_Compound = False\<rparr>,
      in_Priority = PriorityBalance, in_MaxAttempts = hc_MaxAttempts cfg, in_IdempotencyKey = idempotencyKey H cfg now (vy_VaultID v),
      in_CorrelationID = [], in_RunAt = 0\<rparr>"

definition evaluateAndEnqueue ::
  "('d, 'z) money_ops_scheme \<Rightarrow> harvest_ops \<Rightarrow> 'd HarvestConfig \<Rightarrow> 'd gas_oracle \<Rightarrow> eval_env \<Rightarrow> 'd VaultYield \<Rightarrow> JobDB
   \<Rightarrow> ('d harvest_error + bool) \<times> JobDB" where
  "evaluateAndEnqueue D H cfg gas env v db =
     (if \<not> DueForHarvest (he_due env) (vy_HarvestFrequency v) (vy_LastHarvestedAt v) then (Inr False, db)
      else (case go_HarvestFee gas (vy_Currency v) of
          None \<Rightarrow> (Inl GasOracle, db)
        | Some fee \<Rightarrow>
          if \<not> gd_Harvest (Evaluate D \<lparr>gi_AccruedYield = vy_AccruedYield v, gi_GasFee = fee, gi_Margin = hc_Margin cfg\<rparr>) then (Inr False, db)
          else (case Client_Enqueue (he_jsonb env) (he_flt env) (he_newID env) (he_dbnow env) (he_now env) (he_others env) (he_requestID env) db
                       (harvest_input H cfg (he_key env) v) of
                  (Inl e, db') \<Rightarrow> (Inl (HarvestEnqueue e), db')
                | (Inr _, db') \<Rightarrow> (Inr True, db'))))"

text \<open>A tick counts what it enqueued and what it skipped; an error is logged and the next vault taken.\<close>

fun evaluate_all ::
  "('d, 'z) money_ops_scheme \<Rightarrow> harvest_ops \<Rightarrow> 'd HarvestConfig \<Rightarrow> 'd gas_oracle \<Rightarrow> (nat \<Rightarrow> eval_env) \<Rightarrow> nat \<Rightarrow> 'd VaultYield list \<Rightarrow> JobDB
   \<Rightarrow> int \<times> int \<times> JobDB" where
  "evaluate_all D H cfg gas envs i [] db = (0, 0, db)"
| "evaluate_all D H cfg gas envs i (v # vs) db =
     (case evaluateAndEnqueue D H cfg gas (envs i) v db of
        (r, db') \<Rightarrow>
          (case evaluate_all D H cfg gas envs (Suc i) vs db' of
             (enqueued, skipped, db'') \<Rightarrow>
               (case r of Inl _ \<Rightarrow> (enqueued, skipped, db'')
                | Inr True \<Rightarrow> (enqueued + 1, skipped, db'') | Inr False \<Rightarrow> (enqueued, skipped + 1, db''))))"

definition Engine_tick ::
  "('d, 'z) money_ops_scheme \<Rightarrow> harvest_ops \<Rightarrow> 'd HarvestConfig \<Rightarrow> 'd gas_oracle \<Rightarrow> (nat \<Rightarrow> eval_env) \<Rightarrow> sql_fault \<Rightarrow> (VaultRow \<Rightarrow> int) \<Rightarrow> VaultDB \<Rightarrow> JobDB
   \<Rightarrow> (int \<times> int) option \<times> JobDB" where
  "Engine_tick D H cfg gas envs flt ties vaults db =
     (if go_Congested gas \<noteq> Some False then (None, db)
      else (case RepoSource_ListHarvestable D flt ties vaults of
          Inl _ \<Rightarrow> (None, db)
        | Inr vs \<Rightarrow> (case evaluate_all D H cfg gas envs 0 vs db of (enqueued, skipped, db') \<Rightarrow> (Some (enqueued, skipped), db'))))"

definition TriggerVault ::
  "('d, 'z) money_ops_scheme \<Rightarrow> harvest_ops \<Rightarrow> 'd HarvestConfig \<Rightarrow> 'd gas_oracle \<Rightarrow> eval_env \<Rightarrow> sql_fault \<Rightarrow> VaultDB \<Rightarrow> uuid \<Rightarrow> JobDB
   \<Rightarrow> ('d harvest_error + bool) \<times> JobDB" where
  "TriggerVault D H cfg gas env flt vaults vid db =
     (case RepoSource_GetVaultYield D flt vaults vid of
        Inl e \<Rightarrow> (Inl (HarvestVaults e), db)
      | Inr v \<Rightarrow> evaluateAndEnqueue D H cfg gas env v db)"

record 'd SimulationResult =
  sr_VaultID :: uuid
  sr_WouldHarvest :: bool
  sr_AccruedYield :: 'd
  sr_EstimatedGasCost :: 'd
  sr_Threshold :: 'd
  sr_NetYield :: 'd
  sr_Reason :: string
  sr_Congested :: bool

definition not_due :: "bool \<Rightarrow> 'd GatingDecision \<Rightarrow> 'd GatingDecision" where
  "not_due due d = (if due then d else d\<lparr>gd_Harvest := False, gd_Reason := ReasonNotDue\<rparr>)"

definition SimulateHarvest ::
  "('d, 'z) money_ops_scheme \<Rightarrow> 'd HarvestConfig \<Rightarrow> 'd gas_oracle \<Rightarrow> time \<Rightarrow> sql_fault \<Rightarrow> VaultDB \<Rightarrow> uuid \<Rightarrow> 'd harvest_error + 'd SimulationResult" where
  "SimulateHarvest D cfg gas now flt vaults vid =
     (case RepoSource_GetVaultYield D flt vaults vid of
        Inl e \<Rightarrow> Inl (HarvestVaults e)
      | Inr v \<Rightarrow>
        (case (go_HarvestFee gas (vy_Currency v), go_Congested gas) of
           (Some fee, Some congested) \<Rightarrow>
             (let decision = not_due (DueForHarvest now (vy_HarvestFrequency v) (vy_LastHarvestedAt v))
                    (Evaluate D \<lparr>gi_AccruedYield = vy_AccruedYield v, gi_GasFee = fee, gi_Margin = hc_Margin cfg\<rparr>)
              in Inr \<lparr>sr_VaultID = vy_VaultID v, sr_WouldHarvest = (gd_Harvest decision \<and> \<not> congested), sr_AccruedYield = vy_AccruedYield v,
                   sr_EstimatedGasCost = fee, sr_Threshold = gd_Threshold decision, sr_NetYield = gd_NetGain decision, sr_Reason = gd_Reason decision,
                   sr_Congested = congested\<rparr>)
         | _ \<Rightarrow> Inl GasOracle))"

section \<open>Status\<close>

record 'd HarvestStatus =
  hs_VaultID :: uuid
  hs_PendingYield :: 'd
  hs_Threshold :: 'd
  hs_Harvestable :: bool
  hs_EstimatedNextHarvest :: "time option"

definition statusFor ::
  "('d, 'z) money_ops_scheme \<Rightarrow> 'd HarvestConfig \<Rightarrow> 'd gas_oracle \<Rightarrow> time \<Rightarrow> time \<Rightarrow> 'd VaultYield \<Rightarrow> 'd harvest_error + 'd HarvestStatus" where
  "statusFor D cfg gas now now2 v =
     (case go_HarvestFee gas (vy_Currency v) of
        None \<Rightarrow> Inl GasOracle
      | Some fee \<Rightarrow>
        (let decision = not_due (DueForHarvest now (vy_HarvestFrequency v) (vy_LastHarvestedAt v))
               (Evaluate D \<lparr>gi_AccruedYield = vy_AccruedYield v, gi_GasFee = fee, gi_Margin = hc_Margin cfg\<rparr>)
         in Inr \<lparr>hs_VaultID = vy_VaultID v, hs_PendingYield = vy_AccruedYield v, hs_Threshold = gd_Threshold decision, hs_Harvestable = gd_Harvest decision,
              hs_EstimatedNextHarvest =
                (if gd_Harvest decision then None
                 else map_option (\<lambda>d. now2 + d) (EstimateNextHarvest D (vy_AccruedYield v) (gd_Threshold decision) (vy_AccrualRatePerHour v)))\<rparr>))"

definition VaultStatus ::
  "('d, 'z) money_ops_scheme \<Rightarrow> 'd HarvestConfig \<Rightarrow> 'd gas_oracle \<Rightarrow> time \<Rightarrow> time \<Rightarrow> sql_fault \<Rightarrow> VaultDB \<Rightarrow> uuid \<Rightarrow> 'd harvest_error + 'd HarvestStatus" where
  "VaultStatus D cfg gas now now2 flt vaults vid =
     bindE (map_sum HarvestVaults id (RepoSource_GetVaultYield D flt vaults vid)) (statusFor D cfg gas now now2)"

definition VaultStatusForUser ::
  "('d, 'z) money_ops_scheme \<Rightarrow> 'd HarvestConfig \<Rightarrow> 'd gas_oracle \<Rightarrow> time \<Rightarrow> time \<Rightarrow> sql_fault \<Rightarrow> VaultDB \<Rightarrow> uuid \<Rightarrow> uuid
   \<Rightarrow> 'd harvest_error + 'd HarvestStatus" where
  "VaultStatusForUser D cfg gas now now2 flt vaults vid userID =
     bindE (map_sum HarvestVaults id (RepoSource_GetVaultYield D flt vaults vid)) (\<lambda>v.
       if vy_UserID v \<noteq> userID then Inl ErrForbidden else statusFor D cfg gas now now2 v)"

section \<open>The job handler\<close>

text \<open>
  An error of a handler is its permanence and its text. \<open>lookup\<close> is the user store: an error's
  text, no user, or the wallet of one; \<open>harvest\<close> is \<open>VaultService.HarvestVault\<close>.
\<close>

definition ServiceExecutor_Harvest ::
  "harvest_ops \<Rightarrow> (uuid \<Rightarrow> string + string option) \<Rightarrow> (uuid \<Rightarrow> uuid \<Rightarrow> string \<Rightarrow> bool \<Rightarrow> 's \<Rightarrow> ((bool \<times> string) + string) \<times> 's) \<Rightarrow> HarvestJobPayload \<Rightarrow> 's
   \<Rightarrow> ((bool \<times> string) + string) \<times> 's" where
  "ServiceExecutor_Harvest H lookup harvest p s =
     (let go = (\<lambda>wallet. harvest (hp_VaultID p) (hp_UserID p) wallet (hp_Compound p) s) in
      if hp_WalletAddress p \<noteq> [] then go (hp_WalletAddress p)
      else (case lookup (hp_UserID p) of
          Inl e \<Rightarrow> (Inl (False, ''resolve owner wallet: '' @ e), s)
        | Inr None \<Rightarrow> (Inl (False, ''vault owner '' @ ho_uuidString H (hp_UserID p) @ '' has no wallet address''), s)
        | Inr (Some w) \<Rightarrow>
            if w = [] then (Inl (False, ''vault owner '' @ ho_uuidString H (hp_UserID p) @ '' has no wallet address''), s) else go w))"

definition JobHandler_Handle ::
  "harvest_ops \<Rightarrow> (HarvestJobPayload \<Rightarrow> 's \<Rightarrow> ((bool \<times> string) + string) \<times> 's) \<Rightarrow> Job \<Rightarrow> 's \<Rightarrow> handler_end \<times> 's" where
  "JobHandler_Handle H executor job s =
     (case ho_unmarshal H (j_Payload job) of
        None \<Rightarrow> (Returned (Some (True, ''unmarshal'')), s)
      | Some p \<Rightarrow> (case executor p s of (Inl e, s') \<Rightarrow> (Returned (Some e), s') | (Inr _, s') \<Rightarrow> (Returned None, s')))"

end
