(* ===== verification/Harvest_Properties.thy ===== *)
theory Harvest_Properties
  imports Harvest Job_Properties Vault_Properties
begin

text \<open>
  What a harvest evaluation submits and when, that it keeps at most one live job per vault and
  window, and that the preview says what the engine would do.
\<close>

section \<open>Keys\<close>

lemma split_last_colon:
  assumes "CHR '':'' \<notin> set b" and "CHR '':'' \<notin> set d" and "a @ CHR '':'' # b = c @ CHR '':'' # d"
  shows "a = c \<and> b = d"
proof -
  have "rev b @ CHR '':'' # rev a = rev d @ CHR '':'' # rev c" using arg_cong [OF assms(3), of rev] by simp
  moreover have "x = y \<and> p = q" if "CHR '':'' \<notin> set x" "CHR '':'' \<notin> set y" "x @ CHR '':'' # p = y @ CHR '':'' # q" for x y p q :: string
    using that
  proof (induction x arbitrary: y)
    case Nil
    then show ?case by (cases y) auto
  next
    case (Cons a x)
    then show ?case by (cases y) auto
  qed
  ultimately show ?thesis using assms(1,2) by (metis rev_rev_ident set_rev)
qed

lemma format_int_colon: "CHR '':'' \<notin> set (format_int n)"
  using format_int_are digit_neq [of _ "CHR '':''"] by fastforce

text \<open>Two submissions share a key exactly when they are for the same vault in the same second-aligned window.\<close>

lemma idempotencyKey_eq:
  assumes "inj (ho_uuidString H)"
  shows "idempotencyKey H cfg t u = idempotencyKey H cfg t' u' \<longleftrightarrow>
    u = u' \<and> time_Unix (time_truncate t (Config_window cfg)) = time_Unix (time_truncate t' (Config_window cfg))"
proof
  assume "idempotencyKey H cfg t u = idempotencyKey H cfg t' u'"
  then have "ho_uuidString H u = ho_uuidString H u' \<and>
      format_int (time_Unix (time_truncate t (Config_window cfg))) = format_int (time_Unix (time_truncate t' (Config_window cfg)))"
    using format_int_colon by (intro split_last_colon) (simp_all add: idempotencyKey_def)
  then show "u = u' \<and> time_Unix (time_truncate t (Config_window cfg)) = time_Unix (time_truncate t' (Config_window cfg))"
    using assms format_int_inj by (simp add: inj_eq)
qed (simp add: idempotencyKey_def)

lemma key_nonempty: "idempotencyKey H cfg t u \<noteq> []"
  by (simp add: idempotencyKey_def)

section \<open>The gate\<close>

text \<open>A vault passes when it is due and its yield exceeds gas and margin, each taken as at least zero.\<close>

definition harvestable :: "('d, 'z) money_ops_scheme \<Rightarrow> 'd HarvestConfig \<Rightarrow> 'd \<Rightarrow> time \<Rightarrow> 'd VaultYield \<Rightarrow> bool" where
  "harvestable D cfg fee now v \<longleftrightarrow> DueForHarvest now (vy_HarvestFrequency v) (vy_LastHarvestedAt v)
     \<and> max 0 (d_Num D fee) + max 0 (d_Num D (hc_Margin cfg)) < d_Num D (vy_AccruedYield v)"

lemma floorZero_num: "money_laws D \<Longrightarrow> d_Num D (floorZero D x) = max 0 (d_Num D x)"
  by (simp add: floorZero_def money_cmp money_lawsD)

lemma Evaluate_gate:
  assumes "money_laws D"
  shows "gd_Harvest (Evaluate D \<lparr>gi_AccruedYield = y, gi_GasFee = fee, gi_Margin = m\<rparr>) \<longleftrightarrow> max 0 (d_Num D fee) + max 0 (d_Num D m) < d_Num D y"
  using assms by (auto simp: Evaluate_def Let_def money_cmp money_lawsD floorZero_num)

section \<open>Submitting\<close>

definition live_with :: "string \<Rightarrow> string \<Rightarrow> JobRow \<Rightarrow> bool" where
  "live_with ty key r \<longleftrightarrow> live_job r \<and> r_type r = ty \<and> r_idem r = Some key"

lemma insert_job_cases:
  assumes "insert_job jsonb db (new_job newID dbnow now i) = Inr (x, db')" and "in_IdempotencyKey i \<noteq> []"
  shows "\<exists>new. db' = db @ new \<and> length new \<le> 1 \<and> (\<exists>r \<in> set db'. live_with (in_Type i) (in_IdempotencyKey i) r)"
proof (cases "list_ex (idem_clash (new_job newID dbnow now i)) db")
  case True
  then obtain s where "s \<in> set db" "live_with (in_Type i) (in_IdempotencyKey i) s" by (auto simp: list_ex_iff idem_clash_new live_with_def)
  then show ?thesis using assms True by (auto simp: insert_job_def split: if_splits option.splits intro: bexI [of _ s])
next
  case False
  then obtain payload where "db' = db @ [(new_job newID dbnow now i)\<lparr>r_payload := payload\<rparr>]"
    using assms(1) by (auto simp: insert_job_def Let_def split: if_splits option.splits)
  then show ?thesis using assms(2) by (auto simp: live_with_def new_job_def live_job_def nullText_def)
qed

lemma Client_Enqueue_effect:
  assumes "Client_Enqueue jsonb flt newID dbnow now id req db i = (res, db')" and "jobs_inv db" and "in_IdempotencyKey i \<noteq> []"
  shows "jobs_inv db' \<and> (\<exists>new. db' = db @ new \<and> length new \<le> 1)
    \<and> (\<not> isl res \<longrightarrow> (\<exists>r \<in> set db'. live_with (in_Type i) (in_IdempotencyKey i) r))"
proof -
  let ?i = "i\<lparr>in_CorrelationID := if in_CorrelationID i = [] then req else in_CorrelationID i\<rparr>"
  have db: "db' = db \<or> db' = snd (JobRepository_Enqueue jsonb flt newID dbnow now id db ?i)"
    using assms(1) by (auto simp: Client_Enqueue_def Let_def split: if_splits prod.splits sum.splits)
  then have inv: "jobs_inv db'" using job_exec_inv [OF assms(2), of jsonb flt "OpEnqueue newID dbnow now ?i"] assms(2) by auto
  show ?thesis
  proof (cases "db' = db \<and> isl res")
    case True
    then show ?thesis using inv by auto
  next
    case False
    then obtain x where "insert_job jsonb db (new_job newID dbnow now ?i) = Inr (x, db')"
      using assms(1) by (auto simp: Client_Enqueue_def JobRepository_Enqueue_def Let_def split: if_splits prod.splits sum.splits option.splits)
    then show ?thesis using insert_job_cases [of jsonb db newID dbnow now ?i x db'] inv assms(3) by auto
  qed
qed

section \<open>Properties\<close>

text \<open>
  C38: An evaluation that reports a harvest has found the vault due and its yield above gas and
  margin, and leaves exactly one live job of the vault and window; one that reports none found
  otherwise and left the table alone; and no evaluation adds more than one job.
\<close>

theorem harvest_submitted_iff_gated:
  assumes "money_laws D" and "jobs_inv db" and "he_others env = id" and "evaluateAndEnqueue D H cfg gas env v db = (res, db')"
  shows "(\<exists>new. db' = db @ new \<and> length new \<le> 1)
    \<and> (res = Inr True \<longrightarrow> (\<exists>fee. go_HarvestFee gas (vy_Currency v) = Some fee \<and> harvestable D cfg fee (he_due env) v)
         \<and> (\<exists>!r. r \<in> set db' \<and> live_with (Config_jobType cfg) (idempotencyKey H cfg (he_key env) (vy_VaultID v)) r))
    \<and> (res = Inr False \<longrightarrow> db' = db \<and> (\<forall>fee. go_HarvestFee gas (vy_Currency v) = Some fee \<longrightarrow> \<not> harvestable D cfg fee (he_due env) v))"
proof -
  note gate = Evaluate_gate [OF assms(1)]
  consider (no) "res = Inr False" "db' = db" "\<forall>fee. go_HarvestFee gas (vy_Currency v) = Some fee \<longrightarrow> \<not> harvestable D cfg fee (he_due env) v"
    | (nofee) "res = Inl GasOracle" "db' = db"
    | (enq) fee q where "go_HarvestFee gas (vy_Currency v) = Some fee" "harvestable D cfg fee (he_due env) v"
        "Client_Enqueue (he_jsonb env) (he_flt env) (he_newID env) (he_dbnow env) (he_now env) id (he_requestID env) db (harvest_input H cfg (he_key env) v) = (q, db')"
        "res = (case q of Inl e \<Rightarrow> Inl (HarvestEnqueue e) | Inr _ \<Rightarrow> Inr True)"
    using assms(3,4) by (auto simp: evaluateAndEnqueue_def harvestable_def gate split: if_splits option.splits prod.splits sum.splits)
  then show ?thesis
  proof cases
    case enq
    have "in_IdempotencyKey (harvest_input H cfg (he_key env) v) \<noteq> []" by (simp add: harvest_input_def key_nonempty)
    note eff = Client_Enqueue_effect [OF enq(3) assms(2) this]
    have "r = s" if "r \<in> set db'" "s \<in> set db'" "live_with ty k r" "live_with ty k s" for r s ty k
      using eff that by (auto simp: jobs_inv_def idem_clash_def live_with_def)
    then show ?thesis using eff enq by (cases q) (auto simp: harvest_input_def)
  qed auto
qed

text \<open>
  The preview of a vault says that it would be harvested exactly when the network is not
  congested and an evaluation at the same instant goes on to submit.
\<close>

theorem preview_predicts_the_engine:
  assumes "SimulateHarvest D cfg gas (he_due env) flt vaults vid = Inr sim"
  shows "sr_WouldHarvest sim \<longleftrightarrow> go_Congested gas = Some False \<and> fst (TriggerVault D H cfg gas env flt vaults vid db) \<noteq> Inr False"
  using assms by (auto simp: SimulateHarvest_def TriggerVault_def evaluateAndEnqueue_def not_due_def Let_def
      split: sum.splits option.splits prod.splits if_splits)

section \<open>Instances\<close>

definition demo_harvest_ops :: harvest_ops where
  "demo_harvest_ops = \<lparr>ho_uuidString = (\<lambda>_. ''v''), ho_marshal = (\<lambda>_. ''{}''), ho_unmarshal = (\<lambda>_. None)\<rparr>"

definition demo_harvest_config :: "rat HarvestConfig" where
  "demo_harvest_config = \<lparr>hc_Margin = 1, hc_Window = 0, hc_JobType = [], hc_MaxAttempts = 3\<rparr>"

definition demo_eval :: "time \<Rightarrow> uuid \<Rightarrow> eval_env" where
  "demo_eval t i = \<lparr>he_due = t, he_key = t, he_jsonb = demo_json, he_flt = no_fault, he_newID = i, he_dbnow = t, he_now = t, he_others = id, he_requestID = []\<rparr>"

definition demo_yield :: "rat VaultYield" where
  "demo_yield = \<lparr>vy_VaultID = 7, vy_UserID = 8, vy_ContractAddress = ''CA'', vy_Currency = ''USDC'', vy_WalletAddress = [], vy_AccruedYield = 4,
     vy_AccrualRatePerHour = 0, vy_HarvestFrequency = ''daily'', vy_LastHarvestedAt = None\<rparr>"

definition demo_submit :: "time \<Rightarrow> uuid \<Rightarrow> JobDB \<Rightarrow> (rat harvest_error + bool) \<times> JobDB" where
  "demo_submit t i db = evaluateAndEnqueue rat_money demo_harvest_ops demo_harvest_config (StaticGasOracle 2 False) (demo_eval t i) demo_yield db"

definition demo_key :: string where "demo_key = idempotencyKey demo_harvest_ops demo_harvest_config 5 7"

lemma demo_same_window: "idempotencyKey demo_harvest_ops demo_harvest_config 30 7 = demo_key"
  by (simp add: demo_key_def idempotencyKey_def time_truncate_def Config_window_def demo_harvest_config_def duration_defs)

definition demo_harvest_job :: "uuid \<Rightarrow> time \<Rightarrow> JobRow" where
  "demo_harvest_job i t = \<lparr>r_id = i, r_type = ''harvest'', r_payload = ''{}'', r_status = StatusPending, r_priority = 10, r_attempts = 0, r_max_attempts = 3,
     r_idem = Some demo_key, r_corr = None, r_next_run_at = t, r_leased_until = None, r_last_error = None, r_result = None, r_created_at = t, r_updated_at = t\<rparr>"

lemma demo_submits:
  assumes "t = 5 \<or> t = 30" and "i \<notin> r_id ` set db" and "\<forall>r \<in> set db. \<not> live_job r"
  shows "demo_submit t i db = (Inr True, db @ [demo_harvest_job i t])"
proof -
  have gate: "gd_Harvest (Evaluate rat_money \<lparr>gi_AccruedYield = 4, gi_GasFee = 2, gi_Margin = 1\<rparr>)"
    by (simp add: Evaluate_gate [OF rat_money_laws]) (simp add: rat_money_def)
  have "idempotencyKey demo_harvest_ops demo_harvest_config t 7 = demo_key" using assms(1) demo_same_window by (auto simp: demo_key_def)
  then have input: "harvest_input demo_harvest_ops demo_harvest_config t demo_yield = \<lparr>in_Type = ''harvest'', in_Payload = ''{}'', in_Priority = 10, in_MaxAttempts = 3,
      in_IdempotencyKey = demo_key, in_CorrelationID = [], in_RunAt = 0\<rparr>"
    by (simp add: harvest_input_def demo_yield_def demo_harvest_ops_def demo_harvest_config_def Config_jobType_def DefaultJobType_def PriorityBalance_def)
  have "\<not> list_ex (idem_clash r) db" for r using assms(3) by (auto simp: list_ex_iff idem_clash_def)
  then have "insert_job demo_json db (demo_harvest_job i t) = Inr (Some (demo_harvest_job i t), db @ [demo_harvest_job i t])"
    using assms(2) by (simp add: insert_job_def demo_harvest_job_def demo_json_def int4_def Let_def)
  moreover have "new_job i t t \<lparr>in_Type = ''harvest'', in_Payload = ''{}'', in_Priority = 10, in_MaxAttempts = 3,
      in_IdempotencyKey = demo_key, in_CorrelationID = [], in_RunAt = 0\<rparr> = demo_harvest_job i t"
    by (simp add: new_job_def demo_harvest_job_def time_is_zero_def nullText_def demo_key_def key_nonempty)
  ultimately show ?thesis
    using gate input by (simp add: demo_submit_def evaluateAndEnqueue_def DueForHarvest_def demo_eval_def StaticGasOracle_def Client_Enqueue_def
        JobRepository_Enqueue_def demo_yield_def demo_harvest_config_def Let_def)
qed

lemma demo_submit_result: "fst (demo_submit 5 1 []) = Inr True"
  by (simp add: demo_submits)

theorem harvest_submitted_iff_gated_witness:
  "\<exists>!r. r \<in> set (snd (demo_submit 5 1 [])) \<and> live_with ''harvest'' (idempotencyKey demo_harvest_ops demo_harvest_config 5 7) r"
proof -
  have "evaluateAndEnqueue rat_money demo_harvest_ops demo_harvest_config (StaticGasOracle 2 False) (demo_eval 5 1) demo_yield [] = (Inr True, snd (demo_submit 5 1 []))"
    using demo_submit_result by (simp add: demo_submit_def prod_eq_iff)
  from harvest_submitted_iff_gated [OF rat_money_laws _ _ this] show ?thesis
    by (simp add: jobs_inv_def demo_eval_def demo_yield_def Config_jobType_def demo_harvest_config_def DefaultJobType_def)
qed

definition demo_preview :: "rat harvest_error + rat SimulationResult" where
  "demo_preview = SimulateHarvest rat_money demo_harvest_config (StaticGasOracle 2 False) 5 no_fault demo_created 7"

lemma demo_preview_result: "\<not> isl demo_preview"
  by code_simp

theorem preview_predicts_the_engine_witness:
  "sr_WouldHarvest (projr demo_preview) \<longleftrightarrow>
     fst (TriggerVault rat_money demo_harvest_ops demo_harvest_config (StaticGasOracle 2 False) (demo_eval 5 1) no_fault demo_created 7 []) \<noteq> Inr False"
proof -
  have sim: "SimulateHarvest rat_money demo_harvest_config (StaticGasOracle 2 False) (he_due (demo_eval 5 1)) no_fault demo_created 7 = Inr (projr demo_preview)"
    using demo_preview_result by (simp add: demo_preview_def demo_eval_def)
  show ?thesis using preview_predicts_the_engine [OF sim, of demo_harvest_ops "[]"] by (simp add: StaticGasOracle_def)
qed

section \<open>Findings\<close>

text \<open>
  The unique index that collapses submissions covers live jobs only. Once the job of a window
  has ended, an evaluation in the same window submits a second one under the same key.
\<close>

definition demo_finished :: JobDB where
  "demo_finished = job_exec demo_json no_fault (OpComplete 20 1 [])
     (job_exec demo_json no_fault (OpDequeue (\<lambda>_. False) 10 \<lparr>dq_Type = ''harvest'', dq_Limit = 1, dq_Lease = 30, dq_Now = 10\<rparr>) (snd (demo_submit 5 1 [])))"

lemma demo_finished_row: "demo_finished = [(demo_harvest_job 1 5)\<lparr>r_status := StatusSucceeded, r_attempts := 1, r_updated_at := 20\<rparr>]"
  by (simp add: demo_finished_def demo_submits demo_harvest_job_def JobRepository_Dequeue_def JobRepository_Complete_def ready_def dequeue_order_def runnable_def
      update_where_def lease_row_def running_id_def int4_def Let_def)

theorem window_submits_again:
  "map (\<lambda>r. (r_id r, r_status r, r_idem r)) (snd (demo_submit 30 2 demo_finished))
     = [(1, StatusSucceeded, Some (idempotencyKey demo_harvest_ops demo_harvest_config 5 7)), (2, StatusPending, Some (idempotencyKey demo_harvest_ops demo_harvest_config 30 7))]
   \<and> idempotencyKey demo_harvest_ops demo_harvest_config 5 7 = idempotencyKey demo_harvest_ops demo_harvest_config 30 7"
  using demo_submits [of 30 2 demo_finished] demo_same_window
  by (simp add: demo_finished_row live_job_def demo_key_def [symmetric]) (simp add: demo_harvest_job_def)

text \<open>
  A vault whose owner has no wallet is to be dead-lettered at once; the error is not marked
  permanent, and the job goes back to the queue while it has attempts left.
\<close>

theorem missing_wallet_is_retried:
  assumes "hp_WalletAddress p = []" and "lookup (hp_UserID p) = Inr None" and "ho_unmarshal H (j_Payload job) = Some p" and "j_Attempts job < j_MaxAttempts job"
  shows "fst (process jsonb no_fault dbnow now jitter cfg job (fst (JobHandler_Handle H (ServiceExecutor_Harvest H lookup harvest) job s)) db) = Retried"
  using assms by (simp add: JobHandler_Handle_def ServiceExecutor_Harvest_def process_def runHandler_def JobRepository_Retry_def Let_def)

end
