(* ===== verification/Retry.thy ===== *)
theory Retry
  imports Nester_Prelude Float64
begin

text \<open>
  The bounded retry loop of \<open>retry/retry.go\<close> and the one entry point to the chain's RPC that
  uses it, \<open>stellar/rpcclient.go\<close>. What an attempt meets, the jitter drawn, and when the
  context is done are arguments; spans and the encoding of requests are not modelled.
\<close>

section \<open>Policies\<close>

definition DefaultMaxAttempts :: int where "DefaultMaxAttempts = 3"
definition DefaultBaseDelay :: duration where "DefaultBaseDelay = 100 * millisecond"
definition DefaultMaxDelay :: duration where "DefaultMaxDelay = 2 * second"
definition DefaultBudget :: duration where "DefaultBudget = 12 * second"

record Policy =
  po_MaxAttempts :: int
  po_BaseDelay :: duration
  po_MaxDelay :: duration
  po_Budget :: duration

definition Policy_withDefaults :: "Policy \<Rightarrow> Policy" where
  "Policy_withDefaults p =
     \<lparr>po_MaxAttempts = (if po_MaxAttempts p \<le> 0 then DefaultMaxAttempts else po_MaxAttempts p),
      po_BaseDelay = (if po_BaseDelay p \<le> 0 then DefaultBaseDelay else po_BaseDelay p),
      po_MaxDelay = (if po_MaxDelay p \<le> 0 then DefaultMaxDelay else po_MaxDelay p),
      po_Budget = (if po_Budget p \<le> 0 then DefaultBudget else po_Budget p)\<rparr>"

datatype policy_error = BadMaxAttempts | BadBaseDelay | BadMaxDelay | BadBudget

definition Policy_Validate :: "Policy \<Rightarrow> policy_error option" where
  "Policy_Validate p =
     (if po_MaxAttempts p < 1 then Some BadMaxAttempts
      else if po_BaseDelay p \<le> 0 then Some BadBaseDelay
      else if po_MaxDelay p < po_BaseDelay p then Some BadMaxDelay
      else if po_Budget p \<le> 0 then Some BadBudget
      else None)"

text \<open>
  The product with a power of two is exact in \<open>float64\<close>; a product below the maximum delay is
  an integer and converts back exactly.
\<close>

definition backoffCap :: "Policy \<Rightarrow> int \<Rightarrow> duration" where
  "backoffCap policy attempt =
     (let attempt = (if attempt < 1 then 1 else attempt); shift = attempt - 1 in
      if 62 < shift then po_MaxDelay policy
      else (let scaled = float64_of_int (po_BaseDelay policy) * 2 ^ nat shift in
        if float64_of_int (po_MaxDelay policy) \<le> scaled then po_MaxDelay policy else scaled))"

text \<open>\<open>r\<close> is the random number drawn.\<close>

definition fullJitter :: "int \<Rightarrow> duration \<Rightarrow> duration" where
  "fullJitter r cap = (if cap \<le> 0 then 0 else r mod cap)"

section \<open>The loop\<close>

datatype 'e retry_error =
    Declined 'e
  | Exhausted int duration "'e option"

record Result =
  rt_Attempts :: int
  rt_Elapsed :: duration

text \<open>
  \<open>ry_ctxErr n\<close> is the context's error before attempt \<open>n\<close>, \<open>ry_sleep n d\<close> what waiting \<open>d\<close> after it
  returned; the budget is a deadline of that context.
\<close>

record 'e retry_env =
  ry_ctxErr :: "int \<Rightarrow> 'e option"
  ry_random :: "int \<Rightarrow> int"
  ry_sleep :: "int \<Rightarrow> duration \<Rightarrow> 'e option"
  ry_startedAt :: time
  ry_endedAt :: time

definition Runner_since :: "'e retry_env \<Rightarrow> duration" where
  "Runner_since env = (let elapsed = time_sub (ry_endedAt env) (ry_startedAt env) in if elapsed < 0 then 0 else elapsed)"

definition Runner_result :: "'e retry_env \<Rightarrow> int \<Rightarrow> Result" where
  "Runner_result env attempts = \<lparr>rt_Attempts = attempts, rt_Elapsed = Runner_since env\<rparr>"

definition Runner_exhausted :: "'e retry_env \<Rightarrow> int \<Rightarrow> 'e option \<Rightarrow> 'e option \<Rightarrow> Result \<times> 'e retry_error option" where
  "Runner_exhausted env attempts lastErr ctxErr =
     (Runner_result env attempts, Some (Exhausted attempts (Runner_since env) (case lastErr of None \<Rightarrow> ctxErr | Some e \<Rightarrow> Some e)))"

function retry_loop ::
  "'e retry_env \<Rightarrow> Policy \<Rightarrow> ('e \<Rightarrow> bool) option \<Rightarrow> (int \<Rightarrow> 's \<Rightarrow> 'e option \<times> 's) \<Rightarrow> int \<Rightarrow> 'e option \<Rightarrow> 's
   \<Rightarrow> (Result \<times> 'e retry_error option) \<times> 's" where
  "retry_loop env policy retryable fn attempt lastErr s =
     (if po_MaxAttempts policy < attempt then (Runner_exhausted env (po_MaxAttempts policy) lastErr None, s)
      else (case ry_ctxErr env attempt of
          Some err \<Rightarrow> (Runner_exhausted env (attempt - 1) lastErr (Some err), s)
        | None \<Rightarrow>
          (case fn attempt s of
             (None, s') \<Rightarrow> ((Runner_result env attempt, None), s')
           | (Some err, s') \<Rightarrow>
               if (case retryable of None \<Rightarrow> True | Some f \<Rightarrow> \<not> f err) then ((Runner_result env attempt, Some (Declined err)), s')
               else if attempt = po_MaxAttempts policy then (Runner_exhausted env (po_MaxAttempts policy) (Some err) None, s')
               else (case ry_sleep env attempt (fullJitter (ry_random env attempt) (backoffCap policy attempt)) of
                   Some sleepErr \<Rightarrow> (Runner_exhausted env attempt (Some err) (Some sleepErr), s')
                 | None \<Rightarrow> retry_loop env policy retryable fn (attempt + 1) (Some err) s'))))"
  by pat_completeness auto
termination
  by (relation "measure (\<lambda>(env, policy, retryable, fn, attempt, lastErr, s). nat (po_MaxAttempts policy + 1 - attempt))") auto

declare retry_loop.simps [simp del]

definition Runner_Do ::
  "'e retry_env \<Rightarrow> Policy \<Rightarrow> ('e \<Rightarrow> bool) option \<Rightarrow> (int \<Rightarrow> 's \<Rightarrow> 'e option \<times> 's) \<Rightarrow> 's \<Rightarrow> (Result \<times> 'e retry_error option) \<times> 's" where
  "Runner_Do env policy retryable fn s = retry_loop env (Policy_withDefaults policy) retryable fn 1 None s"

section \<open>The RPC client\<close>

definition idempotentRPCMethods :: "(string \<times> bool) list" where
  "idempotentRPCMethods =
     [(''getEvents'', True), (''getHealth'', True), (''getLatestLedger'', True), (''getLedgerEntries'', True), (''getNetwork'', True),
      (''getTransaction'', True), (''simulateTransaction'', True), (''sendTransaction'', False)]"

definition isIdempotentRPCMethod :: "string \<Rightarrow> bool" where
  "isIdempotentRPCMethod meth = (case map_of idempotentRPCMethods meth of None \<Rightarrow> False | Some b \<Rightarrow> b)"

text \<open>
  What an attempt's error is or wraps. \<open>JsonType\<close> is the error of a body that is valid JSON of
  the wrong shape, \<open>TransportErr\<close> every other failure below the HTTP client.
\<close>

datatype rpc_error =
    BreakerOpen
  | CtxCanceled
  | RpcStatus string int string
  | UnexpectedEOF
  | EOF
  | DeadlineExceeded
  | JsonSyntax
  | JsonType
  | TransportErr string

definition retryableRPCError :: "rpc_error \<Rightarrow> bool" where
  "retryableRPCError err =
     (case err of
        BreakerOpen \<Rightarrow> False
      | CtxCanceled \<Rightarrow> False
      | RpcStatus _ code _ \<Rightarrow> 500 \<le> code \<or> code = 429
      | UnexpectedEOF \<Rightarrow> True
      | EOF \<Rightarrow> True
      | DeadlineExceeded \<Rightarrow> True
      | JsonSyntax \<Rightarrow> False
      | JsonType \<Rightarrow> True
      | TransportErr _ \<Rightarrow> True)"

text \<open>What \<open>client.Do\<close> returned for a request.\<close>

datatype http_result =
    DoFailed rpc_error
  | HttpResponse int string "rpc_error option"

text \<open>
  One attempt sends one request, which is recorded in the log. A response has a status, a body,
  and what decoding that body into the caller's result returns.
\<close>

definition rpc_attempt :: "(int \<Rightarrow> http_result) \<Rightarrow> string \<Rightarrow> string \<Rightarrow> int \<Rightarrow> (string \<times> string) list \<Rightarrow> rpc_error option \<times> (string \<times> string) list" where
  "rpc_attempt http meth body n sent =
     ((case http n of
         DoFailed err \<Rightarrow> Some err
       | HttpResponse code payload decodeErr \<Rightarrow>
           if code < 200 \<or> 299 < code then Some (RpcStatus meth code (take 1024 payload)) else decodeErr),
      sent @ [(meth, body)])"

definition rpc_call ::
  "rpc_error retry_env \<Rightarrow> Policy \<Rightarrow> (int \<Rightarrow> http_result) \<Rightarrow> string \<Rightarrow> string \<Rightarrow> (string \<times> string) list
   \<Rightarrow> (Result \<times> rpc_error retry_error option) \<times> (string \<times> string) list" where
  "rpc_call env policy http meth body sent =
     Runner_Do env policy (if isIdempotentRPCMethod meth then Some retryableRPCError else None) (rpc_attempt http meth body) sent"

section \<open>What an attempt settles\<close>

definition answer :: "(int \<Rightarrow> http_result) \<Rightarrow> string \<Rightarrow> int \<Rightarrow> rpc_error option" where
  "answer http meth n = fst (rpc_attempt http meth [] n [])"

definition settles :: "(int \<Rightarrow> http_result) \<Rightarrow> string \<Rightarrow> int \<Rightarrow> bool" where
  "settles http meth n \<longleftrightarrow> (case answer http meth n of None \<Rightarrow> True | Some e \<Rightarrow> \<not> (isIdempotentRPCMethod meth \<and> retryableRPCError e))"

lemma rpc_attempt_answer: "rpc_attempt http meth body n sent = (answer http meth n, sent @ [(meth, body)])"
  by (simp add: answer_def rpc_attempt_def)

text \<open>Every request the loop sends is the same one, and their number is the number of attempts reported.\<close>

lemma retry_loop_sends:
  assumes "retry_loop env policy retryable (rpc_attempt http meth body) attempt lastErr sent = ((res, err), sent')"
    and "attempt \<le> po_MaxAttempts policy + 1" and "1 \<le> attempt"
  shows "sent' = sent @ replicate (nat (rt_Attempts res - (attempt - 1))) (meth, body) \<and> attempt - 1 \<le> rt_Attempts res \<and> rt_Attempts res \<le> po_MaxAttempts policy"
  using assms
proof (induction "nat (po_MaxAttempts policy + 1 - attempt)" arbitrary: attempt lastErr sent rule: less_induct)
  case less
  show ?case
  proof (cases "po_MaxAttempts policy < attempt \<or> ry_ctxErr env attempt \<noteq> None")
    case True
    then show ?thesis using less.prems
      by (subst (asm) retry_loop.simps) (auto simp: Runner_exhausted_def Runner_result_def split: if_splits option.splits)
  next
    case False
    let ?sent = "sent @ [(meth, body)]"
    have step: "retry_loop env policy retryable (rpc_attempt http meth body) attempt lastErr sent =
        (case answer http meth attempt of
           None \<Rightarrow> ((Runner_result env attempt, None), ?sent)
         | Some e \<Rightarrow>
             if (case retryable of None \<Rightarrow> True | Some f \<Rightarrow> \<not> f e) then ((Runner_result env attempt, Some (Declined e)), ?sent)
             else if attempt = po_MaxAttempts policy then (Runner_exhausted env (po_MaxAttempts policy) (Some e) None, ?sent)
             else (case ry_sleep env attempt (fullJitter (ry_random env attempt) (backoffCap policy attempt)) of
                 Some sleepErr \<Rightarrow> (Runner_exhausted env attempt (Some e) (Some sleepErr), ?sent)
               | None \<Rightarrow> retry_loop env policy retryable (rpc_attempt http meth body) (attempt + 1) (Some e) ?sent))"
      using False by (subst retry_loop.simps) (simp add: rpc_attempt_answer split: option.splits)
    show ?thesis
    proof (cases "attempt \<noteq> po_MaxAttempts policy
        \<and> (\<exists>e. retry_loop env policy retryable (rpc_attempt http meth body) (attempt + 1) (Some e) ?sent = ((res, err), sent'))")
      case True
      then obtain e where e: "retry_loop env policy retryable (rpc_attempt http meth body) (attempt + 1) (Some e) ?sent = ((res, err), sent')"
          "attempt < po_MaxAttempts policy"
        using False by auto
      have "sent' = ?sent @ replicate (nat (rt_Attempts res - attempt)) (meth, body) \<and> attempt \<le> rt_Attempts res \<and> rt_Attempts res \<le> po_MaxAttempts policy"
        using less.hyps [OF _ e(1)] e(2) less.prems(3) by auto
      moreover from this have "nat (rt_Attempts res - (attempt - 1)) = Suc (nat (rt_Attempts res - attempt))" by auto
      ultimately show ?thesis by simp
    next
      case stop: False
      have "(Runner_result env attempt, None) = (res, err) \<and> sent' = ?sent \<or> (\<exists>e. (Runner_result env attempt, Some e) = (res, err) \<and> sent' = ?sent)"
        using less.prems(1) stop unfolding step by (auto simp: Runner_exhausted_def split: if_splits option.splits)
      then have "rt_Attempts res = attempt \<and> sent' = ?sent" by (auto simp: Runner_result_def)
      then show ?thesis using False by simp
    qed
  qed
qed

text \<open>With nothing interrupting it, the loop ends at the first attempt that settles the call, or after the last.\<close>

lemma retry_loop_first:
  assumes "\<forall>n. ry_ctxErr env n = None" and "\<forall>n d. ry_sleep env n d = None" and "attempt \<le> k" and "k \<le> po_MaxAttempts policy"
    and "\<forall>n. attempt \<le> n \<and> n < k \<longrightarrow> \<not> settles http meth n" and "settles http meth k"
  shows "fst (retry_loop env policy (if isIdempotentRPCMethod meth then Some retryableRPCError else None) (rpc_attempt http meth body) attempt lastErr sent)
    = (Runner_result env k, map_option Declined (answer http meth k))"
  using assms(3,5)
proof (induction "nat (k - attempt)" arbitrary: attempt lastErr sent rule: less_induct)
  case less
  show ?case
  proof (cases "attempt = k")
    case True
    then show ?thesis using assms(1,4,6)
      by (subst retry_loop.simps) (auto simp: rpc_attempt_answer settles_def split: option.splits)
  next
    case False
    then have "\<not> settles http meth attempt" using less.prems by auto
    then obtain e where e: "answer http meth attempt = Some e" "isIdempotentRPCMethod meth" "retryableRPCError e"
      by (auto simp: settles_def split: option.splits)
    then show ?thesis using less False assms(1,2,4)
      by (subst retry_loop.simps) (auto simp: rpc_attempt_answer)
  qed
qed

lemma retry_loop_none:
  assumes "\<forall>n. ry_ctxErr env n = None" and "\<forall>n d. ry_sleep env n d = None" and "1 \<le> attempt" and "attempt \<le> po_MaxAttempts policy"
    and "\<forall>n. attempt \<le> n \<and> n \<le> po_MaxAttempts policy \<longrightarrow> \<not> settles http meth n"
  shows "fst (retry_loop env policy (if isIdempotentRPCMethod meth then Some retryableRPCError else None) (rpc_attempt http meth body) attempt lastErr sent)
    = Runner_exhausted env (po_MaxAttempts policy) (answer http meth (po_MaxAttempts policy)) None"
  using assms(3-5)
proof (induction "nat (po_MaxAttempts policy - attempt)" arbitrary: attempt lastErr sent rule: less_induct)
  case less
  have "\<not> settles http meth attempt" using less.prems by auto
  then obtain e where e: "answer http meth attempt = Some e" "isIdempotentRPCMethod meth" "retryableRPCError e"
    by (auto simp: settles_def split: option.splits)
  show ?case
  proof (cases "attempt = po_MaxAttempts policy")
    case True
    then show ?thesis using e assms(1) by (subst retry_loop.simps) (simp add: rpc_attempt_answer)
  next
    case False
    then show ?thesis using less e assms(1,2) by (subst retry_loop.simps) (auto simp: rpc_attempt_answer)
  qed
qed

end
