(* ===== verification/Retry_Properties.thy ===== *)
theory Retry_Properties
  imports Retry
begin

text \<open>
  What the retry loop promises its callers: how often a request goes out, which attempt decides
  the call, and how long it waits in between.
\<close>

section \<open>Requests sent\<close>

lemma retry_loop_single:
  "retry_loop env policy None fn attempt lastErr s = ((res, err), s') \<Longrightarrow> rt_Attempts res \<le> max attempt 0 \<or> po_MaxAttempts policy < attempt"
  by (subst (asm) retry_loop.simps) (auto simp: Runner_exhausted_def Runner_result_def split: if_splits option.splits prod.splits)

lemma withDefaults_MaxAttempts: "1 \<le> po_MaxAttempts (Policy_withDefaults policy)"
  by (simp add: Policy_withDefaults_def DefaultMaxAttempts_def)

text \<open>
  C39: One logical call sends the same request once per attempt it reports, never more often than
  the policy's maximum, and a method that is not on the list of idempotent ones, such as
  \<open>sendTransaction\<close> or one the list does not know, is sent at most once whatever comes back.
\<close>

theorem write_sent_at_most_once:
  assumes "rpc_call env policy http meth body sent = ((res, err), sent')"
  shows "sent' = sent @ replicate (nat (rt_Attempts res)) (meth, body)
    \<and> 0 \<le> rt_Attempts res \<and> rt_Attempts res \<le> po_MaxAttempts (Policy_withDefaults policy)
    \<and> (meth \<notin> {''getEvents'', ''getHealth'', ''getLatestLedger'', ''getLedgerEntries'', ''getNetwork'', ''getTransaction'', ''simulateTransaction''}
       \<longrightarrow> rt_Attempts res \<le> 1)"
proof -
  let ?policy = "Policy_withDefaults policy"
  let ?retryable = "if isIdempotentRPCMethod meth then Some retryableRPCError else None"
  have run: "retry_loop env ?policy ?retryable (rpc_attempt http meth body) 1 None sent = ((res, err), sent')"
    using assms by (simp only: rpc_call_def Runner_Do_def)
  have gate: "isIdempotentRPCMethod meth \<longleftrightarrow>
      meth \<in> {''getEvents'', ''getHealth'', ''getLatestLedger'', ''getLedgerEntries'', ''getNetwork'', ''getTransaction'', ''simulateTransaction''}"
    by (simp add: isIdempotentRPCMethod_def idempotentRPCMethods_def)
  have "rt_Attempts res \<le> 1" if "\<not> isIdempotentRPCMethod meth"
    using run that retry_loop_single [of env ?policy "rpc_attempt http meth body" 1 None sent res err sent'] withDefaults_MaxAttempts [of policy]
    by auto
  then show ?thesis
    using retry_loop_sends [OF run] withDefaults_MaxAttempts [of policy] unfolding gate by auto
qed

section \<open>The attempt that decides\<close>

text \<open>
  C40: With the context alive and no wait cut short, a call ends at its first attempt that
  succeeds or fails in a way not worth repeating, with that attempt's outcome and not the
  exhaustion error; if none of the allowed attempts does, it ends exhausted after the last of
  them, carrying that attempt's error.
\<close>

theorem call_ends_at_first_settling_attempt:
  assumes "\<forall>n. ry_ctxErr env n = None" and "\<forall>n d. ry_sleep env n d = None"
  shows "fst (rpc_call env policy http meth body sent) =
    (case List.find (settles http meth) [1..po_MaxAttempts (Policy_withDefaults policy)] of
       Some k \<Rightarrow> (Runner_result env k, map_option Declined (answer http meth k))
     | None \<Rightarrow> (let m = po_MaxAttempts (Policy_withDefaults policy) in
         (Runner_result env m, Some (Exhausted m (Runner_since env) (answer http meth m)))))"
proof (cases "List.find (settles http meth) [1..po_MaxAttempts (Policy_withDefaults policy)]")
  case None
  then have "\<forall>n. 1 \<le> n \<and> n \<le> po_MaxAttempts (Policy_withDefaults policy) \<longrightarrow> \<not> settles http meth n"
    by (auto simp: find_None_iff)
  then show ?thesis
    using None assms withDefaults_MaxAttempts [of policy]
    by (auto simp: rpc_call_def Runner_Do_def retry_loop_none Runner_exhausted_def Let_def split: option.splits)
next
  case (Some k)
  then obtain i where i: "i < length [1..po_MaxAttempts (Policy_withDefaults policy)]" "settles http meth k" "k = 1 + int i"
      "\<forall>j < i. \<not> settles http meth (1 + int j)"
    by (auto simp: find_Some_iff)
  have "\<not> settles http meth n" if "1 \<le> n" "n < k" for n
    using i(4) [rule_format, of "nat (n - 1)"] i(3) that by auto
  then show ?thesis
    using retry_loop_first [OF assms, of 1 k "Policy_withDefaults policy" http meth body None sent] i Some
    by (simp add: rpc_call_def Runner_Do_def del: retry_loop.simps)
qed

section \<open>Waiting\<close>

lemma fullJitter_below: "0 < c \<Longrightarrow> 0 \<le> fullJitter r c \<and> fullJitter r c < c"
  by (simp add: fullJitter_def)

lemma shifted_past:
  fixes b m :: int
  assumes "0 < b" and "m < 2 ^ 53" and "62 < s"
  shows "m \<le> b * 2 ^ nat s"
proof -
  have "(2::int) ^ 53 \<le> 2 ^ nat s" using assms(3) by (intro power_increasing) auto
  moreover have "(2::int) ^ nat s \<le> b * 2 ^ nat s" using assms(1) by simp
  ultimately show ?thesis using assms(2) by linarith
qed

text \<open>
  Under a policy that passes its validation, with delays below \<open>2 ^ 53\<close> nanoseconds, the wait
  after attempt \<open>n\<close> is drawn from below the base delay doubled \<open>n - 1\<close> times, capped at the
  maximum delay: the shift never wraps to a zero wait however many attempts there are.
\<close>

theorem backoff_doubles_to_the_cap:
  assumes "Policy_Validate policy = None" and "po_MaxDelay policy < 2 ^ 53" and "1 \<le> n"
  shows "backoffCap policy n = min (po_MaxDelay policy) (po_BaseDelay policy * 2 ^ nat (n - 1))
    \<and> 0 < backoffCap policy n
    \<and> 0 \<le> fullJitter r (backoffCap policy n) \<and> fullJitter r (backoffCap policy n) < backoffCap policy n"
proof -
  have pos: "0 < po_BaseDelay policy" "po_BaseDelay policy \<le> po_MaxDelay policy"
    using assms(1) by (auto simp: Policy_Validate_def split: if_splits)
  then have exact: "float64_of_int (po_BaseDelay policy) = po_BaseDelay policy" "float64_of_int (po_MaxDelay policy) = po_MaxDelay policy"
    using assms(2) by (simp_all add: float64_of_int_exact)
  have "backoffCap policy n = min (po_MaxDelay policy) (po_BaseDelay policy * 2 ^ nat (n - 1))"
    using assms(3) exact shifted_past [OF pos(1) assms(2), of "n - 1"] by (simp add: backoffCap_def Let_def)
  moreover from this have "0 < backoffCap policy n" using pos by simp
  ultimately show ?thesis using fullJitter_below by blast
qed

section \<open>Examples\<close>

text \<open>A read that meets a 503 and then an answer, and a submission that meets the same.\<close>

definition demo_rpc_env :: "rpc_error retry_env" where
  "demo_rpc_env = \<lparr>ry_ctxErr = (\<lambda>_. None), ry_random = (\<lambda>n. 7 * n), ry_sleep = (\<lambda>_ _. None), ry_startedAt = 0, ry_endedAt = 500\<rparr>"

definition demo_policy :: Policy where
  "demo_policy = \<lparr>po_MaxAttempts = 3, po_BaseDelay = 100, po_MaxDelay = 250, po_Budget = 9000\<rparr>"

definition demo_http :: "int \<Rightarrow> http_result" where
  "demo_http n = (if n = 1 then HttpResponse 503 ''down'' None else HttpResponse 200 ''{}'' None)"

lemma demo_call_read:
  "rpc_call demo_rpc_env demo_policy demo_http ''getHealth'' ''b'' [] = ((\<lparr>rt_Attempts = 2, rt_Elapsed = 500\<rparr>, None), [(''getHealth'', ''b''), (''getHealth'', ''b'')])"
  by code_simp

lemma demo_call_write:
  "rpc_call demo_rpc_env demo_policy demo_http ''sendTransaction'' ''b'' [] =
    ((\<lparr>rt_Attempts = 1, rt_Elapsed = 500\<rparr>, Some (Declined (RpcStatus ''sendTransaction'' 503 ''down''))), [(''sendTransaction'', ''b'')])"
  by code_simp

theorem write_sent_at_most_once_witness:
  "rpc_call demo_rpc_env demo_policy demo_http ''sendTransaction'' ''b'' [] =
     ((\<lparr>rt_Attempts = 1, rt_Elapsed = 500\<rparr>, Some (Declined (RpcStatus ''sendTransaction'' 503 ''down''))), [(''sendTransaction'', ''b'')])
   \<and> rt_Attempts \<lparr>rt_Attempts = 1, rt_Elapsed = 500\<rparr> \<le> 1
   \<and> rt_Attempts \<lparr>rt_Attempts = 2, rt_Elapsed = 500\<rparr> \<le> po_MaxAttempts (Policy_withDefaults demo_policy)"
  using write_sent_at_most_once [OF demo_call_write] write_sent_at_most_once [OF demo_call_read] demo_call_write by simp

theorem call_ends_at_first_settling_attempt_witness:
  "fst (rpc_call demo_rpc_env demo_policy demo_http ''getHealth'' ''b'' []) = (Runner_result demo_rpc_env 2, None)
   \<and> fst (rpc_call demo_rpc_env demo_policy (\<lambda>_. DoFailed EOF) ''getHealth'' ''b'' [])
     = (Runner_result demo_rpc_env 3, Some (Exhausted 3 (Runner_since demo_rpc_env) (Some EOF)))"
proof -
  have env: "\<forall>n. ry_ctxErr demo_rpc_env n = None" "\<forall>n d. ry_sleep demo_rpc_env n d = None"
    by (simp_all add: demo_rpc_env_def)
  have some: "List.find (settles demo_http ''getHealth'') [1..po_MaxAttempts (Policy_withDefaults demo_policy)] = Some 2"
    and none: "List.find (settles (\<lambda>_. DoFailed EOF) ''getHealth'') [1..po_MaxAttempts (Policy_withDefaults demo_policy)] = None"
    and ans: "answer demo_http ''getHealth'' 2 = None" "answer (\<lambda>_. DoFailed EOF) ''getHealth'' 3 = Some EOF"
    and mx: "po_MaxAttempts (Policy_withDefaults demo_policy) = 3"
    by code_simp+
  show ?thesis
    using call_ends_at_first_settling_attempt [OF env, of demo_policy demo_http "''getHealth''" "''b''" "[]"]
      call_ends_at_first_settling_attempt [OF env, of demo_policy "\<lambda>_. DoFailed EOF" "''getHealth''" "''b''" "[]"]
    unfolding some none by (simp add: ans mx Let_def)
qed

theorem backoff_doubles_to_the_cap_witness:
  "Policy_Validate demo_policy = None \<and> po_MaxDelay demo_policy < 2 ^ 53 \<and> (1::int) \<le> 2
   \<and> backoffCap demo_policy 2 = 200 \<and> fullJitter 7 (backoffCap demo_policy 2) < 200"
proof -
  have "Policy_Validate demo_policy = None" "po_MaxDelay demo_policy < 2 ^ 53"
    by (simp_all add: Policy_Validate_def demo_policy_def)
  then show ?thesis
    using backoff_doubles_to_the_cap [of demo_policy 2 7] by (auto simp: demo_policy_def)
qed

section \<open>Findings\<close>

text \<open>
  A 2xx body that is valid JSON of the wrong shape fails to decode with a type error, which the
  classifier takes for a transport failure: the same read is repeated to the last attempt.
\<close>

theorem wrong_shape_is_retried:
  "rpc_call demo_rpc_env demo_policy (\<lambda>_. HttpResponse 200 ''[]'' (Some JsonType)) ''getHealth'' ''b'' [] =
    ((\<lparr>rt_Attempts = 3, rt_Elapsed = 500\<rparr>, Some (Exhausted 3 500 (Some JsonType))),
     [(''getHealth'', ''b''), (''getHealth'', ''b''), (''getHealth'', ''b'')])"
  by code_simp

end
