(* ===== verification/Spec2Isabelle.thy ===== *)
theory Spec2Isabelle
  imports Ledger_Properties Breaker_Properties Breaker_Transport Job_Properties Outbox_Properties Submission_Properties Signing_Properties Vault_Properties Backfill_Properties Idempotency_Properties Audit_Log_Properties Reconciliation_Examples Harvest_Properties Retry_Properties
begin

text \<open>
  A verification library for the Go service of Nester, a savings platform on Stellar
  (\<open>apps/api\<close>). The service keeps money in three places that must agree: a double-entry
  ledger in Postgres, the vault rows with their audit trail, and the chain. Work that
  leaves the process goes through durable queues and through a signing boundary. This
  library models the parts that decide whether money is counted once, work is done, and
  nothing is signed that should not be. All paths below are relative to
  \<open>src/apps/api/internal\<close>.

  \<^bold>\<open>Conventions.\<close> \<open>Nester_Prelude\<close> fixes them. Go's \<open>int64\<close> and \<open>int\<close> are \<^typ>\<open>int\<close> with every
  operation that may leave the range wrapped by \<^const>\<open>wrap64\<close>. An instant is an \<^typ>\<open>int\<close> in
  nanoseconds, 0 for the zero time; Postgres keeps microseconds, which no statement here
  depends on except where it is said. A uuid is a 128-bit word. A table is a list of rows in
  insertion order; a statement is a function on it that applies the checks, unique indexes
  and foreign keys of the migrations in the order the server does and answers with the
  SQLSTATE of the one that fails. A lost connection is an argument that says which statement
  fails; a commit has three outcomes, done, not done, and done without an answer. Clock
  readings, fresh uuids and rows locked by other sessions are arguments, one for each read.
  Third-party code (the decimal library, the JSON parser of the server, the XDR decoder,
  hashes, \<open>url.Parse\<close>) is an argument, with what the code relies on as a named hypothesis.
  Reachability and the invariant rule are the locale \<open>invariant_system\<close>, interpreted on the
  ledger, the breaker, the job table, the outbox, the vault tables, the indexed chain,
  the idempotency keys and the audit log.

  \<^bold>\<open>Ledger.\<close> \<open>Ledger\<close> has the types and \<open>ValidateBalanced\<close> of \<open>domain/ledger/model.go\<close>;
  \<open>Ledger_Repository\<close> every operation of \<open>repository/postgres/ledger_repository.go\<close>;
  \<open>Ledger_Service\<close> the postings, reads and checks of \<open>service/ledger_service.go\<close> in the
  three transaction modes. \<open>Ledger_Correct\<close> proves that a write keeps the cached balances
  equal to the sums of the entries and the books at zero. \<open>Ledger_Service_Correct\<close> states the
  contract of acquiring accounts (locale \<open>account_provider\<close>, interpreted inside and outside a
  transaction), \<open>Ledger_Postings\<close> the contract of a posting (locale \<open>posting_operation\<close>,
  interpreted on the four postings), and \<open>Ledger_Properties\<close> what follows: which balances
  move and by how much, that nothing else moves, all or nothing, at most once per event, and
  books that verify in every reachable state.

  \<^bold>\<open>Circuit breaker.\<close> \<open>Float64\<close> is the fragment of IEEE arithmetic the service uses, rounding
  to 53 bits, exact on rationals; normalising takes at most 120 doublings or 12 steps down
  for the quotients of \<open>int64\<close> values that occur, and a lemma states that this is enough.
  \<open>Breaker\<close> models \<open>breaker/breaker.go\<close> with its panics, \<open>Breaker_Window\<close> proves that the ring
  of ten buckets is a rolling window of the recorded outcomes, \<open>Breaker_Properties\<close> the
  refinement and the single probe, \<open>Breaker_Transport\<close> the router and the HTTP transport of
  \<open>breaker/transport.go\<close>.

  \<^bold>\<open>Job queue.\<close> \<open>Job_Queue\<close> models \<open>domain/jobqueue\<close> (types, backoff, client) and
  \<open>repository/postgres/job_repository.go\<close> over the table of migration 059; \<open>Job_Worker\<close> one poll,
  one heartbeat and the disposal of one job. \<open>Job_Properties\<close> has the invariant of the table,
  leases that exclude until someone reschedules the job, idempotent enqueueing, the order of dequeueing (locale \<open>dequeue_port\<close>
  for the worker's view of it), and the bounds of the backoff with its float64 overflow.

  \<^bold>\<open>Outbox.\<close> \<open>Outbox\<close> models \<open>domain/outbox/model.go\<close> and
  \<open>repository/postgres/outbox_repository.go\<close>, \<open>Outbox_Relay\<close> the relay and the retention sweep.
  \<open>Outbox_Order\<close> and \<open>Outbox_Properties\<close> show that events of an aggregate are attempted in
  order under any interleaving of statements, late commits excepted, that delivery is recorded only after the job
  succeeded, and, through the locale \<open>handoff_port\<close> interpreted on the job queue's client,
  that handing an event over twice joins the live job.

  \<^bold>\<open>Chain submissions.\<close> \<open>Submission\<close> models the intent records, \<open>DetermineOutcome\<close>, the store,
  the reconciler and the chokepoint \<open>send\<close> of \<open>stellar\<close>; \<open>Submission_Properties\<close> that a sweep
  calls no transaction dead that is included from the recorded submission time on, that one reference is sent at most
  once, and that settled submissions stay settled.

  \<^bold>\<open>Signing boundary.\<close> \<open>Signing\<close> models intents, policy, replay guard and kill switch,
  \<open>Signer\<close> the pipeline, its audit events and both ends of the wire with their limits on bodies; \<open>Signing_Properties\<close> what the backend
  is asked to sign, that no intent is signed twice, what weights are accepted, and that the
  decision reaches the client where JSON reads back what it wrote.

  \<^bold>\<open>Vaults.\<close> \<open>Money\<close> has the operations and documented laws of the decimal library and the
  rounding of NUMERIC columns; \<open>Caps\<close> models \<open>domain/caps/model.go\<close>; \<open>Balance_Audit\<close> models
  \<open>domain/balanceaudit/model.go\<close> and its repository. \<open>Vault_Repository\<close> models the operations of
  \<open>repository/postgres/vault_repository.go\<close> that change a vault, each one serial transaction of
  its statements, and \<open>Vault_Ledger\<close> the ledger statements that repository has of its own, which
  it proves equivalent to the postings of \<open>Ledger_Service\<close>. \<open>Vault_Correct\<close> has the invariant
  that the audit entries of a vault chain up to its balance; \<open>Vault_Properties\<close> shows that
  \<open>Reconcile\<close> accepts the trail of every reachable state, that a transaction hash moves money
  once whichever operation brings it, that the launch caps hold, and that vault and ledger
  move together, up to the rounding to stroops.

  \<^bold>\<open>Chain indexer.\<close> \<open>Indexer\<close> models the decoding of events and every handler of
  \<open>stellar/indexer.go\<close>, \<open>stroops.go\<close> and \<open>balance_ownership.go\<close> over the tables they write;
  \<open>Poller\<close> the poller, its cursor, the fetcher, the deposit observer and the one-shot sync;
  \<open>Backfill\<close> the runs of \<open>stellar/backfill.go\<close> and their table. Ledgers are \<open>uint64\<close>, written as
  \<^typ>\<open>int\<close>; the RPC is an argument that may answer anything, and where a property needs it to
  return the events from the ledger asked for, in pages, this is a hypothesis
  (\<open>rpc_pages\<close>). The loops of a run depend on the RPC for progress and are partial
  functions whose return is proved. \<open>Indexer_Correct\<close> describes the effect of one event,
  \<open>Indexer_Properties\<close> shows that the tables are the fold of the recorded events, each applied
  once, that the poller's cursor passes no event it owes that is not recorded, that the API and
  the indexer share one claim per transaction hash, and what a failed poll leaves;
  \<open>Indexer_Examples\<close> instantiates them, \<open>Backfill_Properties\<close> shows that runs return and stay
  in their range.

  \<^bold>\<open>Requests.\<close> \<open>Idempotency\<close> models \<open>middleware/idempotency.go\<close>, the route patterns of
  \<open>middleware/ratelimit_routes.go\<close> and \<open>repository/postgres/idempotency_repository.go\<close>. The
  handler is an argument that writes or panics; the wait for a concurrent request depends on
  the clock and is a partial function. \<open>Idempotency_Properties\<close> interleaves any number of
  requests statement by statement and shows that a handler runs once per claim, that a replay
  is the answer first given, and that the wait ends.

  \<^bold>\<open>Audit log.\<close> \<open>Audit_Log\<close> models \<open>audit/audit.go\<close>, the session events of
  \<open>repository/postgres/audit_log_repository.go\<close> and a pass of
  \<open>scheduler/audit_chain_verifier.go\<close>. \<open>Audit_Log_Properties\<close> shows that the written chain
  verifies in every reachable state and that a verified chain is determined by its last hash.
  \<open>Go_Format\<close> is the printing of integers the keys and hashes rely on.

  \<^bold>\<open>Reconciliation.\<close> \<open>Vault_Queries\<close> has the reads of the vault repository that are swept.
  \<open>Reconciliation\<close> models the comparators, the classification and the audit tables of
  \<open>reconciliation\<close>, \<open>Reconciliation_Engine\<close> a pass, the repository decorators, the correction of
  stuck transactions and a tick of the runner. The sweep asks for pages until the lister says
  it is done and is a partial function. \<open>Reconciliation_Properties\<close> states the paging contract
  as the locale \<open>vault_pages\<close>, interpreted on the vault repository, and shows that the sweep
  returns and covers every active vault where no two were created at one instant, that a completed run has all its findings recorded,
  and when a tick counts as a success; \<open>Reconciliation_Examples\<close> instantiates them.

  \<^bold>\<open>Harvests.\<close> \<open>Harvest\<close> models the gates, the tick, the trigger, previews, status and the job
  handler of \<open>harvest\<close> over the vault and job tables; \<open>Harvest_Properties\<close> shows what is
  submitted and that the preview agrees with the engine.

  \<^bold>\<open>RPC calls.\<close> \<open>Retry\<close> models the loop of \<open>retry/retry.go\<close> and its one user,
  \<open>stellar/rpcclient.go\<close>; \<open>Retry_Properties\<close> shows that a write is sent at most once, which
  attempt decides a call, and the bounds of the backoff.

  \<^bold>\<open>Findings.\<close> Where the code does not do what it means to, a theorem shows it on a concrete
  input: \<open>PostDeposit_overflow_accepted\<close>, \<open>valid_window_panics\<close>, \<open>nan_ratio_never_trips\<close>,
  \<open>stale_worker_completes\<close>, \<open>first_attempt_never_observed\<close>, \<open>same_transaction_order_is_by_id\<close>,
  \<open>late_submission_time_buries\<close>, \<open>huge_time_bound_wraps\<close>, \<open>replay_at_the_edge\<close>,
  \<open>void_flag_accepted\<close>, \<open>commitment_collision\<close>, \<open>rebalance_with_hash_fails\<close>, \<open>confirmation_without_user_fails\<close>,
  \<open>zero_net_harvest_fails\<close>, \<open>payout_harvest_diverges\<close>,
  \<open>sync_loses_failed_event\<close>, \<open>second_deposit_of_a_transaction_is_dropped\<close>,
  \<open>harvest_event_ignores_the_claim\<close>, \<open>indexed_movement_breaks_the_trail\<close>,
  \<open>full_ledger_stalls_the_indexer\<close>, \<open>backfill_skips_the_rest_of_a_page\<close>,
  \<open>rebuild_scan_misses_a_deposit\<close>, \<open>rebuild_forgets_other_contracts\<close>,
  \<open>retry_after_disconnect_runs_again\<close>, \<open>truncated_chain_verifies\<close>,
  \<open>redacted_flag_hides_the_detail\<close>, \<open>newline_moves_a_field\<close>,
  \<open>session_event_blocks_the_log\<close>, \<open>batch_never_moves_on\<close>,
  \<open>indexed_deposits_read_as_divergence\<close>, \<open>window_submits_again\<close>,
  \<open>missing_wallet_is_retried\<close>, \<open>wrong_shape_is_retried\<close>,
  \<open>stale_retry_frees_the_job\<close>, \<open>late_commit_is_attempted_late\<close>,
  \<open>sub_stroop_deposit_diverges\<close>, \<open>untyped_page_is_skipped\<close>,
  \<open>pages_may_repeat_a_vault\<close>.

  \<^bold>\<open>Not modelled.\<close> Handlers, middleware and configuration (JSON, HTTP and environment around
  the services); select loops, tickers and logging around the modelled steps; building,
  simulating and signing XDR envelopes and decoding contract values, which are work on a
  third-party encoding; notifications, webhooks and websockets; savings goals, projections,
  yield statistics and analytics, which do not move money; the Soroban contracts and the web
  applications, which are other programs.
\<close>

end
